(* ===== verification/Prelude.thy ===== *)
theory Prelude
  imports Main "HOL-Library.Word" "HOL-Library.Signed_Division"
    "HOL-Library.List_Lexorder" "HOL-Library.Char_ord"
begin

text \<open>
  The vocabulary every component shares: results of fallible Go functions, Go's \<open>int64\<close>,
  instants and durations of package \<open>time\<close>, the decimal routines of \<open>strconv\<close> and
  \<open>fmt\<close>, the character classes of the regular expressions, and the collections of rewrite
  rules the component proofs use.

  \<^item> A Go function with an \<open>error\<close> result returns a sum: \<open>Inl\<close> the error, \<open>Inr\<close> the value.
    \<open>res_bind\<close> is the \<open>if err != nil { return err }\<close> that follows such a call.
  \<^item> \<open>int64\<close> is a 64-bit word: \<open>+\<close> and unary minus wrap, \<open>sint\<close> reads it in two's complement.
  \<^item> A \<open>time.Time\<close> is its instant, in nanoseconds after Go's zero instant, so \<open>IsZero\<close> is
    equality with 0. Locations are dropped, hence \<open>UTC()\<close> is the identity. A \<open>time.Duration\<close> is
    an integer number of nanoseconds; no duration of the program comes near the \<open>int64\<close> bound.
\<close>

named_theorems go_simps \<open>characteristic equations of the Go runtime functions\<close>
named_theorems res_simps \<open>inversion of results\<close>


section \<open>Results\<close>

definition res_bind :: "'e + 'a \<Rightarrow> ('a \<Rightarrow> 'e + 'b) \<Rightarrow> 'e + 'b" where
  "res_bind m f = (case m of Inl e \<Rightarrow> Inl e | Inr x \<Rightarrow> f x)"

lemma res_bind_simps [simp]:
  "res_bind (Inl e) f = Inl e"
  "res_bind (Inr x) f = f x"
  by (simp_all add: res_bind_def)

lemma res_bind_Inr_iff [res_simps]:
  "res_bind m f = Inr y \<longleftrightarrow> (\<exists>x. m = Inr x \<and> f x = Inr y)"
  by (cases m) simp_all

lemma res_bind_Inl_iff [res_simps]:
  "res_bind m f = Inl e \<longleftrightarrow> m = Inl e \<or> (\<exists>x. m = Inr x \<and> f x = Inl e)"
  by (cases m) auto

definition map_err :: "('e \<Rightarrow> 'f) \<Rightarrow> 'e + 'a \<Rightarrow> 'f + 'a" where
  "map_err h m = (case m of Inl e \<Rightarrow> Inl (h e) | Inr x \<Rightarrow> Inr x)"

lemma map_err_simps [simp]:
  "map_err h (Inl e) = Inl (h e)"
  "map_err h (Inr x) = Inr x"
  by (simp_all add: map_err_def)

lemma map_err_Inr_iff [res_simps]: "map_err h m = Inr x \<longleftrightarrow> m = Inr x"
  by (cases m) simp_all

lemma map_err_Inl_iff [res_simps]: "map_err h m = Inl f \<longleftrightarrow> (\<exists>e. m = Inl e \<and> f = h e)"
  by (cases m) auto

definition is_ok :: "'e + 'a \<Rightarrow> bool" where
  "is_ok m = (case m of Inl _ \<Rightarrow> False | Inr _ \<Rightarrow> True)"

lemma is_ok_simps [simp]: "is_ok (Inl e) = False" "is_ok (Inr x) = True"
  by (simp_all add: is_ok_def)

lemma is_ok_iff: "is_ok m \<longleftrightarrow> (\<exists>x. m = Inr x)"
  by (cases m) simp_all


section \<open>Go's int64\<close>

type_synonym int64 = "64 word"

definition MaxInt64 :: int64 where "MaxInt64 = 9223372036854775807"
definition MinInt64 :: int64 where "MinInt64 = 9223372036854775808"

definition int64_range :: "int \<Rightarrow> bool" where
  "int64_range i \<longleftrightarrow> - 9223372036854775808 \<le> i \<and> i \<le> 9223372036854775807"

text \<open>Comparisons of \<open>int64\<close> values are signed; division truncates towards zero.\<close>

definition i64_less :: "int64 \<Rightarrow> int64 \<Rightarrow> bool" where
  "i64_less a b \<longleftrightarrow> sint a < sint b"

definition i64_div :: "int64 \<Rightarrow> int64 \<Rightarrow> int64" where
  "i64_div a b = word_of_int (sint a sdiv sint b)"

lemma sint_MaxInt64 [simp]: "sint MaxInt64 = 9223372036854775807"
  by (simp add: MaxInt64_def)

lemma sint_MinInt64 [simp]: "sint MinInt64 = - 9223372036854775808"
  by (simp add: MinInt64_def)

lemma int64_range_sint [simp]: "int64_range (sint (a :: int64))"
  using sint_ge [of a] sint_lt [of a] by (simp add: int64_range_def)

lemma sint_int64_bounds:
  "- 9223372036854775808 \<le> sint (a :: int64)" "sint (a :: int64) \<le> 9223372036854775807"
  using int64_range_sint [of a] by (simp_all only: int64_range_def)

lemma sint_of_int64: "int64_range i \<Longrightarrow> sint (word_of_int i :: int64) = i"
  by (simp add: int64_range_def sint_sbintrunc' signed_take_bit_int_eq_self)

lemma sint_inject_int64: "sint (a :: int64) = sint b \<longleftrightarrow> a = b"
  by (auto intro: signed_word_eqI)

lemma sint_add_int64:
  "int64_range (sint (a :: int64) + sint b) \<Longrightarrow> sint (a + b) = sint a + sint b"
  using sint_of_int64 [of "sint a + sint b"] by (simp flip: wi_hom_add)

lemma sint_minus_int64:
  "a \<noteq> MinInt64 \<Longrightarrow> sint (- a :: int64) = - sint a"
proof -
  assume a: "a \<noteq> MinInt64"
  then have "sint a \<noteq> sint MinInt64" by (simp add: sint_inject_int64 del: sint_MinInt64)
  then have "int64_range (- sint a)"
    using sint_int64_bounds [of a] by (simp add: int64_range_def)
  from sint_of_int64 [OF this] show ?thesis by (simp flip: wi_hom_neg)
qed

lemma i64_div_nonneg:
  "0 \<le> sint a \<Longrightarrow> 0 < sint b \<Longrightarrow> sint (i64_div a b) = sint a div sint b"
proof -
  assume ab: "0 \<le> sint a" "0 < sint b"
  then have q: "sint a sdiv sint b = sint a div sint b"
    by (simp add: signed_divide_int_def sgn_if)
  have "0 \<le> sint a div sint b" "sint a div sint b \<le> sint a"
    using ab zdiv_mono2 [of "sint a" 1 "sint b"] by (simp_all add: pos_imp_zdiv_nonneg_iff)
  then have "int64_range (sint a div sint b)"
    using sint_int64_bounds [of a] by (simp add: int64_range_def)
  then show ?thesis by (simp add: i64_div_def q sint_of_int64)
qed


section \<open>Instants and durations\<close>

type_synonym time = int
type_synonym duration = int

definition time_zero :: time where "time_zero = 0"

definition time_IsZero :: "time \<Rightarrow> bool" where "time_IsZero t \<longleftrightarrow> t = time_zero"
definition time_Before :: "time \<Rightarrow> time \<Rightarrow> bool" where "time_Before t u \<longleftrightarrow> t < u"
definition time_After :: "time \<Rightarrow> time \<Rightarrow> bool" where "time_After t u \<longleftrightarrow> u < t"
definition time_UTC :: "time \<Rightarrow> time" where "time_UTC t = t"
definition time_Add :: "time \<Rightarrow> duration \<Rightarrow> time" where "time_Add t d = t + d"

lemmas time_defs = time_zero_def time_IsZero_def time_Before_def time_After_def
  time_UTC_def time_Add_def

lemma time_UTC_id [simp]: "time_UTC t = t"
  by (simp add: time_UTC_def)

definition Second :: duration where "Second = 1000000000"
definition Minute :: duration where "Minute = 60 * Second"
definition Hour :: duration where "Hour = 60 * Minute"

lemmas duration_defs = Second_def Minute_def Hour_def


section \<open>Bytes and decimal strings\<close>

text \<open>A Go string is a sequence of bytes; \<open>string\<close> is a list of \<open>char\<close>, which are bytes.\<close>

definition byte_of :: "char \<Rightarrow> nat" where "byte_of c = of_char c"

definition is_digit :: "char \<Rightarrow> bool" where "is_digit c \<longleftrightarrow> 48 \<le> byte_of c \<and> byte_of c \<le> 57"
definition is_lower :: "char \<Rightarrow> bool" where "is_lower c \<longleftrightarrow> 97 \<le> byte_of c \<and> byte_of c \<le> 122"
definition is_upper :: "char \<Rightarrow> bool" where "is_upper c \<longleftrightarrow> 65 \<le> byte_of c \<and> byte_of c \<le> 90"

lemmas char_class_defs = is_digit_def is_lower_def is_upper_def byte_of_def

definition digit_val :: "char \<Rightarrow> nat" where "digit_val c = byte_of c - 48"
definition digit_char :: "nat \<Rightarrow> char" where "digit_char d = char_of (48 + d)"

text \<open>The value of a string of digits, most significant first.\<close>

definition dec_value :: "string \<Rightarrow> nat" where
  "dec_value s = foldl (\<lambda>n c. 10 * n + digit_val c) 0 s"

text \<open>\<open>strconv.FormatUint(n, 10)\<close>.\<close>

fun format_nat :: "nat \<Rightarrow> string" where
  "format_nat n = (if n < 10 then [digit_char n]
                   else format_nat (n div 10) @ [digit_char (n mod 10)])"

declare format_nat.simps [simp del]

text \<open>\<open>fmt.Sprintf("%02d", n)\<close> for a value below 100.\<close>

definition format_02d :: "nat \<Rightarrow> string" where
  "format_02d n = [digit_char (n div 10), digit_char (n mod 10)]"

text \<open>\<open>strconv.ParseInt(s, 10, 64)\<close> on a non-empty string of digits: out of range is an error.\<close>

definition parse_int64 :: "string \<Rightarrow> int64 option" where
  "parse_int64 s = (if dec_value s \<le> 9223372036854775807
                    then Some (word_of_nat (dec_value s)) else None)"

text \<open>The shape of a canonical decimal numeral: \<open>0|[1-9][0-9]*\<close>.\<close>

definition canonical_nat :: "string \<Rightarrow> bool" where
  "canonical_nat s \<longleftrightarrow>
     (case s of [] \<Rightarrow> False
      | c # cs \<Rightarrow> (c = CHR ''0'' \<and> cs = []) \<or> (is_digit c \<and> c \<noteq> CHR ''0'' \<and> list_all is_digit cs))"

text \<open>
  Printing and reading are inverse: every number prints as a canonical numeral, and every
  canonical numeral is the print of its value.
\<close>

lemma byte_of_digit_char: "d < 10 \<Longrightarrow> byte_of (digit_char d) = 48 + d"
  by (simp add: byte_of_def digit_char_def of_char_of)

lemma digit_val_char [simp]: "d < 10 \<Longrightarrow> digit_val (digit_char d) = d"
  by (simp add: digit_val_def byte_of_digit_char)

lemma is_digit_char [simp]: "d < 10 \<Longrightarrow> is_digit (digit_char d)"
  by (simp add: is_digit_def byte_of_digit_char)

lemma digit_char_val [simp]: "is_digit c \<Longrightarrow> digit_char (digit_val c) = c"
  by (simp add: is_digit_def byte_of_def digit_val_def digit_char_def)

lemma digit_val_lt [simp]: "is_digit c \<Longrightarrow> digit_val c < 10"
  unfolding is_digit_def digit_val_def by linarith

lemma digit_char_0 [simp]: "digit_char 0 = CHR ''0''"
  using char_of_char [of "CHR ''0''"] by (simp add: digit_char_def)

lemma digit_val_0_iff: "is_digit c \<Longrightarrow> digit_val c = 0 \<longleftrightarrow> c = CHR ''0''"
  using digit_char_val [of c] by (auto simp: digit_val_def byte_of_def)

lemma dec_value_snoc: "dec_value (s @ [c]) = 10 * dec_value s + digit_val c"
  by (simp add: dec_value_def)

lemma dec_value_single [simp]: "dec_value [c] = digit_val c"
  by (simp add: dec_value_def)

lemma dec_value_Nil [simp]: "dec_value [] = 0"
  by (simp add: dec_value_def)

lemma dec_value_format [simp]: "dec_value (format_nat n) = n"
proof (induction n rule: format_nat.induct)
  case (1 n)
  then show ?case
    by (cases "n < 10") (simp_all add: format_nat.simps [of n] dec_value_snoc)
qed

lemma format_nat_digits: "list_all is_digit (format_nat n)"
proof (induction n rule: format_nat.induct)
  case (1 n)
  then show ?case by (cases "n < 10") (simp_all add: format_nat.simps [of n])
qed

lemma canonical_nat_snoc:
  "canonical_nat s \<Longrightarrow> s \<noteq> ''0'' \<Longrightarrow> is_digit c \<Longrightarrow> canonical_nat (s @ [c])"
  by (auto simp: canonical_nat_def split: list.splits)

lemma format_nat_eq_0: "format_nat n = ''0'' \<longleftrightarrow> n = 0"
proof
  assume "format_nat n = ''0''"
  then have "n = dec_value ''0''" by (metis dec_value_format)
  then show "n = 0" by (simp add: digit_val_def byte_of_def)
qed (simp add: format_nat.simps [of 0])

lemma canonical_format: "canonical_nat (format_nat n)"
proof (induction n rule: format_nat.induct)
  case (1 n)
  show ?case
  proof (cases "n < 10")
    case True
    then show ?thesis
      by (simp add: format_nat.simps [of n] canonical_nat_def)
  next
    case False
    then have "format_nat (n div 10) \<noteq> ''0''" by (simp add: format_nat_eq_0)
    with "1" False show ?thesis
      by (simp add: format_nat.simps [of n] canonical_nat_snoc)
  qed
qed

lemma canonical_nat_digits: "canonical_nat s \<Longrightarrow> list_all is_digit s \<and> s \<noteq> []"
  by (auto simp: canonical_nat_def is_digit_def byte_of_def split: list.splits)

lemma canonical_nat_butlast:
  "canonical_nat (s @ [c]) \<Longrightarrow> s \<noteq> [] \<Longrightarrow> canonical_nat s \<and> s \<noteq> ''0'' \<and> is_digit c"
  by (cases s) (auto simp: canonical_nat_def)

lemma dec_value_pos: "canonical_nat s \<Longrightarrow> s \<noteq> ''0'' \<Longrightarrow> 0 < dec_value s"
proof (induction s rule: rev_induct)
  case Nil
  then show ?case by (simp add: canonical_nat_def)
next
  case (snoc c s)
  show ?case
  proof (cases "s = []")
    case True
    with snoc.prems show ?thesis
      by (auto simp: canonical_nat_def digit_val_0_iff [symmetric] intro: gr0I)
  next
    case False
    with snoc show ?thesis
      using canonical_nat_butlast by (fastforce simp: dec_value_snoc)
  qed
qed

lemma format_dec_value [simp]: "canonical_nat s \<Longrightarrow> format_nat (dec_value s) = s"
proof (induction s rule: rev_induct)
  case Nil
  then show ?case by (simp add: canonical_nat_def)
next
  case (snoc c s)
  show ?case
  proof (cases "s = []")
    case True
    with canonical_nat_digits [OF snoc.prems] show ?thesis
      by (simp add: format_nat.simps)
  next
    case False
    with canonical_nat_butlast [OF snoc.prems]
    have s: "canonical_nat s" "s \<noteq> ''0''" "is_digit c" by auto
    then have "0 < dec_value s" by (simp add: dec_value_pos)
    with s snoc.IH show ?thesis
      by (simp add: dec_value_snoc format_nat.simps [of "10 * dec_value s + digit_val c"])
  qed
qed

lemma digit_char_numerals [simp]:
  "digit_char 1 = CHR ''1''" "digit_char (Suc 0) = CHR ''1''" "digit_char 2 = CHR ''2''" "digit_char 3 = CHR ''3''"
  "digit_char 4 = CHR ''4''" "digit_char 5 = CHR ''5''" "digit_char 6 = CHR ''6''"
  "digit_char 7 = CHR ''7''" "digit_char 8 = CHR ''8''" "digit_char 9 = CHR ''9''"
  using char_of_char [of "CHR ''1''"] char_of_char [of "CHR ''2''"] char_of_char [of "CHR ''3''"]
    char_of_char [of "CHR ''4''"] char_of_char [of "CHR ''5''"] char_of_char [of "CHR ''6''"]
    char_of_char [of "CHR ''7''"] char_of_char [of "CHR ''8''"] char_of_char [of "CHR ''9''"]
  by (simp_all add: digit_char_def)

end
