(* ===== verification/Money.thy ===== *)
theory Money
  imports Prelude
begin

text \<open>
  \<open>internal/domain/money/money.go\<close>: the immutable monetary value. An amount is an \<open>int64\<close>
  number of minor units and a currency code; the zero value (no currency) is invalid by design.
  The theory holds the parser of the external format, the printer, the checked arithmetic and the
  comparisons, and shows that parsing and printing are inverse on canonical strings, that addition,
  subtraction and negation either return the exact mathematical result or report the overflow, and
  that comparison is the order of the amounts.
\<close>

section \<open>The value and its errors\<close>

record money =
  minorUnits :: int64
  currency :: string

datatype money_error =
    MErrInvalidInput
  | MErrOverflow
  | MErrCurrencyMismatch
  | MErrUninitialized

text \<open>\<open>Money{}\<close>, the zero value.\<close>

definition money_nil :: money where
  "money_nil = \<lparr>minorUnits = 0, currency = ''''\<rparr>"

definition MaxMinorUnits :: int64 where "MaxMinorUnits = MaxInt64"
definition MinMinorUnits :: int64 where "MinMinorUnits = MinInt64"

section \<open>Formats\<close>

text \<open>\<open>^[A-Z]{3}$\<close>\<close>

definition currencyPattern :: "string \<Rightarrow> bool" where
  "currencyPattern s \<longleftrightarrow> length s = 3 \<and> list_all is_upper s"

text \<open>\<open>^(0|[1-9][0-9]*)\.[0-9]{2}$\<close>\<close>

definition amountPattern :: "string \<Rightarrow> bool" where
  "amountPattern s \<longleftrightarrow>
     4 \<le> length s \<and> canonical_nat (take (length s - 3) s)
     \<and> s ! (length s - 3) = CHR ''.''
     \<and> is_digit (s ! (length s - 2)) \<and> is_digit (s ! (length s - 1))"

section \<open>Constructors\<close>

definition Parse :: "string \<Rightarrow> string \<Rightarrow> money_error + money" where
  "Parse amount cur =
     (if \<not> currencyPattern cur then Inl MErrInvalidInput
      else if \<not> amountPattern amount then Inl MErrInvalidInput
      else
        let intPart = take (length amount - 3) amount;
            fraction = word_of_nat (digit_val (amount ! (length amount - 2))) * 10
                     + word_of_nat (digit_val (amount ! (length amount - 1)))
        in case parse_int64 intPart of
             None \<Rightarrow> Inl MErrOverflow
           | Some parsed \<Rightarrow>
               if i64_less (i64_div (MaxInt64 - fraction) 100) parsed then Inl MErrOverflow
               else Inr \<lparr>minorUnits = parsed * 100 + fraction, currency = cur\<rparr>)"

definition Zero :: "string \<Rightarrow> money_error + money" where
  "Zero cur =
     (if \<not> currencyPattern cur then Inl MErrInvalidInput
      else Inr \<lparr>minorUnits = 0, currency = cur\<rparr>)"

definition FromMinorUnits :: "int64 \<Rightarrow> string \<Rightarrow> money_error + money" where
  "FromMinorUnits units cur =
     (if \<not> currencyPattern cur then Inl MErrInvalidInput
      else Inr \<lparr>minorUnits = units, currency = cur\<rparr>)"

section \<open>Observers\<close>

definition IsInitialized :: "money \<Rightarrow> bool" where "IsInitialized m \<longleftrightarrow> currency m \<noteq> ''''"
definition IsZero :: "money \<Rightarrow> bool" where "IsZero m \<longleftrightarrow> minorUnits m = 0"
definition IsNegative :: "money \<Rightarrow> bool" where "IsNegative m \<longleftrightarrow> i64_less (minorUnits m) 0"
definition IsPositive :: "money \<Rightarrow> bool" where "IsPositive m \<longleftrightarrow> i64_less 0 (minorUnits m)"

definition money_checkInitialized :: "money \<Rightarrow> money_error + unit" where
  "money_checkInitialized m = (if \<not> IsInitialized m then Inl MErrUninitialized else Inr ())"

definition checkCompatible :: "money \<Rightarrow> money \<Rightarrow> money_error + unit" where
  "checkCompatible m other =
     res_bind (money_checkInitialized m) (\<lambda>_.
     res_bind (money_checkInitialized other) (\<lambda>_.
     if currency m \<noteq> currency other then Inl MErrCurrencyMismatch else Inr ()))"

section \<open>Arithmetic and comparison\<close>

definition Add :: "money \<Rightarrow> money \<Rightarrow> money_error + money" where
  "Add m other =
     res_bind (checkCompatible m other) (\<lambda>_.
     let s = minorUnits m + minorUnits other
     in if (i64_less 0 (minorUnits other) \<and> i64_less s (minorUnits m))
           \<or> (i64_less (minorUnits other) 0 \<and> i64_less (minorUnits m) s)
        then Inl MErrOverflow
        else Inr \<lparr>minorUnits = s, currency = currency m\<rparr>)"

definition Neg :: "money \<Rightarrow> money_error + money" where
  "Neg m =
     res_bind (money_checkInitialized m) (\<lambda>_.
     if minorUnits m = MinInt64 then Inl MErrOverflow
     else Inr \<lparr>minorUnits = - minorUnits m, currency = currency m\<rparr>)"

definition Sub :: "money \<Rightarrow> money \<Rightarrow> money_error + money" where
  "Sub m other = res_bind (Neg other) (\<lambda>negated. Add m negated)"

definition Cmp :: "money \<Rightarrow> money \<Rightarrow> money_error + int" where
  "Cmp m other =
     res_bind (checkCompatible m other) (\<lambda>_.
     if i64_less (minorUnits m) (minorUnits other) then Inr (- 1)
     else if i64_less (minorUnits other) (minorUnits m) then Inr 1
     else Inr 0)"

definition Equal :: "money \<Rightarrow> money \<Rightarrow> money_error + bool" where
  "Equal m other = res_bind (Cmp m other) (\<lambda>c. Inr (c = 0))"

definition LessThan :: "money \<Rightarrow> money \<Rightarrow> money_error + bool" where
  "LessThan m other = res_bind (Cmp m other) (\<lambda>c. Inr (c < 0))"

definition GreaterThan :: "money \<Rightarrow> money \<Rightarrow> money_error + bool" where
  "GreaterThan m other = res_bind (Cmp m other) (\<lambda>c. Inr (0 < c))"

section \<open>Rendering\<close>

text \<open>
  \<open>String()\<close>: the amount as \<open>uint64\<close>, negated there when it is negative, so the smallest
  \<open>int64\<close> prints correctly although it has no positive counterpart.
\<close>

definition money_String :: "money \<Rightarrow> string" where
  "money_String m =
     (if \<not> is_ok (money_checkInitialized m) then ''''
      else
        let neg = i64_less (minorUnits m) 0;
            units = (if neg then - minorUnits m else minorUnits m)
        in (if neg then ''-'' else '''')
           @ format_nat (unat units div 100) @ ''.'' @ format_02d (unat units mod 100))"

definition MaxMinorUnitsString :: string where
  "MaxMinorUnitsString = money_String \<lparr>minorUnits = MaxInt64, currency = ''XXX''\<rparr>"

text \<open>
  \<open>MarshalJSON\<close> hands \<open>encoding/json\<close> the pair of its two members; \<open>UnmarshalJSON\<close> parses the
  pair the decoder produced (a decoder failure, \<open>None\<close>, is invalid input).
\<close>

definition MarshalJSON :: "money \<Rightarrow> money_error + (string \<times> string)" where
  "MarshalJSON m = res_bind (money_checkInitialized m) (\<lambda>_. Inr (money_String m, currency m))"

definition UnmarshalJSON :: "(string \<times> string) option \<Rightarrow> money_error + money" where
  "UnmarshalJSON wire =
     (case wire of
        None \<Rightarrow> Inl MErrInvalidInput
      | Some (amount, cur) \<Rightarrow> res_bind (Parse amount cur) (\<lambda>parsed. Inr parsed))"

section \<open>Lemmas\<close>

text \<open>The mathematical amount of a value, in minor units.\<close>

abbreviation amt :: "money \<Rightarrow> int" where "amt m \<equiv> sint (minorUnits m)"

lemma currencyPattern_nonempty: "currencyPattern c \<Longrightarrow> c \<noteq> ''''"
  by (auto simp: currencyPattern_def)

lemma IsInitialized_nil [simp]: "\<not> IsInitialized money_nil"
  by (simp add: IsInitialized_def money_nil_def)

lemma FromMinorUnits_Inr_iff [res_simps]:
  "FromMinorUnits u c = Inr m \<longleftrightarrow> currencyPattern c \<and> m = \<lparr>minorUnits = u, currency = c\<rparr>"
  by (auto simp: FromMinorUnits_def)

lemma Zero_Inr_iff [res_simps]:
  "Zero c = Inr m \<longleftrightarrow> currencyPattern c \<and> m = \<lparr>minorUnits = 0, currency = c\<rparr>"
  by (auto simp: Zero_def)

lemma IsZero_amt: "IsZero m \<longleftrightarrow> amt m = 0"
  by (metis IsZero_def sint_0 sint_inject_int64)

lemma IsNegative_amt: "IsNegative m \<longleftrightarrow> amt m < 0"
  by (simp add: IsNegative_def i64_less_def)

lemma IsPositive_amt: "IsPositive m \<longleftrightarrow> 0 < amt m"
  by (simp add: IsPositive_def i64_less_def)

lemmas amt_simps = IsZero_amt IsNegative_amt IsPositive_amt

lemma money_checkInitialized_simps [simp]:
  "money_checkInitialized m = Inr u \<longleftrightarrow> IsInitialized m"
  "money_checkInitialized m = Inl e \<longleftrightarrow> \<not> IsInitialized m \<and> e = MErrUninitialized"
  by (auto simp: money_checkInitialized_def)

lemma checkCompatible_eq:
  "checkCompatible m other =
     (if \<not> IsInitialized m \<or> \<not> IsInitialized other then Inl MErrUninitialized
      else if currency m \<noteq> currency other then Inl MErrCurrencyMismatch else Inr ())"
  by (simp add: checkCompatible_def money_checkInitialized_def)

lemma sint_add_wrap_high:
  assumes "9223372036854775807 < sint (a :: int64) + sint b"
  shows "sint (a + b) = sint a + sint b - 18446744073709551616"
proof -
  let ?i = "sint a + sint b - 18446744073709551616"
  have "int64_range ?i"
    using assms sint_int64_bounds [of a] sint_int64_bounds [of b] by (simp add: int64_range_def)
  moreover have "(word_of_int ?i :: int64) = a + b"
    by (simp add: wi_hom_syms [symmetric])
  ultimately show ?thesis using sint_of_int64 [of ?i] by metis
qed

lemma sint_add_wrap_low:
  assumes "sint (a :: int64) + sint b < - 9223372036854775808"
  shows "sint (a + b) = sint a + sint b + 18446744073709551616"
proof -
  let ?i = "sint a + sint b + 18446744073709551616"
  have "int64_range ?i"
    using assms sint_int64_bounds [of a] sint_int64_bounds [of b] by (simp add: int64_range_def)
  moreover have "(word_of_int ?i :: int64) = a + b"
    by (simp add: wi_hom_syms [symmetric])
  ultimately show ?thesis using sint_of_int64 [of ?i] by metis
qed

text \<open>The wrap-around test of \<open>Add\<close> detects exactly the sums outside \<open>int64\<close>.\<close>

lemma add_overflow_test:
  "((i64_less 0 b \<and> i64_less (a + b) a) \<or> (i64_less b 0 \<and> i64_less a (a + b)))
     \<longleftrightarrow> \<not> int64_range (sint a + sint b)"
proof (cases "int64_range (sint a + sint b)")
  case True
  then show ?thesis by (auto simp: i64_less_def sint_add_int64)
next
  case False
  then consider "9223372036854775807 < sint a + sint b" | "sint a + sint b < - 9223372036854775808"
    by (fastforce simp: int64_range_def)
  then show ?thesis
  proof cases
    case 1
    then show ?thesis
      using False sint_add_wrap_high [OF 1] sint_int64_bounds [of a] sint_int64_bounds [of b]
      by (simp add: i64_less_def)
  next
    case 2
    then show ?thesis
      using False sint_add_wrap_low [OF 2] sint_int64_bounds [of a] sint_int64_bounds [of b]
      by (simp add: i64_less_def)
  qed
qed
lemma word_of_int_amt_add [simp]: "word_of_int (sint a + sint b) = (a + b :: int64)"
  by (simp flip: wi_hom_add)

lemma Add_eq:
  "Add m other =
     (if \<not> IsInitialized m \<or> \<not> IsInitialized other then Inl MErrUninitialized
      else if currency m \<noteq> currency other then Inl MErrCurrencyMismatch
      else if int64_range (amt m + amt other)
      then Inr \<lparr>minorUnits = word_of_int (amt m + amt other), currency = currency m\<rparr>
      else Inl MErrOverflow)"
  by (simp add: Add_def checkCompatible_eq Let_def add_overflow_test)

lemma Neg_eq:
  "Neg m =
     (if \<not> IsInitialized m then Inl MErrUninitialized
      else if amt m = - 9223372036854775808 then Inl MErrOverflow
      else Inr \<lparr>minorUnits = word_of_int (- amt m), currency = currency m\<rparr>)"
proof -
  have "amt m = - 9223372036854775808 \<longleftrightarrow> minorUnits m = MinInt64"
    by (metis sint_MinInt64 sint_inject_int64)
  then show ?thesis
    by (simp add: Neg_def money_checkInitialized_def flip: wi_hom_neg)
qed

lemma Sub_eq:
  "Sub m other =
     (if \<not> IsInitialized other then Inl MErrUninitialized
      else if amt other = - 9223372036854775808 then Inl MErrOverflow
      else if \<not> IsInitialized m then Inl MErrUninitialized
      else if currency m \<noteq> currency other then Inl MErrCurrencyMismatch
      else if int64_range (amt m - amt other)
      then Inr \<lparr>minorUnits = word_of_int (amt m - amt other), currency = currency m\<rparr>
      else Inl MErrOverflow)"
proof -
  have "amt other \<noteq> - 9223372036854775808 \<Longrightarrow> sint (word_of_int (- amt other) :: int64) = - amt other"
    using sint_int64_bounds [of "minorUnits other"] by (intro sint_of_int64) (simp add: int64_range_def)
  then show ?thesis
    by (simp add: Sub_def Neg_eq Add_eq IsInitialized_def)
qed

lemma Cmp_eq:
  "Cmp m other =
     (if \<not> IsInitialized m \<or> \<not> IsInitialized other then Inl MErrUninitialized
      else if currency m \<noteq> currency other then Inl MErrCurrencyMismatch
      else Inr (sgn (amt m - amt other)))"
  by (simp add: Cmp_def checkCompatible_eq i64_less_def)

lemma LessThan_eq:
  "LessThan m other =
     (if \<not> IsInitialized m \<or> \<not> IsInitialized other then Inl MErrUninitialized
      else if currency m \<noteq> currency other then Inl MErrCurrencyMismatch
      else Inr (amt m < amt other))"
  by (simp add: LessThan_def Cmp_eq sgn_if)

lemma GreaterThan_eq:
  "GreaterThan m other =
     (if \<not> IsInitialized m \<or> \<not> IsInitialized other then Inl MErrUninitialized
      else if currency m \<noteq> currency other then Inl MErrCurrencyMismatch
      else Inr (amt other < amt m))"
  by (simp add: GreaterThan_def Cmp_eq sgn_if)

lemma Equal_eq:
  "Equal m other =
     (if \<not> IsInitialized m \<or> \<not> IsInitialized other then Inl MErrUninitialized
      else if currency m \<noteq> currency other then Inl MErrCurrencyMismatch
      else Inr (amt m = amt other))"
  by (simp add: Equal_def Cmp_eq sgn_if)

section \<open>Parsing and printing\<close>

definition amount_value :: "string \<Rightarrow> nat" where
  "amount_value s = dec_value (take (length s - 3) s) * 100
                  + digit_val (s ! (length s - 2)) * 10 + digit_val (s ! (length s - 1))"

definition amount_render :: "nat \<Rightarrow> string" where
  "amount_render n = format_nat (n div 100) @ ''.'' @ format_02d (n mod 100)"

lemma split_last3:
  assumes "3 \<le> length s"
  shows "s = take (length s - 3) s @ [s ! (length s - 3), s ! (length s - 2), s ! (length s - 1)]"
proof -
  let ?n = "length s - 3"
  have n: "?n < length s" "Suc ?n < length s" "Suc (Suc ?n) < length s" using assms by auto
  have "drop ?n s = [s ! ?n, s ! Suc ?n, s ! Suc (Suc ?n)] @ drop (Suc (Suc (Suc ?n))) s"
    using n by (metis Cons_nth_drop_Suc append_Cons append_Nil)
  moreover have "Suc ?n = length s - 2" "Suc (Suc ?n) = length s - 1" using assms by auto
  ultimately show ?thesis
    using append_take_drop_id [of ?n s] assms by simp
qed

lemma amount_render_value [simp]:
  assumes "amountPattern a"
  shows "amount_render (amount_value a) = a"
proof -
  let ?i = "take (length a - 3) a" and ?x = "a ! (length a - 2)" and ?y = "a ! (length a - 1)"
  have p: "canonical_nat ?i" "a ! (length a - 3) = CHR ''.''" "is_digit ?x" "is_digit ?y"
    and len: "3 \<le> length a"
    using assms by (auto simp: amountPattern_def)
  then have d: "digit_val ?x < 10" "digit_val ?y < 10" by simp_all
  let ?f = "digit_val ?x * 10 + digit_val ?y"
  have "?f < 100" using d by linarith
  then have q: "amount_value a div 100 = dec_value ?i" "amount_value a mod 100 = ?f"
    by (simp_all add: amount_value_def add.assoc)
  have "?f div 10 = digit_val ?x" "?f mod 10 = digit_val ?y" using d by simp_all
  then have "amount_render (amount_value a) = ?i @ [CHR ''.'', ?x, ?y]"
    using p by (simp add: amount_render_def q format_02d_def)
  also have "\<dots> = a" using split_last3 [OF len] p by simp
  finally show ?thesis .
qed

lemma amount_render_pattern [simp]: "amountPattern (amount_render n)"
proof -
  have "1 \<le> length (format_nat k)" for k
    using canonical_nat_digits [OF canonical_format [of k]] by (cases "format_nat k") auto
  then have "4 \<le> length (amount_render n)"
    by (simp add: amount_render_def format_02d_def)
  then show ?thesis
    by (simp add: amountPattern_def amount_render_def format_02d_def canonical_format nth_append
        div_less_iff_less_mult)
qed

lemma amount_value_render [simp]: "amount_value (amount_render n) = n"
proof -
  have "n mod 100 div 10 < 10" by (simp add: div_less_iff_less_mult)
  then show ?thesis
    by (simp add: amount_value_def amount_render_def format_02d_def nth_append)
qed

lemma sint_word_of_nat: "n \<le> 9223372036854775807 \<Longrightarrow> sint (word_of_nat n :: int64) = int n"
  using sint_of_int64 [of "int n"] by (simp add: int64_range_def)

lemma Parse_eq:
  "Parse a c =
     (if \<not> currencyPattern c \<or> \<not> amountPattern a then Inl MErrInvalidInput
      else if amount_value a \<le> 9223372036854775807
      then Inr \<lparr>minorUnits = word_of_nat (amount_value a), currency = c\<rparr>
      else Inl MErrOverflow)"
proof (cases "currencyPattern c \<and> amountPattern a")
  case True
  let ?i = "take (length a - 3) a" and ?x = "a ! (length a - 2)" and ?y = "a ! (length a - 1)"
  define f where "f = digit_val ?x * 10 + digit_val ?y"
  let ?w = "word_of_nat (digit_val ?x) * 10 + word_of_nat (digit_val ?y) :: int64"
  have d: "digit_val ?x < 10" "digit_val ?y < 10" using True by (simp_all add: amountPattern_def)
  then have f: "f < 100" unfolding f_def by linarith
  have w: "?w = word_of_nat f" by (simp add: f_def)
  have sub: "sint (MaxInt64 - word_of_nat f) = 9223372036854775807 - int f"
    using sint_of_int64 [of "9223372036854775807 - int f"] f
    by (simp add: MaxInt64_def int64_range_def)
  have q: "sint (i64_div (MaxInt64 - word_of_nat f) 100) = (9223372036854775807 - int f) div 100"
    using f by (subst i64_div_nonneg) (simp_all add: sub)
  have v: "amount_value a = dec_value ?i * 100 + f" by (simp add: amount_value_def f_def)
  show ?thesis
  proof (cases "dec_value ?i \<le> 9223372036854775807")
    case False
    then have "\<not> amount_value a \<le> 9223372036854775807" by (simp add: v)
    with True False show ?thesis by (simp add: Parse_def parse_int64_def Let_def)
  next
    case small: True
    have "(9223372036854775807 - int f) div 100 < int (dec_value ?i)
            \<longleftrightarrow> \<not> amount_value a \<le> 9223372036854775807"
      using f unfolding v by linarith
    moreover have "Parse a c =
       (if i64_less (i64_div (MaxInt64 - ?w) 100) (word_of_nat (dec_value ?i))
        then Inl MErrOverflow
        else Inr \<lparr>minorUnits = word_of_nat (dec_value ?i) * 100 + ?w, currency = c\<rparr>)"
      using True small by (simp add: Parse_def parse_int64_def Let_def)
    note this [unfolded w]
    moreover have "(word_of_nat (dec_value ?i) * 100 + word_of_nat f :: int64)
        = word_of_nat (amount_value a)"
      by (simp add: v)
    ultimately show ?thesis
      using True small by (simp add: i64_less_def q sint_word_of_nat)
  qed
qed (auto simp: Parse_def)

lemma unat_nonneg: "0 \<le> sint (w :: int64) \<Longrightarrow> unat w = nat (sint w)"
  using sint_of_int64 [of "sint w"] sint_int64_bounds [of w]
  by (simp add: uint_sint take_bit_int_eq_self flip: nat_uint_eq)

lemma unat_neg_negative: "sint (w :: int64) < 0 \<Longrightarrow> unat (- w) = nat (- sint w)"
proof -
  assume neg: "sint w < 0"
  have "- w = word_of_int (- sint w)" by (simp flip: wi_hom_neg)
  moreover have "uint (word_of_int (- sint w) :: int64) = - sint w"
    using neg sint_int64_bounds [of w] by (subst uint_word_of_int) simp
  ultimately show ?thesis by (simp flip: nat_uint_eq)
qed

lemma money_String_eq:
  "money_String m = (if \<not> IsInitialized m then ''''
     else if amt m < 0 then ''-'' @ amount_render (nat (- amt m))
     else amount_render (nat (amt m)))"
  by (simp add: money_String_def money_checkInitialized_def Let_def i64_less_def
      amount_render_def unat_nonneg unat_neg_negative)

lemma amount_render_inject: "amount_render k = amount_render n \<longleftrightarrow> k = n"
  by (metis amount_value_render)

lemma amount_render_hd_digit:
  obtains d ds where "amount_render n = d # ds" and "is_digit d"
proof -
  have "canonical_nat (format_nat (n div 100))" by (rule canonical_format)
  from canonical_nat_digits [OF this] show thesis
    using that by (cases "format_nat (n div 100)") (auto simp: amount_render_def)
qed

lemma minus_not_render: "amount_render n \<noteq> CHR ''-'' # s"
  by (rule amount_render_hd_digit [of n]) (auto simp: char_class_defs)

lemma negative_not_amount: "\<not> amountPattern (CHR ''-'' # s)"
  by (metis amount_render_value minus_not_render)

lemma money_eq_of_amt: "amt m = amt n \<Longrightarrow> currency m = currency n \<Longrightarrow> m = (n :: money)"
  by (cases m; cases n) (simp add: sint_inject_int64)

lemma money_String_inject:
  assumes "IsInitialized m" and "IsInitialized n"
  shows "money_String m = money_String n \<longleftrightarrow> amt m = amt n"
  using assms minus_not_render [of "nat (amt m)"] minus_not_render [of "nat (amt n)"]
  by (auto simp: money_String_eq amount_render_inject)
    (metis append_Cons append_Nil)+

lemma Parse_Inr_iff:
  "Parse a c = Inr m \<longleftrightarrow>
     currencyPattern c \<and> currency m = c \<and> 0 \<le> amt m \<and> money_String m = a"
proof
  assume "Parse a c = Inr m"
  then have "currencyPattern c" "amountPattern a" "amount_value a \<le> 9223372036854775807"
    and m: "m = \<lparr>minorUnits = word_of_nat (amount_value a), currency = c\<rparr>"
    by (auto simp: Parse_eq split: if_splits)
  then show "currencyPattern c \<and> currency m = c \<and> 0 \<le> amt m \<and> money_String m = a"
    by (simp add: money_String_eq IsInitialized_def currencyPattern_nonempty sint_word_of_nat)
next
  assume r: "currencyPattern c \<and> currency m = c \<and> 0 \<le> amt m \<and> money_String m = a"
  then have "a = amount_render (nat (amt m))"
    by (auto simp: money_String_eq IsInitialized_def currencyPattern_nonempty)
  moreover have "m = \<lparr>minorUnits = word_of_nat (nat (amt m)), currency = c\<rparr>"
    using r by (intro money_eq_of_amt) simp_all
  ultimately show "Parse a c = Inr m"
    using r sint_int64_bounds (2) [of "minorUnits m"] by (simp add: Parse_eq nat_le_iff)
qed

section \<open>Properties\<close>

text \<open>
  C29: parsing the external format and rendering are inverse: \<open>Parse\<close> returns a value exactly
  when the amount is what that value prints, the currency is a three-letter code and the value is
  not negative. Hence no accepted amount is rounded or altered, and every non-negative amount up
  to the \<open>int64\<close> maximum can be written.
\<close>

theorem parse_iff_rendered:
  "Parse a c = Inr m \<longleftrightarrow>
     currencyPattern c \<and> currency m = c \<and> 0 \<le> amt m \<and> money_String m = a"
  by (rule Parse_Inr_iff)

text \<open>
  C30: addition, subtraction and negation either return the exact integer result in the common
  currency or report why not; the wrap-around test of \<open>Add\<close> detects exactly the sums that do not
  fit in \<open>int64\<close>. Subtraction goes through negation, so it also refuses the one subtrahend that
  has no negative, even where the difference would fit.
\<close>

theorem checked_arithmetic_exact:
  "Add m other =
     (if IsInitialized m \<and> IsInitialized other then
        if currency m \<noteq> currency other then Inl MErrCurrencyMismatch
        else if int64_range (amt m + amt other)
        then Inr \<lparr>minorUnits = word_of_int (amt m + amt other), currency = currency m\<rparr>
        else Inl MErrOverflow
      else Inl MErrUninitialized)
   \<and> Sub m other =
     (if \<not> IsInitialized other then Inl MErrUninitialized
      else if amt other = - 9223372036854775808 then Inl MErrOverflow
      else if \<not> IsInitialized m then Inl MErrUninitialized
      else if currency m \<noteq> currency other then Inl MErrCurrencyMismatch
      else if int64_range (amt m - amt other)
      then Inr \<lparr>minorUnits = word_of_int (amt m - amt other), currency = currency m\<rparr>
      else Inl MErrOverflow)
   \<and> Neg m =
     (if \<not> IsInitialized m then Inl MErrUninitialized
      else if int64_range (- amt m) then Inr \<lparr>minorUnits = word_of_int (- amt m), currency = currency m\<rparr>
      else Inl MErrOverflow)"
proof (intro conjI Sub_eq)
  have "int64_range (- amt m) \<longleftrightarrow> amt m \<noteq> - 9223372036854775808"
    using sint_int64_bounds [of "minorUnits m"] by (auto simp: int64_range_def)
  then show "Neg m =
     (if \<not> IsInitialized m then Inl MErrUninitialized
      else if int64_range (- amt m) then Inr \<lparr>minorUnits = word_of_int (- amt m), currency = currency m\<rparr>
      else Inl MErrOverflow)"
    by (simp add: Neg_eq)
qed (simp add: Add_eq)

text \<open>
  The JSON form of a value reads back as the same value when it is not negative and its
  currency is a valid code; a negative difference renders with a sign, which the parser of
  external amounts refuses.
\<close>

theorem json_roundtrip:
  assumes "MarshalJSON m = Inr wire"
  shows "UnmarshalJSON (Some wire) =
           (if currencyPattern (currency m) \<and> 0 \<le> amt m then Inr m else Inl MErrInvalidInput)"
proof -
  from assms have i: "IsInitialized m" and w: "wire = (money_String m, currency m)"
    by (auto simp: MarshalJSON_def res_simps)
  show ?thesis
  proof (cases "currencyPattern (currency m) \<and> 0 \<le> amt m")
    case True
    then have "Parse (money_String m) (currency m) = Inr m" by (simp add: Parse_Inr_iff)
    with True show ?thesis by (simp add: UnmarshalJSON_def w)
  next
    case False
    then show ?thesis
      using i by (auto simp: UnmarshalJSON_def w Parse_eq money_String_eq negative_not_amount)
  qed
qed

theorem json_roundtrip_witness:
  "MarshalJSON \<lparr>minorUnits = - 750, currency = ''BRL''\<rparr> = Inr (''-7.50'', ''BRL'')
   \<and> UnmarshalJSON (Some (''-7.50'', ''BRL'')) = Inl MErrInvalidInput"
proof -
  have m: "MarshalJSON \<lparr>minorUnits = - 750, currency = ''BRL''\<rparr> = Inr (''-7.50'', ''BRL'')"
    by (simp add: MarshalJSON_def money_checkInitialized_def IsInitialized_def money_String_def
        Let_def i64_less_def format_nat.simps format_02d_def)
  from json_roundtrip [OF this] m show ?thesis by simp
qed

end
