(* ===== verification/FinErrors.thy ===== *)
theory FinErrors
  imports Money
begin

text \<open>
  \<open>internal/domain/financial/errors.go\<close> and the string vocabularies of the financial domain:
  failure codes, ledger directions, transaction origins, kinds and states. In Go these are string
  types with a \<open>Valid\<close> method, and a value outside the documented constants can exist (a kind
  copied from a request, a column read back), so they are strings here too.

  \<open>fin_error\<close> has one constructor per sentinel that \<open>errors.Is\<close> can find: the four of the package,
  the transition error with its two states, and an error of the money package passed through.
  Message texts are not modelled.
\<close>

section \<open>Failure codes\<close>

type_synonym failure_code = string

definition FailureInsufficientFunds :: failure_code where
  "FailureInsufficientFunds = ''INSUFFICIENT_FUNDS''"
definition FailureReversalInsufficientFunds :: failure_code where
  "FailureReversalInsufficientFunds = ''REVERSAL_INSUFFICIENT_FUNDS''"
definition FailureReferenceNotFound :: failure_code where
  "FailureReferenceNotFound = ''REFERENCE_NOT_FOUND''"
definition FailureReferenceNotProcessed :: failure_code where
  "FailureReferenceNotProcessed = ''REFERENCE_NOT_PROCESSED''"
definition FailureReferenceMismatch :: failure_code where
  "FailureReferenceMismatch = ''REFERENCE_MISMATCH''"
definition FailureReversalAmountMismatch :: failure_code where
  "FailureReversalAmountMismatch = ''REVERSAL_AMOUNT_MISMATCH''"
definition FailureReferenceKindNotAllowed :: failure_code where
  "FailureReferenceKindNotAllowed = ''REFERENCE_KIND_NOT_ALLOWED''"
definition FailureInvalidWinReference :: failure_code where
  "FailureInvalidWinReference = ''INVALID_WIN_REFERENCE''"
definition FailureAlreadyReversed :: failure_code where
  "FailureAlreadyReversed = ''ALREADY_REVERSED''"
definition FailurePermanentInfrastructure :: failure_code where
  "FailurePermanentInfrastructure = ''PERMANENT_INFRASTRUCTURE_FAILURE''"

lemmas failure_defs = FailureInsufficientFunds_def FailureReversalInsufficientFunds_def
  FailureReferenceNotFound_def FailureReferenceNotProcessed_def FailureReferenceMismatch_def
  FailureReversalAmountMismatch_def FailureReferenceKindNotAllowed_def
  FailureInvalidWinReference_def FailureAlreadyReversed_def FailurePermanentInfrastructure_def

definition FailureCode_Valid :: "failure_code \<Rightarrow> bool" where
  "FailureCode_Valid c \<longleftrightarrow>
     c \<in> set [FailureInsufficientFunds, FailureReversalInsufficientFunds, FailureReferenceNotFound,
            FailureReferenceNotProcessed, FailureReferenceMismatch, FailureReversalAmountMismatch,
            FailureReferenceKindNotAllowed, FailureInvalidWinReference, FailureAlreadyReversed,
            FailurePermanentInfrastructure]"

section \<open>Directions, origins, kinds and states\<close>

type_synonym direction = string

definition DirectionDebit :: direction where "DirectionDebit = ''DEBIT''"
definition DirectionCredit :: direction where "DirectionCredit = ''CREDIT''"

lemmas direction_defs = DirectionDebit_def DirectionCredit_def

definition Direction_Valid :: "direction \<Rightarrow> bool" where
  "Direction_Valid d \<longleftrightarrow> d = DirectionDebit \<or> d = DirectionCredit"

type_synonym origin = string

definition OriginInternal :: origin where "OriginInternal = ''INTERNAL''"
definition OriginExternal :: origin where "OriginExternal = ''EXTERNAL''"

lemmas origin_defs = OriginInternal_def OriginExternal_def

definition Origin_Valid :: "origin \<Rightarrow> bool" where
  "Origin_Valid o' \<longleftrightarrow> o' = OriginInternal \<or> o' = OriginExternal"

type_synonym kind = string

definition KindOpening :: kind where "KindOpening = ''OPENING''"
definition KindBet :: kind where "KindBet = ''BET''"
definition KindWin :: kind where "KindWin = ''WIN''"
definition KindLoss :: kind where "KindLoss = ''LOSS''"
definition KindRefund :: kind where "KindRefund = ''REFUND''"
definition KindRollback :: kind where "KindRollback = ''ROLLBACK''"

lemmas kind_defs = KindOpening_def KindBet_def KindWin_def KindLoss_def KindRefund_def
  KindRollback_def

definition Kind_Valid :: "kind \<Rightarrow> bool" where
  "Kind_Valid k \<longleftrightarrow> k \<in> set [KindOpening, KindBet, KindWin, KindLoss, KindRefund, KindRollback]"

definition Kind_IsExternal :: "kind \<Rightarrow> bool" where
  "Kind_IsExternal k \<longleftrightarrow> k \<in> set [KindBet, KindWin, KindLoss, KindRefund, KindRollback]"

type_synonym tstate = string

definition StatePending :: tstate where "StatePending = ''PENDING''"
definition StatePendingReference :: tstate where "StatePendingReference = ''PENDING_REFERENCE''"
definition StateProcessed :: tstate where "StateProcessed = ''PROCESSED''"
definition StateRejected :: tstate where "StateRejected = ''REJECTED''"
definition StateFailed :: tstate where "StateFailed = ''FAILED''"

lemmas state_defs = StatePending_def StatePendingReference_def StateProcessed_def
  StateRejected_def StateFailed_def

definition State_Valid :: "tstate \<Rightarrow> bool" where
  "State_Valid s \<longleftrightarrow>
     s \<in> set [StatePending, StatePendingReference, StateProcessed, StateRejected, StateFailed]"

definition State_IsTerminal :: "tstate \<Rightarrow> bool" where
  "State_IsTerminal s \<longleftrightarrow> s = StateProcessed \<or> s = StateRejected \<or> s = StateFailed"

section \<open>Errors\<close>

datatype fin_error =
    FErrInvalidInput
  | FErrTransition tstate tstate
  | FErrInsufficientFunds
  | FErrUninitialized
  | FErrMoney money_error

text \<open>\<open>errors.Is(err, ErrInvalidTransition)\<close>: the transition error unwraps to that sentinel.\<close>

definition is_invalid_transition :: "fin_error \<Rightarrow> bool" where
  "is_invalid_transition e = (case e of FErrTransition _ _ \<Rightarrow> True | _ \<Rightarrow> False)"

text \<open>The constants of one vocabulary are pairwise different.\<close>

lemma kind_neq [simp]:
  "KindOpening \<noteq> KindBet" "KindOpening \<noteq> KindWin" "KindOpening \<noteq> KindLoss" "KindOpening \<noteq> KindRefund" "KindOpening \<noteq> KindRollback"
  "KindBet \<noteq> KindOpening" "KindBet \<noteq> KindWin" "KindBet \<noteq> KindLoss" "KindBet \<noteq> KindRefund" "KindBet \<noteq> KindRollback"
  "KindWin \<noteq> KindOpening" "KindWin \<noteq> KindBet" "KindWin \<noteq> KindLoss" "KindWin \<noteq> KindRefund" "KindWin \<noteq> KindRollback"
  "KindLoss \<noteq> KindOpening" "KindLoss \<noteq> KindBet" "KindLoss \<noteq> KindWin" "KindLoss \<noteq> KindRefund" "KindLoss \<noteq> KindRollback"
  "KindRefund \<noteq> KindOpening" "KindRefund \<noteq> KindBet" "KindRefund \<noteq> KindWin" "KindRefund \<noteq> KindLoss" "KindRefund \<noteq> KindRollback"
  "KindRollback \<noteq> KindOpening" "KindRollback \<noteq> KindBet" "KindRollback \<noteq> KindWin" "KindRollback \<noteq> KindLoss" "KindRollback \<noteq> KindRefund"
  by (simp_all add: kind_defs)

lemma state_neq [simp]:
  "StatePending \<noteq> StatePendingReference" "StatePending \<noteq> StateProcessed" "StatePending \<noteq> StateRejected" "StatePending \<noteq> StateFailed"
  "StatePendingReference \<noteq> StatePending" "StatePendingReference \<noteq> StateProcessed" "StatePendingReference \<noteq> StateRejected" "StatePendingReference \<noteq> StateFailed"
  "StateProcessed \<noteq> StatePending" "StateProcessed \<noteq> StatePendingReference" "StateProcessed \<noteq> StateRejected" "StateProcessed \<noteq> StateFailed"
  "StateRejected \<noteq> StatePending" "StateRejected \<noteq> StatePendingReference" "StateRejected \<noteq> StateProcessed" "StateRejected \<noteq> StateFailed"
  "StateFailed \<noteq> StatePending" "StateFailed \<noteq> StatePendingReference" "StateFailed \<noteq> StateProcessed" "StateFailed \<noteq> StateRejected"
  by (simp_all add: state_defs)

end
