(* ===== verification/Identifiers.thy ===== *)
theory Identifiers
  imports Prelude
begin

text \<open>
  \<open>internal/domain/financial/identifiers.go\<close>: the internal identities, which are UUIDs, and the
  bounded textual identities that providers supply. The parser and the printer of UUIDs come from
  \<open>github.com/google/uuid\<close>, which is not part of the repository: they are the two fields of the
  parameter \<open>uuid_lib\<close>, and \<open>uuid_lib_ok\<close> states what the package documents of them. The three
  patterns are the regular expressions of the file, over bytes.
\<close>

section \<open>Internal identities\<close>

type_synonym uuid = "128 word"

definition uuid_Nil :: uuid where "uuid_Nil = 0"

type_synonym wallet_id = uuid
type_synonym player_id = uuid
type_synonym transaction_id = uuid
type_synonym ledger_entry_id = uuid
type_synonym reversal_claim_id = uuid

definition id_IsZero :: "uuid \<Rightarrow> bool" where "id_IsZero i \<longleftrightarrow> i = uuid_Nil"

record uuid_lib =
  uuid_Parse :: "string \<Rightarrow> uuid option"
  uuid_String :: "uuid \<Rightarrow> string"

text \<open>The bytes of a printed UUID: hexadecimal digits and hyphens.\<close>

definition is_uuid_char :: "char \<Rightarrow> bool" where
  "is_uuid_char c \<longleftrightarrow> is_digit c \<or> is_lower c \<or> c = CHR ''-''"

text \<open>
  What the model relies on: a printed UUID parses back to itself, the empty string is not a UUID,
  and a UUID prints with the bytes above only.
\<close>

definition uuid_lib_ok :: "uuid_lib \<Rightarrow> bool" where
  "uuid_lib_ok u \<longleftrightarrow>
     (\<forall>i. uuid_Parse u (uuid_String u i) = Some i)
     \<and> uuid_Parse u '''' = None
     \<and> (\<forall>i. list_all is_uuid_char (uuid_String u i))"

definition parseUUIDID :: "uuid_lib \<Rightarrow> string \<Rightarrow> 'e \<Rightarrow> 'e + uuid" where
  "parseUUIDID u raw invalid =
     (case uuid_Parse u raw of None \<Rightarrow> Inl invalid | Some i \<Rightarrow> Inr i)"

text \<open>The parsers of the single identities; the error is the one their caller answers with.\<close>

definition ParseWalletID :: "uuid_lib \<Rightarrow> string \<Rightarrow> 'e \<Rightarrow> 'e + wallet_id" where "ParseWalletID = parseUUIDID"
definition ParsePlayerID :: "uuid_lib \<Rightarrow> string \<Rightarrow> 'e \<Rightarrow> 'e + player_id" where "ParsePlayerID = parseUUIDID"
definition ParseTransactionID :: "uuid_lib \<Rightarrow> string \<Rightarrow> 'e \<Rightarrow> 'e + transaction_id" where "ParseTransactionID = parseUUIDID"
definition ParseLedgerEntryID :: "uuid_lib \<Rightarrow> string \<Rightarrow> 'e \<Rightarrow> 'e + ledger_entry_id" where "ParseLedgerEntryID = parseUUIDID"

lemmas uuid_parsers [simp] = ParseWalletID_def ParsePlayerID_def ParseTransactionID_def ParseLedgerEntryID_def

section \<open>Provider-supplied identities\<close>

type_synonym provider_id = string
type_synonym external_id = string
type_synonym idempotency_key = string

text \<open>\<open>^[a-z0-9][a-z0-9._-]{0,63}$\<close>\<close>

definition is_provider_char :: "char \<Rightarrow> bool" where
  "is_provider_char c \<longleftrightarrow> is_lower c \<or> is_digit c \<or> c = CHR ''.'' \<or> c = CHR ''_'' \<or> c = CHR ''-''"

definition providerIDPattern :: "string \<Rightarrow> bool" where
  "providerIDPattern s \<longleftrightarrow>
     (case s of [] \<Rightarrow> False
      | c # cs \<Rightarrow> (is_lower c \<or> is_digit c) \<and> length cs \<le> 63 \<and> list_all is_provider_char cs)"

text \<open>\<open>^[A-Za-z0-9._:-]{1,128}$\<close>\<close>

definition is_external_char :: "char \<Rightarrow> bool" where
  "is_external_char c \<longleftrightarrow> is_upper c \<or> is_lower c \<or> is_digit c
     \<or> c = CHR ''.'' \<or> c = CHR ''_'' \<or> c = CHR '':'' \<or> c = CHR ''-''"

definition externalIDPattern :: "string \<Rightarrow> bool" where
  "externalIDPattern s \<longleftrightarrow> 1 \<le> length s \<and> length s \<le> 128 \<and> list_all is_external_char s"

text \<open>\<open>^[\x21-\x7E]{1,255}$\<close>\<close>

definition is_visible_char :: "char \<Rightarrow> bool" where
  "is_visible_char c \<longleftrightarrow> 33 \<le> byte_of c \<and> byte_of c \<le> 126"

definition idempotencyKeyPattern :: "string \<Rightarrow> bool" where
  "idempotencyKeyPattern s \<longleftrightarrow> 1 \<le> length s \<and> length s \<le> 255 \<and> list_all is_visible_char s"

definition text_IsZero :: "string \<Rightarrow> bool" where "text_IsZero s \<longleftrightarrow> s = ''''"

text \<open>A text that matches its pattern is the identity; the error is again the caller's.\<close>

definition parse_text :: "(string \<Rightarrow> bool) \<Rightarrow> string \<Rightarrow> 'e \<Rightarrow> 'e + string" where
  "parse_text p raw invalid = (if p raw then Inr raw else Inl invalid)"

definition ParseProviderID :: "string \<Rightarrow> 'e \<Rightarrow> 'e + provider_id" where
  "ParseProviderID raw invalid = parse_text providerIDPattern raw invalid"

definition ParseExternalID :: "string \<Rightarrow> 'e \<Rightarrow> 'e + external_id" where
  "ParseExternalID raw invalid = parse_text externalIDPattern raw invalid"

definition ParseIdempotencyKey :: "string \<Rightarrow> 'e \<Rightarrow> 'e + idempotency_key" where
  "ParseIdempotencyKey raw invalid = parse_text idempotencyKeyPattern raw invalid"

lemmas text_parsers [simp] = ParseProviderID_def ParseExternalID_def ParseIdempotencyKey_def

section \<open>Lemmas\<close>

lemma uuid_lib_okD:
  assumes "uuid_lib_ok u"
  shows "uuid_Parse u (uuid_String u i) = Some i"
    and "uuid_Parse u '''' = None"
    and "list_all is_uuid_char (uuid_String u i)"
  using assms by (simp_all add: uuid_lib_ok_def)

lemma uuid_String_inject:
  "uuid_lib_ok u \<Longrightarrow> uuid_String u i = uuid_String u j \<longleftrightarrow> i = j"
  by (metis option.inject uuid_lib_okD(1))

lemma uuid_String_nonempty: "uuid_lib_ok u \<Longrightarrow> uuid_String u i \<noteq> ''''"
  by (metis option.distinct(1) uuid_lib_okD(1,2))

lemma parseUUIDID_String [simp]:
  "uuid_lib_ok u \<Longrightarrow> parseUUIDID u (uuid_String u i) e = Inr i"
  by (simp add: parseUUIDID_def uuid_lib_okD)

lemma parseUUIDID_Inr_iff [res_simps]:
  "parseUUIDID u raw e = Inr i \<longleftrightarrow> uuid_Parse u raw = Some i"
  by (simp add: parseUUIDID_def split: option.splits)

lemma parseUUIDID_Inl_iff [res_simps]:
  "parseUUIDID u raw e = Inl f \<longleftrightarrow> uuid_Parse u raw = None \<and> f = e"
  by (auto simp: parseUUIDID_def split: option.splits)

lemma parse_text_Inr [res_simps]: "parse_text p raw e = Inr s \<longleftrightarrow> p raw \<and> s = raw"
  by (auto simp: parse_text_def)

lemma provider_nonempty: "providerIDPattern s \<Longrightarrow> s \<noteq> ''''"
  by (auto simp: providerIDPattern_def)

lemma external_nonempty: "externalIDPattern s \<Longrightarrow> s \<noteq> ''''"
  by (auto simp: externalIDPattern_def)

lemma provider_chars: "providerIDPattern s \<Longrightarrow> list_all is_provider_char s"
  by (auto simp: providerIDPattern_def is_provider_char_def split: list.splits)

text \<open>
  A printer and a parser that satisfy \<open>uuid_lib_ok\<close>: the decimal numeral of the value. It
  instantiates the parameter in the concrete runs below.
\<close>

definition dec_uuid_lib :: uuid_lib where
  "dec_uuid_lib = \<lparr>
     uuid_Parse = (\<lambda>s. if canonical_nat s \<and> int (dec_value s) < 2 ^ 128 then Some (word_of_nat (dec_value s)) else None),
     uuid_String = (\<lambda>i. format_nat (unat i)) \<rparr>"

lemma dec_uuid_lib_ok: "uuid_lib_ok dec_uuid_lib"
proof -
  have "unat (i :: uuid) < 2 ^ 128" for i
    using unsigned_less [of i] by simp
  moreover have "list_all is_uuid_char (format_nat n)" for n
    using format_nat_digits [of n] by (auto simp: is_uuid_char_def list_all_iff)
  moreover have "\<not> canonical_nat ''''" by (simp add: canonical_nat_def)
  ultimately show ?thesis
    by (simp add: uuid_lib_ok_def dec_uuid_lib_def canonical_format)
qed

end
