(* ===== verification/WalletModel.thy ===== *)
theory WalletModel
  imports FinErrors Identifiers
begin

text \<open>
  \<open>internal/domain/financial/wallet.go\<close>: the root of the financial aggregate. A wallet value is
  only made by \<open>NewWallet\<close>, \<open>RehydrateWallet\<close>, \<open>Credit\<close> and \<open>Debit\<close>; \<open>wallet_ok\<close> is what they
  establish. The theory shows that rehydration accepts exactly the well-formed values, that a
  movement either changes the balance by exactly its amount and the version by one or fails with a
  documented reason, and that a debit never takes the balance below zero.
\<close>

section \<open>The aggregate\<close>

record wallet =
  wal_id :: wallet_id
  wal_playerID :: player_id
  wal_currency :: string
  wal_balance :: money
  wal_version :: int64
  wal_createdAt :: time
  wal_updatedAt :: time

definition validateMovement :: "string \<Rightarrow> money \<Rightarrow> fin_error + unit" where
  "validateMovement cur amount =
     (if \<not> IsInitialized amount then Inl FErrUninitialized
      else if currency amount \<noteq> cur then Inl (FErrMoney MErrCurrencyMismatch)
      else Inr ())"

definition NewWallet ::
  "wallet_id \<Rightarrow> player_id \<Rightarrow> string \<Rightarrow> money \<Rightarrow> time \<Rightarrow> fin_error + wallet" where
  "NewWallet i playerID cur initialBalance now =
     (if id_IsZero i then Inl FErrInvalidInput
      else if id_IsZero playerID then Inl FErrInvalidInput
      else if time_IsZero now then Inl FErrInvalidInput
      else res_bind (validateMovement cur initialBalance) (\<lambda>_.
        if IsNegative initialBalance then Inl FErrInvalidInput
        else Inr \<lparr>wal_id = i, wal_playerID = playerID, wal_currency = cur,
                  wal_balance = initialBalance, wal_version = 1,
                  wal_createdAt = time_UTC now, wal_updatedAt = time_UTC now\<rparr>))"

definition RehydrateWallet ::
  "wallet_id \<Rightarrow> player_id \<Rightarrow> string \<Rightarrow> money \<Rightarrow> int64 \<Rightarrow> time \<Rightarrow> time \<Rightarrow> fin_error + wallet" where
  "RehydrateWallet i playerID cur balance version createdAt updatedAt =
     (if id_IsZero i then Inl FErrInvalidInput
      else if id_IsZero playerID then Inl FErrInvalidInput
      else if i64_less version 1 then Inl FErrInvalidInput
      else if time_IsZero createdAt \<or> time_IsZero updatedAt then Inl FErrInvalidInput
      else if time_Before updatedAt createdAt then Inl FErrInvalidInput
      else res_bind (validateMovement cur balance) (\<lambda>_.
        if IsNegative balance then Inl FErrInvalidInput
        else Inr \<lparr>wal_id = i, wal_playerID = playerID, wal_currency = cur,
                  wal_balance = balance, wal_version = version,
                  wal_createdAt = time_UTC createdAt, wal_updatedAt = time_UTC updatedAt\<rparr>))"

definition withBalance :: "wallet \<Rightarrow> money \<Rightarrow> time \<Rightarrow> wallet" where
  "withBalance w balance now =
     w\<lparr>wal_balance := balance, wal_version := wal_version w + 1, wal_updatedAt := time_UTC now\<rparr>"

definition wallet_checkInitialized :: "wallet \<Rightarrow> fin_error + unit" where
  "wallet_checkInitialized w =
     (if id_IsZero (wal_id w) \<or> wal_currency w = '''' \<or> \<not> IsInitialized (wal_balance w)
      then Inl FErrUninitialized else Inr ())"

definition Credit :: "wallet \<Rightarrow> money \<Rightarrow> time \<Rightarrow> fin_error + wallet" where
  "Credit w amount now =
     res_bind (wallet_checkInitialized w) (\<lambda>_.
     if time_IsZero now then Inl FErrInvalidInput
     else res_bind (validateMovement (wal_currency w) amount) (\<lambda>_.
       if \<not> IsPositive amount then Inl FErrInvalidInput
       else res_bind (map_err FErrMoney (Add (wal_balance w) amount)) (\<lambda>balance.
         Inr (withBalance w balance now))))"

definition Debit :: "wallet \<Rightarrow> money \<Rightarrow> time \<Rightarrow> fin_error + wallet" where
  "Debit w amount now =
     res_bind (wallet_checkInitialized w) (\<lambda>_.
     if time_IsZero now then Inl FErrInvalidInput
     else res_bind (validateMovement (wal_currency w) amount) (\<lambda>_.
       if \<not> IsPositive amount then Inl FErrInvalidInput
       else res_bind (map_err FErrMoney (LessThan (wal_balance w) amount)) (\<lambda>insufficient.
         if insufficient then Inl FErrInsufficientFunds
         else res_bind (map_err FErrMoney (Sub (wal_balance w) amount)) (\<lambda>balance.
           Inr (withBalance w balance now)))))"

section \<open>Well-formed wallets\<close>

definition wallet_ok :: "wallet \<Rightarrow> bool" where
  "wallet_ok w \<longleftrightarrow>
     wal_id w \<noteq> uuid_Nil \<and> wal_playerID w \<noteq> uuid_Nil \<and> wal_currency w \<noteq> ''''
     \<and> currency (wal_balance w) = wal_currency w \<and> 0 \<le> amt (wal_balance w)
     \<and> 1 \<le> sint (wal_version w)
     \<and> wal_createdAt w \<noteq> 0 \<and> wal_updatedAt w \<noteq> 0 \<and> wal_createdAt w \<le> wal_updatedAt w"

abbreviation bal :: "wallet \<Rightarrow> int" where "bal w \<equiv> amt (wal_balance w)"

lemma validateMovement_simps [simp]:
  "validateMovement c m = Inr u \<longleftrightarrow> currency m = c \<and> c \<noteq> ''''"
  "validateMovement c m = Inl e \<longleftrightarrow>
     (currency m = '''' \<and> e = FErrUninitialized)
     \<or> (currency m \<noteq> '''' \<and> currency m \<noteq> c \<and> e = FErrMoney MErrCurrencyMismatch)"
  by (auto simp: validateMovement_def IsInitialized_def)

lemma validateMovement_self: "validateMovement (currency m) m =
    (if IsInitialized m then Inr () else Inl FErrUninitialized)"
  by (simp add: validateMovement_def)

lemma RehydrateWallet_Inr_iff:
  "RehydrateWallet i p c b v ca ua = Inr w \<longleftrightarrow>
     wallet_ok w \<and> w = \<lparr>wal_id = i, wal_playerID = p, wal_currency = c, wal_balance = b,
                     wal_version = v, wal_createdAt = ca, wal_updatedAt = ua\<rparr>"
  by (auto simp: RehydrateWallet_def wallet_ok_def res_simps id_IsZero_def time_defs
      i64_less_def amt_simps not_less split: if_splits)

lemma NewWallet_Inr_iff:
  "NewWallet i p c b now = Inr w \<longleftrightarrow>
     wallet_ok w \<and> w = \<lparr>wal_id = i, wal_playerID = p, wal_currency = c, wal_balance = b,
                     wal_version = 1, wal_createdAt = now, wal_updatedAt = now\<rparr>"
  by (auto simp: NewWallet_def wallet_ok_def res_simps id_IsZero_def time_defs amt_simps
      split: if_splits)

lemma wallet_okD:
  assumes "wallet_ok w"
  shows "wal_id w \<noteq> uuid_Nil" "wal_playerID w \<noteq> uuid_Nil" "wal_currency w \<noteq> ''''"
    "currency (wal_balance w) = wal_currency w" "0 \<le> bal w" "1 \<le> sint (wal_version w)"
    "wal_createdAt w \<noteq> 0" "wal_updatedAt w \<noteq> 0" "wal_createdAt w \<le> wal_updatedAt w"
  using assms by (simp_all add: wallet_ok_def)

lemma checkInitialized_ok: "wallet_ok w \<Longrightarrow> wallet_checkInitialized w = Inr ()"
  by (simp add: wallet_checkInitialized_def wallet_ok_def id_IsZero_def IsInitialized_def)

section \<open>Movements\<close>

text \<open>The guards that \<open>Credit\<close> and \<open>Debit\<close> share, as one decision.\<close>

definition movement_guard :: "wallet \<Rightarrow> money \<Rightarrow> time \<Rightarrow> fin_error option" where
  "movement_guard w a now =
     (if now = 0 then Some FErrInvalidInput
      else if currency a = '''' then Some FErrUninitialized
      else if currency a \<noteq> wal_currency w then Some (FErrMoney MErrCurrencyMismatch)
      else if amt a \<le> 0 then Some FErrInvalidInput
      else None)"

definition moved :: "wallet \<Rightarrow> int \<Rightarrow> time \<Rightarrow> wallet" where
  "moved w d now =
     w\<lparr>wal_balance := \<lparr>minorUnits = word_of_int (bal w + d), currency = wal_currency w\<rparr>,
       wal_version := wal_version w + 1, wal_updatedAt := now\<rparr>"

lemma Credit_eq:
  assumes "wallet_ok w"
  shows "Credit w a now =
     (case movement_guard w a now of Some e \<Rightarrow> Inl e
      | None \<Rightarrow> if bal w + amt a \<le> 9223372036854775807
                then Inr (moved w (amt a) now) else Inl (FErrMoney MErrOverflow))"
  using assms sint_int64_bounds [of "minorUnits a"]
  by (auto simp: Credit_def checkInitialized_ok movement_guard_def moved_def time_defs
      validateMovement_def IsInitialized_def Add_eq amt_simps withBalance_def wallet_ok_def
      int64_range_def simp del: word_of_int_amt_add)

lemma Debit_eq:
  assumes "wallet_ok w"
  shows "Debit w a now =
     (case movement_guard w a now of Some e \<Rightarrow> Inl e
      | None \<Rightarrow> if bal w < amt a then Inl FErrInsufficientFunds
                else Inr (moved w (- amt a) now))"
  using assms sint_int64_bounds [of "minorUnits a"] sint_int64_bounds [of "minorUnits (wal_balance w)"]
  by (auto simp: Debit_def checkInitialized_ok movement_guard_def moved_def time_defs
      validateMovement_def IsInitialized_def Sub_eq LessThan_eq amt_simps withBalance_def
      wallet_ok_def int64_range_def)

lemma moved_simps [simp]:
  "wal_id (moved w d now) = wal_id w"
  "wal_playerID (moved w d now) = wal_playerID w"
  "wal_currency (moved w d now) = wal_currency w"
  "wal_version (moved w d now) = wal_version w + 1"
  "wal_createdAt (moved w d now) = wal_createdAt w"
  "wal_updatedAt (moved w d now) = now"
  "currency (wal_balance (moved w d now)) = wal_currency w"
  by (simp_all add: moved_def)

lemma bal_moved: "int64_range (bal w + d) \<Longrightarrow> bal (moved w d now) = bal w + d"
  by (simp add: moved_def sint_of_int64 del: of_int_add)

text \<open>
  The contract that the service relies on when it applies a movement, whichever of the two
  operations the movement names.
\<close>

locale wallet_movement =
  fixes move :: "wallet \<Rightarrow> money \<Rightarrow> time \<Rightarrow> fin_error + wallet"
    and delta :: "money \<Rightarrow> int"
  assumes move_sound:
    "wallet_ok w \<Longrightarrow> move w a now = Inr w' \<Longrightarrow>
       movement_guard w a now = None \<and> 0 \<le> bal w + delta a \<and> int64_range (bal w + delta a)
       \<and> w' = moved w (delta a) now"
    and move_complete:
    "wallet_ok w \<Longrightarrow> movement_guard w a now = None \<Longrightarrow> 0 \<le> bal w + delta a \<Longrightarrow>
       int64_range (bal w + delta a) \<Longrightarrow> move w a now = Inr (moved w (delta a) now)"
begin

lemma move_balance: "wallet_ok w \<Longrightarrow> move w a now = Inr w' \<Longrightarrow> bal w' = bal w + delta a"
  by (drule (1) move_sound) (simp add: bal_moved)

lemma move_amount:
  "wallet_ok w \<Longrightarrow> move w a now = Inr w' \<Longrightarrow>
     0 < amt a \<and> currency a = wal_currency w \<and> now \<noteq> 0"
  by (drule (1) move_sound) (auto simp: movement_guard_def split: if_splits)

lemma move_keeps:
  "wallet_ok w \<Longrightarrow> move w a now = Inr w' \<Longrightarrow>
     wal_id w' = wal_id w \<and> wal_playerID w' = wal_playerID w \<and> wal_currency w' = wal_currency w
     \<and> currency (wal_balance w') = wal_currency w
     \<and> wal_createdAt w' = wal_createdAt w \<and> wal_version w' = wal_version w + 1
     \<and> wal_updatedAt w' = now"
  by (drule (1) move_sound) simp

lemma move_nonneg: "wallet_ok w \<Longrightarrow> move w a now = Inr w' \<Longrightarrow> 0 \<le> bal w'"
  using move_balance move_sound by fastforce

lemma move_version:
  assumes "wallet_ok w" and "move w a now = Inr w'" and "wal_version w \<noteq> MaxInt64"
  shows "sint (wal_version w') = sint (wal_version w) + 1"
proof -
  have "sint (wal_version w) \<noteq> sint MaxInt64"
    using assms(3) by (simp add: sint_inject_int64 del: sint_MaxInt64)
  then have "int64_range (sint (wal_version w) + sint (1 :: int64))"
    using sint_int64_bounds [of "wal_version w"] by (simp add: int64_range_def)
  then show ?thesis
    using move_keeps [OF assms(1,2)] by (simp add: sint_add_int64)
qed

text \<open>The one thing a movement does not check is the clock.\<close>

lemma move_ok_iff:
  assumes "wallet_ok w" and "move w a now = Inr w'" and "wal_version w \<noteq> MaxInt64"
  shows "wallet_ok w' \<longleftrightarrow> wal_createdAt w \<le> now"
  using wallet_okD [OF assms(1)] move_keeps [OF assms(1,2)] move_nonneg [OF assms(1,2)]
    move_version [OF assms] move_amount [OF assms(1,2)]
  by (auto simp: wallet_ok_def)

end

interpretation credit: wallet_movement Credit "\<lambda>a. amt a"
proof
  fix w a now w'
  assume "wallet_ok w" "Credit w a now = Inr w'"
  then show "movement_guard w a now = None \<and> 0 \<le> bal w + amt a \<and> int64_range (bal w + amt a)
       \<and> w' = moved w (amt a) now"
    using wallet_okD(5) [of w]
    by (auto simp: Credit_eq movement_guard_def int64_range_def split: if_splits)
next
  fix w a now
  assume "wallet_ok w" "movement_guard w a now = None" "int64_range (bal w + amt a)"
  then show "Credit w a now = Inr (moved w (amt a) now)"
    by (simp add: Credit_eq int64_range_def)
qed

interpretation debit: wallet_movement Debit "\<lambda>a. - amt a"
proof
  fix w a now w'
  assume w: "wallet_ok w" and "Debit w a now = Inr w'"
  then show "movement_guard w a now = None \<and> 0 \<le> bal w + - amt a \<and> int64_range (bal w + - amt a)
       \<and> w' = moved w (- amt a) now"
    using wallet_okD(5) [OF w] sint_int64_bounds [of "minorUnits (wal_balance w)"]
      sint_int64_bounds [of "minorUnits a"]
    by (auto simp: Debit_eq movement_guard_def int64_range_def split: if_splits)
next
  fix w a now
  assume "wallet_ok w" "movement_guard w a now = None" "0 \<le> bal w + - amt a"
  then show "Debit w a now = Inr (moved w (- amt a) now)"
    by (simp add: Debit_eq)
qed

section \<open>Properties\<close>

text \<open>
  C31: on a well-formed wallet, a credit fails on the documented guards or when the new balance
  would not fit in \<open>int64\<close>, and a debit fails on the same guards or when the balance is below the
  amount; otherwise the balance moves by exactly the amount, the version by one and the update
  instant is the operation's.
\<close>

theorem wallet_movements_exact:
  assumes "wallet_ok w"
  shows "Credit w a now =
     (case movement_guard w a now of Some e \<Rightarrow> Inl e
      | None \<Rightarrow> if bal w + amt a \<le> 9223372036854775807
                then Inr (moved w (amt a) now) else Inl (FErrMoney MErrOverflow))
   \<and> Debit w a now =
     (case movement_guard w a now of Some e \<Rightarrow> Inl e
      | None \<Rightarrow> if bal w < amt a then Inl FErrInsufficientFunds
                else Inr (moved w (- amt a) now))"
  using assms by (simp only: Credit_eq Debit_eq simp_thms)

definition sample_wallet :: wallet where
  "sample_wallet =
     \<lparr>wal_id = 1, wal_playerID = 2, wal_currency = ''BRL'',
      wal_balance = \<lparr>minorUnits = 5000, currency = ''BRL''\<rparr>, wal_version = 3,
      wal_createdAt = 100, wal_updatedAt = 200\<rparr>"

lemma sample_wallet_ok: "wallet_ok sample_wallet"
  by (simp add: wallet_ok_def sample_wallet_def uuid_Nil_def)

theorem wallet_movements_exact_witness:
  "Debit sample_wallet \<lparr>minorUnits = 5001, currency = ''BRL''\<rparr> 300 = Inl FErrInsufficientFunds
   \<and> Debit sample_wallet \<lparr>minorUnits = 5000, currency = ''BRL''\<rparr> 300
       = Inr (moved sample_wallet (- 5000) 300)"
  using wallet_movements_exact [OF sample_wallet_ok, of "\<lparr>minorUnits = 5001, currency = ''BRL''\<rparr>" 300]
    wallet_movements_exact [OF sample_wallet_ok, of "\<lparr>minorUnits = 5000, currency = ''BRL''\<rparr>" 300]
  by (simp add: movement_guard_def sample_wallet_def)

text \<open>
  C32: rehydration accepts exactly the well-formed values and returns them unchanged; the result of
  a credit or debit can be rehydrated exactly when the operation's instant is not before the
  wallet's creation, which no operation checks.
\<close>

theorem rehydrate_after_movement:
  assumes "wallet_ok w" and "wal_version w \<noteq> MaxInt64"
    and "Credit w a now = Inr w' \<or> Debit w a now = Inr w'"
  shows "RehydrateWallet (wal_id w') (wal_playerID w') (wal_currency w') (wal_balance w')
           (wal_version w') (wal_createdAt w') (wal_updatedAt w')
         = (if wal_createdAt w \<le> now then Inr w' else Inl FErrInvalidInput)"
proof -
  have "wallet_ok w' \<longleftrightarrow> wal_createdAt w \<le> now"
    using assms credit.move_ok_iff debit.move_ok_iff by blast
  moreover have "wal_createdAt w' = wal_createdAt w \<and> wal_updatedAt w' = now \<and> now \<noteq> 0
      \<and> wal_createdAt w \<noteq> 0"
    using assms(1,3) wallet_okD(7) credit.move_keeps debit.move_keeps credit.move_amount
      debit.move_amount by blast
  ultimately show ?thesis
    by (cases "wal_createdAt w \<le> now")
      (auto simp: RehydrateWallet_Inr_iff, auto simp: RehydrateWallet_def time_defs)
qed

theorem rehydrate_after_movement_witness:
  "RehydrateWallet 1 2 ''BRL'' \<lparr>minorUnits = 6000, currency = ''BRL''\<rparr> 4 100 50
     = Inl FErrInvalidInput"
proof -
  let ?a = "\<lparr>minorUnits = 1000, currency = ''BRL''\<rparr>"
  have "movement_guard sample_wallet ?a 50 = None" "bal sample_wallet = 5000"
    by (simp_all add: movement_guard_def sample_wallet_def)
  then have "Credit sample_wallet ?a 50 = Inr (moved sample_wallet 1000 50)"
    by (simp add: Credit_eq [OF sample_wallet_ok])
  then have "Credit sample_wallet ?a 50 = Inr (moved sample_wallet 1000 50)
      \<or> Debit sample_wallet ?a 50 = Inr (moved sample_wallet 1000 50)" ..
  from rehydrate_after_movement [OF sample_wallet_ok _ this] show ?thesis
    by (simp add: sample_wallet_def moved_def MaxInt64_def)
qed

end
