(* ===== verification/LedgerEntry.thy ===== *)
theory LedgerEntry
  imports WalletModel
begin

text \<open>
  \<open>internal/domain/financial/ledger.go\<close> and \<open>reversal.go\<close>: the immutable posting of one wallet
  movement, and the claim that consumes the right to compensate a transaction. The constructor of
  a posting proves \<open>balanceAfter = balanceBefore \<plusminus> amount\<close>; the lemmas give the exact set of
  values it accepts and show that a movement of a wallet always has a valid posting.
\<close>

section \<open>Postings\<close>

record ledger_entry =
  le_id :: ledger_entry_id
  le_walletID :: wallet_id
  le_transactionID :: transaction_id
  le_direction :: direction
  le_amount :: money
  le_balanceBefore :: money
  le_balanceAfter :: money
  le_createdAt :: time

definition ledger_validate :: "ledger_entry \<Rightarrow> fin_error + unit" where
  "ledger_validate e =
     (if id_IsZero (le_id e) then Inl FErrInvalidInput
      else if id_IsZero (le_walletID e) then Inl FErrInvalidInput
      else if id_IsZero (le_transactionID e) then Inl FErrInvalidInput
      else if \<not> Direction_Valid (le_direction e) then Inl FErrInvalidInput
      else if time_IsZero (le_createdAt e) then Inl FErrInvalidInput
      else if \<not> IsInitialized (le_amount e) \<or> \<not> IsInitialized (le_balanceBefore e)
              \<or> \<not> IsInitialized (le_balanceAfter e) then Inl FErrUninitialized
      else if \<not> IsPositive (le_amount e) then Inl FErrInvalidInput
      else if currency (le_balanceBefore e) \<noteq> currency (le_amount e)
              \<or> currency (le_balanceAfter e) \<noteq> currency (le_amount e)
           then Inl (FErrMoney MErrCurrencyMismatch)
      else if IsNegative (le_balanceBefore e) \<or> IsNegative (le_balanceAfter e)
           then Inl FErrInvalidInput
      else
        res_bind (map_err FErrMoney
          (if le_direction e = DirectionCredit then Add (le_balanceBefore e) (le_amount e)
           else if le_direction e = DirectionDebit then Sub (le_balanceBefore e) (le_amount e)
           else Inr (le_balanceAfter e))) (\<lambda>expected.
        res_bind (map_err FErrMoney (Equal expected (le_balanceAfter e))) (\<lambda>equal.
        if \<not> equal then Inl FErrInvalidInput else Inr ())))"

definition NewWalletLedgerEntry ::
  "ledger_entry_id \<Rightarrow> wallet_id \<Rightarrow> transaction_id \<Rightarrow> direction \<Rightarrow> money \<Rightarrow> money \<Rightarrow> money \<Rightarrow> time
     \<Rightarrow> fin_error + ledger_entry" where
  "NewWalletLedgerEntry i walletID transactionID dir amount balanceBefore balanceAfter now =
     (let entry = \<lparr>le_id = i, le_walletID = walletID, le_transactionID = transactionID,
                   le_direction = dir, le_amount = amount, le_balanceBefore = balanceBefore,
                   le_balanceAfter = balanceAfter, le_createdAt = time_UTC now\<rparr>
      in res_bind (ledger_validate entry) (\<lambda>_. Inr entry))"

definition RehydrateWalletLedgerEntry ::
  "ledger_entry_id \<Rightarrow> wallet_id \<Rightarrow> transaction_id \<Rightarrow> direction \<Rightarrow> money \<Rightarrow> money \<Rightarrow> money \<Rightarrow> time
     \<Rightarrow> fin_error + ledger_entry" where
  "RehydrateWalletLedgerEntry i walletID transactionID dir amount balanceBefore balanceAfter createdAt =
     (let entry = \<lparr>le_id = i, le_walletID = walletID, le_transactionID = transactionID,
                   le_direction = dir, le_amount = amount, le_balanceBefore = balanceBefore,
                   le_balanceAfter = balanceAfter, le_createdAt = time_UTC createdAt\<rparr>
      in res_bind (ledger_validate entry) (\<lambda>_. Inr entry))"

text \<open>The signed effect of a posting on the balance.\<close>

definition le_effect :: "ledger_entry \<Rightarrow> int" where
  "le_effect e = (if le_direction e = DirectionCredit then amt (le_amount e) else - amt (le_amount e))"

definition ledger_entry_ok :: "ledger_entry \<Rightarrow> bool" where
  "ledger_entry_ok e \<longleftrightarrow>
     le_id e \<noteq> uuid_Nil \<and> le_walletID e \<noteq> uuid_Nil \<and> le_transactionID e \<noteq> uuid_Nil
     \<and> Direction_Valid (le_direction e) \<and> le_createdAt e \<noteq> 0
     \<and> currency (le_amount e) \<noteq> '''' \<and> currency (le_balanceBefore e) = currency (le_amount e)
     \<and> currency (le_balanceAfter e) = currency (le_amount e)
     \<and> 0 < amt (le_amount e) \<and> 0 \<le> amt (le_balanceBefore e) \<and> 0 \<le> amt (le_balanceAfter e)
     \<and> amt (le_balanceAfter e) = amt (le_balanceBefore e) + le_effect e"

lemma direction_neq [simp]: "DirectionCredit \<noteq> DirectionDebit" "DirectionDebit \<noteq> DirectionCredit"
  by (simp_all add: direction_defs)

lemma Direction_Valid_simps [simp]:
  "Direction_Valid DirectionCredit" "Direction_Valid DirectionDebit"
  by (simp_all add: Direction_Valid_def)

lemma ledger_validate_credit:
  assumes "le_direction e = DirectionCredit"
  shows "ledger_validate e = Inr u \<longleftrightarrow> ledger_entry_ok e"
proof -
  have range: "0 \<le> amt (le_balanceBefore e) \<Longrightarrow> 0 < amt (le_amount e) \<Longrightarrow>
      amt (le_balanceAfter e) = amt (le_balanceBefore e) + amt (le_amount e) \<Longrightarrow>
      int64_range (amt (le_balanceBefore e) + amt (le_amount e))"
    using int64_range_sint [of "minorUnits (le_balanceAfter e)"] by simp
  show ?thesis
    using assms range
    by (auto simp: ledger_validate_def ledger_entry_ok_def le_effect_def id_IsZero_def time_defs
        IsInitialized_def amt_simps Add_eq Equal_eq sint_of_int64 res_simps
        simp del: word_of_int_amt_add of_int_add split: if_splits)
qed

lemma ledger_validate_debit:
  assumes "le_direction e = DirectionDebit"
  shows "ledger_validate e = Inr u \<longleftrightarrow> ledger_entry_ok e"
proof -
  have range: "amt (le_balanceAfter e) = amt (le_balanceBefore e) - amt (le_amount e) \<Longrightarrow>
      int64_range (amt (le_balanceBefore e) - amt (le_amount e))"
    using int64_range_sint [of "minorUnits (le_balanceAfter e)"] by simp
  show ?thesis
    using assms range
    by (auto simp: ledger_validate_def ledger_entry_ok_def le_effect_def id_IsZero_def time_defs
        IsInitialized_def amt_simps Sub_eq Equal_eq sint_of_int64 res_simps
        simp del: of_int_diff split: if_splits)
qed

lemma ledger_validate_iff: "ledger_validate e = Inr u \<longleftrightarrow> ledger_entry_ok e"
proof (cases "Direction_Valid (le_direction e)")
  case True
  then show ?thesis
    using ledger_validate_credit ledger_validate_debit by (auto simp: Direction_Valid_def)
next
  case False
  then show ?thesis
    by (auto simp: ledger_validate_def ledger_entry_ok_def split: if_splits)
qed

lemma NewWalletLedgerEntry_Inr_iff:
  "NewWalletLedgerEntry i w t d a b1 b2 now = Inr e \<longleftrightarrow>
     ledger_entry_ok e \<and> e = \<lparr>le_id = i, le_walletID = w, le_transactionID = t, le_direction = d,
        le_amount = a, le_balanceBefore = b1, le_balanceAfter = b2, le_createdAt = now\<rparr>"
  by (auto simp: NewWalletLedgerEntry_def Let_def res_simps ledger_validate_iff)

lemma RehydrateWalletLedgerEntry_eq:
  "RehydrateWalletLedgerEntry = NewWalletLedgerEntry"
  by (intro ext) (simp add: RehydrateWalletLedgerEntry_def NewWalletLedgerEntry_def)

section \<open>Reversal claims\<close>

record reversal_claim =
  rc_id :: reversal_claim_id
  rc_referenceTransactionID :: transaction_id
  rc_reversalTransactionID :: transaction_id
  rc_createdAt :: time

definition NewReversalClaim ::
  "reversal_claim_id \<Rightarrow> transaction_id \<Rightarrow> transaction_id \<Rightarrow> time \<Rightarrow> fin_error + reversal_claim" where
  "NewReversalClaim i referenceTransactionID reversalTransactionID now =
     (if id_IsZero i then Inl FErrInvalidInput
      else if id_IsZero referenceTransactionID \<or> id_IsZero reversalTransactionID
           then Inl FErrInvalidInput
      else if referenceTransactionID = reversalTransactionID then Inl FErrInvalidInput
      else if time_IsZero now then Inl FErrInvalidInput
      else Inr \<lparr>rc_id = i, rc_referenceTransactionID = referenceTransactionID,
                rc_reversalTransactionID = reversalTransactionID, rc_createdAt = time_UTC now\<rparr>)"

definition RehydrateReversalClaim ::
  "reversal_claim_id \<Rightarrow> transaction_id \<Rightarrow> transaction_id \<Rightarrow> time \<Rightarrow> fin_error + reversal_claim" where
  "RehydrateReversalClaim i referenceTransactionID reversalTransactionID createdAt =
     NewReversalClaim i referenceTransactionID reversalTransactionID createdAt"

definition reversal_claim_ok :: "reversal_claim \<Rightarrow> bool" where
  "reversal_claim_ok c \<longleftrightarrow>
     rc_id c \<noteq> uuid_Nil \<and> rc_referenceTransactionID c \<noteq> uuid_Nil
     \<and> rc_reversalTransactionID c \<noteq> uuid_Nil
     \<and> rc_referenceTransactionID c \<noteq> rc_reversalTransactionID c \<and> rc_createdAt c \<noteq> 0"

lemma NewReversalClaim_Inr_iff:
  "NewReversalClaim i a b now = Inr c \<longleftrightarrow>
     reversal_claim_ok c \<and> c = \<lparr>rc_id = i, rc_referenceTransactionID = a,
       rc_reversalTransactionID = b, rc_createdAt = now\<rparr>"
  by (auto simp: NewReversalClaim_def reversal_claim_ok_def id_IsZero_def time_defs split: if_splits)

section \<open>Properties\<close>

text \<open>
  The constructor of a posting accepts exactly the values whose identities are present, whose
  three amounts share one currency, whose amount is positive and whose balances are not negative
  and differ by the amount in the sense of the direction; what it returns is the given value.
\<close>

theorem ledger_entry_exact:
  "NewWalletLedgerEntry i w t d a b1 b2 now = Inr e \<longleftrightarrow>
     ledger_entry_ok e \<and> e = \<lparr>le_id = i, le_walletID = w, le_transactionID = t, le_direction = d,
        le_amount = a, le_balanceBefore = b1, le_balanceAfter = b2, le_createdAt = now\<rparr>"
  by (rule NewWalletLedgerEntry_Inr_iff)

end
