(* ===== verification/Wager.thy ===== *)
theory Wager
  imports LedgerEntry
begin

text \<open>
  \<open>internal/domain/financial/wager.go\<close>: the idempotent record and state machine of one operation.
  The theory holds the two constructors, the rehydration of a persisted row and the four
  transitions, then the life of a transaction as a step relation: every step leaves a non-terminal
  state, keeps everything but the outcome, and a transaction reached from a constructor carries
  exactly the outcome fields its state calls for. The Go transitions take the transaction by value;
  \<open>transition\<close> stores the update instant in its own copy, so the terminal transitions return the
  instant they were given only where the source does.
\<close>

section \<open>Transactions\<close>

record wager =
  tx_id :: transaction_id
  tx_origin :: origin
  tx_kind :: kind
  tx_providerID :: provider_id
  tx_externalTransactionID :: external_id
  tx_idempotencyKey :: idempotency_key
  tx_digestVersion :: string
  tx_digest :: string
  tx_walletID :: wallet_id
  tx_playerID :: player_id
  tx_roundID :: external_id
  tx_gameID :: external_id
  tx_amount :: money
  tx_referenceExternalTransactionID :: external_id
  tx_referenceTransactionID :: transaction_id
  tx_state :: tstate
  tx_failureCode :: failure_code
  tx_observedBalance :: money
  tx_referenceDeadline :: time
  tx_createdAt :: time
  tx_updatedAt :: time

record external_params =
  ep_ID :: transaction_id
  ep_ProviderID :: provider_id
  ep_ExternalTransactionID :: external_id
  ep_IdempotencyKey :: idempotency_key
  ep_DigestVersion :: string
  ep_Digest :: string
  ep_WalletID :: wallet_id
  ep_PlayerID :: player_id
  ep_RoundID :: external_id
  ep_GameID :: external_id
  ep_Kind :: kind
  ep_Amount :: money
  ep_ReferenceExternalID :: external_id
  ep_Now :: time

definition NewExternalTransaction :: "external_params \<Rightarrow> fin_error + wager" where
  "NewExternalTransaction p =
     (if id_IsZero (ep_ID p) \<or> id_IsZero (ep_WalletID p) \<or> id_IsZero (ep_PlayerID p)
      then Inl FErrInvalidInput
      else if text_IsZero (ep_ProviderID p) \<or> text_IsZero (ep_ExternalTransactionID p)
              \<or> text_IsZero (ep_RoundID p) \<or> text_IsZero (ep_GameID p) then Inl FErrInvalidInput
      else if text_IsZero (ep_IdempotencyKey p) \<or> ep_DigestVersion p = '''' \<or> ep_Digest p = ''''
      then Inl FErrInvalidInput
      else if \<not> Kind_Valid (ep_Kind p) \<or> \<not> Kind_IsExternal (ep_Kind p) then Inl FErrInvalidInput
      else if \<not> IsInitialized (ep_Amount p) then Inl FErrUninitialized
      else if time_IsZero (ep_Now p) then Inl FErrInvalidInput
      else if ep_Kind p = KindLoss \<and> \<not> IsZero (ep_Amount p) then Inl FErrInvalidInput
      else if ep_Kind p = KindBet \<and> \<not> IsPositive (ep_Amount p) then Inl FErrInvalidInput
      else if ep_Kind p = KindBet \<and> \<not> text_IsZero (ep_ReferenceExternalID p)
      then Inl FErrInvalidInput
      else if ep_Kind p \<noteq> KindLoss \<and> ep_Kind p \<noteq> KindBet \<and> \<not> IsPositive (ep_Amount p)
      then Inl FErrInvalidInput
      else if (ep_Kind p = KindRefund \<or> ep_Kind p = KindRollback)
              \<and> text_IsZero (ep_ReferenceExternalID p) then Inl FErrInvalidInput
      else Inr
        \<lparr>tx_id = ep_ID p, tx_origin = OriginExternal, tx_kind = ep_Kind p,
         tx_providerID = ep_ProviderID p, tx_externalTransactionID = ep_ExternalTransactionID p,
         tx_idempotencyKey = ep_IdempotencyKey p, tx_digestVersion = ep_DigestVersion p,
         tx_digest = ep_Digest p, tx_walletID = ep_WalletID p, tx_playerID = ep_PlayerID p,
         tx_roundID = ep_RoundID p, tx_gameID = ep_GameID p, tx_amount = ep_Amount p,
         tx_referenceExternalTransactionID = ep_ReferenceExternalID p,
         tx_referenceTransactionID = uuid_Nil, tx_state = StatePending, tx_failureCode = '''',
         tx_observedBalance = money_nil, tx_referenceDeadline = time_zero,
         tx_createdAt = time_UTC (ep_Now p), tx_updatedAt = time_UTC (ep_Now p)\<rparr>)"

definition NewInternalOpening ::
  "transaction_id \<Rightarrow> wallet_id \<Rightarrow> player_id \<Rightarrow> money \<Rightarrow> time \<Rightarrow> fin_error + wager" where
  "NewInternalOpening i walletID playerID amount now =
     (if id_IsZero i \<or> id_IsZero walletID \<or> id_IsZero playerID then Inl FErrInvalidInput
      else if \<not> IsInitialized amount \<or> \<not> IsPositive amount then Inl FErrInvalidInput
      else if time_IsZero now then Inl FErrInvalidInput
      else Inr
        \<lparr>tx_id = i, tx_origin = OriginInternal, tx_kind = KindOpening,
         tx_providerID = '''', tx_externalTransactionID = '''', tx_idempotencyKey = '''',
         tx_digestVersion = '''', tx_digest = '''', tx_walletID = walletID,
         tx_playerID = playerID, tx_roundID = '''', tx_gameID = '''', tx_amount = amount,
         tx_referenceExternalTransactionID = '''', tx_referenceTransactionID = uuid_Nil,
         tx_state = StatePending, tx_failureCode = '''', tx_observedBalance = money_nil,
         tx_referenceDeadline = time_zero, tx_createdAt = time_UTC now,
         tx_updatedAt = time_UTC now\<rparr>)"

text \<open>
  \<open>RehydrateTransactionParams\<close> has the fields of the transaction, one for one, so the parameter is
  a record of the same type: the row as it was read.
\<close>

definition RehydrateTransaction :: "wager \<Rightarrow> fin_error + wager" where
  "RehydrateTransaction p =
     (if id_IsZero (tx_id p) \<or> id_IsZero (tx_walletID p) \<or> id_IsZero (tx_playerID p)
      then Inl FErrInvalidInput
      else if \<not> Origin_Valid (tx_origin p) \<or> \<not> Kind_Valid (tx_kind p) \<or> \<not> State_Valid (tx_state p)
      then Inl FErrInvalidInput
      else if \<not> IsInitialized (tx_amount p) then Inl FErrUninitialized
      else if time_IsZero (tx_createdAt p) \<or> time_IsZero (tx_updatedAt p) then Inl FErrInvalidInput
      else if time_Before (tx_updatedAt p) (tx_createdAt p) then Inl FErrInvalidInput
      else if tx_failureCode p \<noteq> '''' \<and> \<not> FailureCode_Valid (tx_failureCode p)
      then Inl FErrInvalidInput
      else if tx_origin p = OriginExternal \<and>
              (text_IsZero (tx_providerID p) \<or> text_IsZero (tx_externalTransactionID p)
               \<or> text_IsZero (tx_idempotencyKey p) \<or> tx_digestVersion p = '''' \<or> tx_digest p = '''')
      then Inl FErrInvalidInput
      else if tx_origin p = OriginExternal \<and> \<not> Kind_IsExternal (tx_kind p)
      then Inl FErrInvalidInput
      else if tx_origin p = OriginExternal \<and> (text_IsZero (tx_roundID p) \<or> text_IsZero (tx_gameID p))
      then Inl FErrInvalidInput
      else if tx_origin p \<noteq> OriginExternal \<and> tx_kind p \<noteq> KindOpening then Inl FErrInvalidInput
      else if tx_origin p \<noteq> OriginExternal \<and>
              (\<not> text_IsZero (tx_providerID p) \<or> \<not> text_IsZero (tx_externalTransactionID p)
               \<or> \<not> text_IsZero (tx_idempotencyKey p) \<or> tx_digestVersion p \<noteq> '''' \<or> tx_digest p \<noteq> ''''
               \<or> \<not> text_IsZero (tx_roundID p) \<or> \<not> text_IsZero (tx_gameID p)
               \<or> \<not> text_IsZero (tx_referenceExternalTransactionID p))
      then Inl FErrInvalidInput
      else Inr (p\<lparr>tx_createdAt := time_UTC (tx_createdAt p), tx_updatedAt := time_UTC (tx_updatedAt p)\<rparr>))"

section \<open>Transitions\<close>

definition wager_checkInitialized :: "wager \<Rightarrow> fin_error + unit" where
  "wager_checkInitialized t =
     (if id_IsZero (tx_id t) \<or> \<not> Kind_Valid (tx_kind t) \<or> \<not> State_Valid (tx_state t)
         \<or> \<not> IsInitialized (tx_amount t)
      then Inl FErrUninitialized else Inr ())"

text \<open>
  \<open>transition\<close> has a value receiver and returns only an error: its assignment to \<open>updatedAt\<close> is
  lost to the caller, so the transaction is not part of the result.
\<close>

definition transition :: "wager \<Rightarrow> tstate \<Rightarrow> time \<Rightarrow> fin_error + unit" where
  "transition t nxt now =
     res_bind (wager_checkInitialized t) (\<lambda>_.
     if time_IsZero now then Inl FErrInvalidInput
     else if tx_state t = StatePending then Inr ()
     else if tx_state t = StatePendingReference then Inr ()
     else Inl (FErrTransition (tx_state t) nxt))"

definition validateObservation :: "transaction_id \<Rightarrow> money \<Rightarrow> fin_error + unit" where
  "validateObservation resolvedReference observedBalance =
     (if \<not> IsInitialized observedBalance then Inl FErrUninitialized
      else if \<not> IsNegative observedBalance then Inr ()
      else Inl FErrInvalidInput)"

definition MarkPendingReference :: "wager \<Rightarrow> time \<Rightarrow> time \<Rightarrow> fin_error + wager" where
  "MarkPendingReference t deadline now =
     res_bind (wager_checkInitialized t) (\<lambda>_.
     if tx_state t \<noteq> StatePending then Inl (FErrTransition (tx_state t) StatePendingReference)
     else if time_IsZero deadline \<or> time_IsZero now then Inl FErrInvalidInput
     else if \<not> time_After deadline now then Inl FErrInvalidInput
     else Inr (t\<lparr>tx_state := StatePendingReference, tx_referenceDeadline := time_UTC deadline,
                tx_updatedAt := time_UTC now\<rparr>))"

definition MarkProcessed :: "wager \<Rightarrow> transaction_id \<Rightarrow> money \<Rightarrow> time \<Rightarrow> fin_error + wager" where
  "MarkProcessed t resolvedReference observedBalance now =
     res_bind (transition t StateProcessed now) (\<lambda>_.
     res_bind (validateObservation resolvedReference observedBalance) (\<lambda>_.
     Inr (t\<lparr>tx_state := StateProcessed, tx_referenceTransactionID := resolvedReference,
            tx_observedBalance := observedBalance\<rparr>)))"

definition MarkRejected ::
  "wager \<Rightarrow> transaction_id \<Rightarrow> failure_code \<Rightarrow> money \<Rightarrow> time \<Rightarrow> fin_error + wager" where
  "MarkRejected t resolvedReference code observedBalance now =
     res_bind (transition t StateRejected now) (\<lambda>_.
     if \<not> FailureCode_Valid code \<or> code = FailurePermanentInfrastructure then Inl FErrInvalidInput
     else res_bind (validateObservation resolvedReference observedBalance) (\<lambda>_.
     Inr (t\<lparr>tx_state := StateRejected, tx_referenceTransactionID := resolvedReference,
            tx_failureCode := code, tx_observedBalance := observedBalance\<rparr>)))"

definition MarkFailed :: "wager \<Rightarrow> money \<Rightarrow> time \<Rightarrow> fin_error + wager" where
  "MarkFailed t observedBalance now =
     res_bind (transition t StateFailed now) (\<lambda>_.
     if \<not> IsInitialized observedBalance then Inl FErrUninitialized
     else Inr (t\<lparr>tx_state := StateFailed, tx_failureCode := FailurePermanentInfrastructure,
                tx_observedBalance := observedBalance\<rparr>))"

definition wager_IsTerminal :: "wager \<Rightarrow> bool" where
  "wager_IsTerminal t \<longleftrightarrow> State_IsTerminal (tx_state t)"

section \<open>Inversion of the operations\<close>

definition wager_init :: "wager \<Rightarrow> bool" where
  "wager_init t \<longleftrightarrow> tx_id t \<noteq> uuid_Nil \<and> Kind_Valid (tx_kind t) \<and> State_Valid (tx_state t)
     \<and> IsInitialized (tx_amount t)"

lemma wager_checkInitialized_simps [simp]:
  "wager_checkInitialized t = Inr u \<longleftrightarrow> wager_init t"
  "wager_checkInitialized t = Inl e \<longleftrightarrow> \<not> wager_init t \<and> e = FErrUninitialized"
  by (auto simp: wager_checkInitialized_def wager_init_def id_IsZero_def)

lemma transition_Inr_iff:
  "transition t s now = Inr u \<longleftrightarrow>
     wager_init t \<and> now \<noteq> 0 \<and> (tx_state t = StatePending \<or> tx_state t = StatePendingReference)"
  by (auto simp: transition_def time_defs res_simps)

lemma validateObservation_Inr_iff:
  "validateObservation r b = Inr u \<longleftrightarrow> IsInitialized b \<and> 0 \<le> amt b"
  by (auto simp: validateObservation_def amt_simps)

lemma MarkPendingReference_Inr_iff:
  "MarkPendingReference t d now = Inr t' \<longleftrightarrow>
     wager_init t \<and> tx_state t = StatePending \<and> d \<noteq> 0 \<and> now \<noteq> 0 \<and> now < d
     \<and> t' = t\<lparr>tx_state := StatePendingReference, tx_referenceDeadline := d, tx_updatedAt := now\<rparr>"
  by (auto simp: MarkPendingReference_def time_defs res_simps)

lemma MarkProcessed_Inr_iff:
  "MarkProcessed t r b now = Inr t' \<longleftrightarrow>
     transition t StateProcessed now = Inr () \<and> IsInitialized b \<and> 0 \<le> amt b
     \<and> t' = t\<lparr>tx_state := StateProcessed, tx_referenceTransactionID := r, tx_observedBalance := b\<rparr>"
  by (auto simp: MarkProcessed_def res_simps validateObservation_Inr_iff)

lemma MarkRejected_Inr_iff:
  "MarkRejected t r c b now = Inr t' \<longleftrightarrow>
     transition t StateRejected now = Inr () \<and> FailureCode_Valid c
     \<and> c \<noteq> FailurePermanentInfrastructure \<and> IsInitialized b \<and> 0 \<le> amt b
     \<and> t' = t\<lparr>tx_state := StateRejected, tx_referenceTransactionID := r, tx_failureCode := c,
             tx_observedBalance := b\<rparr>"
  by (auto simp: MarkRejected_def res_simps validateObservation_Inr_iff)

lemma MarkFailed_Inr_iff:
  "MarkFailed t b now = Inr t' \<longleftrightarrow>
     transition t StateFailed now = Inr () \<and> IsInitialized b
     \<and> t' = t\<lparr>tx_state := StateFailed, tx_failureCode := FailurePermanentInfrastructure,
             tx_observedBalance := b\<rparr>"
  by (auto simp: MarkFailed_def res_simps)

lemmas mark_iffs = MarkPendingReference_Inr_iff MarkProcessed_Inr_iff MarkRejected_Inr_iff
  MarkFailed_Inr_iff

text \<open>What the external constructor demands of its parameters.\<close>

definition amount_rule :: "kind \<Rightarrow> money \<Rightarrow> bool" where
  "amount_rule k m \<longleftrightarrow> (if k = KindLoss then amt m = 0 else 0 < amt m)"

definition reference_rule :: "kind \<Rightarrow> external_id \<Rightarrow> bool" where
  "reference_rule k r \<longleftrightarrow>
     (k = KindBet \<longrightarrow> r = '''') \<and> (k = KindRefund \<or> k = KindRollback \<longrightarrow> r \<noteq> '''')"

definition external_params_ok :: "external_params \<Rightarrow> bool" where
  "external_params_ok p \<longleftrightarrow>
     ep_ID p \<noteq> uuid_Nil \<and> ep_WalletID p \<noteq> uuid_Nil \<and> ep_PlayerID p \<noteq> uuid_Nil
     \<and> ep_ProviderID p \<noteq> '''' \<and> ep_ExternalTransactionID p \<noteq> '''' \<and> ep_RoundID p \<noteq> ''''
     \<and> ep_GameID p \<noteq> '''' \<and> ep_IdempotencyKey p \<noteq> '''' \<and> ep_DigestVersion p \<noteq> ''''
     \<and> ep_Digest p \<noteq> '''' \<and> Kind_IsExternal (ep_Kind p) \<and> IsInitialized (ep_Amount p)
     \<and> ep_Now p \<noteq> 0 \<and> amount_rule (ep_Kind p) (ep_Amount p)
     \<and> reference_rule (ep_Kind p) (ep_ReferenceExternalID p)"

definition external_wager :: "external_params \<Rightarrow> wager" where
  "external_wager p =
     \<lparr>tx_id = ep_ID p, tx_origin = OriginExternal, tx_kind = ep_Kind p,
      tx_providerID = ep_ProviderID p, tx_externalTransactionID = ep_ExternalTransactionID p,
      tx_idempotencyKey = ep_IdempotencyKey p, tx_digestVersion = ep_DigestVersion p,
      tx_digest = ep_Digest p, tx_walletID = ep_WalletID p, tx_playerID = ep_PlayerID p,
      tx_roundID = ep_RoundID p, tx_gameID = ep_GameID p, tx_amount = ep_Amount p,
      tx_referenceExternalTransactionID = ep_ReferenceExternalID p,
      tx_referenceTransactionID = uuid_Nil, tx_state = StatePending, tx_failureCode = '''',
      tx_observedBalance = money_nil, tx_referenceDeadline = 0,
      tx_createdAt = ep_Now p, tx_updatedAt = ep_Now p\<rparr>"

lemma Kind_external_valid [simp]: "Kind_IsExternal k \<Longrightarrow> Kind_Valid k"
  by (auto simp: Kind_IsExternal_def Kind_Valid_def)

lemma NewExternalTransaction_Inr_iff:
  "NewExternalTransaction p = Inr t \<longleftrightarrow> external_params_ok p \<and> t = external_wager p"
  by (auto simp: NewExternalTransaction_def external_params_ok_def external_wager_def
      amount_rule_def reference_rule_def id_IsZero_def text_IsZero_def time_defs amt_simps
      split: if_splits)

lemma NewInternalOpening_Inr_iff:
  "NewInternalOpening i w p a now = Inr t \<longleftrightarrow>
     i \<noteq> uuid_Nil \<and> w \<noteq> uuid_Nil \<and> p \<noteq> uuid_Nil \<and> IsInitialized a \<and> 0 < amt a \<and> now \<noteq> 0
     \<and> t = \<lparr>tx_id = i, tx_origin = OriginInternal, tx_kind = KindOpening,
         tx_providerID = '''', tx_externalTransactionID = '''', tx_idempotencyKey = '''',
         tx_digestVersion = '''', tx_digest = '''', tx_walletID = w, tx_playerID = p,
         tx_roundID = '''', tx_gameID = '''', tx_amount = a,
         tx_referenceExternalTransactionID = '''', tx_referenceTransactionID = uuid_Nil,
         tx_state = StatePending, tx_failureCode = '''', tx_observedBalance = money_nil,
         tx_referenceDeadline = 0, tx_createdAt = now, tx_updatedAt = now\<rparr>"
  by (auto simp: NewInternalOpening_def id_IsZero_def time_defs amt_simps split: if_splits)

text \<open>What rehydration accepts.\<close>

definition wager_row_ok :: "wager \<Rightarrow> bool" where
  "wager_row_ok t \<longleftrightarrow>
     tx_id t \<noteq> uuid_Nil \<and> tx_walletID t \<noteq> uuid_Nil \<and> tx_playerID t \<noteq> uuid_Nil
     \<and> State_Valid (tx_state t) \<and> IsInitialized (tx_amount t)
     \<and> tx_createdAt t \<noteq> 0 \<and> tx_updatedAt t \<noteq> 0 \<and> tx_createdAt t \<le> tx_updatedAt t
     \<and> (tx_failureCode t = '''' \<or> FailureCode_Valid (tx_failureCode t))
     \<and> ((tx_origin t = OriginExternal \<and> Kind_IsExternal (tx_kind t)
           \<and> tx_providerID t \<noteq> '''' \<and> tx_externalTransactionID t \<noteq> '''' \<and> tx_idempotencyKey t \<noteq> ''''
           \<and> tx_digestVersion t \<noteq> '''' \<and> tx_digest t \<noteq> '''' \<and> tx_roundID t \<noteq> '''' \<and> tx_gameID t \<noteq> '''')
        \<or> (tx_origin t = OriginInternal \<and> tx_kind t = KindOpening
           \<and> tx_providerID t = '''' \<and> tx_externalTransactionID t = '''' \<and> tx_idempotencyKey t = ''''
           \<and> tx_digestVersion t = '''' \<and> tx_digest t = '''' \<and> tx_roundID t = '''' \<and> tx_gameID t = ''''
           \<and> tx_referenceExternalTransactionID t = ''''))"

lemma Kind_Valid_Opening [simp]: "Kind_Valid KindOpening"
  by (simp add: Kind_Valid_def)

lemma origin_neq [simp]: "OriginInternal \<noteq> OriginExternal" "OriginExternal \<noteq> OriginInternal"
  by (simp_all add: origin_defs)

lemma Origin_Valid_simps [simp]: "Origin_Valid OriginInternal" "Origin_Valid OriginExternal"
  by (simp_all add: Origin_Valid_def)

lemma RehydrateTransaction_eq_ok: "wager_row_ok t \<Longrightarrow> RehydrateTransaction t = Inr t"
  by (auto simp: RehydrateTransaction_def wager_row_ok_def id_IsZero_def text_IsZero_def time_defs)

lemma RehydrateTransaction_Inr_iff: "RehydrateTransaction p = Inr t \<longleftrightarrow> wager_row_ok p \<and> t = p"
proof
  assume "RehydrateTransaction p = Inr t"
  then have "wager_row_ok p"
    by (cases "tx_origin p = OriginExternal")
      (auto simp: RehydrateTransaction_def wager_row_ok_def id_IsZero_def text_IsZero_def
        time_defs Origin_Valid_def split: if_splits)
  then show "wager_row_ok p \<and> t = p"
    using \<open>RehydrateTransaction p = Inr t\<close> by (simp add: RehydrateTransaction_eq_ok)
qed (simp add: RehydrateTransaction_eq_ok)

section \<open>The life of a transaction\<close>

inductive wager_step :: "wager \<Rightarrow> wager \<Rightarrow> bool" where
  step_pending: "MarkPendingReference t deadline now = Inr t' \<Longrightarrow> wager_step t t'"
| step_processed: "MarkProcessed t r b now = Inr t' \<Longrightarrow> wager_step t t'"
| step_rejected: "MarkRejected t r c b now = Inr t' \<Longrightarrow> wager_step t t'"
| step_failed: "MarkFailed t b now = Inr t' \<Longrightarrow> wager_step t t'"

inductive_cases wager_stepE: "wager_step t t'"

inductive wager_reach :: "wager \<Rightarrow> bool" where
  reach_external: "NewExternalTransaction p = Inr t \<Longrightarrow> wager_reach t"
| reach_opening: "NewInternalOpening i w pl a now = Inr t \<Longrightarrow> wager_reach t"
| reach_step: "wager_reach t \<Longrightarrow> wager_step t t' \<Longrightarrow> wager_reach t'"

text \<open>The phases of a transaction are ordered; every step moves to a later one.\<close>

datatype phase = Waiting | AwaitingReference | Settled

fun phase_rank :: "phase \<Rightarrow> nat" where
  "phase_rank Waiting = 0"
| "phase_rank AwaitingReference = 1"
| "phase_rank Settled = 2"

instantiation phase :: linorder
begin

definition less_eq_phase :: "phase \<Rightarrow> phase \<Rightarrow> bool" where
  "less_eq_phase p q \<longleftrightarrow> phase_rank p \<le> phase_rank q"

definition less_phase :: "phase \<Rightarrow> phase \<Rightarrow> bool" where
  "less_phase p q \<longleftrightarrow> phase_rank p < phase_rank q"

instance
proof
  fix p q r :: phase
  show "p < q \<longleftrightarrow> p \<le> q \<and> \<not> q \<le> p" by (auto simp: less_phase_def less_eq_phase_def)
  show "p \<le> p" by (simp add: less_eq_phase_def)
  show "p \<le> q \<Longrightarrow> q \<le> r \<Longrightarrow> p \<le> r" by (simp add: less_eq_phase_def)
  show "p \<le> q \<Longrightarrow> q \<le> p \<Longrightarrow> p = q" by (cases p; cases q) (simp_all add: less_eq_phase_def)
  show "p \<le> q \<or> q \<le> p" by (auto simp: less_eq_phase_def)
qed

end

definition phase_of :: "wager \<Rightarrow> phase" where
  "phase_of t = (if tx_state t = StatePending then Waiting
                 else if tx_state t = StatePendingReference then AwaitingReference
                 else Settled)"

text \<open>Everything of a transaction that no transition may touch.\<close>

definition wager_core :: "wager \<Rightarrow> wager" where
  "wager_core t = t\<lparr>tx_referenceTransactionID := uuid_Nil, tx_state := StatePending,
     tx_failureCode := '''', tx_observedBalance := money_nil, tx_referenceDeadline := 0,
     tx_updatedAt := 0\<rparr>"

lemma wager_core_updates [simp]:
  "wager_core (t\<lparr>tx_referenceTransactionID := r\<rparr>) = wager_core t"
  "wager_core (t\<lparr>tx_state := s\<rparr>) = wager_core t"
  "wager_core (t\<lparr>tx_failureCode := c\<rparr>) = wager_core t"
  "wager_core (t\<lparr>tx_observedBalance := b\<rparr>) = wager_core t"
  "wager_core (t\<lparr>tx_referenceDeadline := d\<rparr>) = wager_core t"
  "wager_core (t\<lparr>tx_updatedAt := u\<rparr>) = wager_core t"
  by (simp_all add: wager_core_def)

lemma wager_core_fields:
  assumes "wager_core t = wager_core t'"
  shows "tx_id t = tx_id t'" "tx_origin t = tx_origin t'" "tx_kind t = tx_kind t'"
    "tx_providerID t = tx_providerID t'" "tx_externalTransactionID t = tx_externalTransactionID t'"
    "tx_idempotencyKey t = tx_idempotencyKey t'" "tx_digestVersion t = tx_digestVersion t'"
    "tx_digest t = tx_digest t'" "tx_walletID t = tx_walletID t'" "tx_playerID t = tx_playerID t'"
    "tx_roundID t = tx_roundID t'" "tx_gameID t = tx_gameID t'" "tx_amount t = tx_amount t'"
    "tx_referenceExternalTransactionID t = tx_referenceExternalTransactionID t'"
    "tx_createdAt t = tx_createdAt t'"
  using assms by (cases t; cases t'; simp add: wager_core_def)+

lemmas step_simps = mark_iffs transition_Inr_iff State_IsTerminal_def phase_of_def
  less_phase_def

lemma wager_step_not_terminal: "wager_step t t' \<Longrightarrow> \<not> State_IsTerminal (tx_state t)"
  by (erule wager_stepE) (auto simp: step_simps)

lemma wager_step_phase: "wager_step t t' \<Longrightarrow> phase_of t < phase_of t'"
  by (erule wager_stepE) (auto simp: step_simps)

lemma wager_step_core: "wager_step t t' \<Longrightarrow> wager_core t' = wager_core t"
  by (erule wager_stepE) (auto simp: mark_iffs)

lemma phase_rank_le: "phase_rank p \<le> 2"
  by (cases p) simp_all

lemma wager_steps_rank:
  "(wager_step ^^ n) t t' \<Longrightarrow> phase_rank (phase_of t) + n \<le> phase_rank (phase_of t')"
proof (induction n arbitrary: t')
  case (Suc n)
  then obtain u where "(wager_step ^^ n) t u" "wager_step u t'" by auto
  with Suc.IH [of u] wager_step_phase [of u t'] show ?case
    by (simp add: less_phase_def)
qed auto

text \<open>The outcome fields that each state carries.\<close>

definition wager_outcome_ok :: "wager \<Rightarrow> bool" where
  "wager_outcome_ok t \<longleftrightarrow>
     (if tx_state t = StatePending \<or> tx_state t = StatePendingReference then
        tx_failureCode t = '''' \<and> tx_observedBalance t = money_nil
        \<and> tx_referenceTransactionID t = uuid_Nil
        \<and> (tx_referenceDeadline t \<noteq> 0 \<longleftrightarrow> tx_state t = StatePendingReference)
      else if tx_state t = StateProcessed then
        tx_failureCode t = '''' \<and> IsInitialized (tx_observedBalance t) \<and> 0 \<le> amt (tx_observedBalance t)
      else if tx_state t = StateRejected then
        FailureCode_Valid (tx_failureCode t) \<and> tx_failureCode t \<noteq> FailurePermanentInfrastructure
        \<and> IsInitialized (tx_observedBalance t) \<and> 0 \<le> amt (tx_observedBalance t)
      else tx_state t = StateFailed \<and> tx_failureCode t = FailurePermanentInfrastructure
        \<and> IsInitialized (tx_observedBalance t))"

lemma wager_outcome_step: "wager_step t t' \<Longrightarrow> wager_outcome_ok t \<Longrightarrow> wager_outcome_ok t'"
  by (erule wager_stepE) (auto simp: mark_iffs transition_Inr_iff wager_outcome_ok_def)

text \<open>The fields fixed at creation, in a form that no transition affects.\<close>

definition wager_core_ok :: "wager \<Rightarrow> bool" where
  "wager_core_ok t \<longleftrightarrow>
     wager_row_ok (t\<lparr>tx_state := StatePending, tx_failureCode := '''', tx_updatedAt := tx_createdAt t\<rparr>)
     \<and> amount_rule (tx_kind t) (tx_amount t)
     \<and> reference_rule (tx_kind t) (tx_referenceExternalTransactionID t)"

lemma State_Valid_simps [simp]:
  "State_Valid StatePending" "State_Valid StatePendingReference" "State_Valid StateProcessed"
  "State_Valid StateRejected" "State_Valid StateFailed"
  by (simp_all add: State_Valid_def)

lemma FailureCode_Valid_perm [simp]: "FailureCode_Valid FailurePermanentInfrastructure"
  by (simp add: FailureCode_Valid_def)

lemma wager_core_ok_step: "wager_step t t' \<Longrightarrow> wager_core_ok t \<Longrightarrow> wager_core_ok t'"
  by (erule wager_stepE) (auto simp: mark_iffs wager_core_ok_def wager_row_ok_def)

lemma wager_core_ok_external: "external_params_ok p \<Longrightarrow> wager_core_ok (external_wager p)"
  by (auto simp: wager_core_ok_def wager_row_ok_def external_params_ok_def external_wager_def)

lemma kind_opening_rules: "amount_rule KindOpening a \<longleftrightarrow> 0 < amt a" "reference_rule KindOpening ''''"
  by (simp_all add: amount_rule_def reference_rule_def kind_defs)

lemma wager_reach_ok: "wager_reach t \<Longrightarrow> wager_core_ok t \<and> wager_outcome_ok t"
proof (induction rule: wager_reach.induct)
  case (reach_external p t)
  then show ?case
    by (auto simp: NewExternalTransaction_Inr_iff wager_core_ok_external)
      (simp add: wager_outcome_ok_def external_wager_def)
next
  case (reach_opening i w pl a now t)
  then show ?case
    by (auto simp: NewInternalOpening_Inr_iff wager_core_ok_def wager_row_ok_def
        wager_outcome_ok_def kind_opening_rules)
next
  case (reach_step t t')
  then show ?case using wager_core_ok_step wager_outcome_step by blast
qed

lemma wager_row_ok_of_core:
  assumes "wager_core_ok t" and "wager_outcome_ok t" and "tx_createdAt t \<le> tx_updatedAt t"
    and "tx_updatedAt t \<noteq> 0"
  shows "wager_row_ok t"
  using assms by (auto simp: wager_core_ok_def wager_row_ok_def wager_outcome_ok_def split: if_splits)

section \<open>Properties\<close>

definition sample_params :: external_params where
  "sample_params =
     \<lparr>ep_ID = 10, ep_ProviderID = ''acme'', ep_ExternalTransactionID = ''bet-1'',
      ep_IdempotencyKey = ''key-1'', ep_DigestVersion = ''v1'', ep_Digest = ''d1'',
      ep_WalletID = 1, ep_PlayerID = 2, ep_RoundID = ''r1'', ep_GameID = ''g1'',
      ep_Kind = KindBet, ep_Amount = \<lparr>minorUnits = 2500, currency = ''BRL''\<rparr>,
      ep_ReferenceExternalID = '''', ep_Now = 100\<rparr>"

lemma sample_params_ok: "external_params_ok sample_params"
  by (simp add: external_params_ok_def sample_params_def uuid_Nil_def Kind_IsExternal_def
      IsInitialized_def amount_rule_def reference_rule_def)

lemma sample_processed:
  "MarkProcessed (external_wager sample_params) uuid_Nil \<lparr>minorUnits = 500, currency = ''BRL''\<rparr> 900
   = Inr ((external_wager sample_params)\<lparr>tx_state := StateProcessed,
       tx_referenceTransactionID := uuid_Nil,
       tx_observedBalance := \<lparr>minorUnits = 500, currency = ''BRL''\<rparr>\<rparr>)"
  by (simp add: MarkProcessed_Inr_iff transition_Inr_iff wager_init_def external_wager_def
      sample_params_def uuid_Nil_def IsInitialized_def Kind_Valid_def)

text \<open>
  The constructor of a provider transaction succeeds exactly on the documented parameters: the
  identities and the digest are present, the kind is one a provider may submit, the amount is zero
  for a LOSS and positive for every other kind, a BET has no reference and a REFUND or ROLLBACK has
  one; the new transaction is PENDING with no outcome.
\<close>

theorem external_transaction_exact:
  "NewExternalTransaction p = Inr t \<longleftrightarrow> external_params_ok p \<and> t = external_wager p"
  by (rule NewExternalTransaction_Inr_iff)

text \<open>
  C33: the state machine. Transitions leave non-terminal states only, keep identity, kind, amount,
  references supplied, digest and creation instant, and move to a later phase, so a transaction
  makes at most two of them and a terminal one none.
\<close>

theorem wager_transitions_bounded:
  assumes "(wager_step ^^ n) t t'"
  shows "n \<le> 2 \<and> wager_core t' = wager_core t
         \<and> (State_IsTerminal (tx_state t) \<longrightarrow> n = 0)"
proof -
  have n: "n \<le> 2"
    using wager_steps_rank [OF assms] phase_rank_le [of "phase_of t'"] by linarith
  have "wager_core t' = wager_core t"
    using assms by (induction n arbitrary: t') (auto simp: wager_step_core)
  moreover have "n = 0" if "State_IsTerminal (tx_state t)"
  proof (rule ccontr)
    assume "n \<noteq> 0"
    then obtain m where "n = Suc m" by (cases n) auto
    with assms obtain u where "wager_step t u" by (metis relpowp_Suc_E2)
    with that show False by (simp add: wager_step_not_terminal)
  qed
  ultimately show ?thesis using n by blast
qed

theorem wager_transitions_bounded_witness:
  "\<exists>t'. (wager_step ^^ 1) (external_wager sample_params) t' \<and> wager_core t' = wager_core (external_wager sample_params)"
proof -
  from sample_processed have "\<exists>t'. (wager_step ^^ 1) (external_wager sample_params) t'"
    by (auto intro: step_processed)
  then show ?thesis using wager_transitions_bounded by blast
qed

text \<open>
  C34: every transaction that the constructors and transitions can produce carries exactly the
  outcome its state calls for (none while pending, a deadline while waiting for a reference, an
  observed balance that is not negative once processed or rejected, a business failure code exactly
  when rejected, the permanent-infrastructure code exactly when failed), and is rehydrated from its
  persisted row, to the same value, exactly when its update instant is set and not before its creation.
  Parking a transaction with an earlier clock reaches one that is refused.
\<close>

theorem wager_reachable_wellformed:
  assumes "wager_reach t"
  shows "wager_outcome_ok t \<and> wager_core_ok t
         \<and> (RehydrateTransaction t = Inr t \<longleftrightarrow> tx_createdAt t \<le> tx_updatedAt t \<and> tx_updatedAt t \<noteq> 0)
         \<and> (\<forall>t'. RehydrateTransaction t = Inr t' \<longrightarrow> t' = t)"
proof -
  have "wager_row_ok t \<longleftrightarrow> tx_createdAt t \<le> tx_updatedAt t \<and> tx_updatedAt t \<noteq> 0"
    using wager_reach_ok [OF assms] wager_row_ok_of_core [of t] by (auto simp: wager_row_ok_def)
  then show ?thesis using wager_reach_ok [OF assms] by (simp add: RehydrateTransaction_Inr_iff)
qed

theorem wager_reachable_wellformed_witness:
  "RehydrateTransaction (external_wager sample_params) = Inr (external_wager sample_params)
   \<and> (\<exists>t. MarkPendingReference (external_wager sample_params) 200 50 = Inr t \<and> wager_outcome_ok t
        \<and> (\<exists>e. RehydrateTransaction t = Inl e))"
proof -
  let ?t = "external_wager sample_params"
  let ?p = "?t\<lparr>tx_state := StatePendingReference, tx_referenceDeadline := 200, tx_updatedAt := 50\<rparr>"
  have r: "wager_reach ?t"
    using sample_params_ok by (intro reach_external) (simp add: NewExternalTransaction_Inr_iff)
  have m: "MarkPendingReference ?t 200 50 = Inr ?p" by code_simp
  have "wager_reach ?p" using r step_pending [OF m] by (rule reach_step)
  note p = wager_reachable_wellformed [OF this]
  have "RehydrateTransaction ?p \<noteq> Inr ?p" using p by (simp add: external_wager_def sample_params_def)
  then have "\<exists>e. RehydrateTransaction ?p = Inl e" using p by (cases "RehydrateTransaction ?p") auto
  moreover have "RehydrateTransaction ?t = Inr ?t"
    using wager_reachable_wellformed [OF r] by (simp add: external_wager_def sample_params_def)
  ultimately show ?thesis using m p by blast
qed

text \<open>
  A terminal transition returns the transaction with the update instant it already had, not
  with the instant it is given: the assignment in \<open>transition\<close> is made to the receiver's copy.
\<close>

theorem terminal_transition_keeps_updatedAt:
  assumes "MarkProcessed t r b now = Inr t' \<or> MarkRejected t r c b now = Inr t'
           \<or> MarkFailed t b now = Inr t'"
  shows "State_IsTerminal (tx_state t') \<and> tx_updatedAt t' = tx_updatedAt t"
  using assms by (auto simp: mark_iffs State_IsTerminal_def)

theorem terminal_transition_keeps_updatedAt_witness:
  "\<exists>t'. MarkProcessed (external_wager sample_params) uuid_Nil \<lparr>minorUnits = 500, currency = ''BRL''\<rparr> 900
        = Inr t' \<and> tx_updatedAt t' = 100"
proof -
  note p = sample_processed
  from terminal_transition_keeps_updatedAt [OF disjI1 [OF p]] p show ?thesis
    by (auto simp: external_wager_def sample_params_def)
qed

end
