(* ===== verification/Event.thy ===== *)
theory Event
  imports Wager
begin

text \<open>
  \<open>internal/domain/event/event.go\<close>: the integration event contract, a versioned envelope with
  typed data. The constructors own the type and the version. \<open>Data any\<close> is the sum of the four
  payload records. The JSON text of an envelope is left to \<open>encoding/json\<close>; what the program
  depends on is whether marshalling fails, which happens exactly when a money member has no
  currency (\<open>Money.MarshalJSON\<close>), so \<open>marshal_envelope\<close> returns the envelope itself as the stored
  snapshot.
\<close>

section \<open>Envelope and payloads\<close>

type_synonym event_type = string

definition TypeWagerTransactionProcessed :: event_type where
  "TypeWagerTransactionProcessed = ''WagerTransactionProcessed''"
definition TypeWagerTransactionRejected :: event_type where
  "TypeWagerTransactionRejected = ''WagerTransactionRejected''"
definition TypeWalletBalanceChanged :: event_type where
  "TypeWalletBalanceChanged = ''WalletBalanceChanged''"
definition TypeWagerTransactionPendingReference :: event_type where
  "TypeWagerTransactionPendingReference = ''WagerTransactionPendingReference''"

lemmas event_type_defs = TypeWagerTransactionProcessed_def TypeWagerTransactionRejected_def
  TypeWalletBalanceChanged_def TypeWagerTransactionPendingReference_def

definition event_Version :: int where "event_Version = 1"

record processed_data =
  pd_TransactionID :: string
  pd_Origin :: string
  pd_ProviderID :: string
  pd_ExternalTransactionID :: string
  pd_WalletID :: string
  pd_PlayerID :: string
  pd_RoundID :: string
  pd_GameID :: string
  pd_Kind :: string
  pd_Money :: money
  pd_Balance :: money

record rejected_data =
  rd_TransactionID :: string
  rd_ProviderID :: string
  rd_ExternalTransactionID :: string
  rd_WalletID :: string
  rd_Kind :: string
  rd_Money :: money
  rd_FailureCode :: string
  rd_Balance :: money
  rd_ReferenceExternalTransactionID :: string

record balance_changed_data =
  bd_WalletID :: string
  bd_TransactionID :: string
  bd_Direction :: string
  bd_Money :: money
  bd_BalanceBefore :: money
  bd_BalanceAfter :: money
  bd_WalletVersion :: int64

record pending_reference_data =
  qd_TransactionID :: string
  qd_ProviderID :: string
  qd_ExternalTransactionID :: string
  qd_WalletID :: string
  qd_Kind :: string
  qd_Money :: money
  qd_ReferenceExternalTransactionID :: string
  qd_ExpiresAt :: time

datatype event_data =
    ProcessedData processed_data
  | RejectedData rejected_data
  | BalanceChangedData balance_changed_data
  | PendingReferenceData pending_reference_data

record envelope =
  ev_EventID :: string
  ev_EventType :: event_type
  ev_AggregateID :: string
  ev_CorrelationID :: string
  ev_CausationID :: string
  ev_OccurredAt :: time
  ev_Version :: int
  ev_Data :: event_data

record metadata =
  md_EventID :: string
  md_AggregateID :: string
  md_CorrelationID :: string
  md_CausationID :: string
  md_OccurredAt :: time

datatype event_error = EmptyEventID | EmptyAggregateID | EmptyCorrelationID | ZeroOccurrence

section \<open>Constructors\<close>

definition metadata_validate :: "metadata \<Rightarrow> event_error + unit" where
  "metadata_validate m =
     (if md_EventID m = '''' then Inl EmptyEventID
      else if md_AggregateID m = '''' then Inl EmptyAggregateID
      else if md_CorrelationID m = '''' then Inl EmptyCorrelationID
      else if time_IsZero (md_OccurredAt m) then Inl ZeroOccurrence
      else Inr ())"

definition newEnvelope :: "event_type \<Rightarrow> metadata \<Rightarrow> event_data \<Rightarrow> event_error + envelope" where
  "newEnvelope eventType meta d =
     res_bind (metadata_validate meta) (\<lambda>_. Inr
       \<lparr>ev_EventID = md_EventID meta, ev_EventType = eventType,
        ev_AggregateID = md_AggregateID meta, ev_CorrelationID = md_CorrelationID meta,
        ev_CausationID = md_CausationID meta, ev_OccurredAt = time_UTC (md_OccurredAt meta),
        ev_Version = event_Version, ev_Data = d\<rparr>)"

definition NewWagerTransactionProcessed :: "metadata \<Rightarrow> processed_data \<Rightarrow> event_error + envelope" where
  "NewWagerTransactionProcessed meta d =
     newEnvelope TypeWagerTransactionProcessed meta (ProcessedData d)"

definition NewWagerTransactionRejected :: "metadata \<Rightarrow> rejected_data \<Rightarrow> event_error + envelope" where
  "NewWagerTransactionRejected meta d =
     newEnvelope TypeWagerTransactionRejected meta (RejectedData d)"

definition NewWalletBalanceChanged :: "metadata \<Rightarrow> balance_changed_data \<Rightarrow> event_error + envelope" where
  "NewWalletBalanceChanged meta d =
     newEnvelope TypeWalletBalanceChanged meta (BalanceChangedData d)"

definition NewWagerTransactionPendingReference ::
  "metadata \<Rightarrow> pending_reference_data \<Rightarrow> event_error + envelope" where
  "NewWagerTransactionPendingReference meta d =
     newEnvelope TypeWagerTransactionPendingReference meta (PendingReferenceData d)"

section \<open>Snapshots\<close>

text \<open>The money members of a payload, in the order \<open>encoding/json\<close> visits them.\<close>

fun event_moneys :: "event_data \<Rightarrow> money list" where
  "event_moneys (ProcessedData d) = [pd_Money d, pd_Balance d]"
| "event_moneys (RejectedData d) = [rd_Money d, rd_Balance d]"
| "event_moneys (BalanceChangedData d) = [bd_Money d, bd_BalanceBefore d, bd_BalanceAfter d]"
| "event_moneys (PendingReferenceData d) = [qd_Money d]"

fun marshal_moneys :: "money list \<Rightarrow> money_error + unit" where
  "marshal_moneys [] = Inr ()"
| "marshal_moneys (m # ms) = res_bind (MarshalJSON m) (\<lambda>_. marshal_moneys ms)"

definition marshal_envelope :: "envelope \<Rightarrow> money_error + envelope" where
  "marshal_envelope e = res_bind (marshal_moneys (event_moneys (ev_Data e))) (\<lambda>_. Inr e)"

text \<open>The tag an envelope must carry for its payload.\<close>

fun type_of_data :: "event_data \<Rightarrow> event_type" where
  "type_of_data (ProcessedData d) = TypeWagerTransactionProcessed"
| "type_of_data (RejectedData d) = TypeWagerTransactionRejected"
| "type_of_data (BalanceChangedData d) = TypeWalletBalanceChanged"
| "type_of_data (PendingReferenceData d) = TypeWagerTransactionPendingReference"

definition event_types :: "event_type list" where
  "event_types = [TypeWagerTransactionProcessed, TypeWagerTransactionRejected,
     TypeWalletBalanceChanged, TypeWagerTransactionPendingReference]"

definition envelope_ok :: "envelope \<Rightarrow> bool" where
  "envelope_ok e \<longleftrightarrow>
     ev_EventID e \<noteq> '''' \<and> ev_AggregateID e \<noteq> '''' \<and> ev_CorrelationID e \<noteq> '''' \<and> ev_OccurredAt e \<noteq> 0
     \<and> ev_Version e = 1 \<and> ev_EventType e = type_of_data (ev_Data e)"

lemma metadata_validate_Inr [simp]:
  "metadata_validate m = Inr u \<longleftrightarrow>
     md_EventID m \<noteq> '''' \<and> md_AggregateID m \<noteq> '''' \<and> md_CorrelationID m \<noteq> '''' \<and> md_OccurredAt m \<noteq> 0"
  by (auto simp: metadata_validate_def time_defs)

lemma newEnvelope_Inr_iff:
  "newEnvelope t m d = Inr e \<longleftrightarrow>
     metadata_validate m = Inr ()
     \<and> e = \<lparr>ev_EventID = md_EventID m, ev_EventType = t, ev_AggregateID = md_AggregateID m,
           ev_CorrelationID = md_CorrelationID m, ev_CausationID = md_CausationID m,
           ev_OccurredAt = md_OccurredAt m, ev_Version = 1, ev_Data = d\<rparr>"
  by (auto simp: newEnvelope_def res_simps event_Version_def)

lemma newEnvelope_ok: "newEnvelope (type_of_data d) m d = Inr e \<Longrightarrow> envelope_ok e"
  by (auto simp: newEnvelope_Inr_iff envelope_ok_def)

lemma newEnvelope_ok_eq: "newEnvelope t m d = Inr e \<Longrightarrow> t = type_of_data d \<Longrightarrow> envelope_ok e"
  using newEnvelope_ok by blast

lemma type_of_data_known: "type_of_data d \<in> set event_types"
  by (cases d) (simp_all add: event_types_def)

lemma MarshalJSON_is_Inr: "(\<exists>w. MarshalJSON m = Inr w) \<longleftrightarrow> IsInitialized m"
  by (auto simp: MarshalJSON_def res_simps)

lemma marshal_moneys_Inr: "marshal_moneys ms = Inr u \<longleftrightarrow> list_all IsInitialized ms"
proof (induction ms)
  case (Cons m ms)
  then show ?case using MarshalJSON_is_Inr [of m] by (auto simp: res_simps)
qed simp

lemma marshal_envelope_Inr:
  "marshal_envelope e = Inr e' \<longleftrightarrow> e' = e \<and> list_all IsInitialized (event_moneys (ev_Data e))"
  by (auto simp: marshal_envelope_def res_simps marshal_moneys_Inr)

end
