(* ===== verification/AppErrors.thy ===== *)
theory AppErrors
  imports Event
begin

text \<open>
  \<open>internal/application/errors.go\<close> and \<open>internal/adapters/postgres/errors.go\<close>: the classified
  errors of the application, the sentinels of the persistence ports and the translation of driver
  failures into them. An error is the tree that \<open>errors.Is\<close> and \<open>errors.As\<close> walk; message texts
  are dropped.
\<close>

section \<open>Errors as trees\<close>

datatype sentinel =
    ErrContract | ErrConflict | ErrNotFound | ErrTransient
  | ErrWalletExists | ErrConcurrentWrite | ErrCorruptPersistedRecord | ErrOutboxLeaseLost
  | ErrInvariant

text \<open>
  What a driver call can return: a PostgreSQL error with its SQLSTATE and constraint name, or a
  failure of the connection.
\<close>

datatype pg_failure = PgError (pg_state: string) (pg_constraint: string) | DriverError

type_synonym error_code = string

text \<open>
  \<open>ClassError\<close> is \<open>*application.Error\<close>; \<open>Wrap s (Some e)\<close> is \<open>fmt.Errorf("%w: %w", s, e)\<close> and
  \<open>Wrap s None\<close> wraps the sentinel only; \<open>Plain\<close> is an error with no sentinel of its own, wrapping
  at most one other. \<open>Panicked\<close> is a panic on its way to the caller: no \<open>errors.Is\<close> test ever sees
  it succeed, and it leaves a function by the same route as an error that is returned unexamined.
\<close>

datatype app_error =
    ClassError sentinel error_code "app_error option"
  | Wrap sentinel "app_error option"
  | Plain "app_error option"
  | FromFin fin_error
  | FromEvent event_error
  | FromPg pg_failure
  | Panicked

primrec errors_Is :: "app_error \<Rightarrow> sentinel \<Rightarrow> bool" where
  "errors_Is (ClassError c code e) s \<longleftrightarrow>
     c = s \<or> (case map_option (\<lambda>x. errors_Is x s) e of None \<Rightarrow> False | Some b \<Rightarrow> b)"
| "errors_Is (Wrap t e) s \<longleftrightarrow>
     t = s \<or> (case map_option (\<lambda>x. errors_Is x s) e of None \<Rightarrow> False | Some b \<Rightarrow> b)"
| "errors_Is (Plain e) s \<longleftrightarrow> (case map_option (\<lambda>x. errors_Is x s) e of None \<Rightarrow> False | Some b \<Rightarrow> b)"
| "errors_Is (FromFin f) s \<longleftrightarrow> False"
| "errors_Is (FromEvent f) s \<longleftrightarrow> False"
| "errors_Is (FromPg f) s \<longleftrightarrow> False"
| "errors_Is Panicked s \<longleftrightarrow> False"

section \<open>Codes and constructors\<close>

definition CodeInvalidRequest :: error_code where "CodeInvalidRequest = ''INVALID_REQUEST''"
definition CodeInvalidMoney :: error_code where "CodeInvalidMoney = ''INVALID_MONEY''"
definition CodeUnsupportedCurrency :: error_code where
  "CodeUnsupportedCurrency = ''UNSUPPORTED_CURRENCY''"
definition CodeIdempotencyKeyRequired :: error_code where
  "CodeIdempotencyKeyRequired = ''IDEMPOTENCY_KEY_REQUIRED''"
definition CodeReferenceRequired :: error_code where "CodeReferenceRequired = ''REFERENCE_REQUIRED''"
definition CodeInvalidLossAmount :: error_code where "CodeInvalidLossAmount = ''INVALID_LOSS_AMOUNT''"
definition CodeInvalidCursor :: error_code where "CodeInvalidCursor = ''INVALID_CURSOR''"
definition CodeInvalidLimit :: error_code where "CodeInvalidLimit = ''INVALID_LIMIT''"
definition CodeWalletAlreadyExists :: error_code where
  "CodeWalletAlreadyExists = ''WALLET_ALREADY_EXISTS''"
definition CodeIdempotencyConflict :: error_code where
  "CodeIdempotencyConflict = ''IDEMPOTENCY_CONFLICT''"
definition CodeExternalTransactionConflict :: error_code where
  "CodeExternalTransactionConflict = ''EXTERNAL_TRANSACTION_CONFLICT''"
definition CodeNotFound :: error_code where "CodeNotFound = ''NOT_FOUND''"
definition CodeServiceUnavailable :: error_code where
  "CodeServiceUnavailable = ''SERVICE_UNAVAILABLE''"
definition CodeInboxPayloadConflict :: error_code where
  "CodeInboxPayloadConflict = ''INBOX_PAYLOAD_CONFLICT''"
definition CodeInvalidMessage :: error_code where "CodeInvalidMessage = ''INVALID_MESSAGE''"

definition contractError :: "error_code \<Rightarrow> app_error" where
  "contractError code = ClassError ErrContract code None"
definition conflictError :: "error_code \<Rightarrow> app_error option \<Rightarrow> app_error" where
  "conflictError code cause = ClassError ErrConflict code cause"
definition notFoundError :: app_error where
  "notFoundError = ClassError ErrNotFound CodeNotFound None"
definition transientError :: "app_error option \<Rightarrow> app_error" where
  "transientError cause = ClassError ErrTransient CodeServiceUnavailable cause"
definition wrapInvariant :: "app_error option \<Rightarrow> app_error" where
  "wrapInvariant e = Wrap ErrInvariant e"
definition corruptRecord :: "app_error option \<Rightarrow> app_error" where
  "corruptRecord e = Wrap ErrCorruptPersistedRecord e"

lemmas error_defs = contractError_def conflictError_def notFoundError_def transientError_def
  wrapInvariant_def corruptRecord_def

primrec ErrorCodeOf :: "app_error \<Rightarrow> error_code option" where
  "ErrorCodeOf (ClassError c code e) = Some code"
| "ErrorCodeOf (Wrap t e) = (case map_option ErrorCodeOf e of None \<Rightarrow> None | Some r \<Rightarrow> r)"
| "ErrorCodeOf (Plain e) = (case map_option ErrorCodeOf e of None \<Rightarrow> None | Some r \<Rightarrow> r)"
| "ErrorCodeOf (FromFin f) = None"
| "ErrorCodeOf (FromEvent f) = None"
| "ErrorCodeOf (FromPg f) = None"
| "ErrorCodeOf Panicked = None"

definition IsContract :: "app_error \<Rightarrow> bool" where "IsContract e = errors_Is e ErrContract"
definition IsConflict :: "app_error \<Rightarrow> bool" where "IsConflict e = errors_Is e ErrConflict"
definition IsNotFound :: "app_error \<Rightarrow> bool" where "IsNotFound e = errors_Is e ErrNotFound"
definition IsTransient :: "app_error \<Rightarrow> bool" where "IsTransient e = errors_Is e ErrTransient"

lemmas class_defs = IsContract_def IsConflict_def IsNotFound_def IsTransient_def

section \<open>Driver failures\<close>

definition sqlStateUniqueViolation :: string where "sqlStateUniqueViolation = ''23505''"
definition sqlStateForeignKeyViolation :: string where "sqlStateForeignKeyViolation = ''23503''"
definition sqlStateCheckViolation :: string where "sqlStateCheckViolation = ''23514''"
definition sqlStateSerialization :: string where "sqlStateSerialization = ''40001''"
definition sqlStateDeadlock :: string where "sqlStateDeadlock = ''40P01''"

lemmas sqlstate_defs = sqlStateUniqueViolation_def sqlStateForeignKeyViolation_def
  sqlStateCheckViolation_def sqlStateSerialization_def sqlStateDeadlock_def

definition constraintWalletsPlayerCurrency :: string where
  "constraintWalletsPlayerCurrency = ''wallets_playerid_currency_key''"
definition constraintProviderKeyIndex :: string where
  "constraintProviderKeyIndex = ''wager_transactions_provider_key_idx''"
definition constraintProviderExternalIndex :: string where
  "constraintProviderExternalIndex = ''wager_transactions_provider_externaltransactionid_idx''"
definition constraintOpeningWalletIndex :: string where
  "constraintOpeningWalletIndex = ''wager_transactions_opening_walletid_idx''"
definition constraintLedgerWalletTransactionKey :: string where
  "constraintLedgerWalletTransactionKey = ''wallet_ledger_entries_walletid_transactionid_key''"
definition constraintClaimReferenceKey :: string where
  "constraintClaimReferenceKey = ''reversal_claims_referencetransactionid_key''"
definition constraintClaimReversalKey :: string where
  "constraintClaimReversalKey = ''reversal_claims_reversaltransactionid_key''"

lemmas constraint_defs = constraintWalletsPlayerCurrency_def constraintProviderKeyIndex_def
  constraintProviderExternalIndex_def constraintOpeningWalletIndex_def
  constraintLedgerWalletTransactionKey_def constraintClaimReferenceKey_def
  constraintClaimReversalKey_def

text \<open>\<open>strings.ToLower\<close> on the ASCII names of the catalog.\<close>

definition to_lower_char :: "char \<Rightarrow> char" where
  "to_lower_char c = (if is_upper c then char_of (byte_of c + 32) else c)"

definition ToLower :: "string \<Rightarrow> string" where "ToLower s = map to_lower_char s"

definition uniqueViolationError :: "pg_failure \<Rightarrow> app_error" where
  "uniqueViolationError f =
     (let name = ToLower (pg_constraint f) in
      if name = constraintWalletsPlayerCurrency then Wrap ErrWalletExists (Some (FromPg f))
      else if name \<in> set [constraintProviderKeyIndex, constraintProviderExternalIndex,
                        constraintOpeningWalletIndex, constraintLedgerWalletTransactionKey,
                        constraintClaimReferenceKey, constraintClaimReversalKey]
      then Wrap ErrConcurrentWrite (Some (FromPg f))
      else Wrap ErrConcurrentWrite (Some (FromPg f)))"

definition mapError :: "pg_failure \<Rightarrow> app_error" where
  "mapError f =
     (case f of
        PgError st cn \<Rightarrow>
          if st = sqlStateUniqueViolation then uniqueViolationError f
          else if st = sqlStateSerialization \<or> st = sqlStateDeadlock
          then Wrap ErrConcurrentWrite (Some (FromPg f))
          else if st = sqlStateCheckViolation \<or> st = sqlStateForeignKeyViolation
          then Wrap ErrCorruptPersistedRecord None
          else Wrap ErrTransient (Some (FromPg f))
      | DriverError \<Rightarrow> Wrap ErrTransient (Some (FromPg f)))"

definition corruptRow :: "fin_error \<Rightarrow> app_error" where
  "corruptRow e = Wrap ErrCorruptPersistedRecord (Some (FromFin e))"

section \<open>Lemmas\<close>

text \<open>Which classes an error belongs to, as a set.\<close>

definition classes :: "app_error \<Rightarrow> sentinel set" where
  "classes e = {s. errors_Is e s \<and> s \<in> {ErrContract, ErrConflict, ErrNotFound, ErrTransient}}"

lemma errors_Is_smart [simp]:
  "errors_Is (contractError c) s \<longleftrightarrow> s = ErrContract"
  "errors_Is (conflictError c None) s \<longleftrightarrow> s = ErrConflict"
  "errors_Is (conflictError c (Some e)) s \<longleftrightarrow> s = ErrConflict \<or> errors_Is e s"
  "errors_Is notFoundError s \<longleftrightarrow> s = ErrNotFound"
  "errors_Is (transientError None) s \<longleftrightarrow> s = ErrTransient"
  "errors_Is (transientError (Some e)) s \<longleftrightarrow> s = ErrTransient \<or> errors_Is e s"
  "errors_Is (wrapInvariant None) s \<longleftrightarrow> s = ErrInvariant"
  "errors_Is (wrapInvariant (Some e)) s \<longleftrightarrow> s = ErrInvariant \<or> errors_Is e s"
  "errors_Is (corruptRecord None) s \<longleftrightarrow> s = ErrCorruptPersistedRecord"
  "errors_Is (corruptRecord (Some e)) s \<longleftrightarrow> s = ErrCorruptPersistedRecord \<or> errors_Is e s"
  "errors_Is (corruptRow f) s \<longleftrightarrow> s = ErrCorruptPersistedRecord"
  by (auto simp: error_defs corruptRow_def)

lemma uniqueViolationError_is:
  "errors_Is (uniqueViolationError f) s \<longleftrightarrow>
     s = (if ToLower (pg_constraint f) = constraintWalletsPlayerCurrency then ErrWalletExists
          else ErrConcurrentWrite)"
  by (auto simp: uniqueViolationError_def Let_def)

lemma sqlstate_neq [simp]:
  "sqlStateUniqueViolation \<noteq> sqlStateSerialization" "sqlStateSerialization \<noteq> sqlStateUniqueViolation"
  "sqlStateUniqueViolation \<noteq> sqlStateDeadlock" "sqlStateDeadlock \<noteq> sqlStateUniqueViolation"
  "sqlStateUniqueViolation \<noteq> sqlStateCheckViolation" "sqlStateCheckViolation \<noteq> sqlStateUniqueViolation"
  "sqlStateUniqueViolation \<noteq> sqlStateForeignKeyViolation"
  "sqlStateForeignKeyViolation \<noteq> sqlStateUniqueViolation"
  "sqlStateCheckViolation \<noteq> sqlStateSerialization" "sqlStateCheckViolation \<noteq> sqlStateDeadlock"
  "sqlStateForeignKeyViolation \<noteq> sqlStateSerialization"
  "sqlStateForeignKeyViolation \<noteq> sqlStateDeadlock"
  by (simp_all add: sqlstate_defs)

section \<open>Properties\<close>

text \<open>
  The translation of driver failures. Every failure maps to exactly one sentinel: a unique
  violation is a concurrent write except on the player/currency key of the wallets; a
  serialization failure or deadlock is a concurrent write too; a check or foreign-key violation is
  corruption; anything else is transient, so an unknown database failure never gives a durable
  outcome.
\<close>

theorem mapError_classification:
  "errors_Is (mapError f) s \<longleftrightarrow>
     s = (case f of DriverError \<Rightarrow> ErrTransient
          | PgError st cn \<Rightarrow>
              if st = sqlStateUniqueViolation then
                (if ToLower cn = constraintWalletsPlayerCurrency then ErrWalletExists else ErrConcurrentWrite)
              else if st = sqlStateSerialization \<or> st = sqlStateDeadlock then ErrConcurrentWrite
              else if st = sqlStateCheckViolation \<or> st = sqlStateForeignKeyViolation
              then ErrCorruptPersistedRecord else ErrTransient)"
  by (cases f) (auto simp: mapError_def uniqueViolationError_is)

end
