(* ===== verification/Commands.thy ===== *)
theory Commands
  imports AppErrors
begin

text \<open>
  \<open>internal/application/commands.go\<close>: the transport-neutral commands, the contract checks that
  reject a command before any row is written, and the views the use cases return. The lemmas relate
  the contract of a submit command to the domain constructor: a validated command never fails there.
\<close>

section \<open>Commands\<close>

record open_command =
  oc_PlayerID :: player_id
  oc_InitialBalance :: money
  oc_CorrelationID :: string

definition OpenWalletCommand_Validate :: "open_command \<Rightarrow> app_error + unit" where
  "OpenWalletCommand_Validate c =
     (if id_IsZero (oc_PlayerID c) then Inl (contractError CodeInvalidRequest)
      else if \<not> IsInitialized (oc_InitialBalance c) then Inl (contractError CodeInvalidMoney)
      else if IsNegative (oc_InitialBalance c) then Inl (contractError CodeInvalidMoney)
      else Inr ())"

record submit_command =
  sc_ProviderID :: provider_id
  sc_ExternalTransactionID :: external_id
  sc_IdempotencyKey :: idempotency_key
  sc_WalletID :: wallet_id
  sc_PlayerID :: player_id
  sc_RoundID :: external_id
  sc_GameID :: external_id
  sc_Kind :: kind
  sc_Amount :: money
  sc_ReferenceExternalID :: external_id
  sc_CorrelationID :: string

definition SubmitWagerCommand_Validate :: "submit_command \<Rightarrow> app_error + unit" where
  "SubmitWagerCommand_Validate c =
     (if text_IsZero (sc_ProviderID c) then Inl (contractError CodeInvalidRequest)
      else if text_IsZero (sc_ExternalTransactionID c) then Inl (contractError CodeInvalidRequest)
      else if id_IsZero (sc_WalletID c) then Inl (contractError CodeInvalidRequest)
      else if id_IsZero (sc_PlayerID c) then Inl (contractError CodeInvalidRequest)
      else if text_IsZero (sc_RoundID c) then Inl (contractError CodeInvalidRequest)
      else if text_IsZero (sc_GameID c) then Inl (contractError CodeInvalidRequest)
      else if text_IsZero (sc_IdempotencyKey c) then Inl (contractError CodeIdempotencyKeyRequired)
      else if \<not> Kind_Valid (sc_Kind c) \<or> \<not> Kind_IsExternal (sc_Kind c)
      then Inl (contractError CodeInvalidRequest)
      else if \<not> IsInitialized (sc_Amount c) then Inl (contractError CodeInvalidMoney)
      else if sc_Kind c = KindLoss then
        (if \<not> IsZero (sc_Amount c) then Inl (contractError CodeInvalidLossAmount)
         else if \<not> text_IsZero (sc_ReferenceExternalID c) then Inl (contractError CodeInvalidRequest)
         else Inr ())
      else if sc_Kind c = KindBet then
        (if \<not> IsPositive (sc_Amount c) then Inl (contractError CodeInvalidRequest)
         else if \<not> text_IsZero (sc_ReferenceExternalID c) then Inl (contractError CodeInvalidRequest)
         else Inr ())
      else if sc_Kind c = KindRefund \<or> sc_Kind c = KindRollback then
        (if \<not> IsPositive (sc_Amount c) then Inl (contractError CodeInvalidRequest)
         else if text_IsZero (sc_ReferenceExternalID c) then Inl (contractError CodeReferenceRequired)
         else Inr ())
      else if \<not> IsPositive (sc_Amount c) then Inl (contractError CodeInvalidRequest)
      else Inr ())"

record resolve_command =
  rcm_TransactionID :: transaction_id
  rcm_CorrelationID :: string

definition ResolvePendingReferenceCommand_Validate :: "resolve_command \<Rightarrow> app_error + unit" where
  "ResolvePendingReferenceCommand_Validate c =
     (if id_IsZero (rcm_TransactionID c) then Inl (contractError CodeInvalidRequest) else Inr ())"

record inbox_delivery =
  dl_ConsumerName :: string
  dl_MessageID :: string
  dl_Digest :: string
  dl_ReceivedAt :: time

definition InboxDelivery_Validate :: "inbox_delivery \<Rightarrow> app_error + unit" where
  "InboxDelivery_Validate d =
     (if dl_ConsumerName d = '''' then Inl (contractError CodeInvalidRequest)
      else if dl_MessageID d = '''' then Inl (contractError CodeInvalidRequest)
      else if length (dl_Digest d) \<noteq> 64 then Inl (contractError CodeInvalidRequest)
      else if time_IsZero (dl_ReceivedAt d) then Inl (contractError CodeInvalidRequest)
      else Inr ())"

section \<open>Views\<close>

record wallet_view =
  wv_ID :: wallet_id
  wv_PlayerID :: player_id
  wv_Currency :: string
  wv_Balance :: money
  wv_Version :: int64
  wv_CreatedAt :: time
  wv_UpdatedAt :: time

record wager_result =
  wr_TransactionID :: transaction_id
  wr_Origin :: origin
  wr_Kind :: kind
  wr_ProviderID :: provider_id
  wr_ExternalID :: external_id
  wr_WalletID :: wallet_id
  wr_PlayerID :: player_id
  wr_RoundID :: external_id
  wr_GameID :: external_id
  wr_Amount :: money
  wr_ReferenceExternal :: external_id
  wr_State :: tstate
  wr_ObservedBalance :: money
  wr_FailureCode :: failure_code
  wr_ReferenceDeadline :: time
  wr_IdempotentReplay :: bool
  wr_CreatedAt :: time
  wr_UpdatedAt :: time

definition walletView :: "wallet \<Rightarrow> wallet_view" where
  "walletView w =
     \<lparr>wv_ID = wal_id w, wv_PlayerID = wal_playerID w, wv_Currency = wal_currency w,
      wv_Balance = wal_balance w, wv_Version = wal_version w, wv_CreatedAt = wal_createdAt w,
      wv_UpdatedAt = wal_updatedAt w\<rparr>"

definition resultOf :: "wager \<Rightarrow> bool \<Rightarrow> wager_result" where
  "resultOf t replay =
     \<lparr>wr_TransactionID = tx_id t, wr_Origin = tx_origin t, wr_Kind = tx_kind t,
      wr_ProviderID = tx_providerID t, wr_ExternalID = tx_externalTransactionID t,
      wr_WalletID = tx_walletID t, wr_PlayerID = tx_playerID t, wr_RoundID = tx_roundID t,
      wr_GameID = tx_gameID t, wr_Amount = tx_amount t,
      wr_ReferenceExternal = tx_referenceExternalTransactionID t, wr_State = tx_state t,
      wr_ObservedBalance = tx_observedBalance t, wr_FailureCode = tx_failureCode t,
      wr_ReferenceDeadline = tx_referenceDeadline t, wr_IdempotentReplay = replay,
      wr_CreatedAt = tx_createdAt t, wr_UpdatedAt = tx_updatedAt t\<rparr>"

definition wager_result_IsTerminal :: "wager_result \<Rightarrow> bool" where
  "wager_result_IsTerminal r \<longleftrightarrow> State_IsTerminal (wr_State r)"

section \<open>Contracts\<close>

definition submit_ok :: "submit_command \<Rightarrow> bool" where
  "submit_ok c \<longleftrightarrow>
     sc_ProviderID c \<noteq> '''' \<and> sc_ExternalTransactionID c \<noteq> '''' \<and> sc_WalletID c \<noteq> uuid_Nil
     \<and> sc_PlayerID c \<noteq> uuid_Nil \<and> sc_RoundID c \<noteq> '''' \<and> sc_GameID c \<noteq> '''' \<and> sc_IdempotencyKey c \<noteq> ''''
     \<and> Kind_IsExternal (sc_Kind c) \<and> IsInitialized (sc_Amount c)
     \<and> amount_rule (sc_Kind c) (sc_Amount c)
     \<and> reference_rule (sc_Kind c) (sc_ReferenceExternalID c)
     \<and> (sc_Kind c = KindLoss \<longrightarrow> sc_ReferenceExternalID c = '''')"

lemma SubmitWagerCommand_Validate_Inr: "SubmitWagerCommand_Validate c = Inr u \<longleftrightarrow> submit_ok c"
  by (auto simp: SubmitWagerCommand_Validate_def submit_ok_def amount_rule_def reference_rule_def
      id_IsZero_def text_IsZero_def amt_simps split: if_splits)

lemma SubmitWagerCommand_Validate_Inl:
  "SubmitWagerCommand_Validate c = Inl e \<Longrightarrow> \<exists>code. e = contractError code"
  by (auto simp: SubmitWagerCommand_Validate_def split: if_splits)

lemma OpenWalletCommand_Validate_Inr:
  "OpenWalletCommand_Validate c = Inr u \<longleftrightarrow>
     oc_PlayerID c \<noteq> uuid_Nil \<and> IsInitialized (oc_InitialBalance c) \<and> 0 \<le> amt (oc_InitialBalance c)"
  by (auto simp: OpenWalletCommand_Validate_def id_IsZero_def amt_simps split: if_splits)

lemma OpenWalletCommand_Validate_Inl:
  "OpenWalletCommand_Validate c = Inl e \<Longrightarrow> \<exists>code. e = contractError code"
  by (auto simp: OpenWalletCommand_Validate_def split: if_splits)

lemma ResolvePendingReferenceCommand_Validate_Inr:
  "ResolvePendingReferenceCommand_Validate c = Inr u \<longleftrightarrow> rcm_TransactionID c \<noteq> uuid_Nil"
  by (auto simp: ResolvePendingReferenceCommand_Validate_def id_IsZero_def)

lemma InboxDelivery_Validate_Inr:
  "InboxDelivery_Validate d = Inr u \<longleftrightarrow>
     dl_ConsumerName d \<noteq> '''' \<and> dl_MessageID d \<noteq> '''' \<and> length (dl_Digest d) = 64 \<and> dl_ReceivedAt d \<noteq> 0"
  by (auto simp: InboxDelivery_Validate_def time_defs split: if_splits)

lemmas validate_iffs = SubmitWagerCommand_Validate_Inr OpenWalletCommand_Validate_Inr
  ResolvePendingReferenceCommand_Validate_Inr InboxDelivery_Validate_Inr

text \<open>The parameters that the service builds from a command.\<close>

definition params_of ::
  "submit_command \<Rightarrow> transaction_id \<Rightarrow> string \<Rightarrow> string \<Rightarrow> time \<Rightarrow> external_params" where
  "params_of c i version digest now =
     \<lparr>ep_ID = i, ep_ProviderID = sc_ProviderID c,
      ep_ExternalTransactionID = sc_ExternalTransactionID c,
      ep_IdempotencyKey = sc_IdempotencyKey c, ep_DigestVersion = version, ep_Digest = digest,
      ep_WalletID = sc_WalletID c, ep_PlayerID = sc_PlayerID c, ep_RoundID = sc_RoundID c,
      ep_GameID = sc_GameID c, ep_Kind = sc_Kind c, ep_Amount = sc_Amount c,
      ep_ReferenceExternalID = sc_ReferenceExternalID c, ep_Now = now\<rparr>"

lemma params_of_ok:
  "submit_ok c \<Longrightarrow> external_params_ok (params_of c i v d now) \<longleftrightarrow>
     i \<noteq> uuid_Nil \<and> v \<noteq> '''' \<and> d \<noteq> '''' \<and> now \<noteq> 0"
  by (auto simp: external_params_ok_def params_of_def submit_ok_def)

section \<open>Properties\<close>

definition sample_submit :: submit_command where
  "sample_submit =
     \<lparr>sc_ProviderID = ''acme'', sc_ExternalTransactionID = ''win-1'', sc_IdempotencyKey = ''key-2'',
      sc_WalletID = 1, sc_PlayerID = 2, sc_RoundID = ''r1'', sc_GameID = ''g1'', sc_Kind = KindWin,
      sc_Amount = \<lparr>minorUnits = 700, currency = ''BRL''\<rparr>, sc_ReferenceExternalID = ''bet-1'',
      sc_CorrelationID = ''c''\<rparr>"

text \<open>
  C35: a submit command passes the contract checks exactly when the domain constructor accepts the
  transaction built from it (with a fresh identity, a digest and a clock reading), except that the
  contract also refuses a LOSS that names a reference, which the domain lets through.
\<close>

theorem submit_contract_agrees_with_domain:
  assumes "i \<noteq> uuid_Nil" and "v \<noteq> ''''" and "d \<noteq> ''''" and "now \<noteq> 0"
  shows "is_ok (SubmitWagerCommand_Validate c) \<longleftrightarrow>
           is_ok (NewExternalTransaction (params_of c i v d now))
           \<and> \<not> (sc_Kind c = KindLoss \<and> sc_ReferenceExternalID c \<noteq> '''')"
proof -
  have v: "is_ok (SubmitWagerCommand_Validate c) \<longleftrightarrow> submit_ok c"
    by (simp only: is_ok_iff SubmitWagerCommand_Validate_Inr) simp
  have n: "is_ok (NewExternalTransaction (params_of c i v d now))
      \<longleftrightarrow> external_params_ok (params_of c i v d now)"
    by (simp only: is_ok_iff NewExternalTransaction_Inr_iff) simp
  show ?thesis
    unfolding v n using assms
    by (auto simp: external_params_ok_def params_of_def submit_ok_def)
qed

theorem submit_contract_agrees_with_domain_witness:
  "is_ok (SubmitWagerCommand_Validate sample_submit)"
proof -
  have "external_params_ok (params_of sample_submit 9 ''v'' ''d'' 5)"
    by (simp add: uuid_Nil_def external_params_ok_def params_of_def sample_submit_def
        Kind_IsExternal_def IsInitialized_def amount_rule_def reference_rule_def)
  then have "is_ok (NewExternalTransaction (params_of sample_submit 9 ''v'' ''d'' 5))"
    by (simp only: is_ok_iff NewExternalTransaction_Inr_iff) simp
  moreover have "sc_Kind sample_submit \<noteq> KindLoss"
    by (simp add: sample_submit_def)
  ultimately show ?thesis
    using submit_contract_agrees_with_domain [of 9 "''v''" "''d''" 5 sample_submit]
    by (simp add: uuid_Nil_def)
qed

end
