(* ===== verification/Resolve.thy ===== *)
theory Resolve
  imports Commands
begin

text \<open>
  \<open>internal/application/resolve.go\<close>: the decision that turns a transaction and its optional
  resolved reference into a plan, with no I/O. \<open>classify\<close> is compared with \<open>decision\<close>, the rules
  of the operation kinds written as one table.
\<close>

section \<open>Plans\<close>

record movement =
  mv_direction :: direction
  mv_amount :: money

record operation_plan =
  pl_movement :: "movement option"
  pl_claim :: bool
  pl_referenceID :: transaction_id
  pl_failure :: failure_code
  pl_pending :: bool

text \<open>\<open>operationPlan{}\<close> and the literals the code builds from it.\<close>

definition plan_nil :: operation_plan where
  "plan_nil = \<lparr>pl_movement = None, pl_claim = False, pl_referenceID = uuid_Nil, pl_failure = '''',
              pl_pending = False\<rparr>"

abbreviation plan_pending :: operation_plan where "plan_pending \<equiv> plan_nil\<lparr>pl_pending := True\<rparr>"

abbreviation plan_failure :: "failure_code \<Rightarrow> operation_plan" where
  "plan_failure c \<equiv> plan_nil\<lparr>pl_failure := c\<rparr>"

abbreviation plan_move :: "direction \<Rightarrow> money \<Rightarrow> operation_plan" where
  "plan_move d a \<equiv> plan_nil\<lparr>pl_movement := Some \<lparr>mv_direction = d, mv_amount = a\<rparr>\<rparr>"

definition needsReference :: "wager \<Rightarrow> bool" where
  "needsReference t \<longleftrightarrow> \<not> text_IsZero (tx_referenceExternalTransactionID t)"

definition isClaimingKind :: "kind \<Rightarrow> bool" where
  "isClaimingKind k \<longleftrightarrow> k = KindRefund \<or> k = KindRollback"

definition identityMatches :: "wager \<Rightarrow> wager \<Rightarrow> app_error + bool" where
  "identityMatches t ref =
     (if tx_walletID t \<noteq> tx_walletID ref \<or> tx_playerID t \<noteq> tx_playerID ref
         \<or> tx_roundID t \<noteq> tx_roundID ref then Inr False
      else if currency (tx_amount t) \<noteq> currency (tx_amount ref) then Inr False
      else Inr True)"

definition classifyReversal :: "wager \<Rightarrow> wager option \<Rightarrow> bool \<Rightarrow> app_error + operation_plan" where
  "classifyReversal t ro claimExists =
     (case ro of
        None \<Rightarrow> Inr plan_pending
      | Some ref \<Rightarrow>
          let allowed = (if tx_kind t = KindRefund then tx_kind ref = KindBet
                         else if tx_kind t = KindRollback
                         then tx_kind ref = KindBet \<or> tx_kind ref = KindWin \<or> tx_kind ref = KindRefund
                         else False) in
          if \<not> allowed then Inr (plan_failure FailureReferenceKindNotAllowed)
          else res_bind (identityMatches t ref) (\<lambda>matches.
            if \<not> matches then Inr (plan_failure FailureReferenceMismatch)
            else res_bind (map_err (FromFin \<circ> FErrMoney) (Equal (tx_amount t) (tx_amount ref))) (\<lambda>equal.
              if \<not> equal then Inr (plan_failure FailureReversalAmountMismatch)
              else if tx_state ref = StatePending \<or> tx_state ref = StatePendingReference
              then Inr plan_pending
              else if tx_state ref = StateRejected \<or> tx_state ref = StateFailed
              then Inr (plan_failure FailureReferenceNotProcessed)
              else if tx_state ref = StateProcessed then
                (if claimExists then Inr (plan_failure FailureAlreadyReversed)
                 else
                   let direction = (if tx_kind t = KindRollback \<and> tx_kind ref \<noteq> KindBet
                                    then DirectionDebit else DirectionCredit)
                   in Inr ((plan_move direction (tx_amount ref))
                        \<lparr>pl_claim := True, pl_referenceID := tx_id ref\<rparr>))
              else Inl (wrapInvariant None))))"

definition classify :: "wager \<Rightarrow> wager option \<Rightarrow> bool \<Rightarrow> app_error + operation_plan" where
  "classify t ro claimExists =
     (if ro = None \<and> needsReference t then Inr plan_pending
      else if tx_kind t = KindLoss then Inr plan_nil
      else if tx_kind t = KindBet then Inr (plan_move DirectionDebit (tx_amount t))
      else if tx_kind t = KindWin then
        (case ro of
           None \<Rightarrow> Inr (plan_move DirectionCredit (tx_amount t))
         | Some ref \<Rightarrow>
             if tx_kind ref \<noteq> KindBet then Inr (plan_failure FailureInvalidWinReference)
             else res_bind (identityMatches t ref) (\<lambda>matches.
               if \<not> matches then Inr (plan_failure FailureInvalidWinReference)
               else if tx_state ref = StatePending \<or> tx_state ref = StatePendingReference
               then Inr plan_pending
               else if tx_state ref = StateRejected \<or> tx_state ref = StateFailed
               then Inr (plan_failure FailureReferenceNotProcessed)
               else if tx_state ref = StateProcessed
               then Inr ((plan_move DirectionCredit (tx_amount t))\<lparr>pl_referenceID := tx_id ref\<rparr>)
               else Inl (wrapInvariant None)))
      else if tx_kind t = KindRefund \<or> tx_kind t = KindRollback
      then classifyReversal t ro claimExists
      else Inl (wrapInvariant None))"

section \<open>The rules as a table\<close>

text \<open>
  What becomes of an operation: nothing to post, a signed posting (with the reference consumed when
  the operation is a compensation), a business rejection, or waiting for the reference.
\<close>

datatype decision =
    Settle
  | Post direction money "transaction_id option" bool
  | Refuse failure_code
  | Await

definition same_identity :: "wager \<Rightarrow> wager \<Rightarrow> bool" where
  "same_identity t ref \<longleftrightarrow>
     tx_walletID t = tx_walletID ref \<and> tx_playerID t = tx_playerID ref \<and> tx_roundID t = tx_roundID ref
     \<and> currency (tx_amount t) = currency (tx_amount ref)"

definition reversible :: "kind \<Rightarrow> kind \<Rightarrow> bool" where
  "reversible k r \<longleftrightarrow>
     (k, r) \<in> set [(KindRefund, KindBet), (KindRollback, KindBet), (KindRollback, KindWin),
                 (KindRollback, KindRefund)]"

text \<open>The money a processed operation moved: bets left the wallet, wins and refunds entered it.\<close>

definition undo_direction :: "kind \<Rightarrow> direction" where
  "undo_direction r = (if r = KindBet then DirectionCredit else DirectionDebit)"

definition by_state :: "wager \<Rightarrow> decision \<Rightarrow> decision" where
  "by_state ref d =
     (if State_IsTerminal (tx_state ref)
      then if tx_state ref = StateProcessed then d else Refuse FailureReferenceNotProcessed
      else Await)"

definition decide :: "wager \<Rightarrow> wager option \<Rightarrow> bool \<Rightarrow> decision" where
  "decide t ro claimed =
     (if ro = None \<and> tx_referenceExternalTransactionID t \<noteq> '''' then Await
      else if tx_kind t = KindLoss then Settle
      else if tx_kind t = KindBet then Post DirectionDebit (tx_amount t) None False
      else case ro of
        None \<Rightarrow> if tx_kind t = KindWin then Post DirectionCredit (tx_amount t) None False else Await
      | Some ref \<Rightarrow>
          if tx_kind t = KindWin then
            (if tx_kind ref = KindBet \<and> same_identity t ref
             then by_state ref (Post DirectionCredit (tx_amount t) (Some (tx_id ref)) False)
             else Refuse FailureInvalidWinReference)
          else if \<not> reversible (tx_kind t) (tx_kind ref) then Refuse FailureReferenceKindNotAllowed
          else if \<not> same_identity t ref then Refuse FailureReferenceMismatch
          else if amt (tx_amount t) \<noteq> amt (tx_amount ref) then Refuse FailureReversalAmountMismatch
          else by_state ref
            (if claimed then Refuse FailureAlreadyReversed
             else Post (undo_direction (tx_kind ref)) (tx_amount ref) (Some (tx_id ref)) True))"

fun plan_of :: "decision \<Rightarrow> operation_plan" where
  "plan_of Settle = plan_nil"
| "plan_of (Post d a r c) =
     (plan_move d a)\<lparr>pl_claim := c, pl_referenceID := (case r of None \<Rightarrow> uuid_Nil | Some i \<Rightarrow> i)\<rparr>"
| "plan_of (Refuse c) = plan_failure c"
| "plan_of Await = plan_pending"

section \<open>Lemmas\<close>

lemma identityMatches_eq: "identityMatches t ref = Inr (same_identity t ref)"
  by (auto simp: identityMatches_def same_identity_def)

lemma needsReference_iff [simp]: "needsReference t \<longleftrightarrow> tx_referenceExternalTransactionID t \<noteq> ''''"
  by (simp add: needsReference_def text_IsZero_def)

lemma reversible_simps [simp]:
  "reversible KindRefund r \<longleftrightarrow> r = KindBet"
  "reversible KindRollback r \<longleftrightarrow> r = KindBet \<or> r = KindWin \<or> r = KindRefund"
  by (auto simp: reversible_def)

lemma State_IsTerminal_simps [simp]:
  "State_IsTerminal StateProcessed" "State_IsTerminal StateRejected" "State_IsTerminal StateFailed"
  "\<not> State_IsTerminal StatePending" "\<not> State_IsTerminal StatePendingReference"
  by (simp_all add: State_IsTerminal_def)

lemma State_Valid_cases:
  assumes "State_Valid s"
  obtains "s = StatePending" | "s = StatePendingReference" | "s = StateProcessed"
    | "s = StateRejected" | "s = StateFailed"
  using assms by (auto simp: State_Valid_def)

definition reference_valid :: "wager option \<Rightarrow> bool" where
  "reference_valid ro \<longleftrightarrow>
     (case ro of None \<Rightarrow> True | Some ref \<Rightarrow> State_Valid (tx_state ref) \<and> IsInitialized (tx_amount ref))"

text \<open>The switch on the reference's state, as the two functions write it.\<close>

lemma state_switch:
  "State_Valid (tx_state ref) \<Longrightarrow>
   (if tx_state ref = StatePending \<or> tx_state ref = StatePendingReference then Inr plan_pending
    else if tx_state ref = StateRejected \<or> tx_state ref = StateFailed
    then Inr (plan_failure FailureReferenceNotProcessed)
    else if tx_state ref = StateProcessed then Inr (plan_of d)
    else Inl (wrapInvariant None)) = Inr (plan_of (by_state ref d))"
  by (erule State_Valid_cases) (simp_all add: by_state_def)

lemma win_switch:
  "State_Valid (tx_state ref) \<Longrightarrow>
   (if tx_state ref = StatePending \<or> tx_state ref = StatePendingReference then Inr plan_pending
    else if tx_state ref = StateRejected \<or> tx_state ref = StateFailed
    then Inr (plan_failure FailureReferenceNotProcessed)
    else if tx_state ref = StateProcessed
    then Inr ((plan_move DirectionCredit a)\<lparr>pl_referenceID := tx_id ref\<rparr>)
    else Inl (wrapInvariant None))
   = Inr (plan_of (by_state ref (Post DirectionCredit a (Some (tx_id ref)) False)))"
  by (erule State_Valid_cases) (simp_all add: by_state_def plan_nil_def)

lemma allowed_eq:
  "k = KindRefund \<or> k = KindRollback \<Longrightarrow>
     (if k = KindRefund then r = KindBet
      else if k = KindRollback then r = KindBet \<or> r = KindWin \<or> r = KindRefund else False)
     = reversible k r"
  by auto

definition reversal_decision :: "wager \<Rightarrow> bool \<Rightarrow> decision" where
  "reversal_decision ref claimed =
     (if claimed then Refuse FailureAlreadyReversed
      else Post (undo_direction (tx_kind ref)) (tx_amount ref) (Some (tx_id ref)) True)"

lemma reversal_plan:
  "reversible k (tx_kind ref) \<Longrightarrow>
     (if claimed then Inr (plan_failure FailureAlreadyReversed)
      else let direction = (if k = KindRollback \<and> tx_kind ref \<noteq> KindBet
                            then DirectionDebit else DirectionCredit)
           in Inr ((plan_move direction (tx_amount ref))\<lparr>pl_claim := True, pl_referenceID := tx_id ref\<rparr>))
     = Inr (plan_of (reversal_decision ref claimed))"
  by (auto simp: reversible_def reversal_decision_def undo_direction_def)

lemma decide_reversal:
  "tx_kind t = KindRefund \<or> tx_kind t = KindRollback \<Longrightarrow>
   decide t (Some ref) claimed =
      (if \<not> reversible (tx_kind t) (tx_kind ref) then Refuse FailureReferenceKindNotAllowed
       else if \<not> same_identity t ref then Refuse FailureReferenceMismatch
       else if amt (tx_amount t) \<noteq> amt (tx_amount ref) then Refuse FailureReversalAmountMismatch
       else by_state ref (reversal_decision ref claimed))"
  by (elim disjE) (simp_all add: decide_def reversal_decision_def)

lemma classifyReversal_eq:
  assumes k: "tx_kind t = KindRefund \<or> tx_kind t = KindRollback"
    and ref: "reference_valid (Some ref)" and a: "IsInitialized (tx_amount t)"
  shows "classifyReversal t (Some ref) claimed = Inr (plan_of (decide t (Some ref) claimed))"
proof -
  have e: "same_identity t ref \<Longrightarrow>
      Equal (tx_amount t) (tx_amount ref) = Inr (amt (tx_amount t) = amt (tx_amount ref))"
    using ref a by (simp add: Equal_eq same_identity_def reference_valid_def)
  have v: "State_Valid (tx_state ref)" using ref by (simp add: reference_valid_def)
  note s = state_switch [OF v, of "reversal_decision ref claimed"]
  consider "\<not> reversible (tx_kind t) (tx_kind ref)"
    | "reversible (tx_kind t) (tx_kind ref)" "\<not> same_identity t ref"
    | "reversible (tx_kind t) (tx_kind ref)" "same_identity t ref" by blast
  then show ?thesis
  proof cases
    case 3
    then show ?thesis
      unfolding classifyReversal_def decide_reversal [OF k]
      by (simp only: option.case allowed_eq [OF k] Let_def [of "reversible _ _"] identityMatches_eq
          e reversal_plan s map_err_simps res_bind_simps simp_thms if_True if_False)
        (cases "amt (tx_amount t) = amt (tx_amount ref)";
          simp only: simp_thms if_True if_False plan_of.simps)
  qed (simp_all only: classifyReversal_def decide_reversal [OF k] option.case allowed_eq [OF k]
      Let_def [of "reversible _ _"] identityMatches_eq res_bind_simps simp_thms if_True if_False
      plan_of.simps)
qed

lemma classify_eq:
  assumes "Kind_IsExternal (tx_kind t)" and "reference_valid ro" and "IsInitialized (tx_amount t)"
  shows "classify t ro claimed = Inr (plan_of (decide t ro claimed))"
proof (cases ro)
  case None
  then show ?thesis
    using assms by (auto simp: classify_def decide_def Kind_IsExternal_def classifyReversal_def
        plan_nil_def)
next
  case (Some ref)
  then have v: "State_Valid (tx_state ref)" using assms(2) by (simp add: reference_valid_def)
  consider "tx_kind t = KindLoss" | "tx_kind t = KindBet" | "tx_kind t = KindWin"
    | "tx_kind t = KindRefund \<or> tx_kind t = KindRollback"
    using assms(1) by (auto simp: Kind_IsExternal_def)
  then show ?thesis
  proof cases
    case 3
    then show ?thesis
      using Some win_switch [OF v, of "tx_amount t"]
      by (cases "tx_kind ref = KindBet"; cases "same_identity t ref")
        (simp_all add: classify_def decide_def identityMatches_eq del: plan_of.simps(2))
  next
    case 4
    then show ?thesis
      using assms Some classifyReversal_eq [of t ref claimed] by (auto simp: classify_def)
  qed (simp_all add: classify_def decide_def Some plan_nil_def)
qed

section \<open>Properties\<close>

text \<open>
  C36: the decision of \<open>classify\<close> is the table \<open>decide\<close>. A LOSS settles, a BET debits, a WIN credits
  when it names no reference or a processed BET of the same wallet, player, round and currency; a
  REFUND compensates a BET and a ROLLBACK a BET, WIN or REFUND, both for the exact amount and in the
  opposite direction, unless the compensation was already claimed. An unresolved or pending
  reference makes the operation wait, a rejected or failed one refuses it.
\<close>

theorem classify_table:
  assumes "Kind_IsExternal (tx_kind t)" and "reference_valid ro" and "IsInitialized (tx_amount t)"
  shows "classify t ro claimed = Inr (plan_of (decide t ro claimed))"
  using assms by (rule classify_eq)

definition sample_rollback :: wager where
  "sample_rollback = (external_wager sample_params)
     \<lparr>tx_id := 11, tx_kind := KindRollback, tx_externalTransactionID := ''rb-1'',
      tx_referenceExternalTransactionID := ''bet-1''\<rparr>"

theorem classify_table_witness:
  "classify sample_rollback (Some ((external_wager sample_params)\<lparr>tx_state := StateProcessed\<rparr>)) False
   = Inr ((plan_move DirectionCredit \<lparr>minorUnits = 2500, currency = ''BRL''\<rparr>)
            \<lparr>pl_claim := True, pl_referenceID := 10\<rparr>)"
  using classify_table [of sample_rollback
      "Some ((external_wager sample_params)\<lparr>tx_state := StateProcessed\<rparr>)" False]
  by (simp add: sample_rollback_def external_wager_def sample_params_def Kind_IsExternal_def
      reference_valid_def IsInitialized_def decide_def same_identity_def
      by_state_def undo_direction_def)

end
