(* ===== verification/Projection.thy ===== *)
theory Projection
  imports Resolve
begin

text \<open>
  \<open>internal/application/projection.go\<close>: the canonical projection of a command that decides
  idempotency, and its digest. \<open>CanonicalJSON\<close> writes a string map the way \<open>encoding/json\<close> does,
  keys in byte order and values escaped; the lemmas show that it is injective on validated
  commands, so two commands have the same canonical text exactly when their business fields agree.
  SHA-256 (package \<open>crypto/sha256\<close>, FIPS 180-4) is written out on 32-bit words; the program needs
  of the digest that it is a function of the text and a string of 64 lower-case hexadecimal
  characters.
\<close>

section \<open>SHA-256\<close>

type_synonym uint32 = "32 word"

definition sha256_init :: "uint32 list" where
  "sha256_init = [
    1779033703, 3144134277, 1013904242, 2773480762, 1359893119, 2600822924, 528734635, 1541459225]"

definition sha256_k :: "uint32 list" where
  "sha256_k = [
    1116352408, 1899447441, 3049323471, 3921009573, 961987163, 1508970993, 2453635748,
    2870763221, 3624381080, 310598401, 607225278, 1426881987, 1925078388, 2162078206, 2614888103,
    3248222580, 3835390401, 4022224774, 264347078, 604807628, 770255983, 1249150122, 1555081692,
    1996064986, 2554220882, 2821834349, 2952996808, 3210313671, 3336571891, 3584528711,
    113926993, 338241895, 666307205, 773529912, 1294757372, 1396182291, 1695183700, 1986661051,
    2177026350, 2456956037, 2730485921, 2820302411, 3259730800, 3345764771, 3516065817,
    3600352804, 4094571909, 275423344, 430227734, 506948616, 659060556, 883997877, 958139571,
    1322822218, 1537002063, 1747873779, 1955562222, 2024104815, 2227730452, 2361852424,
    2428436474, 2756734187, 3204031479, 3329325298]"

unbundle bit_operations_syntax

abbreviation rotr :: "nat \<Rightarrow> uint32 \<Rightarrow> uint32" where "rotr n x \<equiv> word_rotr n x"

definition sha_sigma0 :: "uint32 \<Rightarrow> uint32" where
  "sha_sigma0 x = (rotr 7 x XOR rotr 18 x) XOR drop_bit 3 x"
definition sha_sigma1 :: "uint32 \<Rightarrow> uint32" where
  "sha_sigma1 x = (rotr 17 x XOR rotr 19 x) XOR drop_bit 10 x"
definition sha_Sigma0 :: "uint32 \<Rightarrow> uint32" where
  "sha_Sigma0 x = (rotr 2 x XOR rotr 13 x) XOR rotr 22 x"
definition sha_Sigma1 :: "uint32 \<Rightarrow> uint32" where
  "sha_Sigma1 x = (rotr 6 x XOR rotr 11 x) XOR rotr 25 x"
definition sha_ch :: "uint32 \<Rightarrow> uint32 \<Rightarrow> uint32 \<Rightarrow> uint32" where
  "sha_ch x y z = (x AND y) XOR (NOT x AND z)"
definition sha_maj :: "uint32 \<Rightarrow> uint32 \<Rightarrow> uint32 \<Rightarrow> uint32" where
  "sha_maj x y z = ((x AND y) XOR (x AND z)) XOR (y AND z)"

text \<open>Padding: a one bit, zeros up to 56 bytes modulo 64, and the bit length in eight bytes.\<close>

definition sha256_pad :: "nat list \<Rightarrow> nat list" where
  "sha256_pad bs =
     (let n = length bs; zeros = (119 - n mod 64) mod 64
      in bs @ [128] @ replicate zeros 0
         @ map (\<lambda>k. unat (take_bit 8 (drop_bit k (8 * word_of_nat n :: 64 word)))) [56, 48, 40, 32, 24, 16, 8, 0])"

definition be_word :: "nat list \<Rightarrow> uint32" where
  "be_word bs = foldl (\<lambda>w b. w * 256 + word_of_nat b) 0 bs"

fun chunks :: "nat \<Rightarrow> nat \<Rightarrow> 'a list \<Rightarrow> 'a list list" where
  "chunks 0 sz xs = []"
| "chunks (Suc n) sz xs = take sz xs # chunks n sz (drop sz xs)"

text \<open>One step of the message schedule appends the next of the 64 words.\<close>

definition sha_extend :: "uint32 list \<Rightarrow> nat \<Rightarrow> uint32 list" where
  "sha_extend ws t =
     ws @ [sha_sigma1 (ws ! (t - 2)) + ws ! (t - 7) + sha_sigma0 (ws ! (t - 15)) + ws ! (t - 16)]"

definition sha_schedule :: "nat list \<Rightarrow> uint32 list" where
  "sha_schedule block = foldl sha_extend (map be_word (chunks 16 4 block)) [16..<64]"

type_synonym sha_state =
  "uint32 \<times> uint32 \<times> uint32 \<times> uint32 \<times> uint32 \<times> uint32 \<times> uint32 \<times> uint32"

fun sha_round :: "sha_state \<Rightarrow> uint32 \<times> uint32 \<Rightarrow> sha_state" where
  "sha_round (a, b, c, d, e, f, g, h) (k, w) =
     (let t1 = h + sha_Sigma1 e + sha_ch e f g + k + w;
          t2 = sha_Sigma0 a + sha_maj a b c
      in (t1 + t2, a, b, c, d + t1, e, f, g))"

fun sha_add :: "sha_state \<Rightarrow> sha_state \<Rightarrow> sha_state" where
  "sha_add (a, b, c, d, e, f, g, h) (a', b', c', d', e', f', g', h') =
     (a + a', b + b', c + c', d + d', e + e', f + f', g + g', h + h')"

definition sha_block :: "sha_state \<Rightarrow> nat list \<Rightarrow> sha_state" where
  "sha_block s block = sha_add s (foldl sha_round s (zip sha256_k (sha_schedule block)))"

definition word_bytes :: "uint32 \<Rightarrow> nat list" where
  "word_bytes w = map (\<lambda>k. unat (take_bit 8 (drop_bit k w))) [24, 16, 8, 0]"

fun sha_output :: "sha_state \<Rightarrow> nat list" where
  "sha_output (a, b, c, d, e, f, g, h) = concat (map word_bytes [a, b, c, d, e, f, g, h])"

definition sha256_start :: sha_state where
  "sha256_start = (sha256_init ! 0, sha256_init ! 1, sha256_init ! 2, sha256_init ! 3,
                   sha256_init ! 4, sha256_init ! 5, sha256_init ! 6, sha256_init ! 7)"

definition sha256_Sum256 :: "nat list \<Rightarrow> nat list" where
  "sha256_Sum256 bs =
     (let padded = sha256_pad bs
      in sha_output (foldl sha_block sha256_start (chunks (length padded div 64) 64 padded)))"

text \<open>\<open>hex.EncodeToString\<close>.\<close>

definition hex_digit :: "nat \<Rightarrow> char" where
  "hex_digit n = (if n < 10 then char_of (48 + n) else char_of (87 + n))"

definition hex_EncodeToString :: "nat list \<Rightarrow> string" where
  "hex_EncodeToString bs = concat (map (\<lambda>b. [hex_digit (b div 16), hex_digit (b mod 16)]) bs)"

definition is_hex_char :: "char \<Rightarrow> bool" where
  "is_hex_char c \<longleftrightarrow> is_digit c \<or> (97 \<le> byte_of c \<and> byte_of c \<le> 102)"

text \<open>\<open>^[0-9a-f]{64}$\<close>\<close>

definition hex64 :: "string \<Rightarrow> bool" where
  "hex64 s \<longleftrightarrow> length s = 64 \<and> list_all is_hex_char s"

section \<open>The canonical projection\<close>

definition DigestVersion :: string where "DigestVersion = ''sha256-jcs-v1''"

record projection_input =
  pi_ProviderID :: provider_id
  pi_ExternalTransactionID :: external_id
  pi_PlayerID :: player_id
  pi_WalletID :: wallet_id
  pi_RoundID :: external_id
  pi_GameID :: external_id
  pi_Kind :: kind
  pi_Amount :: money
  pi_ReferenceExternalID :: external_id

definition projection :: "submit_command \<Rightarrow> projection_input" where
  "projection c =
     \<lparr>pi_ProviderID = sc_ProviderID c, pi_ExternalTransactionID = sc_ExternalTransactionID c,
      pi_PlayerID = sc_PlayerID c, pi_WalletID = sc_WalletID c, pi_RoundID = sc_RoundID c,
      pi_GameID = sc_GameID c, pi_Kind = sc_Kind c, pi_Amount = sc_Amount c,
      pi_ReferenceExternalID = sc_ReferenceExternalID c\<rparr>"

text \<open>
  The escapes of \<open>encoding/json\<close> inside a string: quotation mark and backslash, the short forms of
  five control characters, six-character escapes for the other controls and for the three
  characters that matter in HTML. Bytes above 127 do not occur in validated identities.
\<close>

definition json_escape_char :: "char \<Rightarrow> string" where
  "json_escape_char c =
     (let n = byte_of c in
      if n = 34 then [CHR 92, CHR 34]
      else if n = 92 then [CHR 92, CHR 92]
      else if n = 8 then [CHR 92, CHR ''b'']
      else if n = 12 then [CHR 92, CHR ''f'']
      else if n = 10 then [CHR 92, CHR ''n'']
      else if n = 13 then [CHR 92, CHR ''r'']
      else if n = 9 then [CHR 92, CHR ''t'']
      else if n < 32 \<or> n = 60 \<or> n = 62 \<or> n = 38
      then [CHR 92, CHR ''u'', CHR ''0'', CHR ''0'', hex_digit (n div 16), hex_digit (n mod 16)]
      else [c])"

definition json_string :: "string \<Rightarrow> string" where
  "json_string s = [CHR 34] @ concat (map json_escape_char s) @ [CHR 34]"

definition json_member :: "string \<times> string \<Rightarrow> string" where
  "json_member m = json_string (fst m) @ '':'' @ json_string (snd m)"

fun json_members :: "(string \<times> string) list \<Rightarrow> string" where
  "json_members [] = ''''"
| "json_members [m] = json_member m"
| "json_members (m # ms) = json_member m @ '','' @ json_members ms"

text \<open>\<open>json.Marshal\<close> of a \<open>map[string]string\<close>: the members in ascending byte order of their keys.\<close>

definition json_marshal_map :: "(string \<times> string) list \<Rightarrow> string" where
  "json_marshal_map ms = ''{'' @ json_members (sort_key fst ms) @ ''}''"

definition projection_members :: "uuid_lib \<Rightarrow> projection_input \<Rightarrow> (string \<times> string) list" where
  "projection_members u p =
     [(''providerId'', pi_ProviderID p),
      (''externalTransactionId'', pi_ExternalTransactionID p),
      (''playerId'', uuid_String u (pi_PlayerID p)),
      (''walletId'', uuid_String u (pi_WalletID p)),
      (''roundId'', pi_RoundID p),
      (''gameId'', pi_GameID p),
      (''kind'', pi_Kind p),
      (''amount'', money_String (pi_Amount p)),
      (''currency'', currency (pi_Amount p))]
     @ (if \<not> text_IsZero (pi_ReferenceExternalID p)
        then [(''referenceExternalTransactionId'', pi_ReferenceExternalID p)] else [])"

definition CanonicalJSON :: "uuid_lib \<Rightarrow> projection_input \<Rightarrow> string" where
  "CanonicalJSON u p = json_marshal_map (projection_members u p)"

definition DigestOf :: "uuid_lib \<Rightarrow> projection_input \<Rightarrow> string" where
  "DigestOf u p = hex_EncodeToString (sha256_Sum256 (map byte_of (CanonicalJSON u p)))"

section \<open>The digest is a hexadecimal string\<close>

lemma hex_digit_char: "n < 16 \<Longrightarrow> is_hex_char (hex_digit n)"
  by (auto simp: is_hex_char_def hex_digit_def is_digit_def byte_of_def of_char_of)

lemma hex_EncodeToString_ok:
  "list_all (\<lambda>b. b < 256) bs \<Longrightarrow>
     length (hex_EncodeToString bs) = 2 * length bs \<and> list_all is_hex_char (hex_EncodeToString bs)"
proof (induction bs)
  case (Cons b bs)
  then have "b div 16 < 16" using less_mult_imp_div_less [of b 16 16] by simp
  with Cons show ?case by (simp add: hex_EncodeToString_def hex_digit_char)
qed (simp add: hex_EncodeToString_def)

lemma word_bytes_ok: "length (word_bytes w) = 4" "list_all (\<lambda>b. b < 256) (word_bytes w)"
proof -
  have "unat (take_bit 8 x) < 2 ^ 8" for x :: uint32
    unfolding unsigned_take_bit_eq by (rule take_bit_nat_less_exp)
  then show "length (word_bytes w) = 4" "list_all (\<lambda>b. b < 256) (word_bytes w)"
    by (simp_all add: word_bytes_def)
qed

lemma sha_output_ok: "length (sha_output s) = 32 \<and> list_all (\<lambda>b. b < 256) (sha_output s)"
proof (cases s rule: sha_output.cases)
  case (1 a b c d e f g h)
  then show ?thesis by (simp add: word_bytes_ok)
qed

lemma DigestOf_hex64: "hex64 (DigestOf u p)"
proof -
  obtain s where s: "DigestOf u p = hex_EncodeToString (sha_output s)"
    by (simp add: DigestOf_def sha256_Sum256_def Let_def)
  have o32: "length (sha_output s) = 32" "list_all (\<lambda>b. b < 256) (sha_output s)"
    using sha_output_ok by auto
  show ?thesis
    using hex_EncodeToString_ok [OF o32(2)] o32(1) by (simp add: s hex64_def)
qed

lemma hex64_nonempty: "hex64 d \<Longrightarrow> d \<noteq> ''''"
  by (auto simp: hex64_def)

lemma DigestOf_nonempty [simp]: "DigestOf u p \<noteq> ''''"
  using DigestOf_hex64 hex64_nonempty by blast

lemma DigestVersion_nonempty [simp]: "DigestVersion \<noteq> ''''"
  by (simp add: DigestVersion_def)

section \<open>The canonical text determines the projection\<close>

definition json_plain :: "char \<Rightarrow> bool" where
  "json_plain c \<longleftrightarrow> json_escape_char c = [c] \<and> c \<noteq> CHR 34"

abbreviation plain :: "string \<Rightarrow> bool" where "plain s \<equiv> list_all json_plain s"

lemma json_plain_byte:
  "32 < byte_of c \<Longrightarrow> byte_of c \<notin> {34, 38, 60, 62, 92} \<Longrightarrow> json_plain c"
  by (auto simp: json_plain_def json_escape_char_def Let_def byte_of_def)

lemma plain_chars:
  "is_digit c \<Longrightarrow> json_plain c" "is_lower c \<Longrightarrow> json_plain c" "is_upper c \<Longrightarrow> json_plain c"
  "json_plain CHR ''.''" "json_plain CHR ''_''" "json_plain CHR '':''" "json_plain CHR ''-''"
  by (rule json_plain_byte; auto simp: char_class_defs)+

lemma plain_provider: "providerIDPattern s \<Longrightarrow> plain s"
  by (drule provider_chars) (auto simp: list_all_iff is_provider_char_def plain_chars)

lemma plain_external: "externalIDPattern s \<Longrightarrow> plain s"
  by (auto simp: externalIDPattern_def list_all_iff is_external_char_def plain_chars)

lemma plain_uuid: "uuid_lib_ok u \<Longrightarrow> plain (uuid_String u i)"
  using uuid_lib_okD(3) [of u i] by (auto simp: list_all_iff is_uuid_char_def plain_chars)

lemma plain_currency: "currencyPattern s \<Longrightarrow> plain s"
  by (auto simp: currencyPattern_def list_all_iff plain_chars)

lemma plain_kind: "Kind_Valid k \<Longrightarrow> plain k"
  by (auto simp: Kind_Valid_def kind_defs intro!: plain_chars(3), auto simp: char_class_defs)

lemma plain_digits: "plain (format_nat n)"
  using format_nat_digits [of n] by (auto simp: list_all_iff plain_chars)

lemma plain_money: "plain (money_String m)"
  by (auto simp: money_String_def Let_def plain_digits format_02d_def plain_chars
      intro!: plain_chars(1) is_digit_char)

lemma json_string_plain: "plain s \<Longrightarrow> json_string s = [CHR 34] @ s @ [CHR 34]"
proof -
  assume "plain s"
  then have "concat (map json_escape_char s) = s"
    by (induction s) (auto simp: json_plain_def)
  then show ?thesis by (simp add: json_string_def)
qed

lemma split_at_char:
  assumes "s @ c # r = t @ c # r'" and "c \<notin> set s" and "c \<notin> set t"
  shows "s = t \<and> r = r'"
  using assms
proof (induction s arbitrary: t)
  case Nil
  then show ?case by (cases t) auto
next
  case (Cons a s)
  then show ?case by (cases t) auto
qed

lemma plain_no_quote: "plain s \<Longrightarrow> CHR 34 \<notin> set s"
  by (auto simp: list_all_iff json_plain_def)

lemma json_string_inj:
  assumes "plain s" and "plain t" and "json_string s @ r = json_string t @ r'"
  shows "s = t \<and> r = r'"
  using assms split_at_char [of s "CHR 34" r t r']
  by (simp add: json_string_plain plain_no_quote)

definition plain_member :: "string \<times> string \<Rightarrow> bool" where
  "plain_member m \<longleftrightarrow> plain (fst m) \<and> plain (snd m)"

lemma json_member_inj:
  assumes "plain_member m" and "plain_member n" and "json_member m @ r = json_member n @ r'"
  shows "m = n \<and> r = r'"
proof -
  have "json_string (fst m) @ (CHR '':'' # json_string (snd m) @ r)
      = json_string (fst n) @ (CHR '':'' # json_string (snd n) @ r')"
    using assms(3) by (simp add: json_member_def)
  then have "fst m = fst n" "json_string (snd m) @ r = json_string (snd n) @ r'"
    using assms(1,2) json_string_inj unfolding plain_member_def by blast+
  moreover from this have "snd m = snd n \<and> r = r'"
    using assms(1,2) json_string_inj unfolding plain_member_def by blast
  ultimately show ?thesis by (simp add: prod_eq_iff)
qed

lemma json_member_nonempty: "json_member m \<noteq> ''''"
  by (simp add: json_member_def json_string_def)

lemma json_members_Cons:
  "json_members (m # ms) = json_member m @ (if ms = [] then '''' else CHR '','' # json_members ms)"
  by (cases ms) simp_all

lemma json_members_inj:
  assumes "list_all plain_member ms" and "list_all plain_member ns"
    and "json_members ms = json_members ns"
  shows "ms = ns"
  using assms
proof (induction ms arbitrary: ns)
  case Nil
  then show ?case by (cases ns) (auto simp: json_members_Cons json_member_nonempty)
next
  case (Cons m ms)
  show ?case
  proof (cases ns)
    case Nil
    then show ?thesis using Cons.prems by (simp add: json_members_Cons json_member_nonempty)
  next
    case (Cons n ns')
    with Cons.prems have "m = n \<and> (if ms = [] then '''' else CHR '','' # json_members ms)
        = (if ns' = [] then '''' else CHR '','' # json_members ns')"
      by (intro json_member_inj) (simp_all add: json_members_Cons)
    then show ?thesis using Cons Cons.prems Cons.IH [of ns'] by (auto split: if_splits)
  qed
qed

lemma json_marshal_map_set:
  assumes "list_all plain_member ms" and "list_all plain_member ns"
    and "json_marshal_map ms = json_marshal_map ns"
  shows "set ms = set ns"
proof -
  have "list_all plain_member (sort_key fst ms)" "list_all plain_member (sort_key fst ns)"
    using assms(1,2) by (simp_all add: list_all_iff)
  then have "sort_key fst ms = sort_key fst ns"
    using assms(3) json_members_inj by (simp add: json_marshal_map_def)
  then show ?thesis by (metis set_sort)
qed

definition projection_valid :: "projection_input \<Rightarrow> bool" where
  "projection_valid p \<longleftrightarrow>
     providerIDPattern (pi_ProviderID p) \<and> externalIDPattern (pi_ExternalTransactionID p)
     \<and> externalIDPattern (pi_RoundID p) \<and> externalIDPattern (pi_GameID p) \<and> Kind_Valid (pi_Kind p)
     \<and> currencyPattern (currency (pi_Amount p))
     \<and> (pi_ReferenceExternalID p = '''' \<or> externalIDPattern (pi_ReferenceExternalID p))"

definition projection_keys :: "string list" where
  "projection_keys = [''providerId'', ''externalTransactionId'', ''playerId'', ''walletId'', ''roundId'',
     ''gameId'', ''kind'', ''amount'', ''currency'', ''referenceExternalTransactionId'']"

lemma plain_keys: "k \<in> set projection_keys \<Longrightarrow> plain k"
proof -
  have "list_all (list_all (\<lambda>c. is_lower c \<or> is_upper c)) projection_keys"
    by (simp add: projection_keys_def char_class_defs)
  then show "k \<in> set projection_keys \<Longrightarrow> plain k"
    unfolding list_all_iff using plain_chars(2,3) by blast
qed

lemma projection_members_plain:
  assumes "uuid_lib_ok u" and "projection_valid p"
  shows "list_all plain_member (projection_members u p)"
proof -
  have "fst m \<in> set projection_keys" if "m \<in> set (projection_members u p)" for m
    using that by (auto simp: projection_members_def projection_keys_def split: if_splits)
  moreover have "plain (snd m)" if "m \<in> set (projection_members u p)" for m
    using that assms
    by (auto simp: projection_members_def projection_valid_def plain_uuid plain_provider
        plain_external plain_kind plain_money plain_currency text_IsZero_def split: if_splits)
  ultimately show ?thesis
    unfolding list_all_iff [of plain_member] plain_member_def using plain_keys by blast
qed

lemma pi_eqI:
  fixes p q :: projection_input
  assumes "pi_ProviderID p = pi_ProviderID q"
    and "pi_ExternalTransactionID p = pi_ExternalTransactionID q"
    and "pi_PlayerID p = pi_PlayerID q" and "pi_WalletID p = pi_WalletID q"
    and "pi_RoundID p = pi_RoundID q" and "pi_GameID p = pi_GameID q" and "pi_Kind p = pi_Kind q"
    and "pi_Amount p = pi_Amount q" and "pi_ReferenceExternalID p = pi_ReferenceExternalID q"
  shows "p = q"
  using assms by (cases p; cases q) simp

lemma projection_members_iff:
  "(''providerId'', v) \<in> set (projection_members u p) \<longleftrightarrow> v = pi_ProviderID p"
  "(''externalTransactionId'', v) \<in> set (projection_members u p) \<longleftrightarrow> v = pi_ExternalTransactionID p"
  "(''playerId'', v) \<in> set (projection_members u p) \<longleftrightarrow> v = uuid_String u (pi_PlayerID p)"
  "(''walletId'', v) \<in> set (projection_members u p) \<longleftrightarrow> v = uuid_String u (pi_WalletID p)"
  "(''roundId'', v) \<in> set (projection_members u p) \<longleftrightarrow> v = pi_RoundID p"
  "(''gameId'', v) \<in> set (projection_members u p) \<longleftrightarrow> v = pi_GameID p"
  "(''kind'', v) \<in> set (projection_members u p) \<longleftrightarrow> v = pi_Kind p"
  "(''amount'', v) \<in> set (projection_members u p) \<longleftrightarrow> v = money_String (pi_Amount p)"
  "(''currency'', v) \<in> set (projection_members u p) \<longleftrightarrow> v = currency (pi_Amount p)"
  "(''referenceExternalTransactionId'', v) \<in> set (projection_members u p) \<longleftrightarrow>
     v = pi_ReferenceExternalID p \<and> v \<noteq> ''''"
  by (auto simp: projection_members_def text_IsZero_def)

lemma projection_members_inj:
  assumes "uuid_lib_ok u" and "projection_valid p" and "projection_valid q"
    and "set (projection_members u p) = set (projection_members u q)"
  shows "p = q"
proof -
  have m: "(k, v) \<in> set (projection_members u p) \<longleftrightarrow> (k, v) \<in> set (projection_members u q)" for k v
    using assms(4) by simp
  have "money_String (pi_Amount p) = money_String (pi_Amount q)"
    and c: "currency (pi_Amount p) = currency (pi_Amount q)"
    using m [of "''amount''" "money_String (pi_Amount p)"]
      m [of "''currency''" "currency (pi_Amount p)"]
    by (simp_all add: projection_members_iff)
  moreover have "IsInitialized (pi_Amount p)" "IsInitialized (pi_Amount q)"
    using assms(2,3) by (simp_all add: projection_valid_def IsInitialized_def currencyPattern_nonempty)
  ultimately have "pi_Amount p = pi_Amount q"
    using money_String_inject money_eq_of_amt by blast
  then show ?thesis
    using m [of "''providerId''"] m [of "''externalTransactionId''"] m [of "''playerId''"]
      m [of "''walletId''"] m [of "''roundId''"] m [of "''gameId''"] m [of "''kind''"]
      m [of "''referenceExternalTransactionId''"] uuid_String_inject [OF assms(1)]
    by (intro pi_eqI) (simp_all add: projection_members_iff, metis+)
qed

section \<open>Properties\<close>

text \<open>
  C37: on commands whose identities, kind and currency passed their parsers, the canonical text is
  injective: two commands have the same canonical JSON exactly when every business field agrees,
  the optional reference included, so the idempotency digest is a digest of the whole business
  content.
\<close>

theorem canonical_json_injective:
  assumes "uuid_lib_ok u" and "projection_valid p" and "projection_valid q"
  shows "CanonicalJSON u p = CanonicalJSON u q \<longleftrightarrow> p = q"
proof
  assume "CanonicalJSON u p = CanonicalJSON u q"
  then have "set (projection_members u p) = set (projection_members u q)"
    using assms projection_members_plain json_marshal_map_set by (simp add: CanonicalJSON_def)
  then show "p = q" using assms projection_members_inj by blast
qed simp

theorem canonical_json_injective_witness:
  "CanonicalJSON dec_uuid_lib (projection sample_submit)
     \<noteq> CanonicalJSON dec_uuid_lib (projection (sample_submit\<lparr>sc_ReferenceExternalID := ''''\<rparr>))"
proof -
  let ?p = "projection sample_submit"
  let ?q = "projection (sample_submit\<lparr>sc_ReferenceExternalID := ''''\<rparr>)"
  have "projection_valid ?p" "projection_valid ?q"
    by (simp_all add: projection_valid_def projection_def sample_submit_def providerIDPattern_def
        externalIDPattern_def is_provider_char_def is_external_char_def char_class_defs
        Kind_Valid_def currencyPattern_def)
  from canonical_json_injective [OF dec_uuid_lib_ok this] show ?thesis
    by (simp add: projection_def sample_submit_def)
qed

text \<open>
  The digest of every projection is a string of 64 lower-case hexadecimal digits, which is
  what the schema's check on the digest column demands.
\<close>

theorem digest_is_hex64: "hex64 (DigestOf u p)"
  by (rule DigestOf_hex64)

end
