(* ===== verification/Ingress.thy ===== *)
theory Ingress
  imports Commands Projection
begin

text \<open>
  What a caller sends: the queue envelope of \<open>internal/adapters/sqs/consumer/envelope.go\<close> and the
  request body of a submission in \<open>internal/adapters/http/handler.go\<close>, each turned into the shared
  command. \<open>time.Parse\<close> with the RFC 3339 layout is written out. The JSON decoder is not here: an
  envelope and a request are what it returned. The lemmas give the exact condition under which each
  channel accepts, and relate the two.
\<close>

section \<open>RFC 3339 instants\<close>

text \<open>
  \<open>time.Parse(time.RFC3339, s)\<close> as far as the program looks at it: whether it succeeds, and the
  offset of the zone in seconds. The layout parser takes an hour of one digit, a fraction after a
  point or a comma, and an offset of 24 hours or 60 minutes.
\<close>

fun getnum :: "bool \<Rightarrow> string \<Rightarrow> (nat \<times> string) option" where
  "getnum fixed [] = None"
| "getnum fixed [a] = (if is_digit a \<and> \<not> fixed then Some (digit_val a, []) else None)"
| "getnum fixed (a # b # s) =
     (if \<not> is_digit a then None
      else if is_digit b then Some (10 * digit_val a + digit_val b, s)
      else if fixed then None else Some (digit_val a, b # s))"

fun skip_char :: "char \<Rightarrow> string \<Rightarrow> string option" where
  "skip_char c [] = None"
| "skip_char c (d # s) = (if d = c then Some s else None)"

definition getyear :: "string \<Rightarrow> (nat \<times> string) option" where
  "getyear s = (if length s < 4 \<or> \<not> list_all is_digit (take 4 s) then None else Some (dec_value (take 4 s), drop 4 s))"

definition skip_fraction :: "string \<Rightarrow> string" where
  "skip_fraction s =
     (case s of
        c # d # r \<Rightarrow> if (c = CHR ''.'' \<or> c = CHR '','') \<and> is_digit d then dropWhile is_digit r else s
      | _ \<Rightarrow> s)"

definition is_leap :: "nat \<Rightarrow> bool" where
  "is_leap y \<longleftrightarrow> y mod 4 = 0 \<and> (y mod 100 \<noteq> 0 \<or> y mod 400 = 0)"

definition days_in :: "nat \<Rightarrow> nat \<Rightarrow> nat" where
  "days_in m y = (if m = 2 then (if is_leap y then 29 else 28) else if m \<in> {4, 6, 9, 11} then 30 else 31)"

definition getzone :: "string \<Rightarrow> (int \<times> string) option" where
  "getzone s =
     (case s of
        [] \<Rightarrow> None
      | c # r \<Rightarrow>
          if c = CHR ''Z'' then Some (0, r)
          else if length s < 6 \<or> s ! 3 \<noteq> CHR '':'' then None
          else (case (getnum True (take 2 r), getnum True (take 2 (drop 3 r))) of
              (Some (hr, _), Some (mm, _)) \<Rightarrow>
                if 24 < hr \<or> 60 < mm then None
                else if c = CHR ''+'' then Some (int ((hr * 60 + mm) * 60), drop 5 r)
                else if c = CHR ''-'' then Some (- int ((hr * 60 + mm) * 60), drop 5 r)
                else None
            | _ \<Rightarrow> None))"

definition time_Parse_RFC3339 :: "string \<Rightarrow> int option" where
  "time_Parse_RFC3339 s =
     Option.bind (getyear s) (\<lambda>(year, s).
     Option.bind (skip_char (CHR ''-'') s) (\<lambda>s.
     Option.bind (getnum True s) (\<lambda>(month, s).
     Option.bind (skip_char (CHR ''-'') s) (\<lambda>s.
     Option.bind (getnum True s) (\<lambda>(day, s).
     Option.bind (skip_char (CHR ''T'') s) (\<lambda>s.
     Option.bind (getnum False s) (\<lambda>(hour, s).
     Option.bind (skip_char (CHR '':'') s) (\<lambda>s.
     Option.bind (getnum True s) (\<lambda>(minute, s).
     Option.bind (skip_char (CHR '':'') s) (\<lambda>s.
     Option.bind (getnum True s) (\<lambda>(second, s).
     Option.bind (getzone (skip_fraction s)) (\<lambda>(offset, s).
     if month < 1 \<or> 12 < month \<or> day < 1 \<or> days_in month year < day \<or> 24 \<le> hour \<or> 60 \<le> minute \<or> 60 \<le> second
        \<or> s \<noteq> ''''
     then None else Some offset))))))))))))"

lemma rfc3339_samples:
  "time_Parse_RFC3339 ''2024-02-29T9:05:00,5Z'' = Some 0"
  "time_Parse_RFC3339 ''2023-02-29T09:05:00Z'' = None"
  "time_Parse_RFC3339 ''2024-01-01T00:00:00-03:00'' = Some (- 10800)"
  "time_Parse_RFC3339 ''2024-01-01 00:00:00Z'' = None"
  "time_Parse_RFC3339 ''2024-01-01T00:00:00+00:00'' = Some 0"
  by code_simp+

section \<open>The queue envelope\<close>

record money_payload =
  mp_Amount :: string
  mp_Currency :: string

record sqs_data =
  sd_ProviderID :: string
  sd_ExternalTransactionID :: string
  sd_IdempotencyKey :: string
  sd_PlayerID :: string
  sd_WalletID :: string
  sd_RoundID :: string
  sd_GameID :: string
  sd_Kind :: string
  sd_Money :: money_payload
  sd_ReferenceExternalTransactionID :: string

record sqs_envelope =
  se_MessageID :: string
  se_Type :: string
  se_OccurredAt :: string
  se_CorrelationID :: string
  se_Data :: sqs_data

definition TypeWagerTransactionRequested :: string where
  "TypeWagerTransactionRequested = ''WagerTransactionRequested''"

datatype envelope_error = ErrInvalidEnvelope

definition Envelope_Command :: "uuid_lib \<Rightarrow> sqs_envelope \<Rightarrow> envelope_error + submit_command" where
  "Envelope_Command u e =
     (let d = se_Data e; bad = ErrInvalidEnvelope in
      if se_MessageID e = '''' then Inl bad
      else if se_Type e \<noteq> TypeWagerTransactionRequested then Inl bad
      else if se_OccurredAt e = '''' then Inl bad
      else case time_Parse_RFC3339 (se_OccurredAt e) of
        None \<Rightarrow> Inl bad
      | Some offset \<Rightarrow>
          if offset \<noteq> 0 then Inl bad
          else if sd_IdempotencyKey d = '''' then Inl bad
          else if length (sd_IdempotencyKey d) > 255 then Inl bad
          else
            res_bind (ParseProviderID (sd_ProviderID d) bad) (\<lambda>providerID.
            res_bind (ParseExternalID (sd_ExternalTransactionID d) bad) (\<lambda>externalID.
            res_bind (ParseIdempotencyKey (sd_IdempotencyKey d) bad) (\<lambda>key.
            res_bind (ParseWalletID u (sd_WalletID d) bad) (\<lambda>walletID.
            res_bind (ParsePlayerID u (sd_PlayerID d) bad) (\<lambda>playerID.
            res_bind (ParseExternalID (sd_RoundID d) bad) (\<lambda>roundID.
            res_bind (ParseExternalID (sd_GameID d) bad) (\<lambda>gameID.
            res_bind (map_err (\<lambda>_. bad) (Parse (mp_Amount (sd_Money d)) (mp_Currency (sd_Money d)))) (\<lambda>amount.
            res_bind (if sd_ReferenceExternalTransactionID d \<noteq> ''''
                      then ParseExternalID (sd_ReferenceExternalTransactionID d) bad
                      else Inr '''') (\<lambda>reference.
            let command = \<lparr>sc_ProviderID = providerID, sc_ExternalTransactionID = externalID,
              sc_IdempotencyKey = key, sc_WalletID = walletID, sc_PlayerID = playerID, sc_RoundID = roundID,
              sc_GameID = gameID, sc_Kind = sd_Kind d, sc_Amount = amount, sc_ReferenceExternalID = reference,
              sc_CorrelationID = (if se_CorrelationID e = '''' then se_MessageID e else se_CorrelationID e)\<rparr>
            in res_bind (map_err (\<lambda>_. bad) (SubmitWagerCommand_Validate command)) (\<lambda>_. Inr command)))))))))))"

section \<open>The request of a submission\<close>

record wager_request =
  wq_ProviderID :: string
  wq_ExternalTransactionID :: string
  wq_PlayerID :: string
  wq_WalletID :: string
  wq_RoundID :: string
  wq_GameID :: string
  wq_Kind :: string
  wq_Money :: money_payload
  wq_ReferenceExternalTransactionID :: string

text \<open>A refusal before the use case: the status and the code of the error envelope.\<close>

type_synonym refusal = "nat \<times> string"

definition moneyInput_parse :: "money_payload \<Rightarrow> money_error + money" where
  "moneyInput_parse m = Parse (mp_Amount m) (mp_Currency m)"

text \<open>
  The part of \<open>handleSubmitWager\<close> between the decoded body and the use case: \<open>provider\<close> is the
  authenticated provider, \<open>key\<close> the header \<open>Idempotency-Key\<close>.
\<close>

definition wager_command ::
  "uuid_lib \<Rightarrow> string \<Rightarrow> string \<Rightarrow> string \<Rightarrow> wager_request \<Rightarrow> refusal + submit_command" where
  "wager_command u provider key correlation q =
     (let invalid = (422, ''INVALID_REQUEST'') in
      if wq_ProviderID q \<noteq> '''' \<and> wq_ProviderID q \<noteq> provider then Inl (403, ''FORBIDDEN'')
      else
        res_bind (ParseIdempotencyKey key
          (if key = '''' then (400, CodeIdempotencyKeyRequired) else (400, ''INVALID_REQUEST''))) (\<lambda>idempotencyKey.
        res_bind (ParseProviderID provider invalid) (\<lambda>providerID.
        res_bind (ParseExternalID (wq_ExternalTransactionID q) invalid) (\<lambda>externalID.
        res_bind (ParseWalletID u (wq_WalletID q) invalid) (\<lambda>walletID.
        res_bind (ParsePlayerID u (wq_PlayerID q) invalid) (\<lambda>playerID.
        res_bind (ParseExternalID (wq_RoundID q) invalid) (\<lambda>roundID.
        res_bind (ParseExternalID (wq_GameID q) invalid) (\<lambda>gameID.
        res_bind (if wq_ReferenceExternalTransactionID q \<noteq> ''''
                  then ParseExternalID (wq_ReferenceExternalTransactionID q) invalid
                  else Inr '''') (\<lambda>reference.
        res_bind (map_err (\<lambda>_. (422, ''INVALID_MONEY'')) (moneyInput_parse (wq_Money q))) (\<lambda>amount.
        Inr \<lparr>sc_ProviderID = providerID, sc_ExternalTransactionID = externalID,
          sc_IdempotencyKey = idempotencyKey, sc_WalletID = walletID, sc_PlayerID = playerID, sc_RoundID = roundID,
          sc_GameID = gameID, sc_Kind = wq_Kind q, sc_Amount = amount, sc_ReferenceExternalID = reference,
          sc_CorrelationID = correlation\<rparr>))))))))))"

section \<open>What is accepted\<close>

text \<open>The members that a command is made of.\<close>

definition command_from ::
  "uuid_lib \<Rightarrow> sqs_data \<Rightarrow> submit_command \<Rightarrow> bool" where
  "command_from u d c \<longleftrightarrow>
     sc_ProviderID c = sd_ProviderID d \<and> providerIDPattern (sd_ProviderID d)
     \<and> sc_ExternalTransactionID c = sd_ExternalTransactionID d \<and> externalIDPattern (sd_ExternalTransactionID d)
     \<and> sc_IdempotencyKey c = sd_IdempotencyKey d \<and> idempotencyKeyPattern (sd_IdempotencyKey d)
     \<and> uuid_Parse u (sd_WalletID d) = Some (sc_WalletID c) \<and> uuid_Parse u (sd_PlayerID d) = Some (sc_PlayerID c)
     \<and> sc_RoundID c = sd_RoundID d \<and> externalIDPattern (sd_RoundID d)
     \<and> sc_GameID c = sd_GameID d \<and> externalIDPattern (sd_GameID d)
     \<and> sc_Kind c = sd_Kind d \<and> Parse (mp_Amount (sd_Money d)) (mp_Currency (sd_Money d)) = Inr (sc_Amount c)
     \<and> sc_ReferenceExternalID c = sd_ReferenceExternalTransactionID d
     \<and> (sd_ReferenceExternalTransactionID d = '''' \<or> externalIDPattern (sd_ReferenceExternalTransactionID d))"

definition envelope_head_ok :: "sqs_envelope \<Rightarrow> bool" where
  "envelope_head_ok e \<longleftrightarrow>
     se_MessageID e \<noteq> '''' \<and> se_Type e = TypeWagerTransactionRequested \<and> time_Parse_RFC3339 (se_OccurredAt e) = Some 0"

lemma Envelope_Command_Inr_iff:
  "Envelope_Command u e = Inr c \<longleftrightarrow>
     envelope_head_ok e \<and> command_from u (se_Data e) c \<and> SubmitWagerCommand_Validate c = Inr ()
     \<and> sc_CorrelationID c = (if se_CorrelationID e = '''' then se_MessageID e else se_CorrelationID e)"
proof -
  have t: "time_Parse_RFC3339 '''' = None" by (simp add: time_Parse_RFC3339_def getyear_def)
  have k: "\<not> idempotencyKeyPattern ''''" "idempotencyKeyPattern s \<Longrightarrow> \<not> 255 < length s" for s
    by (auto simp: idempotencyKeyPattern_def)
  show ?thesis
    by (cases c) (auto simp: t k Envelope_Command_def Let_def res_simps command_from_def envelope_head_ok_def
        split: option.splits)
qed

text \<open>The same members in the two channels.\<close>

definition request_of :: "sqs_data \<Rightarrow> wager_request" where
  "request_of d =
     \<lparr>wq_ProviderID = sd_ProviderID d, wq_ExternalTransactionID = sd_ExternalTransactionID d,
      wq_PlayerID = sd_PlayerID d, wq_WalletID = sd_WalletID d, wq_RoundID = sd_RoundID d, wq_GameID = sd_GameID d,
      wq_Kind = sd_Kind d, wq_Money = sd_Money d,
      wq_ReferenceExternalTransactionID = sd_ReferenceExternalTransactionID d\<rparr>"

lemma wager_command_Inr_iff:
  "wager_command u (sd_ProviderID d) (sd_IdempotencyKey d) correlation (request_of d) = Inr c \<longleftrightarrow>
     command_from u d c \<and> sc_CorrelationID c = correlation"
  by (cases c) (auto simp: wager_command_def request_of_def moneyInput_parse_def Let_def res_simps command_from_def
    split: option.splits)


text \<open>The envelope of a valid command, whatever its identifier and instant.\<close>

definition data_of :: "uuid_lib \<Rightarrow> submit_command \<Rightarrow> sqs_data" where
  "data_of u c =
     \<lparr>sd_ProviderID = sc_ProviderID c, sd_ExternalTransactionID = sc_ExternalTransactionID c,
      sd_IdempotencyKey = sc_IdempotencyKey c, sd_PlayerID = uuid_String u (sc_PlayerID c),
      sd_WalletID = uuid_String u (sc_WalletID c), sd_RoundID = sc_RoundID c, sd_GameID = sc_GameID c,
      sd_Kind = sc_Kind c,
      sd_Money = \<lparr>mp_Amount = money_String (sc_Amount c), mp_Currency = currency (sc_Amount c)\<rparr>,
      sd_ReferenceExternalTransactionID = sc_ReferenceExternalID c\<rparr>"

definition command_texts_ok :: "submit_command \<Rightarrow> bool" where
  "command_texts_ok c \<longleftrightarrow>
     providerIDPattern (sc_ProviderID c) \<and> externalIDPattern (sc_ExternalTransactionID c)
     \<and> idempotencyKeyPattern (sc_IdempotencyKey c) \<and> externalIDPattern (sc_RoundID c)
     \<and> externalIDPattern (sc_GameID c) \<and> currencyPattern (currency (sc_Amount c)) \<and> 0 \<le> amt (sc_Amount c)
     \<and> (sc_ReferenceExternalID c = '''' \<or> externalIDPattern (sc_ReferenceExternalID c))"

lemma command_from_data:
  "uuid_lib_ok u \<Longrightarrow> command_texts_ok c \<Longrightarrow> command_from u (data_of u c) c"
  by (auto simp: command_from_def data_of_def command_texts_ok_def uuid_lib_okD Parse_Inr_iff)

lemma command_from_unique: "command_from u d c \<Longrightarrow> command_from u d c' \<Longrightarrow>
    sc_CorrelationID c = sc_CorrelationID c' \<Longrightarrow> c = c'"
  by (intro submit_command.equality) (auto simp: command_from_def)


section \<open>Properties\<close>

text \<open>
  C19: the queue and the HTTP route accept the same submissions. An envelope with a well-formed head
  becomes a command exactly when its members, sent as a request by their provider with the same key and
  correlation, become that command and the command satisfies the contract that the use case checks
  first; an envelope whose head is not well formed (no identifier, another type, an instant that is not
  RFC 3339 in UTC) is refused.
\<close>

theorem ingress_channels_agree:
  "Envelope_Command u e = Inr c \<longleftrightarrow>
     envelope_head_ok e
     \<and> wager_command u (sd_ProviderID (se_Data e)) (sd_IdempotencyKey (se_Data e))
         (if se_CorrelationID e = '''' then se_MessageID e else se_CorrelationID e) (request_of (se_Data e)) = Inr c
     \<and> SubmitWagerCommand_Validate c = Inr ()"
  using Envelope_Command_Inr_iff wager_command_Inr_iff by blast

text \<open>
  A valid command survives the queue. The envelope whose members print the members of a command that
  satisfies the contract and the textual formats becomes that command again.
\<close>

theorem envelope_command_roundtrip:
  assumes "uuid_lib_ok u" and "command_texts_ok c" and "SubmitWagerCommand_Validate c = Inr ()"
    and "envelope_head_ok e" and "se_Data e = data_of u c" and "se_CorrelationID e = sc_CorrelationID c"
    and "sc_CorrelationID c \<noteq> ''''"
  shows "Envelope_Command u e = Inr c"
  using assms command_from_data [OF assms(1,2)] by (simp add: Envelope_Command_Inr_iff)

definition sample_rollback_command :: submit_command where
  "sample_rollback_command =
     \<lparr>sc_ProviderID = ''acme'', sc_ExternalTransactionID = ''rb-1'', sc_IdempotencyKey = ''key-2'',
      sc_WalletID = 100, sc_PlayerID = 2, sc_RoundID = ''r1'', sc_GameID = ''g1'', sc_Kind = KindRollback,
      sc_Amount = \<lparr>minorUnits = 305, currency = ''BRL''\<rparr>, sc_ReferenceExternalID = ''bet-1'', sc_CorrelationID = ''c''\<rparr>"

definition sample_sqs_envelope :: sqs_envelope where
  "sample_sqs_envelope =
     \<lparr>se_MessageID = ''m-1'', se_Type = ''WagerTransactionRequested'', se_OccurredAt = ''2024-01-01T00:00:00Z'',
      se_CorrelationID = ''c'', se_Data = \<lparr>sd_ProviderID = ''acme'', sd_ExternalTransactionID = ''rb-1'',
        sd_IdempotencyKey = ''key-2'', sd_PlayerID = ''2'', sd_WalletID = ''100'', sd_RoundID = ''r1'', sd_GameID = ''g1'',
        sd_Kind = ''ROLLBACK'', sd_Money = \<lparr>mp_Amount = ''3.05'', mp_Currency = ''BRL''\<rparr>,
        sd_ReferenceExternalTransactionID = ''bet-1''\<rparr>\<rparr>"

theorem envelope_command_roundtrip_witness:
  "Envelope_Command dec_uuid_lib sample_sqs_envelope = Inr sample_rollback_command"
proof (rule envelope_command_roundtrip [OF dec_uuid_lib_ok])
  show "command_texts_ok sample_rollback_command" by code_simp
  show "SubmitWagerCommand_Validate sample_rollback_command = Inr ()" by code_simp
  show "envelope_head_ok sample_sqs_envelope" by code_simp
  show "se_Data sample_sqs_envelope = data_of dec_uuid_lib sample_rollback_command" by code_simp
  show "se_CorrelationID sample_sqs_envelope = sc_CorrelationID sample_rollback_command" by code_simp
  show "sc_CorrelationID sample_rollback_command \<noteq> ''''" by code_simp
qed

end
