(* ===== verification/Timestamps.thy ===== *)
theory Timestamps
  imports Ingress
begin

text \<open>
  The instants of the events: \<open>Timestamp\<close> of \<open>internal/domain/event/event.go\<close>. The calendar of package
  \<open>time\<close> is written out (the year and the day of the year by cycles of 400, 100, 4 and 1 years, as \<open>absDate\<close>
  counts them), and so are the layout \<open>2006-01-02T15:04:05.000Z07:00\<close> in UTC and the instant that the RFC 3339
  parser returns. An instant counts nanoseconds from the first day of the year 1; the string inside the JSON
  document stands for the document.
\<close>

section \<open>The calendar\<close>

definition days_before_year :: "int \<Rightarrow> int" where
  "days_before_year y = 365 * (y - 1) + (y - 1) div 4 - (y - 1) div 100 + (y - 1) div 400"

text \<open>The length of a month depends on the year modulo 400.\<close>

definition month_length :: "int \<Rightarrow> nat \<Rightarrow> nat" where
  "month_length y m = days_in m (nat (y mod 400))"

definition days_before_month :: "int \<Rightarrow> nat \<Rightarrow> nat" where
  "days_before_month y m = sum_list (map (month_length y) [1..<m])"

definition Date :: "int \<Rightarrow> nat \<Rightarrow> nat \<Rightarrow> nat \<Rightarrow> nat \<Rightarrow> nat \<Rightarrow> nat \<Rightarrow> time" where
  "Date y m d hour minute sec ns =
     ((days_before_year y + int (days_before_month y m) + int d - 1) * 86400
       + int (hour * 3600 + minute * 60 + sec)) * 1000000000 + int ns"

definition year_of :: "int \<Rightarrow> int \<times> int" where
  "year_of days =
     (let n400 = days div 146097; d = days mod 146097;
          n100 = min 3 (d div 36524); d = d - 36524 * n100;
          n4 = d div 1461; d = d - 1461 * n4;
          n1 = min 3 (d div 365); d = d - 365 * n1
      in (400 * n400 + 100 * n100 + 4 * n4 + n1 + 1, d))"

fun month_of :: "int \<Rightarrow> nat list \<Rightarrow> nat \<Rightarrow> nat \<times> nat" where
  "month_of y [] d = (12, d)"
| "month_of y (m # ms) d = (if d < month_length y m then (m, d + 1) else month_of y ms (d - month_length y m))"

section \<open>The layout\<close>

definition format_pad :: "nat \<Rightarrow> nat \<Rightarrow> string" where
  "format_pad k n = replicate (k - length (format_nat n)) (CHR ''0'') @ format_nat n"

definition format_year :: "int \<Rightarrow> string" where
  "format_year y = (if y < 0 then ''-'' @ format_pad 4 (nat (- y)) else format_pad 4 (nat y))"

definition Timestamp_Format :: "time \<Rightarrow> string" where
  "Timestamp_Format t =
     (let secs = t div 1000000000; ns = nat (t mod 1000000000); sod = nat (secs mod 86400);
          (y, yday) = year_of (secs div 86400); (m, d) = month_of y [1..<13] (nat yday)
      in format_year y @ ''-'' @ format_02d m @ ''-'' @ format_02d d @ ''T'' @ format_02d (sod div 3600) @ '':''
         @ format_02d (sod div 60 mod 60) @ '':'' @ format_02d (sod mod 60) @ ''.'' @ format_pad 3 (ns div 1000000) @ ''Z'')"

definition Timestamp_MarshalJSON :: "time \<Rightarrow> string" where
  "Timestamp_MarshalJSON t = Timestamp_Format (time_UTC t)"

text \<open>
  \<open>parseNanoseconds\<close> reads nine digits of the fraction; the other fields are those of
  \<open>time_Parse_RFC3339\<close>, which keeps their validity and the offset only.
\<close>

definition fraction_ns :: "string \<Rightarrow> nat" where
  "fraction_ns s =
     (case s of
        c # d # r \<Rightarrow>
          if (c = CHR ''.'' \<or> c = CHR '','') \<and> is_digit d then
            (let ds = take 9 (takeWhile is_digit (d # r)) in dec_value ds * 10 ^ (9 - length ds))
          else 0
      | _ \<Rightarrow> 0)"

definition time_Parse_instant :: "string \<Rightarrow> time option" where
  "time_Parse_instant s =
     Option.bind (getyear s) (\<lambda>(year, s).
     Option.bind (skip_char (CHR ''-'') s) (\<lambda>s.
     Option.bind (getnum True s) (\<lambda>(month, s).
     Option.bind (skip_char (CHR ''-'') s) (\<lambda>s.
     Option.bind (getnum True s) (\<lambda>(day, s).
     Option.bind (skip_char (CHR ''T'') s) (\<lambda>s.
     Option.bind (getnum False s) (\<lambda>(hour, s).
     Option.bind (skip_char (CHR '':'') s) (\<lambda>s.
     Option.bind (getnum True s) (\<lambda>(minute, s).
     Option.bind (skip_char (CHR '':'') s) (\<lambda>s.
     Option.bind (getnum True s) (\<lambda>(second, s).
     Option.bind (getzone (skip_fraction s)) (\<lambda>(offset, rest).
     if month < 1 \<or> 12 < month \<or> day < 1 \<or> days_in month year < day \<or> 24 \<le> hour \<or> 60 \<le> minute \<or> 60 \<le> second
        \<or> rest \<noteq> ''''
     then None
     else Some (Date (int year) month day hour minute second (fraction_ns s) - offset * 1000000000)))))))))))))"

definition Timestamp_UnmarshalJSON :: "string option \<Rightarrow> time option" where
  "Timestamp_UnmarshalJSON raw = Option.bind raw (\<lambda>s. map_option time_UTC (time_Parse_instant s))"

section \<open>The calendar is counted right\<close>

definition leap :: "int \<Rightarrow> bool" where
  "leap y \<longleftrightarrow> y mod 4 = 0 \<and> (y mod 100 \<noteq> 0 \<or> y mod 400 = 0)"

lemma div_step:
  fixes y k :: int
  assumes "0 < k"
  shows "y div k = (y - 1) div k + (if y mod k = 0 then 1 else 0)"
proof (cases "y mod k = 0")
  case True
  have "y - 1 = k * (y div k - 1) + (k - 1)" using True minus_mod_eq_mult_div [of y k] by (simp add: algebra_simps)
  then have "(y - 1) div k = y div k - 1" by (rule int_div_pos_eq) (use assms in auto)
  then show ?thesis using True by simp
next
  case False
  have r: "0 < y mod k" "y mod k < k" using False assms pos_mod_bound [of k y] pos_mod_sign [of k y] by linarith+
  have "y - 1 = k * (y div k) + (y mod k - 1)" using minus_mod_eq_mult_div [of y k] by (simp add: algebra_simps)
  then have "(y - 1) div k = y div k" by (rule int_div_pos_eq) (use r in auto)
  then show ?thesis using False by simp
qed

lemma year_length: "days_before_year (y + 1) = days_before_year y + 365 + (if leap y then 1 else 0)"
proof -
  have i: "y mod 100 = 0 \<longrightarrow> y mod 4 = 0" "y mod 400 = 0 \<longrightarrow> y mod 100 = 0"
    by (simp_all add: mod_eq_0_iff_dvd dvd_trans [of 4 100 y] dvd_trans [of 100 400 y])
  have "days_before_year (y + 1) = days_before_year y + 365 + ((if y mod 4 = 0 then 1 else 0)
      - (if y mod 100 = 0 then 1 else 0) + (if y mod 400 = 0 then 1 else 0))"
  proof -
    have k: "(0::int) < 4" "(0::int) < 100" "(0::int) < 400" by simp_all
    have regroup: "365 * y + (a4 + u) - (a100 + v) + (a400 + w) = 365 * (y - 1) + a4 - a100 + a400 + 365 + (u - v + w)"
      for a4 a100 a400 u v w :: int by simp
    show ?thesis
      unfolding days_before_year_def add_diff_cancel_right' div_step [OF k(1), of y] div_step [OF k(2), of y]
        div_step [OF k(3), of y]
      by (rule regroup)
  qed
  moreover have "(if y mod 4 = 0 then 1 else 0) - (if y mod 100 = 0 then 1 else 0) + (if y mod 400 = 0 then 1 else 0)
      = (if leap y then 1 else (0::int))"
  proof -
    have ind: "(q \<longrightarrow> p) \<Longrightarrow> (r \<longrightarrow> q) \<Longrightarrow>
        (if p then 1 else 0) - (if q then 1 else 0) + (if r then 1 else 0) = (if p \<and> (\<not> q \<or> r) then 1 else (0::int))" for p q r
      by (cases p; cases q; cases r) simp_all
    show ?thesis unfolding leap_def by (rule ind [OF i])
  qed
  ultimately show ?thesis by (simp only:)
qed

lemma is_leap_mod: "is_leap (nat (y mod 400)) \<longleftrightarrow> leap y"
proof -
  have "nat (y mod 400) mod k = 0 \<longleftrightarrow> y mod int k = 0" if "int k dvd 400" "0 < k" for k
  proof -
    have "int (nat (y mod 400) mod k) = y mod int k" using that(1) by (simp add: zmod_int mod_mod_cancel)
    then show ?thesis by linarith
  qed
  from this [of 4] this [of 100] this [of 400] show ?thesis by (simp add: is_leap_def leap_def)
qed

lemma days_before_year_mono: "y \<le> z \<Longrightarrow> days_before_year y \<le> days_before_year z"
proof (induction z rule: int_ge_induct)
  case (step z)
  then show ?case using year_length [of z] by simp
qed simp

text \<open>A quotient that is cut off at the last part of a cycle, which is one day longer.\<close>

lemma min_div:
  fixes r k n :: int
  assumes "0 < k" "0 \<le> n" "0 \<le> r" "r \<le> (n + 1) * k"
  defines "b \<equiv> min n (r div k)"
  shows "0 \<le> b" "b \<le> n" "0 \<le> r - k * b" "r - k * b \<le> k" "b < n \<Longrightarrow> r - k * b < k"
proof -
  define q m where "q = r div k" and "m = r mod k"
  have r: "r = k * q + m" "0 \<le> m" "m < k" "0 \<le> q"
    using assms by (simp_all add: q_def m_def pos_imp_zdiv_nonneg_iff)
  have b: "b = min n q" by (simp add: b_def q_def)
  show "0 \<le> b" "b \<le> n" using assms(2) r(4) b by simp_all
  have "k * b \<le> k * q" using assms(1) b by simp
  then show "0 \<le> r - k * b" using r by linarith
  show "b < n \<Longrightarrow> r - k * b < k" using r b by (auto simp: min_def split: if_splits)
  show "r - k * b \<le> k"
  proof (cases "n < q")
    case True
    then have "b = n" using b by simp
    then show ?thesis using assms(4) by (simp add: algebra_simps)
  next
    case False
    then have "b = q" using b by simp
    then show ?thesis using r by simp
  qed
qed

text \<open>The year and the day of the year of a day.\<close>

lemma year_of_day:
  assumes "year_of n = (y, d)"
  shows "days_before_year y + d = n" "0 \<le> d" "d < 365 + (if leap y then 1 else 0)"
proof -
  define a r where "a = n div 146097" and "r = n mod 146097"
  define b where "b = min 3 (r div 36524)"
  define r2 where "r2 = r - 36524 * b"
  define c where "c = r2 div 1461"
  define r3 where "r3 = r2 - 1461 * c"
  define e where "e = min 3 (r3 div 365)"
  have y: "y = 400 * a + 100 * b + 4 * c + e + 1" and d: "d = r3 - 365 * e"
    using assms unfolding year_of_def Let_def prod.inject a_def r_def b_def r2_def c_def r3_def e_def by blast+
  have r: "0 \<le> r" "r < 146097" "n = 146097 * a + r" by (simp_all add: a_def r_def)
  have b: "0 \<le> b" "b \<le> 3" "0 \<le> r2" "r2 \<le> 36524" "b < 3 \<Longrightarrow> r2 < 36524"
  proof -
    have k: "(0::int) < 36524" "(0::int) \<le> 3" "r \<le> (3 + 1) * 36524" using r(2) by simp_all
    show "0 \<le> b" "b \<le> 3" "0 \<le> r2" "r2 \<le> 36524" "b < 3 \<Longrightarrow> r2 < 36524"
      unfolding r2_def b_def by (rule min_div [OF k(1,2) r(1) k(3)], assumption?)+
  qed
  have c: "0 \<le> c" "c \<le> 24" "0 \<le> r3" "r3 < 1461" "c = 24 \<Longrightarrow> b < 3 \<Longrightarrow> r3 < 1460"
  proof -
    have "r2 = 1461 * c + r3" "0 \<le> r3" "r3 < 1461" unfolding c_def r3_def minus_mult_div_eq_mod by simp_all
    then show "0 \<le> c" "c \<le> 24" "0 \<le> r3" "r3 < 1461" using b(3,4) by linarith+
    show "r3 < 1460" if "c = 24" "b < 3" using b(5) that unfolding r3_def by simp
  qed
  have e: "0 \<le> e" "e \<le> 3" "0 \<le> d" "d \<le> 365" "e < 3 \<Longrightarrow> d < 365"
  proof -
    have k: "(0::int) < 365" "(0::int) \<le> 3" "r3 \<le> (3 + 1) * 365" using c(4) by simp_all
    show "0 \<le> e" "e \<le> 3" "0 \<le> d" "d \<le> 365" "e < 3 \<Longrightarrow> d < 365"
      unfolding d e_def by (rule min_div [OF k(1,2) c(3) k(3)], assumption?)+
  qed
  have q: "(y - 1) div 4 = 100 * a + 25 * b + c" "(y - 1) div 100 = 4 * a + b" "(y - 1) div 400 = a"
  proof -
    show "(y - 1) div 4 = 100 * a + 25 * b + c" by (rule int_div_pos_eq [where r = e]) (use e(1,2) y in auto)
    show "(y - 1) div 100 = 4 * a + b" by (rule int_div_pos_eq [where r = "4 * c + e"]) (use c(1,2) e(1,2) y in auto)
    show "(y - 1) div 400 = a" by (rule int_div_pos_eq [where r = "100 * b + 4 * c + e"]) (use b(1,2) c(1,2) e(1,2) y in auto)
  qed
  show "days_before_year y + d = n" unfolding days_before_year_def q using y d r(3) r2_def r3_def by simp
  show "0 \<le> d" by (rule e)
  show "d < 365 + (if leap y then 1 else 0)"
  proof (cases "d = 365")
    case True
    then have "e = 3" using e by linarith
    moreover have "c < 24 \<or> b = 3" using True \<open>e = 3\<close> d c b by fastforce
    moreover have "y mod 4 = 0" by (rule int_mod_pos_eq [where q = "100 * a + 25 * b + c + 1"]) (use y \<open>e = 3\<close> in auto)
    moreover have "y mod 100 = 4 * (c + 1)" if "c < 24"
      by (rule int_mod_pos_eq [where q = "4 * a + b"]) (use y \<open>e = 3\<close> c that in auto)
    moreover have "y mod 400 = 0" if "c = 24" "b = 3"
      by (rule int_mod_pos_eq [where q = "a + 1"]) (use y \<open>e = 3\<close> that in auto)
    ultimately have "leap y" using c(1,2) by (fastforce simp: leap_def)
    then show ?thesis using True by simp
  qed (use e in auto)
qed

text \<open>The month and the day of a day of the year.\<close>

lemma month_of_cons:
  "month_of y (m # ms) d = (mo, dd) \<Longrightarrow>
     (mo = m \<and> dd = d + 1 \<and> d < month_length y m) \<or>
     (month_length y m \<le> d \<and> month_of y ms (d - month_length y m) = (mo, dd))"
  by (auto split: if_splits)

lemma month_of_day:
  assumes "month_of y [a..<b] d = (m, dd)" "d < sum_list (map (month_length y) [a..<b])"
  shows "a \<le> m \<and> m < b \<and> 1 \<le> dd \<and> dd \<le> month_length y m \<and> sum_list (map (month_length y) [a..<m]) + dd = d + 1"
  using assms
proof (induction "b - a" arbitrary: a d)
  case (Suc k)
  then have ab: "a < b" "[a..<b] = a # [Suc a..<b]" by (simp_all add: upt_conv_Cons)
  show ?case
  proof (cases "d < month_length y a")
    case True
    then show ?thesis using Suc.prems ab by simp
  next
    case False
    then have "Suc a \<le> m \<and> m < b \<and> 1 \<le> dd \<and> dd \<le> month_length y m
        \<and> sum_list (map (month_length y) [Suc a..<m]) + dd = (d - month_length y a) + 1"
      using Suc ab by (intro Suc.hyps(1)) (simp_all add: ab)
    then show ?thesis using False by (auto simp: upt_conv_Cons [of a m])
  qed
qed simp

lemma months_of_year: "sum_list (map (month_length y) [1..<13]) = 365 + (if leap y then 1 else 0)"
proof -
  have "[1..<13] = [1, 2, 3, 4, 5, 6, 7, 8, 9, 10, 11, 12 :: nat]" by code_simp
  then show ?thesis by (simp add: month_length_def days_in_def is_leap_mod)
qed

lemma month_length_parse: "0 \<le> y \<Longrightarrow> days_in m (nat y) = month_length y m"
proof -
  assume y: "0 \<le> y"
  have "nat y mod k = 0 \<longleftrightarrow> y mod int k = 0" if "0 < k" for k
  proof -
    have "int (nat y mod k) = y mod int k" using y by (simp add: zmod_int)
    then show ?thesis by linarith
  qed
  from this [of 4] this [of 100] this [of 400] have "is_leap (nat y) \<longleftrightarrow> leap y" by (simp add: is_leap_def leap_def)
  then show ?thesis by (simp add: month_length_def days_in_def is_leap_mod)
qed

section \<open>Reading what the layout writes\<close>

text \<open>The parsers read back what the layout writes.\<close>

lemma getnum_format: "n < 100 \<Longrightarrow> getnum f (format_02d n @ s) = Some (n, s)"
  by (simp add: format_02d_def) 

lemma dec_value_zeros: "dec_value (replicate k (CHR ''0'') @ s) = dec_value s"
  by (induction k) (simp_all add: dec_value_def digit_val_def byte_of_def)

lemma format_pad_digits: "list_all is_digit (format_pad k n)"
proof -
  have "is_digit (CHR ''0'')" by (simp add: is_digit_def byte_of_def)
  then show ?thesis using format_nat_digits [of n] by (auto simp: format_pad_def list_all_iff)
qed

lemma format_pad_value [simp]: "dec_value (format_pad k n) = n"
  by (simp add: format_pad_def dec_value_zeros)

lemma format_nat_width: "n < 10 ^ Suc k \<Longrightarrow> length (format_nat n) \<le> Suc k"
proof (induction k arbitrary: n)
  case (Suc k)
  then show ?case using Suc.IH [of "n div 10"] by (simp add: format_nat.simps [of n] less_mult_imp_div_less)
qed (simp add: format_nat.simps)

lemma format_pad_length: "n < 10 ^ Suc k \<Longrightarrow> length (format_pad (Suc k) n) = Suc k"
  using format_nat_width [of n k] by (simp add: format_pad_def)

lemma getyear_format: "n < 10000 \<Longrightarrow> getyear (format_pad 4 n @ s) = Some (n, s)"
  using format_pad_length [of n 3] format_pad_digits [of 4 n] by (simp add: getyear_def)

lemma digit_not_Z: "\<not> is_digit (CHR ''Z'')" by (simp add: is_digit_def byte_of_def)

lemma fraction_format:
  assumes "n < 1000"
  shows "skip_fraction (''.'' @ format_pad 3 n @ ''Z'') = ''Z''" "fraction_ns (''.'' @ format_pad 3 n @ ''Z'') = n * 1000000"
proof -
  have len: "length (format_pad 3 n) = 3" using format_pad_length [of n 2] assms by simp
  then obtain a b c where p: "format_pad 3 n = [a, b, c]"
    by (auto simp: length_Suc_conv numeral_3_eq_3)
  have d: "is_digit a" "is_digit b" "is_digit c" using format_pad_digits [of 3 n] by (simp_all add: p)
  have v: "dec_value [a, b, c] = n" using format_pad_value [of 3 n] by (simp add: p)
  show "skip_fraction (''.'' @ format_pad 3 n @ ''Z'') = ''Z''" by (simp add: p d skip_fraction_def digit_not_Z)
  show "fraction_ns (''.'' @ format_pad 3 n @ ''Z'') = n * 1000000"
    using v by (simp add: p d fraction_ns_def digit_not_Z Let_def)
qed

text \<open>The years of four digits.\<close>

lemma year_bounds:
  assumes "days_before_year lo \<le> n" "n < days_before_year hi" "year_of n = (y, d)"
  shows "lo \<le> y" "y < hi"
proof -
  note yd = year_of_day [OF assms(3)]
  show "y < hi"
  proof (rule ccontr)
    assume "\<not> y < hi"
    then show False using days_before_year_mono [of hi y] yd(1,2) assms(2) by linarith
  qed
  show "lo \<le> y"
  proof (rule ccontr)
    assume "\<not> lo \<le> y"
    then have "days_before_year (y + 1) \<le> days_before_year lo" by (intro days_before_year_mono) simp
    then show False using year_length [of y] yd(1,3) assms(1) by linarith
  qed
qed

lemma month_of_year:
  assumes "d < 365 + (if leap y then 1 else 0)" "month_of y [1..<13] d = (m, dd)"
  shows "1 \<le> m" "m \<le> 12" "1 \<le> dd" "dd \<le> month_length y m" "days_before_month y m + dd = d + 1"
proof -
  have "d < sum_list (map (month_length y) [1..<13])" using assms(1) by (simp only: months_of_year)
  from month_of_day [OF assms(2) this]
  show "1 \<le> m" "m \<le> 12" "1 \<le> dd" "dd \<le> month_length y m" "days_before_month y m + dd = d + 1"
    unfolding days_before_month_def by linarith+
qed

text \<open>The time of the day in its three fields.\<close>

lemma time_of_day:
  fixes t :: int
  defines "sod \<equiv> nat (t div 1000000000 mod 86400)" and "ns \<equiv> nat (t mod 1000000000)"
  shows "sod div 3600 < 24" "sod div 60 mod 60 < 60" "sod mod 60 < 60" "ns div 1000000 < 1000"
    "(t div 1000000000 div 86400 * 86400 + int (sod div 3600 * 3600 + sod div 60 mod 60 * 60 + sod mod 60)) * 1000000000
       + int (ns div 1000000 * 1000000) = t - t mod 1000000"
proof -
  have sod: "sod < 86400" "int sod = t div 1000000000 mod 86400"
    unfolding sod_def by (simp_all add: nat_less_iff)
  have ns: "ns < 1000000000" "int ns = t mod 1000000000" unfolding ns_def by (simp_all add: nat_less_iff)
  show "sod div 3600 < 24" using sod(1) by (simp add: less_mult_imp_div_less)
  show "sod div 60 mod 60 < 60" "sod mod 60 < 60" by simp_all
  show "ns div 1000000 < 1000" using ns(1) by (simp add: less_mult_imp_div_less)
  have "sod div 60 = 60 * (sod div 60 div 60) + sod div 60 mod 60" by simp
  moreover have "sod div 60 div 60 = sod div 3600" by (simp add: div_mult2_eq [symmetric])
  ultimately have fields: "sod div 3600 * 3600 + sod div 60 mod 60 * 60 + sod mod 60 = sod"
    using mult_div_mod_eq [of 60 sod] by linarith
  have days: "t div 1000000000 div 86400 * 86400 + t div 1000000000 mod 86400 = t div 1000000000" by simp
  have ms: "int (ns div 1000000 * 1000000) = t mod 1000000000 - t mod 1000000"
  proof -
    have "int (ns div 1000000 * 1000000) = int ns - int ns mod 1000000"
      by (simp add: zdiv_int minus_mod_eq_div_mult)
    also have "int ns mod 1000000 = t mod 1000000" unfolding ns(2) by (rule mod_mod_cancel) simp
    finally show ?thesis by (simp only: ns(2))
  qed
  have "t div 1000000000 * 1000000000 + (t mod 1000000000 - t mod 1000000) = t - t mod 1000000" by simp
  then show "(t div 1000000000 div 86400 * 86400 + int (sod div 3600 * 3600 + sod div 60 mod 60 * 60 + sod mod 60)) * 1000000000
       + int (ns div 1000000 * 1000000) = t - t mod 1000000"
    unfolding fields ms sod(2) days .
qed

lemma bounds_of_days:
  assumes "lo * 86400000000000 \<le> t" "t < hi * (86400000000000::int)"
  shows "lo \<le> t div 1000000000 div 86400" "t div 1000000000 div 86400 < hi"
proof -
  define q m where "q = t div 86400000000000" and "m = t mod 86400000000000"
  have "t = 86400000000000 * q + m" "0 \<le> m" "m < 86400000000000" by (simp_all add: q_def m_def)
  then have "lo \<le> q" "q < hi" using assms by linarith+
  moreover have "t div 1000000000 div 86400 = q" by (simp add: q_def zdiv_zmult2_eq [symmetric])
  ultimately show "lo \<le> t div 1000000000 div 86400" "t div 1000000000 div 86400 < hi" by simp_all
qed

lemma parse_fields:
  assumes "y < 10000" "1 \<le> m" "m \<le> 12" "1 \<le> d" "d \<le> days_in m y" "h < 24" "mi < 60" "sec < 60" "ms < 1000"
  shows "time_Parse_instant (format_pad 4 y @ ''-'' @ format_02d m @ ''-'' @ format_02d d @ ''T'' @ format_02d h @ '':''
         @ format_02d mi @ '':'' @ format_02d sec @ ''.'' @ format_pad 3 ms @ ''Z'')
       = Some (Date (int y) m d h mi sec (ms * 1000000))"
proof -
  have "days_in m y \<le> 31" by (simp add: days_in_def)
  then have d: "d < 100" using assms(5) by linarith
  note frac = fraction_format [OF assms(9), simplified]
  have z: "getzone ''Z'' = Some (0, '''')" by (simp add: getzone_def)
  show ?thesis
    using assms d unfolding time_Parse_instant_def
    by (simp add: getyear_format getnum_format frac z)
qed

lemma head_of_pad: "0 \<le> y \<Longrightarrow> format_year y = format_pad 4 (nat y)"
  by (simp add: format_year_def)

text \<open>The instant is read from the texts that \<open>time_Parse_RFC3339\<close> takes for valid.\<close>

lemma time_Parse_instant_iff: "time_Parse_instant s = None \<longleftrightarrow> time_Parse_RFC3339 s = None"
  unfolding time_Parse_instant_def time_Parse_RFC3339_def
  by (auto simp: bind_eq_None_conv split: prod.splits if_splits)

text \<open>
  C28: an instant between the years 0 and 9999 that is written to JSON is read back as the same instant, cut to its
  millisecond.
\<close>

theorem timestamp_roundtrip:
  assumes "Date 0 1 1 0 0 0 0 \<le> t" "t < Date 10000 1 1 0 0 0 0"
  shows "Timestamp_UnmarshalJSON (Some (Timestamp_MarshalJSON t)) = Some (t - t mod 1000000)"
proof -
  define n where "n = t div 1000000000 div 86400"
  obtain y yd where y: "year_of n = (y, yd)" by fastforce
  obtain m d where m: "month_of y [1..<13] (nat yd) = (m, d)" by fastforce
  have ends: "days_before_year 0 * 86400000000000 \<le> t" "t < days_before_year 10000 * 86400000000000"
    using assms by (simp_all add: Date_def days_before_month_def)
  from bounds_of_days [OF ends] have "days_before_year 0 \<le> n" "n < days_before_year 10000"
    unfolding n_def .
  from year_bounds [OF this y] have yr: "0 \<le> y" "y < 10000" .
  note yd = year_of_day [OF y]
  have "nat yd < 365 + (if leap y then 1 else 0)" using yd(2,3) by (simp split: if_splits)
  note mo = month_of_year [OF this m]
  have day: "days_before_year y + int (days_before_month y m) + int d - 1 = n" using mo(5) yd(1,2) by linarith
  define h mi sec ms where "h = nat (t div 1000000000 mod 86400) div 3600"
    and "mi = nat (t div 1000000000 mod 86400) div 60 mod 60" and "sec = nat (t div 1000000000 mod 86400) mod 60"
    and "ms = nat (t mod 1000000000) div 1000000"
  note tod = time_of_day [of t, folded n_def h_def mi_def sec_def ms_def]
  have fields: "nat y < 10000" "d \<le> days_in m (nat y)"
    using yr mo(4) by (simp_all add: month_length_parse nat_less_iff)
  have "Timestamp_Format t = format_pad 4 (nat y) @ ''-'' @ format_02d m @ ''-'' @ format_02d d @ ''T'' @ format_02d h @ '':''
         @ format_02d mi @ '':'' @ format_02d sec @ ''.'' @ format_pad 3 ms @ ''Z''"
    unfolding Timestamp_Format_def Let_def n_def [symmetric] y m prod.case head_of_pad [OF yr(1)] h_def mi_def sec_def ms_def ..
  then have "time_Parse_instant (Timestamp_Format t) = Some (Date (int (nat y)) m d h mi sec (ms * 1000000))"
    by (simp only: parse_fields [OF fields(1) mo(1,2,3) fields(2) tod(1-4)])
  also have "Date (int (nat y)) m d h mi sec (ms * 1000000) = t - t mod 1000000"
    unfolding Date_def int_nat_eq if_P [OF yr(1)] day by (rule tod)
  finally have "time_Parse_instant (Timestamp_Format t) = Some (t - t mod 1000000)" .
  then show ?thesis
    unfolding Timestamp_UnmarshalJSON_def Timestamp_MarshalJSON_def time_UTC_def by simp
qed

lemma timestamp_roundtrip_witness:
  "Date 0 1 1 0 0 0 0 \<le> 63846673445678912345 \<and> (63846673445678912345::int) < Date 10000 1 1 0 0 0 0
   \<and> Timestamp_UnmarshalJSON (Some (Timestamp_MarshalJSON 63846673445678912345)) = Some 63846673445678000000"
proof (intro conjI)
  show lo: "Date 0 1 1 0 0 0 0 \<le> 63846673445678912345"
    by (simp add: Date_def days_before_year_def days_before_month_def)
  show hi: "(63846673445678912345::int) < Date 10000 1 1 0 0 0 0"
    by (simp add: Date_def days_before_year_def days_before_month_def)
  have "63846673445678912345 - 63846673445678912345 mod 1000000 = (63846673445678000000::int)" by simp
  then show "Timestamp_UnmarshalJSON (Some (Timestamp_MarshalJSON 63846673445678912345)) = Some 63846673445678000000"
    using timestamp_roundtrip [OF lo hi] by (simp only:)
qed

end
