(* ===== verification/Schema.thy ===== *)
theory Schema
  imports Projection "HOL-Library.Product_Lexorder"
begin

text \<open>
  The database: the tables of \<open>migrations/\<close> as lists of rows, and the SQL statements of the
  repositories as functions on them. A statement either fails with the SQLSTATE and constraint
  PostgreSQL would report (checks first, then unique keys, then foreign keys) or returns its rows
  and the new database. A UUID column holds the 128-bit value; instants are kept exactly. A check
  passes when it does not evaluate to false, so a NULL comparison passes.
\<close>

section \<open>Rows\<close>

record wallet_row =
  wlr_id :: uuid
  wlr_playerId :: uuid
  wlr_currency :: string
  wlr_balance :: int64
  wlr_version :: int64
  wlr_createdAt :: time
  wlr_updatedAt :: time

record tx_row =
  txr_id :: uuid
  txr_origin :: string
  txr_kind :: string
  txr_state :: string
  txr_providerId :: "string option"
  txr_externalTransactionId :: "string option"
  txr_idempotencyKey :: "string option"
  txr_digestVersion :: "string option"
  txr_digest :: "string option"
  txr_walletId :: uuid
  txr_playerId :: uuid
  txr_roundId :: "string option"
  txr_gameId :: "string option"
  txr_amount :: int64
  txr_currency :: string
  txr_referenceExternalTransactionId :: "string option"
  txr_referenceTransactionId :: "uuid option"
  txr_failureCode :: "string option"
  txr_observedBalance :: "int64 option"
  txr_referenceDeadline :: "time option"
  txr_nextAttemptAt :: "time option"
  txr_referenceAttempts :: int
  txr_claimedUntil :: "time option"
  txr_createdAt :: time
  txr_updatedAt :: time

record ledger_row =
  lgr_id :: uuid
  lgr_walletId :: uuid
  lgr_transactionId :: uuid
  lgr_direction :: string
  lgr_amount :: int64
  lgr_balanceBefore :: int64
  lgr_balanceAfter :: int64
  lgr_createdAt :: time

record claim_row =
  clr_id :: uuid
  clr_referenceTransactionId :: uuid
  clr_reversalTransactionId :: uuid
  clr_createdAt :: time

record outbox_row =
  obr_eventId :: string
  obr_eventType :: string
  obr_aggregateId :: string
  obr_correlationId :: string
  obr_causationId :: "string option"
  obr_occurredAt :: time
  obr_version :: int
  obr_payload :: envelope
  obr_createdAt :: time
  obr_publishedAt :: "time option"
  obr_nextAttemptAt :: time
  obr_attempts :: int
  obr_claimedUntil :: "time option"

record inbox_row =
  ibr_id :: uuid
  ibr_consumerName :: string
  ibr_messageId :: string
  ibr_digest :: string
  ibr_receivedAt :: time
  ibr_completedAt :: "time option"

record db =
  db_wallets :: "wallet_row list"
  db_transactions :: "tx_row list"
  db_ledger :: "ledger_row list"
  db_claims :: "claim_row list"
  db_outbox :: "outbox_row list"
  db_inbox :: "inbox_row list"

definition db_empty :: db where
  "db_empty = \<lparr>db_wallets = [], db_transactions = [], db_ledger = [], db_claims = [],
              db_outbox = [], db_inbox = []\<rparr>"

section \<open>Constraints\<close>

text \<open>The named checks of a row with their outcome; the first that fails is reported.\<close>

fun first_violation :: "(string \<times> bool) list \<Rightarrow> string option" where
  "first_violation [] = None"
| "first_violation ((name, holds) # cs) = (if holds then first_violation cs else Some name)"

definition wallet_checks :: "wallet_row \<Rightarrow> (string \<times> bool) list" where
  "wallet_checks r =
     [(''wallets_balance_nonnegative'', 0 \<le> sint (wlr_balance r)),
      (''wallets_currency_iso4217'', currencyPattern (wlr_currency r)),
      (''wallets_version_positive'', 1 \<le> sint (wlr_version r))]"

definition terminal_snapshot :: "tx_row \<Rightarrow> bool" where
  "terminal_snapshot r \<longleftrightarrow>
     (txr_state r = StateProcessed \<and> txr_failureCode r = None \<and> txr_observedBalance r \<noteq> None)
     \<or> (txr_state r = StateRejected \<and> txr_failureCode r \<noteq> None \<and> txr_observedBalance r \<noteq> None)
     \<or> (txr_state r = StateFailed
        \<and> (txr_failureCode r = None \<or> txr_failureCode r = Some FailurePermanentInfrastructure)
        \<and> txr_observedBalance r \<noteq> None)
     \<or> ((txr_state r = StatePending \<or> txr_state r = StatePendingReference)
        \<and> txr_failureCode r = None \<and> txr_observedBalance r = None)"

definition origin_metadata :: "tx_row \<Rightarrow> bool" where
  "origin_metadata r \<longleftrightarrow>
     (txr_origin r = OriginExternal \<and> txr_providerId r \<noteq> None \<and> txr_externalTransactionId r \<noteq> None
      \<and> txr_idempotencyKey r \<noteq> None \<and> txr_digestVersion r \<noteq> None \<and> txr_digest r \<noteq> None
      \<and> txr_roundId r \<noteq> None \<and> txr_gameId r \<noteq> None)
     \<or> (txr_origin r = OriginInternal \<and> txr_providerId r = None \<and> txr_externalTransactionId r = None
      \<and> txr_idempotencyKey r = None \<and> txr_digestVersion r = None \<and> txr_digest r = None
      \<and> txr_roundId r = None \<and> txr_gameId r = None \<and> txr_referenceExternalTransactionId r = None)"

definition transaction_checks :: "tx_row \<Rightarrow> (string \<times> bool) list" where
  "transaction_checks r =
     [(''wager_transactions_amount_nonnegative'', 0 \<le> sint (txr_amount r)),
      (''wager_transactions_attempts_nonnegative'', 0 \<le> txr_referenceAttempts r),
      (''wager_transactions_currency_iso4217'', currencyPattern (txr_currency r)),
      (''wager_transactions_digest_hex'', case txr_digest r of None \<Rightarrow> True | Some d \<Rightarrow> hex64 d),
      (''wager_transactions_failure_code_valid'',
         case txr_failureCode r of None \<Rightarrow> True | Some c \<Rightarrow> FailureCode_Valid c),
      (''wager_transactions_internal_kind'',
         txr_origin r \<noteq> OriginInternal \<or> txr_kind r = KindOpening),
      (''wager_transactions_kind_valid'', Kind_Valid (txr_kind r)),
      (''wager_transactions_observed_nonnegative'',
         case txr_observedBalance r of None \<Rightarrow> True | Some b \<Rightarrow> 0 \<le> sint b),
      (''wager_transactions_origin_metadata'', origin_metadata r),
      (''wager_transactions_origin_valid'', Origin_Valid (txr_origin r)),
      (''wager_transactions_pending_reference'',
         txr_state r \<noteq> StatePendingReference
         \<or> (txr_referenceExternalTransactionId r \<noteq> None \<and> txr_referenceDeadline r \<noteq> None
            \<and> txr_nextAttemptAt r \<noteq> None)),
      (''wager_transactions_reversal_reference'',
         (txr_kind r \<noteq> KindRefund \<and> txr_kind r \<noteq> KindRollback)
         \<or> txr_referenceExternalTransactionId r \<noteq> None),
      (''wager_transactions_state_valid'', State_Valid (txr_state r)),
      (''wager_transactions_terminal_snapshot'', terminal_snapshot r)]"

definition ledger_checks :: "ledger_row \<Rightarrow> (string \<times> bool) list" where
  "ledger_checks r =
     [(''wallet_ledger_entries_amount_positive'', 0 < sint (lgr_amount r)),
      (''wallet_ledger_entries_arithmetic'',
         (lgr_direction r = DirectionCredit
            \<and> sint (lgr_balanceAfter r) = sint (lgr_balanceBefore r) + sint (lgr_amount r))
         \<or> (lgr_direction r = DirectionDebit
            \<and> sint (lgr_balanceAfter r) = sint (lgr_balanceBefore r) - sint (lgr_amount r))),
      (''wallet_ledger_entries_balanceafter_nonnegative'', 0 \<le> sint (lgr_balanceAfter r)),
      (''wallet_ledger_entries_balancebefore_nonnegative'', 0 \<le> sint (lgr_balanceBefore r)),
      (''wallet_ledger_entries_direction_valid'', Direction_Valid (lgr_direction r))]"

definition claim_checks :: "claim_row \<Rightarrow> (string \<times> bool) list" where
  "claim_checks r =
     [(''reversal_claims_distinct'', clr_referenceTransactionId r \<noteq> clr_reversalTransactionId r)]"

definition outbox_checks :: "outbox_row \<Rightarrow> (string \<times> bool) list" where
  "outbox_checks r =
     [(''outbox_events_type_valid'', obr_eventType r \<in> set event_types),
      (''outbox_events_version_one'', obr_version r = 1)]"

definition inbox_checks :: "inbox_row \<Rightarrow> (string \<times> bool) list" where
  "inbox_checks r =
     [(''inbox_deliveries_digest_hex'', hex64 (ibr_digest r)),
      (''inbox_deliveries_messageid_nonempty'', ibr_messageId r \<noteq> '''')]"

definition checked :: "(string \<times> bool) list \<Rightarrow> pg_failure + unit" where
  "checked cs = (case first_violation cs of None \<Rightarrow> Inr () | Some n \<Rightarrow> Inl (PgError sqlStateCheckViolation n))"

definition unique :: "string \<Rightarrow> bool \<Rightarrow> pg_failure + unit" where
  "unique name clash = (if clash then Inl (PgError sqlStateUniqueViolation name) else Inr ())"

definition references :: "string \<Rightarrow> bool \<Rightarrow> pg_failure + unit" where
  "references name present = (if present then Inr () else Inl (PgError sqlStateForeignKeyViolation name))"

lemma first_violation_None: "first_violation cs = None \<longleftrightarrow> (\<forall>c \<in> set cs. snd c)"
  by (induction cs rule: first_violation.induct) auto

lemma statement_iffs [simp]:
  "checked cs = Inr u \<longleftrightarrow> (\<forall>c \<in> set cs. snd c)"
  "unique n b = Inr u \<longleftrightarrow> \<not> b"
  "references n b = Inr u \<longleftrightarrow> b"
  by (auto simp: checked_def unique_def references_def first_violation_None [symmetric]
      split: option.splits)

section \<open>Statements\<close>

definition insert_wallet :: "wallet_row \<Rightarrow> db \<Rightarrow> pg_failure + (unit \<times> db)" where
  "insert_wallet r d =
     res_bind (checked (wallet_checks r)) (\<lambda>_.
     res_bind (unique ''wallets_pkey'' (wlr_id r \<in> set (map wlr_id (db_wallets d)))) (\<lambda>_.
     res_bind (unique ''wallets_playerid_currency_key''
        ((wlr_playerId r, wlr_currency r)
           \<in> set (map (\<lambda>x. (wlr_playerId x, wlr_currency x)) (db_wallets d)))) (\<lambda>_.
     Inr ((), d\<lparr>db_wallets := db_wallets d @ [r]\<rparr>))))"

definition select_wallet :: "uuid \<Rightarrow> db \<Rightarrow> pg_failure + (wallet_row option \<times> db)" where
  "select_wallet i d = Inr (find (\<lambda>r. wlr_id r = i) (db_wallets d), d)"

text \<open>An UPDATE by key: the checks run on the new version of each row it touches.\<close>

definition update_rows ::
  "('r \<Rightarrow> bool) \<Rightarrow> ('r \<Rightarrow> 'r) \<Rightarrow> ('r \<Rightarrow> (string \<times> bool) list) \<Rightarrow> 'r list \<Rightarrow> pg_failure + 'r list" where
  "update_rows hit f chks rows =
     res_bind (checked (concat (map (chks \<circ> f) (filter hit rows)))) (\<lambda>_.
     Inr (map (\<lambda>r. if hit r then f r else r) rows))"

definition update_wallet_balance ::
  "uuid \<Rightarrow> int64 \<Rightarrow> int64 \<Rightarrow> time \<Rightarrow> db \<Rightarrow> pg_failure + (unit \<times> db)" where
  "update_wallet_balance i balance version updatedAt d =
     res_bind (update_rows (\<lambda>r. wlr_id r = i)
       (\<lambda>r. r\<lparr>wlr_balance := balance, wlr_version := version, wlr_updatedAt := updatedAt\<rparr>)
       wallet_checks (db_wallets d)) (\<lambda>rows. Inr ((), d\<lparr>db_wallets := rows\<rparr>))"

definition insert_transaction :: "tx_row \<Rightarrow> db \<Rightarrow> pg_failure + (unit \<times> db)" where
  "insert_transaction r d =
     res_bind (checked (transaction_checks r)) (\<lambda>_.
     res_bind (unique ''wager_transactions_pkey''
        (txr_id r \<in> set (map txr_id (db_transactions d)))) (\<lambda>_.
     res_bind (unique ''wager_transactions_provider_key_idx''
        (txr_providerId r \<noteq> None \<and> txr_idempotencyKey r \<noteq> None
         \<and> (txr_providerId r, txr_idempotencyKey r)
             \<in> set (map (\<lambda>x. (txr_providerId x, txr_idempotencyKey x)) (db_transactions d)))) (\<lambda>_.
     res_bind (unique ''wager_transactions_provider_externaltransactionid_idx''
        (txr_providerId r \<noteq> None \<and> txr_externalTransactionId r \<noteq> None
         \<and> (txr_providerId r, txr_externalTransactionId r)
             \<in> set (map (\<lambda>x. (txr_providerId x, txr_externalTransactionId x)) (db_transactions d)))) (\<lambda>_.
     res_bind (unique ''wager_transactions_opening_walletid_idx''
        (txr_kind r = KindOpening
         \<and> txr_walletId r \<in> set (map txr_walletId
              (filter (\<lambda>x. txr_kind x = KindOpening) (db_transactions d))))) (\<lambda>_.
     res_bind (references ''wager_transactions_walletId_fkey''
        (txr_walletId r \<in> set (map wlr_id (db_wallets d)))) (\<lambda>_.
     res_bind (references ''wager_transactions_referenceTransactionId_fkey''
        (case txr_referenceTransactionId r of None \<Rightarrow> True
         | Some i \<Rightarrow> i = txr_id r \<or> i \<in> set (map txr_id (db_transactions d)))) (\<lambda>_.
     Inr ((), d\<lparr>db_transactions := db_transactions d @ [r]\<rparr>))))))))"

definition update_transactions ::
  "(tx_row \<Rightarrow> bool) \<Rightarrow> (tx_row \<Rightarrow> tx_row) \<Rightarrow> db \<Rightarrow> pg_failure + (unit \<times> db)" where
  "update_transactions hit f d =
     res_bind (update_rows hit f transaction_checks (db_transactions d)) (\<lambda>rows.
     res_bind (references ''wager_transactions_referenceTransactionId_fkey''
        (\<forall>r \<in> set (filter hit (db_transactions d)).
           case txr_referenceTransactionId (f r) of None \<Rightarrow> True
           | Some i \<Rightarrow> i \<in> set (map txr_id (db_transactions d)))) (\<lambda>_.
     Inr ((), d\<lparr>db_transactions := rows\<rparr>)))"

definition select_transaction :: "(tx_row \<Rightarrow> bool) \<Rightarrow> db \<Rightarrow> pg_failure + (tx_row option \<times> db)" where
  "select_transaction hit d = Inr (find hit (db_transactions d), d)"

definition insert_ledger :: "ledger_row \<Rightarrow> db \<Rightarrow> pg_failure + (unit \<times> db)" where
  "insert_ledger r d =
     res_bind (checked (ledger_checks r)) (\<lambda>_.
     res_bind (unique ''wallet_ledger_entries_pkey'' (lgr_id r \<in> set (map lgr_id (db_ledger d)))) (\<lambda>_.
     res_bind (unique ''wallet_ledger_entries_walletid_transactionid_key''
        ((lgr_walletId r, lgr_transactionId r)
           \<in> set (map (\<lambda>x. (lgr_walletId x, lgr_transactionId x)) (db_ledger d)))) (\<lambda>_.
     res_bind (references ''wallet_ledger_entries_walletId_fkey''
        (lgr_walletId r \<in> set (map wlr_id (db_wallets d)))) (\<lambda>_.
     res_bind (references ''wallet_ledger_entries_transactionId_fkey''
        (lgr_transactionId r \<in> set (map txr_id (db_transactions d)))) (\<lambda>_.
     Inr ((), d\<lparr>db_ledger := db_ledger d @ [r]\<rparr>))))))"

definition insert_claim :: "claim_row \<Rightarrow> db \<Rightarrow> pg_failure + (unit \<times> db)" where
  "insert_claim r d =
     res_bind (checked (claim_checks r)) (\<lambda>_.
     res_bind (unique ''reversal_claims_pkey'' (clr_id r \<in> set (map clr_id (db_claims d)))) (\<lambda>_.
     res_bind (unique ''reversal_claims_referencetransactionid_key''
        (clr_referenceTransactionId r \<in> set (map clr_referenceTransactionId (db_claims d)))) (\<lambda>_.
     res_bind (unique ''reversal_claims_reversaltransactionid_key''
        (clr_reversalTransactionId r \<in> set (map clr_reversalTransactionId (db_claims d)))) (\<lambda>_.
     res_bind (references ''reversal_claims_referenceTransactionId_fkey''
        (clr_referenceTransactionId r \<in> set (map txr_id (db_transactions d)))) (\<lambda>_.
     res_bind (references ''reversal_claims_reversalTransactionId_fkey''
        (clr_reversalTransactionId r \<in> set (map txr_id (db_transactions d)))) (\<lambda>_.
     Inr ((), d\<lparr>db_claims := db_claims d @ [r]\<rparr>)))))))"

definition select_claim :: "uuid \<Rightarrow> db \<Rightarrow> pg_failure + (claim_row option \<times> db)" where
  "select_claim i d = Inr (find (\<lambda>r. clr_referenceTransactionId r = i) (db_claims d), d)"

definition insert_outbox :: "outbox_row \<Rightarrow> db \<Rightarrow> pg_failure + (unit \<times> db)" where
  "insert_outbox r d =
     res_bind (checked (outbox_checks r)) (\<lambda>_.
     res_bind (unique ''outbox_events_pkey'' (obr_eventId r \<in> set (map obr_eventId (db_outbox d)))) (\<lambda>_.
     Inr ((), d\<lparr>db_outbox := db_outbox d @ [r]\<rparr>)))"

text \<open>\<open>INSERT \<dots> ON CONFLICT (consumerName, messageId) DO NOTHING RETURNING id\<close>: NULL when nothing
  was inserted.\<close>

definition insert_inbox :: "inbox_row \<Rightarrow> db \<Rightarrow> pg_failure + (uuid option \<times> db)" where
  "insert_inbox r d =
     res_bind (checked (inbox_checks r)) (\<lambda>_.
     if (ibr_consumerName r, ibr_messageId r)
          \<in> set (map (\<lambda>x. (ibr_consumerName x, ibr_messageId x)) (db_inbox d))
     then Inr (None, d)
     else res_bind (unique ''inbox_deliveries_pkey'' (ibr_id r \<in> set (map ibr_id (db_inbox d)))) (\<lambda>_.
       Inr (Some (ibr_id r), d\<lparr>db_inbox := db_inbox d @ [r]\<rparr>)))"

definition select_inbox_digest :: "string \<Rightarrow> string \<Rightarrow> db \<Rightarrow> pg_failure + (string option \<times> db)" where
  "select_inbox_digest consumer message d =
     Inr (map_option ibr_digest
        (find (\<lambda>r. ibr_consumerName r = consumer \<and> ibr_messageId r = message) (db_inbox d)), d)"

definition update_inbox_completed ::
  "string \<Rightarrow> string \<Rightarrow> time \<Rightarrow> db \<Rightarrow> pg_failure + (unit \<times> db)" where
  "update_inbox_completed consumer message completedAt d =
     res_bind (update_rows (\<lambda>r. ibr_consumerName r = consumer \<and> ibr_messageId r = message)
       (\<lambda>r. r\<lparr>ibr_completedAt := Some completedAt\<rparr>) inbox_checks (db_inbox d)) (\<lambda>rows.
     Inr ((), d\<lparr>db_inbox := rows\<rparr>))"

text \<open>\<open>ORDER BY "createdAt", "id"\<close>: UUIDs compare as their 128-bit values.\<close>

definition ledger_rows_of :: "uuid \<Rightarrow> db \<Rightarrow> ledger_row list" where
  "ledger_rows_of i d =
     sort_key (\<lambda>r. (lgr_createdAt r, lgr_id r)) (filter (\<lambda>r. lgr_walletId r = i) (db_ledger d))"

definition select_ledger_page ::
  "uuid \<Rightarrow> (time \<times> uuid) option \<Rightarrow> nat \<Rightarrow> db \<Rightarrow> pg_failure + (ledger_row list \<times> db)" where
  "select_ledger_page i after lim d =
     Inr (take lim (filter (\<lambda>r. case after of None \<Rightarrow> True
        | Some (t, k) \<Rightarrow> (t, k) < (lgr_createdAt r, lgr_id r)) (ledger_rows_of i d)), d)"

lemma update_rows_Inr:
  "update_rows hit f chks rows = Inr rows' \<longleftrightarrow>
     (\<forall>r \<in> set rows. hit r \<longrightarrow> (\<forall>c \<in> set (chks (f r)). snd c))
     \<and> rows' = map (\<lambda>r. if hit r then f r else r) rows"
  by (auto simp: update_rows_def res_simps)

lemmas statement_defs = insert_wallet_def select_wallet_def update_wallet_balance_def
  insert_transaction_def update_transactions_def select_transaction_def insert_ledger_def
  insert_claim_def select_claim_def insert_outbox_def insert_inbox_def select_inbox_digest_def
  update_inbox_completed_def select_ledger_page_def

section \<open>What a successful statement did\<close>

lemma insert_wallet_Inr:
  "insert_wallet r d = Inr (u, d') \<longleftrightarrow>
     (\<forall>c \<in> set (wallet_checks r). snd c) \<and> wlr_id r \<notin> set (map wlr_id (db_wallets d))
     \<and> (wlr_playerId r, wlr_currency r)
         \<notin> set (map (\<lambda>x. (wlr_playerId x, wlr_currency x)) (db_wallets d))
     \<and> d' = d\<lparr>db_wallets := db_wallets d @ [r]\<rparr>"
  by (auto simp: insert_wallet_def res_simps)

lemma update_wallet_balance_Inr:
  "update_wallet_balance i b v t d = Inr (u, d') \<Longrightarrow>
     d' = d\<lparr>db_wallets := map (\<lambda>r. if wlr_id r = i
            then r\<lparr>wlr_balance := b, wlr_version := v, wlr_updatedAt := t\<rparr> else r) (db_wallets d)\<rparr>"
  by (auto simp: update_wallet_balance_def res_simps update_rows_Inr)

lemma insert_transaction_Inr:
  "insert_transaction r d = Inr (u, d') \<Longrightarrow>
     (\<forall>c \<in> set (transaction_checks r). snd c) \<and> txr_id r \<notin> set (map txr_id (db_transactions d))
     \<and> txr_walletId r \<in> set (map wlr_id (db_wallets d))
     \<and> d' = d\<lparr>db_transactions := db_transactions d @ [r]\<rparr>"
  by (auto simp: insert_transaction_def res_simps)

lemma insert_transaction_keys:
  "insert_transaction r d = Inr (u, d') \<Longrightarrow> txr_providerId r = Some p \<Longrightarrow> txr_idempotencyKey r = Some k \<Longrightarrow>
     (Some p, Some k) \<notin> set (map (\<lambda>x. (txr_providerId x, txr_idempotencyKey x)) (db_transactions d))"
  "insert_transaction r d = Inr (u, d') \<Longrightarrow> txr_providerId r = Some p \<Longrightarrow>
     txr_externalTransactionId r = Some x \<Longrightarrow>
     (Some p, Some x) \<notin> set (map (\<lambda>y. (txr_providerId y, txr_externalTransactionId y)) (db_transactions d))"
  by (auto simp: insert_transaction_def res_simps)

lemma update_transactions_Inr:
  "update_transactions hit f d = Inr (u, d') \<Longrightarrow>
     (\<forall>r \<in> set (db_transactions d). hit r \<longrightarrow> (\<forall>c \<in> set (transaction_checks (f r)). snd c))
     \<and> (\<forall>r \<in> set (db_transactions d). hit r \<longrightarrow>
          (\<forall>i. txr_referenceTransactionId (f r) = Some i \<longrightarrow> i \<in> set (map txr_id (db_transactions d))))
     \<and> d' = d\<lparr>db_transactions := map (\<lambda>r. if hit r then f r else r) (db_transactions d)\<rparr>"
  by (auto simp: update_transactions_def res_simps update_rows_Inr split: option.splits)

lemma insert_ledger_Inr:
  "insert_ledger r d = Inr (u, d') \<longleftrightarrow>
     (\<forall>c \<in> set (ledger_checks r). snd c) \<and> lgr_id r \<notin> set (map lgr_id (db_ledger d))
     \<and> (lgr_walletId r, lgr_transactionId r)
         \<notin> set (map (\<lambda>x. (lgr_walletId x, lgr_transactionId x)) (db_ledger d))
     \<and> lgr_walletId r \<in> set (map wlr_id (db_wallets d))
     \<and> lgr_transactionId r \<in> set (map txr_id (db_transactions d))
     \<and> d' = d\<lparr>db_ledger := db_ledger d @ [r]\<rparr>"
  by (auto simp: insert_ledger_def res_simps)

lemma insert_claim_Inr:
  "insert_claim r d = Inr (u, d') \<longleftrightarrow>
     clr_referenceTransactionId r \<noteq> clr_reversalTransactionId r
     \<and> clr_id r \<notin> set (map clr_id (db_claims d))
     \<and> clr_referenceTransactionId r \<notin> set (map clr_referenceTransactionId (db_claims d))
     \<and> clr_reversalTransactionId r \<notin> set (map clr_reversalTransactionId (db_claims d))
     \<and> clr_referenceTransactionId r \<in> set (map txr_id (db_transactions d))
     \<and> clr_reversalTransactionId r \<in> set (map txr_id (db_transactions d))
     \<and> d' = d\<lparr>db_claims := db_claims d @ [r]\<rparr>"
  by (auto simp: insert_claim_def claim_checks_def res_simps)

lemma insert_outbox_Inr:
  "insert_outbox r d = Inr (u, d') \<longleftrightarrow>
     obr_eventType r \<in> set event_types \<and> obr_version r = 1
     \<and> obr_eventId r \<notin> set (map obr_eventId (db_outbox d))
     \<and> d' = d\<lparr>db_outbox := db_outbox d @ [r]\<rparr>"
  by (auto simp: insert_outbox_def outbox_checks_def res_simps)

lemma insert_inbox_Inr:
  "insert_inbox r d = Inr (x, d') \<Longrightarrow>
     (x = None \<and> d' = d \<and> (ibr_consumerName r, ibr_messageId r)
        \<in> set (map (\<lambda>x. (ibr_consumerName x, ibr_messageId x)) (db_inbox d)))
     \<or> (x = Some (ibr_id r) \<and> d' = d\<lparr>db_inbox := db_inbox d @ [r]\<rparr>
        \<and> (ibr_consumerName r, ibr_messageId r)
          \<notin> set (map (\<lambda>x. (ibr_consumerName x, ibr_messageId x)) (db_inbox d)))"
  by (auto simp: insert_inbox_def res_simps split: if_splits)

lemma update_inbox_completed_Inr:
  "update_inbox_completed c m t d = Inr (u, d') \<Longrightarrow>
     d' = d\<lparr>db_inbox := map (\<lambda>r. if ibr_consumerName r = c \<and> ibr_messageId r = m
            then r\<lparr>ibr_completedAt := Some t\<rparr> else r) (db_inbox d)\<rparr>"
  by (auto simp: update_inbox_completed_def res_simps update_rows_Inr)

lemma select_Inr [simp]:
  "select_wallet i d = Inr (x, d') \<longleftrightarrow> d' = d \<and> x = find (\<lambda>r. wlr_id r = i) (db_wallets d)"
  "select_transaction hit d = Inr (y, d') \<longleftrightarrow> d' = d \<and> y = find hit (db_transactions d)"
  "select_claim i d = Inr (z, d') \<longleftrightarrow>
     d' = d \<and> z = find (\<lambda>r. clr_referenceTransactionId r = i) (db_claims d)"
  by (auto simp: select_wallet_def select_transaction_def select_claim_def)

end
