(* ===== verification/Backoff.thy ===== *)
theory Backoff
  imports Identifiers
begin

text \<open>
  \<open>internal/application/backoff.go\<close>: the deterministic schedule of reference retries, a doubled and
  capped delay plus a jitter derived from the FNV-1a hash of the transaction identity and the
  attempt number. The hash of package \<open>hash/fnv\<close> is modelled on 64-bit words. The lemmas give the
  delay in closed form and its bounds.
\<close>

section \<open>FNV-1a\<close>

type_synonym uint64 = "64 word"

definition fnv_offset64 :: uint64 where "fnv_offset64 = 14695981039346656037"
definition fnv_prime64 :: uint64 where "fnv_prime64 = 1099511628211"

unbundle bit_operations_syntax

definition fnv_step :: "uint64 \<Rightarrow> nat \<Rightarrow> uint64" where
  "fnv_step h b = (h XOR word_of_nat b) * fnv_prime64"

definition fnv1a :: "nat list \<Rightarrow> uint64" where
  "fnv1a bs = foldl fnv_step fnv_offset64 bs"

text \<open>\<open>binary.BigEndian.PutUint64\<close>.\<close>

definition put_uint64 :: "uint64 \<Rightarrow> nat list" where
  "put_uint64 w = map (\<lambda>i. unat (drop_bit (8 * i) w AND 255)) [7, 6, 5, 4, 3, 2, 1, 0]"

section \<open>The schedule\<close>

definition ReferenceTTL :: duration where "ReferenceTTL = 24 * Hour"
definition ReferenceBackoffBase :: duration where "ReferenceBackoffBase = Second"
definition ReferenceBackoffCap :: duration where "ReferenceBackoffCap = 15 * Minute"
definition ReferenceClaimBatch :: int where "ReferenceClaimBatch = 50"
definition ReferenceClaimLease :: duration where "ReferenceClaimLease = 30 * Second"
definition referenceJitterDenominator :: int where "referenceJitterDenominator = 10"

text \<open>The loop \<open>for i := 0; i < attempt && base < cap; i++\<close>, with the rounds left as the counter.\<close>

fun doubling :: "nat \<Rightarrow> duration \<Rightarrow> duration" where
  "doubling 0 base = base"
| "doubling (Suc left) base =
     (if base < ReferenceBackoffCap then
        let base2 = base * 2;
            base3 = (if base2 > ReferenceBackoffCap then ReferenceBackoffCap else base2)
        in doubling left base3
      else base)"

definition ReferenceBackoff :: "int \<Rightarrow> string \<Rightarrow> duration" where
  "ReferenceBackoff attempt0 transactionID =
     (let attempt = (if attempt0 < 0 then 0 else attempt0);
          base = doubling (nat attempt) ReferenceBackoffBase;
          jitterWindow = base div referenceJitterDenominator
      in if jitterWindow \<le> 0 then base
         else
           let h = fnv1a (map byte_of transactionID @ put_uint64 (word_of_int attempt));
               jitter = uint (h mod word_of_int (jitterWindow + 1))
           in base + jitter)"

definition ReferenceNextAttemptAt :: "int \<Rightarrow> string \<Rightarrow> time \<Rightarrow> time" where
  "ReferenceNextAttemptAt attempt transactionID now =
     time_Add now (ReferenceBackoff attempt transactionID)"

section \<open>Lemmas\<close>

lemma cap_pos: "0 < ReferenceBackoffCap" "ReferenceBackoffBase \<le> ReferenceBackoffCap"
  by (simp_all add: ReferenceBackoffCap_def ReferenceBackoffBase_def duration_defs)

lemma doubling_eq:
  "0 < b \<Longrightarrow> b \<le> ReferenceBackoffCap \<Longrightarrow> doubling n b = min ReferenceBackoffCap (b * 2 ^ n)"
proof (induction n arbitrary: b)
  case (Suc n)
  have "(1 :: int) \<le> 2 ^ Suc n" by (rule one_le_power) simp
  then have grow: "b \<le> b * 2 ^ Suc n" using Suc.prems mult_left_mono [of 1 "2 ^ Suc n" b] by simp
  show ?case
  proof (cases "b < ReferenceBackoffCap")
    case True
    show ?thesis
    proof (cases "b * 2 > ReferenceBackoffCap")
      case True
      have "ReferenceBackoffCap \<le> ReferenceBackoffCap * 2 ^ n"
        using cap_pos mult_left_mono [of 1 "2 ^ n" ReferenceBackoffCap] by simp
      moreover have "b * 2 * 1 \<le> b * 2 * 2 ^ n"
        using Suc.prems by (intro mult_left_mono) simp_all
      with True have "min ReferenceBackoffCap (b * 2 ^ Suc n) = ReferenceBackoffCap"
        unfolding power_Suc by linarith
      ultimately show ?thesis
        using True \<open>b < ReferenceBackoffCap\<close> Suc.IH [of ReferenceBackoffCap] cap_pos
        by (simp add: Let_def)
    next
      case False
      then show ?thesis
        using Suc.prems \<open>b < ReferenceBackoffCap\<close> Suc.IH [of "b * 2"]
        by (simp add: Let_def mult.assoc)
    qed
  next
    case False
    then show ?thesis using Suc.prems grow by simp
  qed
qed simp

definition capped_delay :: "int \<Rightarrow> duration" where
  "capped_delay attempt = min ReferenceBackoffCap (ReferenceBackoffBase * 2 ^ nat attempt)"

lemma doubling_base: "doubling (nat a) ReferenceBackoffBase = capped_delay a"
  using doubling_eq [of ReferenceBackoffBase "nat a"] cap_pos
  by (simp add: capped_delay_def ReferenceBackoffBase_def Second_def)

lemma capped_delay_bounds: "Second \<le> capped_delay a" "capped_delay a \<le> 15 * Minute"
proof -
  have "(1 :: int) \<le> 2 ^ nat a" by simp
  then have "Second * 1 \<le> Second * 2 ^ nat a" by (intro mult_left_mono) (simp_all add: Second_def)
  then show "Second \<le> capped_delay a"
    by (simp add: capped_delay_def ReferenceBackoffBase_def ReferenceBackoffCap_def duration_defs)
qed (simp add: capped_delay_def ReferenceBackoffCap_def)

lemma jitter_bound:
  assumes "0 \<le> w" and "w < 9223372036854775807"
  shows "uint ((h :: uint64) mod word_of_int (w + 1)) \<le> w"
proof -
  have "uint (word_of_int (w + 1) :: uint64) = w + 1"
    using assms by (subst uint_word_of_int) simp
  then have "uint (h mod word_of_int (w + 1)) = uint h mod (w + 1)" by (simp add: uint_mod)
  moreover have "uint h mod (w + 1) < w + 1" using assms by (intro pos_mod_bound) simp
  ultimately show ?thesis by simp
qed

lemma ReferenceBackoff_bounds:
  "capped_delay a \<le> ReferenceBackoff a s"
  "ReferenceBackoff a s \<le> capped_delay a + capped_delay a div 10"
proof -
  define d where "d = capped_delay a"
  have same: "capped_delay (if a < 0 then 0 else a) = d" by (simp add: capped_delay_def d_def)
  have w: "0 < d div 10" "d div 10 < 9223372036854775807"
    using capped_delay_bounds [of a] unfolding d_def duration_defs by linarith+
  define h where "h = fnv1a (map byte_of s @ put_uint64 (word_of_int (if a < 0 then 0 else a)))"
  have "ReferenceBackoff a s = d + uint (h mod word_of_int (d div 10 + 1))"
    using w by (simp add: ReferenceBackoff_def Let_def doubling_base same h_def [symmetric]
        referenceJitterDenominator_def not_le)
  moreover have "uint (h mod word_of_int (d div 10 + 1)) \<le> d div 10"
    using w by (intro jitter_bound) simp_all
  ultimately show "capped_delay a \<le> ReferenceBackoff a s"
      "ReferenceBackoff a s \<le> capped_delay a + capped_delay a div 10"
    by (simp_all add: d_def)
qed

text \<open>
  A retry schedule: a delay that is positive, never below a monotone base and never above a fixed
  bound.
\<close>

locale retry_schedule =
  fixes delay :: "int \<Rightarrow> string \<Rightarrow> duration" and base :: "int \<Rightarrow> duration" and bound :: duration
  assumes base_pos: "0 < base a"
    and base_mono: "a \<le> b \<Longrightarrow> base a \<le> base b"
    and delay_lower: "base a \<le> delay a s"
    and delay_upper: "delay a s \<le> bound"
begin

lemma next_after_now: "now < now + delay a s"
  using base_pos [of a] delay_lower [of a s] by linarith

lemma next_within: "now + delay a s \<le> now + bound"
  using delay_upper [of a s] by linarith

lemma later_attempts_wait: "a \<le> b \<Longrightarrow> base a \<le> delay b s"
  using base_mono [of a b] delay_lower [of b s] by linarith

end

interpretation reference_retry: retry_schedule ReferenceBackoff capped_delay "990 * Second"
proof
  fix a b :: int and s :: string
  show "0 < capped_delay a" using capped_delay_bounds(1) [of a] by (simp add: Second_def)
  show "capped_delay a \<le> capped_delay b" if "a \<le> b"
  proof -
    have "(2 :: int) ^ nat a \<le> 2 ^ nat b" using that by (intro power_increasing) simp_all
    then show ?thesis
      by (simp add: capped_delay_def ReferenceBackoffBase_def Second_def min.coboundedI2)
  qed
  show "capped_delay a \<le> ReferenceBackoff a s" by (rule ReferenceBackoff_bounds)
  show "ReferenceBackoff a s \<le> 990 * Second"
    using ReferenceBackoff_bounds(2) [of a s] capped_delay_bounds(2) [of a]
    unfolding duration_defs by linarith
qed

section \<open>Properties\<close>

text \<open>
  The delay before a reference retry is the base of one second doubled per attempt and capped
  at fifteen minutes, plus at most a tenth of it; so it is at least a second and at most sixteen and
  a half minutes, and a later attempt never waits less than an earlier attempt's base.
\<close>

theorem reference_backoff_bounded:
  "min (900 * Second) (Second * 2 ^ nat a) \<le> ReferenceBackoff a s
   \<and> ReferenceBackoff a s \<le>
       min (900 * Second) (Second * 2 ^ nat a) + min (900 * Second) (Second * 2 ^ nat a) div 10
   \<and> ReferenceBackoff a s \<le> 990 * Second \<and> now < ReferenceNextAttemptAt a s now"
proof -
  have "capped_delay a = min (900 * Second) (Second * 2 ^ nat a)"
    by (simp add: capped_delay_def ReferenceBackoffCap_def ReferenceBackoffBase_def Minute_def)
  then show ?thesis
    using ReferenceBackoff_bounds [of a s] reference_retry.delay_upper [of a s]
      reference_retry.next_after_now [of now a s]
    by (simp add: ReferenceNextAttemptAt_def time_Add_def)
qed

end
