(* ===== verification/Store.thy ===== *)
theory Store
  imports Schema Backoff
begin

text \<open>
  The effects of a use case and \<open>internal/adapters/postgres/store.go\<close>. A computation of type
  \<open>'a tx\<close> takes the world (the database, the state of the current transaction, and how many
  identities, clock readings and driver calls were consumed) to a result and the next world. What
  the environment answers is fixed by the \<open>runtime\<close>: the identities of \<open>uuid.NewV7\<close>, the clock, the
  driver calls that fail and the fate of each commit. \<open>InTx\<close> runs a computation in one transaction:
  an error restores the database, a statement that fails poisons the transaction, and a commit whose
  acknowledgement is lost leaves the changes in place while it reports a failure.
\<close>

section \<open>Runtime and world\<close>

datatype commit_fate = CommitOk | CommitRefused pg_failure | CommitUnknown pg_failure

record runtime =
  rt_uuid :: uuid_lib
  rt_NewV7 :: "nat \<Rightarrow> uuid option"
  rt_NewString :: "nat \<Rightarrow> string"
  rt_Now :: "nat \<Rightarrow> time"
  rt_fault :: "nat \<Rightarrow> pg_failure option"
  rt_commit :: "nat \<Rightarrow> commit_fate"
  rt_failpoint :: "nat \<Rightarrow> app_error option"

datatype tx_status = Autocommit | InTransaction | AbortedTransaction

record world =
  w_db :: db
  w_status :: tx_status
  w_ids :: nat
  w_ticks :: nat
  w_calls :: nat

type_synonym 'a tx = "world \<Rightarrow> (app_error + 'a) \<times> world"

definition tx_return :: "'a \<Rightarrow> 'a tx" where "tx_return x w = (Inr x, w)"

definition tx_fail :: "app_error \<Rightarrow> 'a tx" where "tx_fail e w = (Inl e, w)"

definition tx_bind :: "'a tx \<Rightarrow> ('a \<Rightarrow> 'b tx) \<Rightarrow> 'b tx" where
  "tx_bind m f w = (case m w of (Inl e, w') \<Rightarrow> (Inl e, w') | (Inr x, w') \<Rightarrow> f x w')"

definition tx_lift :: "app_error + 'a \<Rightarrow> 'a tx" where "tx_lift r w = (r, w)"

text \<open>\<open>if err != nil { return wrapInvariant(err) }\<close> after a call of the domain.\<close>

definition tx_domain :: "fin_error + 'a \<Rightarrow> 'a tx" where
  "tx_domain r = tx_lift (map_err (\<lambda>e. wrapInvariant (Some (FromFin e))) r)"

lemma tx_run [simp]:
  "tx_return x w = (Inr x, w)"
  "tx_fail e w = (Inl e, w)"
  "tx_lift r w = (r, w)"
  by (simp_all add: tx_return_def tx_fail_def tx_lift_def)

lemma tx_bind_Inr_iff:
  "tx_bind m f w = (Inr y, w'') \<longleftrightarrow> (\<exists>x w'. m w = (Inr x, w') \<and> f x w' = (Inr y, w''))"
  by (auto simp: tx_bind_def split: prod.splits sum.splits)

lemma tx_bind_Inl_iff:
  "tx_bind m f w = (Inl e, w'') \<longleftrightarrow>
     m w = (Inl e, w'') \<or> (\<exists>x w'. m w = (Inr x, w') \<and> f x w' = (Inl e, w''))"
  by (auto simp: tx_bind_def split: prod.splits sum.splits)

lemma tx_domain_Inr [simp]: "tx_domain r w = (Inr x, w') \<longleftrightarrow> r = Inr x \<and> w' = w"
  by (auto simp: tx_domain_def map_err_Inr_iff)

text \<open>Identities and the clock.\<close>

definition new_id :: "runtime \<Rightarrow> uuid tx" where
  "new_id rt w =
     (case rt_NewV7 rt (w_ids w) of
        None \<Rightarrow> (Inl Panicked, w\<lparr>w_ids := Suc (w_ids w)\<rparr>)
      | Some i \<Rightarrow> (Inr i, w\<lparr>w_ids := Suc (w_ids w)\<rparr>))"

definition clock_Now :: "runtime \<Rightarrow> time tx" where
  "clock_Now rt w = (Inr (rt_Now rt (w_ticks w)), w\<lparr>w_ticks := Suc (w_ticks w)\<rparr>)"

definition correlationOrNew :: "runtime \<Rightarrow> string \<Rightarrow> string tx" where
  "correlationOrNew rt correlation w =
     (if correlation \<noteq> '''' then (Inr correlation, w)
      else case rt_NewV7 rt (w_ids w) of
        None \<Rightarrow> (Inr (rt_NewString rt (w_ids w)), w\<lparr>w_ids := Suc (w_ids w)\<rparr>)
      | Some i \<Rightarrow> (Inr (uuid_String (rt_uuid rt) i), w\<lparr>w_ids := Suc (w_ids w)\<rparr>))"

definition newEventID :: "runtime \<Rightarrow> string tx" where
  "newEventID rt = tx_bind (new_id rt) (\<lambda>i. tx_return (uuid_String (rt_uuid rt) i))"

section \<open>Driver calls\<close>

text \<open>A statement of an aborted transaction is refused with SQLSTATE 25P02.\<close>

definition exec :: "runtime \<Rightarrow> (db \<Rightarrow> pg_failure + ('a \<times> db)) \<Rightarrow> world \<Rightarrow> (pg_failure + 'a) \<times> world" where
  "exec rt stmt w =
     (let w1 = w\<lparr>w_calls := Suc (w_calls w)\<rparr>;
          failed = (if w_status w = InTransaction then w1\<lparr>w_status := AbortedTransaction\<rparr> else w1)
      in if w_status w = AbortedTransaction then (Inl (PgError ''25P02'' ''''), w1)
         else case rt_fault rt (w_calls w) of
           Some f \<Rightarrow> (Inl f, failed)
         | None \<Rightarrow> (case stmt (w_db w) of
             Inl f \<Rightarrow> (Inl f, failed)
           | Inr (x, d) \<Rightarrow> (Inr x, w1\<lparr>w_db := d\<rparr>)))"

definition db_call :: "runtime \<Rightarrow> (db \<Rightarrow> pg_failure + ('a \<times> db)) \<Rightarrow> 'a tx" where
  "db_call rt stmt w = (case exec rt stmt w of (r, w') \<Rightarrow> (map_err mapError r, w'))"

section \<open>Transactions\<close>

definition begin_tx :: "runtime \<Rightarrow> unit tx" where
  "begin_tx rt w =
     (case rt_fault rt (w_calls w) of
        Some f \<Rightarrow> (Inl (mapError f), w\<lparr>w_calls := Suc (w_calls w)\<rparr>)
      | None \<Rightarrow> (Inr (), w\<lparr>w_calls := Suc (w_calls w), w_status := InTransaction\<rparr>))"

text \<open>
  The end of \<open>InTx\<close>: \<open>d0\<close> is the database before the transaction. Committing an aborted
  transaction rolls it back and is reported by the driver as an error of its own.
\<close>

definition finish_tx :: "runtime \<Rightarrow> db \<Rightarrow> (app_error + 'a) \<times> world \<Rightarrow> (app_error + 'a) \<times> world" where
  "finish_tx rt d0 rw =
     (case rw of
        (Inl e, w) \<Rightarrow> (Inl e, w\<lparr>w_db := d0, w_status := Autocommit\<rparr>)
      | (Inr x, w) \<Rightarrow>
          let w1 = w\<lparr>w_calls := Suc (w_calls w), w_status := Autocommit\<rparr> in
          if w_status w = AbortedTransaction then (Inl (mapError DriverError), w1\<lparr>w_db := d0\<rparr>)
          else (case rt_commit rt (w_calls w) of
              CommitOk \<Rightarrow> (Inr x, w1)
            | CommitRefused f \<Rightarrow> (Inl (mapError f), w1\<lparr>w_db := d0\<rparr>)
            | CommitUnknown f \<Rightarrow> (Inl (mapError f), w1)))"

definition InTx :: "runtime \<Rightarrow> 'a tx \<Rightarrow> 'a tx" where
  "InTx rt fn w =
     (case begin_tx rt w of
        (Inl e, w') \<Rightarrow> (Inl e, w')
      | (Inr _, w') \<Rightarrow> finish_tx rt (w_db w) (fn w'))"

section \<open>Lemmas\<close>

lemma new_id_Inr:
  "new_id rt w = (Inr i, w') \<longleftrightarrow>
     rt_NewV7 rt (w_ids w) = Some i \<and> w' = w\<lparr>w_ids := Suc (w_ids w)\<rparr>"
  by (auto simp: new_id_def split: option.splits)

lemma clock_Now_Inr:
  "clock_Now rt w = (Inr t, w') \<longleftrightarrow>
     t = rt_Now rt (w_ticks w) \<and> w' = w\<lparr>w_ticks := Suc (w_ticks w)\<rparr>"
  by (auto simp: clock_Now_def)

lemma clock_Now_not_Inl: "clock_Now rt w \<noteq> (Inl e, w')"
  by (simp add: clock_Now_def)

lemma exec_Inr:
  "exec rt stmt w = (Inr x, w') \<longleftrightarrow>
     w_status w \<noteq> AbortedTransaction \<and> rt_fault rt (w_calls w) = None
     \<and> (\<exists>d. stmt (w_db w) = Inr (x, d) \<and> w' = w\<lparr>w_calls := Suc (w_calls w), w_db := d\<rparr>)"
  by (auto simp: exec_def Let_def split: option.splits sum.splits if_splits)

lemma db_call_Inr:
  "db_call rt stmt w = (Inr x, w') \<longleftrightarrow>
     w_status w \<noteq> AbortedTransaction \<and> rt_fault rt (w_calls w) = None
     \<and> (\<exists>d. stmt (w_db w) = Inr (x, d) \<and> w' = w\<lparr>w_calls := Suc (w_calls w), w_db := d\<rparr>)"
proof (cases "exec rt stmt w")
  case (Pair r v)
  then have "db_call rt stmt w = (map_err mapError r, v)" by (simp add: db_call_def)
  then show ?thesis
    using Pair exec_Inr [of rt stmt w x w'] by (cases r) auto
qed

lemma exec_Inl_db: "exec rt stmt w = (Inl f, w') \<Longrightarrow> w_db w' = w_db w"
  by (auto simp: exec_def Let_def split: option.splits sum.splits if_splits)

lemma db_call_Inl:
  "db_call rt stmt w = (Inl e, w') \<Longrightarrow> w_db w' = w_db w \<and> (\<exists>f. e = mapError f)"
proof -
  assume a: "db_call rt stmt w = (Inl e, w')"
  obtain r v where rv: "exec rt stmt w = (r, v)" by (cases "exec rt stmt w")
  with a obtain f where "r = Inl f" "e = mapError f" "w' = v"
    by (cases r) (auto simp: db_call_def)
  with rv exec_Inl_db show ?thesis by auto
qed

lemma finish_tx_Inr:
  "finish_tx rt d0 rw = (Inr x, w') \<longleftrightarrow>
     (\<exists>w. rw = (Inr x, w) \<and> w_status w \<noteq> AbortedTransaction \<and> rt_commit rt (w_calls w) = CommitOk
        \<and> w' = w\<lparr>w_calls := Suc (w_calls w), w_status := Autocommit\<rparr>)"
  by (auto simp: finish_tx_def Let_def split: prod.splits sum.splits commit_fate.splits)

text \<open>
  A transaction that fails leaves the database as it was, unless its commit was applied and only
  the acknowledgement was lost.
\<close>

lemma finish_tx_Inl:
  "finish_tx rt d0 rw = (Inl e, w') \<Longrightarrow>
     w_db w' = d0 \<or>
     (\<exists>x w f. rw = (Inr x, w) \<and> w_status w \<noteq> AbortedTransaction
        \<and> rt_commit rt (w_calls w) = CommitUnknown f \<and> e = mapError f \<and> w_db w' = w_db w)"
  by (auto simp: finish_tx_def Let_def split: prod.splits sum.splits commit_fate.splits if_splits)

lemma finish_tx_status: "w_status (snd (finish_tx rt d0 rw)) = Autocommit"
  by (auto simp: finish_tx_def Let_def split: prod.splits sum.splits commit_fate.splits)

lemma begin_tx_Inr:
  "begin_tx rt w = (Inr u, w') \<longleftrightarrow>
     rt_fault rt (w_calls w) = None
     \<and> w' = w\<lparr>w_calls := Suc (w_calls w), w_status := InTransaction\<rparr>"
  by (auto simp: begin_tx_def split: option.splits)

lemma begin_tx_Inl:
  "begin_tx rt w = (Inl e, w') \<Longrightarrow> w_db w' = w_db w \<and> w_status w' = w_status w \<and> (\<exists>f. e = mapError f)"
  by (auto simp: begin_tx_def split: option.splits)

definition started :: "world \<Rightarrow> world" where
  "started w = w\<lparr>w_calls := Suc (w_calls w), w_status := InTransaction\<rparr>"

lemma started_simps [simp]: "w_db (started w) = w_db w" "w_status (started w) = InTransaction"
  by (simp_all add: started_def)

lemma InTx_Inr:
  "InTx rt fn w = (Inr x, w') \<Longrightarrow>
     \<exists>w2. fn (started w) = (Inr x, w2) \<and> w_db w' = w_db w2"
  by (auto simp: InTx_def begin_tx_Inr finish_tx_Inr started_def split: prod.splits sum.splits)

text \<open>Whatever a transaction reports, the database afterwards is the one before, or the one its
  body reached with success.\<close>

lemma InTx_db:
  "InTx rt fn w = (r, w') \<Longrightarrow>
     w_db w' = w_db w \<or> (\<exists>x w2. fn (started w) = (Inr x, w2) \<and> w_db w' = w_db w2)"
proof -
  assume a: "InTx rt fn w = (r, w')"
  show ?thesis
  proof (cases "begin_tx rt w")
    case (Pair b v)
    show ?thesis
    proof (cases b)
      case (Inl e)
      then have "w' = v" using a Pair by (simp add: InTx_def)
      then show ?thesis using begin_tx_Inl [of rt w e v] Pair Inl by simp
    next
      case (Inr u)
      then have v: "v = started w" using Pair by (simp add: begin_tx_Inr started_def)
      have f: "finish_tx rt (w_db w) (fn (started w)) = (r, w')"
        using a Pair Inr v by (simp add: InTx_def)
      show ?thesis
      proof (cases r)
        case (Inl e)
        with f finish_tx_Inl show ?thesis by metis
      next
        case (Inr x)
        with f show ?thesis by (auto simp: finish_tx_Inr)
      qed
    qed
  qed
qed

text \<open>A runtime in which nothing fails and the world it starts in, for the concrete runs below.\<close>

definition sample_runtime :: runtime where
  "sample_runtime =
     \<lparr>rt_uuid = dec_uuid_lib, rt_NewV7 = (\<lambda>n. Some (word_of_nat (n + 100))),
      rt_NewString = (\<lambda>n. ''correlation''), rt_Now = (\<lambda>n. 1000 + int n), rt_fault = (\<lambda>n. None),
      rt_commit = (\<lambda>n. CommitOk), rt_failpoint = (\<lambda>n. None)\<rparr>"

definition sample_world :: "db \<Rightarrow> world" where
  "sample_world d = \<lparr>w_db = d, w_status = Autocommit, w_ids = 0, w_ticks = 0, w_calls = 0\<rparr>"

end
