(* ===== verification/Postgres.thy ===== *)
theory Postgres
  imports Store "HOL-Library.Option_ord"
begin

text \<open>
  \<open>internal/adapters/postgres\<close>: the repositories, that is the translation of entities to rows and
  back and the statement each operation executes. The rows are decoded with the domain's
  rehydration, and a row it refuses is a corrupt record. The locale \<open>row_codec\<close> states what the
  rest of the development uses of an encoding: a well-formed entity reads back as itself, and
  whatever is read is well-formed and encodes to what was read.
\<close>

section \<open>NULLs\<close>

definition derefString :: "string option \<Rightarrow> string" where
  "derefString v = (case v of None \<Rightarrow> '''' | Some s \<Rightarrow> s)"

definition nullString :: "string \<Rightarrow> string option" where
  "nullString v = (if v = '''' then None else Some v)"

definition nullUUID :: "uuid \<Rightarrow> uuid option" where
  "nullUUID i = (if id_IsZero i then None else Some i)"

definition nullMoney :: "money \<Rightarrow> int64 option" where
  "nullMoney m = (if \<not> IsInitialized m then None else Some (minorUnits m))"

definition nullTime :: "time \<Rightarrow> time option" where
  "nullTime t = (if time_IsZero t then None else Some (time_UTC t))"

lemma null_simps [simp]:
  "derefString (nullString s) = s"
  "derefString None = ''''" "derefString (Some s) = s"
  "nullString s = None \<longleftrightarrow> s = ''''" "nullString s = Some v \<longleftrightarrow> s = v \<and> v \<noteq> ''''"
  by (auto simp: derefString_def nullString_def)

lemma null_iffs:
  "nullUUID i = None \<longleftrightarrow> i = uuid_Nil" "nullMoney m = None \<longleftrightarrow> \<not> IsInitialized m"
  "nullTime t = None \<longleftrightarrow> t = 0" "nullUUID i = Some j \<longleftrightarrow> i = j \<and> j \<noteq> uuid_Nil"
  "nullMoney m = Some b \<longleftrightarrow> IsInitialized m \<and> b = minorUnits m"
  "nullTime t = Some v \<longleftrightarrow> t = v \<and> v \<noteq> 0"
  by (auto simp: nullUUID_def nullMoney_def nullTime_def id_IsZero_def time_defs)

section \<open>Wallets\<close>

definition wallet_to_row :: "wallet \<Rightarrow> wallet_row" where
  "wallet_to_row w =
     \<lparr>wlr_id = wal_id w, wlr_playerId = wal_playerID w, wlr_currency = wal_currency w,
      wlr_balance = minorUnits (wal_balance w), wlr_version = wal_version w,
      wlr_createdAt = time_UTC (wal_createdAt w), wlr_updatedAt = time_UTC (wal_updatedAt w)\<rparr>"

definition corrupt_id :: "uuid_lib \<Rightarrow> uuid \<Rightarrow> app_error + uuid" where
  "corrupt_id u i = map_err corruptRow (parseUUIDID u (uuid_String u i) FErrInvalidInput)"

definition corrupt_money :: "int64 \<Rightarrow> string \<Rightarrow> app_error + money" where
  "corrupt_money units cur = map_err (corruptRow \<circ> FErrMoney) (FromMinorUnits units cur)"

definition rehydrateWallet :: "uuid_lib \<Rightarrow> wallet_row \<Rightarrow> app_error + wallet" where
  "rehydrateWallet u r =
     res_bind (corrupt_id u (wlr_id r)) (\<lambda>walletID.
     res_bind (corrupt_id u (wlr_playerId r)) (\<lambda>pid.
     res_bind (corrupt_money (wlr_balance r) (wlr_currency r)) (\<lambda>balanceMoney.
     map_err corruptRow (RehydrateWallet walletID pid (wlr_currency r) balanceMoney (wlr_version r)
       (wlr_createdAt r) (wlr_updatedAt r)))))"

text \<open>The common end of the scans: no row is "not found", a row is decoded.\<close>

definition scan_row :: "('r \<Rightarrow> app_error + 'e) \<Rightarrow> 'r option \<Rightarrow> app_error + 'e option" where
  "scan_row dec ro = (case ro of None \<Rightarrow> Inr None | Some r \<Rightarrow> res_bind (dec r) (\<lambda>e. Inr (Some e)))"

definition wallets_Insert :: "runtime \<Rightarrow> wallet \<Rightarrow> unit tx" where
  "wallets_Insert rt w = db_call rt (insert_wallet (wallet_to_row w))"

definition wallets_LockByID :: "runtime \<Rightarrow> wallet_id \<Rightarrow> wallet option tx" where
  "wallets_LockByID rt i =
     tx_bind (db_call rt (select_wallet i)) (\<lambda>ro. tx_lift (scan_row (rehydrateWallet (rt_uuid rt)) ro))"

definition wallets_ByID :: "runtime \<Rightarrow> wallet_id \<Rightarrow> wallet option tx" where
  "wallets_ByID rt i =
     tx_bind (db_call rt (select_wallet i)) (\<lambda>ro. tx_lift (scan_row (rehydrateWallet (rt_uuid rt)) ro))"

definition wallets_SaveBalance :: "runtime \<Rightarrow> wallet \<Rightarrow> unit tx" where
  "wallets_SaveBalance rt w =
     db_call rt (update_wallet_balance (wal_id w) (minorUnits (wal_balance w)) (wal_version w)
       (time_UTC (wal_updatedAt w)))"

section \<open>Transactions\<close>

definition wager_to_row :: "wager \<Rightarrow> tx_row" where
  "wager_to_row t =
     \<lparr>txr_id = tx_id t, txr_origin = tx_origin t, txr_kind = tx_kind t, txr_state = tx_state t,
      txr_providerId = nullString (tx_providerID t),
      txr_externalTransactionId = nullString (tx_externalTransactionID t),
      txr_idempotencyKey = nullString (tx_idempotencyKey t),
      txr_digestVersion = nullString (tx_digestVersion t), txr_digest = nullString (tx_digest t),
      txr_walletId = tx_walletID t, txr_playerId = tx_playerID t,
      txr_roundId = nullString (tx_roundID t), txr_gameId = nullString (tx_gameID t),
      txr_amount = minorUnits (tx_amount t), txr_currency = currency (tx_amount t),
      txr_referenceExternalTransactionId = nullString (tx_referenceExternalTransactionID t),
      txr_referenceTransactionId = nullUUID (tx_referenceTransactionID t),
      txr_failureCode = nullString (tx_failureCode t),
      txr_observedBalance = nullMoney (tx_observedBalance t),
      txr_referenceDeadline = nullTime (tx_referenceDeadline t),
      txr_nextAttemptAt = None, txr_referenceAttempts = 0, txr_claimedUntil = None,
      txr_createdAt = time_UTC (tx_createdAt t), txr_updatedAt = time_UTC (tx_updatedAt t)\<rparr>"

definition rehydrateTransaction :: "uuid_lib \<Rightarrow> tx_row \<Rightarrow> app_error + wager" where
  "rehydrateTransaction u r =
     res_bind (corrupt_id u (txr_id r)) (\<lambda>transactionID.
     res_bind (corrupt_id u (txr_walletId r)) (\<lambda>walletID.
     res_bind (corrupt_id u (txr_playerId r)) (\<lambda>playerID.
     res_bind (corrupt_money (txr_amount r) (txr_currency r)) (\<lambda>amount.
     res_bind (case txr_referenceTransactionId r of None \<Rightarrow> Inr uuid_Nil
               | Some i \<Rightarrow> corrupt_id u i) (\<lambda>referenceID.
     res_bind (case txr_observedBalance r of None \<Rightarrow> Inr money_nil
               | Some b \<Rightarrow> corrupt_money b (txr_currency r)) (\<lambda>observed.
     map_err corruptRow (RehydrateTransaction
       \<lparr>tx_id = transactionID, tx_origin = txr_origin r, tx_kind = txr_kind r,
        tx_providerID = derefString (txr_providerId r),
        tx_externalTransactionID = derefString (txr_externalTransactionId r),
        tx_idempotencyKey = derefString (txr_idempotencyKey r),
        tx_digestVersion = derefString (txr_digestVersion r),
        tx_digest = derefString (txr_digest r), tx_walletID = walletID, tx_playerID = playerID,
        tx_roundID = derefString (txr_roundId r), tx_gameID = derefString (txr_gameId r),
        tx_amount = amount,
        tx_referenceExternalTransactionID = derefString (txr_referenceExternalTransactionId r),
        tx_referenceTransactionID = referenceID, tx_state = txr_state r,
        tx_failureCode = derefString (txr_failureCode r), tx_observedBalance = observed,
        tx_referenceDeadline = (case txr_referenceDeadline r of None \<Rightarrow> time_zero | Some d \<Rightarrow> d),
        tx_createdAt = txr_createdAt r, tx_updatedAt = txr_updatedAt r\<rparr>)))))))"

definition scanTransactionWithAttempts :: "uuid_lib \<Rightarrow> tx_row option \<Rightarrow> app_error + (wager \<times> int) option" where
  "scanTransactionWithAttempts u ro =
     scan_row (\<lambda>r. res_bind (rehydrateTransaction u r) (\<lambda>t. Inr (t, txr_referenceAttempts r))) ro"

definition scanTransaction :: "uuid_lib \<Rightarrow> tx_row option \<Rightarrow> app_error + wager option" where
  "scanTransaction u ro =
     res_bind (scanTransactionWithAttempts u ro) (\<lambda>to. Inr (map_option fst to))"

definition transactions_Insert :: "runtime \<Rightarrow> wager \<Rightarrow> unit tx" where
  "transactions_Insert rt t = db_call rt (insert_transaction (wager_to_row t))"

record reference_schedule =
  rs_NextAttemptAt :: time
  rs_Attempts :: int

definition apply_update :: "wager \<Rightarrow> reference_schedule option \<Rightarrow> tx_row \<Rightarrow> tx_row" where
  "apply_update t schedule r =
     r\<lparr>txr_state := tx_state t, txr_failureCode := nullString (tx_failureCode t),
       txr_observedBalance := nullMoney (tx_observedBalance t),
       txr_referenceTransactionId := nullUUID (tx_referenceTransactionID t),
       txr_referenceDeadline := nullTime (tx_referenceDeadline t),
       txr_nextAttemptAt := map_option (\<lambda>s. time_UTC (rs_NextAttemptAt s)) schedule,
       txr_referenceAttempts := (case schedule of None \<Rightarrow> 0 | Some s \<Rightarrow> rs_Attempts s),
       txr_claimedUntil := None, txr_updatedAt := time_UTC (tx_updatedAt t)\<rparr>"

definition transactions_Update :: "runtime \<Rightarrow> wager \<Rightarrow> reference_schedule option \<Rightarrow> unit tx" where
  "transactions_Update rt t schedule =
     db_call rt (update_transactions (\<lambda>r. txr_id r = tx_id t) (apply_update t schedule))"

definition transactions_RescheduleReference ::
  "runtime \<Rightarrow> transaction_id \<Rightarrow> time \<Rightarrow> time \<Rightarrow> int \<Rightarrow> unit tx" where
  "transactions_RescheduleReference rt i now nextAttemptAt attempts =
     db_call rt (update_transactions (\<lambda>r. txr_id r = i)
       (\<lambda>r. r\<lparr>txr_nextAttemptAt := Some (time_UTC nextAttemptAt), txr_referenceAttempts := attempts,
             txr_claimedUntil := None, txr_updatedAt := time_UTC now\<rparr>))"

definition transactions_ByID :: "runtime \<Rightarrow> transaction_id \<Rightarrow> wager option tx" where
  "transactions_ByID rt i =
     tx_bind (db_call rt (select_transaction (\<lambda>r. txr_id r = i)))
       (\<lambda>ro. tx_lift (scanTransaction (rt_uuid rt) ro))"

definition transactions_LockByID :: "runtime \<Rightarrow> transaction_id \<Rightarrow> (wager \<times> int) option tx" where
  "transactions_LockByID rt i =
     tx_bind (db_call rt (select_transaction (\<lambda>r. txr_id r = i)))
       (\<lambda>ro. tx_lift (scanTransactionWithAttempts (rt_uuid rt) ro))"

definition transactions_ByProviderAndKey ::
  "runtime \<Rightarrow> provider_id \<Rightarrow> idempotency_key \<Rightarrow> wager option tx" where
  "transactions_ByProviderAndKey rt providerID key =
     tx_bind (db_call rt (select_transaction
         (\<lambda>r. txr_providerId r = Some providerID \<and> txr_idempotencyKey r = Some key)))
       (\<lambda>ro. tx_lift (scanTransaction (rt_uuid rt) ro))"

definition transactions_ByProviderAndExternalID ::
  "runtime \<Rightarrow> provider_id \<Rightarrow> external_id \<Rightarrow> wager option tx" where
  "transactions_ByProviderAndExternalID rt providerID externalID =
     tx_bind (db_call rt (select_transaction
         (\<lambda>r. txr_providerId r = Some providerID \<and> txr_externalTransactionId r = Some externalID)))
       (\<lambda>ro. tx_lift (scanTransaction (rt_uuid rt) ro))"

text \<open>The lease of a batch: the rows returned are decoded one by one, after the update took place.\<close>

definition due_reference :: "time \<Rightarrow> tx_row \<Rightarrow> bool" where
  "due_reference now r \<longleftrightarrow>
     txr_state r = StatePendingReference
     \<and> (case txr_nextAttemptAt r of None \<Rightarrow> False | Some t \<Rightarrow> t \<le> now)
     \<and> (case txr_claimedUntil r of None \<Rightarrow> True | Some t \<Rightarrow> t \<le> now)"

definition claim_due_references ::
  "time \<Rightarrow> time \<Rightarrow> nat \<Rightarrow> db \<Rightarrow> pg_failure + (tx_row list \<times> db)" where
  "claim_due_references now leaseEnd lim d =
     (let due = filter (due_reference now) (db_transactions d);
          ids = map txr_id (take lim (sort_key (\<lambda>r. (txr_nextAttemptAt r, txr_id r)) due));
          hit = (\<lambda>r. txr_id r \<in> set ids);
          lease = (\<lambda>r. r\<lparr>txr_claimedUntil := Some leaseEnd, txr_updatedAt := now\<rparr>)
      in res_bind (update_transactions hit lease d) (\<lambda>(_, d').
         Inr (filter hit (db_transactions d'), d')))"

fun decode_all :: "('r \<Rightarrow> app_error + 'e) \<Rightarrow> 'r list \<Rightarrow> app_error + 'e list" where
  "decode_all dec [] = Inr []"
| "decode_all dec (r # rs) = res_bind (dec r) (\<lambda>e. res_bind (decode_all dec rs) (\<lambda>es. Inr (e # es)))"

definition transactions_ClaimDueReferences ::
  "runtime \<Rightarrow> time \<Rightarrow> nat \<Rightarrow> duration \<Rightarrow> wager list tx" where
  "transactions_ClaimDueReferences rt now lim lease =
     tx_bind (db_call rt (claim_due_references (time_UTC now) (time_UTC (time_Add now lease)) lim))
       (\<lambda>rows. tx_lift (decode_all (rehydrateTransaction (rt_uuid rt)) rows))"

section \<open>Ledger, claims, outbox and inbox\<close>

definition ledger_to_row :: "ledger_entry \<Rightarrow> ledger_row" where
  "ledger_to_row e =
     \<lparr>lgr_id = le_id e, lgr_walletId = le_walletID e, lgr_transactionId = le_transactionID e,
      lgr_direction = le_direction e, lgr_amount = minorUnits (le_amount e),
      lgr_balanceBefore = minorUnits (le_balanceBefore e),
      lgr_balanceAfter = minorUnits (le_balanceAfter e), lgr_createdAt = time_UTC (le_createdAt e)\<rparr>"

definition rehydrateLedgerEntry :: "uuid_lib \<Rightarrow> string \<Rightarrow> ledger_row \<Rightarrow> app_error + ledger_entry" where
  "rehydrateLedgerEntry u cur r =
     res_bind (corrupt_id u (lgr_id r)) (\<lambda>entryID.
     res_bind (corrupt_id u (lgr_walletId r)) (\<lambda>wallet.
     res_bind (corrupt_id u (lgr_transactionId r)) (\<lambda>transaction.
     res_bind (corrupt_money (lgr_amount r) cur) (\<lambda>amountMoney.
     res_bind (corrupt_money (lgr_balanceBefore r) cur) (\<lambda>beforeMoney.
     res_bind (corrupt_money (lgr_balanceAfter r) cur) (\<lambda>afterMoney.
     map_err corruptRow (RehydrateWalletLedgerEntry entryID wallet transaction (lgr_direction r)
       amountMoney beforeMoney afterMoney (lgr_createdAt r))))))))"

definition ledger_Insert :: "runtime \<Rightarrow> ledger_entry \<Rightarrow> unit tx" where
  "ledger_Insert rt e = db_call rt (insert_ledger (ledger_to_row e))"

definition ledger_ListPage ::
  "runtime \<Rightarrow> wallet_id \<Rightarrow> string \<Rightarrow> (time \<times> ledger_entry_id) option \<Rightarrow> nat \<Rightarrow> (ledger_entry list \<times> bool) tx" where
  "ledger_ListPage rt walletID cur after lim =
     tx_bind (db_call rt (select_ledger_page walletID after (lim + 1))) (\<lambda>rows.
     tx_bind (tx_lift (decode_all (rehydrateLedgerEntry (rt_uuid rt) cur) rows)) (\<lambda>entries.
     let hasMore = lim < length entries
     in tx_return (if hasMore then take lim entries else entries, hasMore)))"

definition claim_to_row :: "reversal_claim \<Rightarrow> claim_row" where
  "claim_to_row c =
     \<lparr>clr_id = rc_id c, clr_referenceTransactionId = rc_referenceTransactionID c,
      clr_reversalTransactionId = rc_reversalTransactionID c,
      clr_createdAt = time_UTC (rc_createdAt c)\<rparr>"

definition rehydrateClaim :: "uuid_lib \<Rightarrow> claim_row \<Rightarrow> app_error + reversal_claim" where
  "rehydrateClaim u r =
     res_bind (corrupt_id u (clr_id r)) (\<lambda>claimID.
     res_bind (corrupt_id u (clr_referenceTransactionId r)) (\<lambda>reference.
     res_bind (corrupt_id u (clr_reversalTransactionId r)) (\<lambda>reversal.
     map_err corruptRow (RehydrateReversalClaim claimID reference reversal (clr_createdAt r)))))"

definition claims_Insert :: "runtime \<Rightarrow> reversal_claim \<Rightarrow> unit tx" where
  "claims_Insert rt c = db_call rt (insert_claim (claim_to_row c))"

definition claims_ByReference :: "runtime \<Rightarrow> transaction_id \<Rightarrow> reversal_claim option tx" where
  "claims_ByReference rt i =
     tx_bind (db_call rt (select_claim i)) (\<lambda>ro. tx_lift (scan_row (rehydrateClaim (rt_uuid rt)) ro))"

definition envelope_to_row :: "envelope \<Rightarrow> time \<Rightarrow> envelope \<Rightarrow> outbox_row" where
  "envelope_to_row e now payload =
     \<lparr>obr_eventId = ev_EventID e, obr_eventType = ev_EventType e, obr_aggregateId = ev_AggregateID e,
      obr_correlationId = ev_CorrelationID e, obr_causationId = nullString (ev_CausationID e),
      obr_occurredAt = time_UTC (ev_OccurredAt e), obr_version = ev_Version e, obr_payload = payload,
      obr_createdAt = time_UTC now, obr_publishedAt = None, obr_nextAttemptAt = time_UTC now,
      obr_attempts = 0, obr_claimedUntil = None\<rparr>"

definition outbox_Insert :: "runtime \<Rightarrow> envelope \<Rightarrow> time \<Rightarrow> unit tx" where
  "outbox_Insert rt e now =
     tx_bind (tx_lift (map_err (\<lambda>m. Plain (Some (FromFin (FErrMoney m)))) (marshal_envelope e)))
       (\<lambda>payload. db_call rt (insert_outbox (envelope_to_row e now payload)))"

text \<open>\<open>Begin\<close>: \<open>None\<close> is a new delivery, \<open>Some digest\<close> a known one with its stored digest.\<close>

definition inbox_Begin :: "runtime \<Rightarrow> inbox_delivery \<Rightarrow> string option tx" where
  "inbox_Begin rt d = (\<lambda>w.
     case rt_NewV7 rt (w_ids w) of
       None \<Rightarrow> (Inl (Plain None), w\<lparr>w_ids := Suc (w_ids w)\<rparr>)
     | Some i \<Rightarrow>
         tx_bind (db_call rt (insert_inbox
             \<lparr>ibr_id = i, ibr_consumerName = dl_ConsumerName d, ibr_messageId = dl_MessageID d,
              ibr_digest = dl_Digest d, ibr_receivedAt = time_UTC (dl_ReceivedAt d),
              ibr_completedAt = None\<rparr>)) (\<lambda>inserted.
           case inserted of
             Some _ \<Rightarrow> tx_return None
           | None \<Rightarrow>
               tx_bind (db_call rt (select_inbox_digest (dl_ConsumerName d) (dl_MessageID d))) (\<lambda>found.
                 case found of
                   None \<Rightarrow> tx_fail (mapError DriverError)
                 | Some digest \<Rightarrow> tx_return (Some digest)))
           (w\<lparr>w_ids := Suc (w_ids w)\<rparr>))"

definition inbox_Complete :: "runtime \<Rightarrow> string \<Rightarrow> string \<Rightarrow> time \<Rightarrow> unit tx" where
  "inbox_Complete rt consumerName messageID completedAt =
     db_call rt (update_inbox_completed consumerName messageID (time_UTC completedAt))"

section \<open>Encodings\<close>

locale row_codec =
  fixes enc :: "'e \<Rightarrow> 'r" and dec :: "uuid_lib \<Rightarrow> 'r \<Rightarrow> app_error + 'e" and ok :: "'e \<Rightarrow> bool"
  assumes dec_enc: "uuid_lib_ok u \<Longrightarrow> ok e \<Longrightarrow> dec u (enc e) = Inr e"
    and dec_ok: "uuid_lib_ok u \<Longrightarrow> dec u r = Inr e \<Longrightarrow> ok e"
begin

lemma dec_enc_iff: "uuid_lib_ok u \<Longrightarrow> dec u (enc e) = Inr e \<longleftrightarrow> ok e"
  using dec_enc dec_ok by blast

lemma dec_stable: "uuid_lib_ok u \<Longrightarrow> dec u r = Inr e \<Longrightarrow> dec u (enc e) = Inr e"
  by (blast intro: dec_enc dec_ok)

lemma enc_inject: "uuid_lib_ok u \<Longrightarrow> ok e \<Longrightarrow> ok e' \<Longrightarrow> enc e = enc e' \<longleftrightarrow> e = e'"
  by (metis dec_enc sum.inject(2))

lemma scan_enc: "uuid_lib_ok u \<Longrightarrow> ok e \<Longrightarrow> scan_row (dec u) (Some (enc e)) = Inr (Some e)"
  by (simp add: scan_row_def dec_enc)

lemma decode_all_enc: "uuid_lib_ok u \<Longrightarrow> list_all ok es \<Longrightarrow> decode_all (dec u) (map enc es) = Inr es"
  by (induction es) (simp_all add: dec_enc)

lemma decode_all_ok:
  "uuid_lib_ok u \<Longrightarrow> decode_all (dec u) rs = Inr es \<Longrightarrow> list_all ok es \<and> length es = length rs"
  by (induction rs arbitrary: es) (auto simp: res_simps dec_ok)

end

lemma corrupt_id_Inr [simp]: "uuid_lib_ok u \<Longrightarrow> corrupt_id u i = Inr i"
  by (simp add: corrupt_id_def)

lemma corrupt_money_Inr_iff [simp]:
  "corrupt_money b c = Inr m \<longleftrightarrow> currencyPattern c \<and> m = \<lparr>minorUnits = b, currency = c\<rparr>"
  by (auto simp: corrupt_money_def res_simps)

definition wallet_db_ok :: "wallet \<Rightarrow> bool" where
  "wallet_db_ok w \<longleftrightarrow> wallet_ok w \<and> currencyPattern (wal_currency w)"

lemma rehydrateWallet_Inr_iff:
  assumes "uuid_lib_ok u"
  shows "rehydrateWallet u r = Inr w \<longleftrightarrow> wallet_db_ok w \<and> r = wallet_to_row w"
  using assms
  by (cases r; cases w; cases "wal_balance w") (auto simp: rehydrateWallet_def res_simps RehydrateWallet_Inr_iff
      wallet_db_ok_def wallet_to_row_def wallet_ok_def)

definition wager_db_ok :: "wager \<Rightarrow> bool" where
  "wager_db_ok t \<longleftrightarrow>
     wager_row_ok t \<and> currencyPattern (currency (tx_amount t))
     \<and> (tx_observedBalance t = money_nil \<or> currency (tx_observedBalance t) = currency (tx_amount t))"

text \<open>The row of a transaction with its three scheduling columns.\<close>

definition tx_row_with :: "wager \<Rightarrow> time option \<Rightarrow> int \<Rightarrow> time option \<Rightarrow> tx_row" where
  "tx_row_with t next attempts claimed =
     (wager_to_row t)\<lparr>txr_nextAttemptAt := next, txr_referenceAttempts := attempts,
       txr_claimedUntil := claimed\<rparr>"

lemma rehydrateTransaction_with:
  assumes "uuid_lib_ok u" and "wager_db_ok t"
  shows "rehydrateTransaction u (tx_row_with t n a c) = Inr t"
proof -
  have i: "IsInitialized (tx_amount t)" "RehydrateTransaction t = Inr t"
    and cp: "currencyPattern (currency (tx_amount t))"
    using assms(2) by (auto simp: wager_db_ok_def wager_row_ok_def RehydrateTransaction_Inr_iff)
  have ref: "(case nullUUID (tx_referenceTransactionID t) of None \<Rightarrow> Inr uuid_Nil
      | Some j \<Rightarrow> Inr j) = (Inr (tx_referenceTransactionID t) :: app_error + uuid)"
    by (simp add: nullUUID_def id_IsZero_def)
  have obs: "(case nullMoney (tx_observedBalance t) of None \<Rightarrow> Inr money_nil
      | Some b \<Rightarrow> corrupt_money b (currency (tx_amount t))) = Inr (tx_observedBalance t)"
    using assms(2) cp by (auto simp: nullMoney_def wager_db_ok_def IsInitialized_def money_nil_def
        wager_row_ok_def)
  have am: "corrupt_money (minorUnits (tx_amount t)) (currency (tx_amount t)) = Inr (tx_amount t)"
    using cp by simp
  have dl: "(case nullTime (tx_referenceDeadline t) of None \<Rightarrow> time_zero | Some d \<Rightarrow> d) = tx_referenceDeadline t"
    by (simp add: nullTime_def time_defs)
  show ?thesis
    using assms(1) i(2)
    by (simp add: rehydrateTransaction_def tx_row_with_def wager_to_row_def ref obs am dl
        cong: option.case_cong) (cases t, simp)
qed

lemma rehydrateTransaction_ok:
  assumes "uuid_lib_ok u" and "rehydrateTransaction u r = Inr t"
  shows "wager_db_ok t"
  using assms
  by (auto simp: rehydrateTransaction_def res_simps RehydrateTransaction_Inr_iff wager_db_ok_def
      split: option.splits)

definition ledger_db_ok :: "string \<Rightarrow> ledger_entry \<Rightarrow> bool" where
  "ledger_db_ok cur e \<longleftrightarrow> ledger_entry_ok e \<and> currency (le_amount e) = cur \<and> currencyPattern cur"

lemma rehydrateLedgerEntry_Inr_iff:
  assumes "uuid_lib_ok u"
  shows "rehydrateLedgerEntry u cur r = Inr e \<longleftrightarrow> ledger_db_ok cur e \<and> r = ledger_to_row e"
  using assms
  by (cases r; cases e; cases "le_amount e"; cases "le_balanceBefore e"; cases "le_balanceAfter e")
    (auto simp: rehydrateLedgerEntry_def res_simps RehydrateWalletLedgerEntry_eq
      NewWalletLedgerEntry_Inr_iff ledger_db_ok_def ledger_to_row_def ledger_entry_ok_def)

lemma rehydrateClaim_Inr_iff:
  assumes "uuid_lib_ok u"
  shows "rehydrateClaim u r = Inr c \<longleftrightarrow> reversal_claim_ok c \<and> r = claim_to_row c"
  using assms
  by (cases r; cases c) (auto simp: rehydrateClaim_def res_simps RehydrateReversalClaim_def
      NewReversalClaim_Inr_iff claim_to_row_def)

interpretation wallet_rows: row_codec wallet_to_row rehydrateWallet wallet_db_ok
  by unfold_locales (auto simp: rehydrateWallet_Inr_iff)

interpretation wager_rows: row_codec wager_to_row rehydrateTransaction wager_db_ok
proof
  fix u t
  assume "uuid_lib_ok u" "wager_db_ok t"
  from rehydrateTransaction_with [OF this, of None 0 None]
  show "rehydrateTransaction u (wager_to_row t) = Inr t"
    by (simp add: tx_row_with_def wager_to_row_def)
qed (rule rehydrateTransaction_ok)

interpretation ledger_rows: row_codec ledger_to_row "\<lambda>u. rehydrateLedgerEntry u cur" "ledger_db_ok cur"
  for cur
  by unfold_locales (auto simp: rehydrateLedgerEntry_Inr_iff)

interpretation claim_rows: row_codec claim_to_row rehydrateClaim reversal_claim_ok
  by unfold_locales (auto simp: rehydrateClaim_Inr_iff)

section \<open>Reading one row\<close>

lemma scan_row_Inr:
  "scan_row dec ro = Inr (Some e) \<longleftrightarrow> (\<exists>r. ro = Some r \<and> dec r = Inr e)"
  "scan_row dec ro = Inr None \<longleftrightarrow> ro = None"
  by (auto simp: scan_row_def res_simps split: option.splits)

lemma scanTransaction_Inr:
  "scanTransaction u ro = Inr (Some t) \<longleftrightarrow> (\<exists>r. ro = Some r \<and> rehydrateTransaction u r = Inr t)"
  "scanTransaction u ro = Inr None \<longleftrightarrow> ro = None"
  by (auto simp: scanTransaction_def scanTransactionWithAttempts_def scan_row_def res_simps
      split: option.splits)

lemma scanTransactionWithAttempts_Inr:
  "scanTransactionWithAttempts u ro = Inr (Some (t, a)) \<longleftrightarrow>
     (\<exists>r. ro = Some r \<and> rehydrateTransaction u r = Inr t \<and> a = txr_referenceAttempts r)"
  "scanTransactionWithAttempts u ro = Inr None \<longleftrightarrow> ro = None"
  by (auto simp: scanTransactionWithAttempts_def scan_row_def res_simps split: option.splits)

end
