(* ===== verification/Service.thy ===== *)
theory Service
  imports Postgres
begin

text \<open>
  \<open>internal/application/service.go\<close>: the use cases that change the database. Every call, guard and
  early return of the handlers is a bind or a branch here, in the order of the source; results that
  Go writes through a pointer are returned.
\<close>

section \<open>Events\<close>

definition tx_event :: "event_error + envelope \<Rightarrow> envelope tx" where
  "tx_event r = tx_lift (map_err (\<lambda>e. wrapInvariant (Some (FromEvent e))) r)"

definition event_meta :: "string \<Rightarrow> string \<Rightarrow> string \<Rightarrow> time \<Rightarrow> metadata" where
  "event_meta eventID aggregateID correlation now =
     \<lparr>md_EventID = eventID, md_AggregateID = aggregateID, md_CorrelationID = correlation,
      md_CausationID = '''', md_OccurredAt = now\<rparr>"

definition emitProcessed ::
  "runtime \<Rightarrow> wallet \<Rightarrow> wager \<Rightarrow> money \<Rightarrow> time \<Rightarrow> string \<Rightarrow> unit tx" where
  "emitProcessed rt w t balance now correlation =
     (let s = uuid_String (rt_uuid rt) in
      tx_bind (newEventID rt) (\<lambda>eid.
      tx_bind (tx_event (NewWagerTransactionProcessed (event_meta eid (s (wal_id w)) correlation now)
        \<lparr>pd_TransactionID = s (tx_id t), pd_Origin = tx_origin t, pd_ProviderID = tx_providerID t,
         pd_ExternalTransactionID = tx_externalTransactionID t, pd_WalletID = s (wal_id w),
         pd_PlayerID = s (wal_playerID w), pd_RoundID = tx_roundID t, pd_GameID = tx_gameID t,
         pd_Kind = tx_kind t, pd_Money = tx_amount t, pd_Balance = balance\<rparr>)) (\<lambda>envelope.
      outbox_Insert rt envelope now)))"

definition emitRejected :: "runtime \<Rightarrow> wallet \<Rightarrow> wager \<Rightarrow> time \<Rightarrow> string \<Rightarrow> unit tx" where
  "emitRejected rt w t now correlation =
     (let s = uuid_String (rt_uuid rt) in
      tx_bind (newEventID rt) (\<lambda>eid.
      tx_bind (tx_event (NewWagerTransactionRejected (event_meta eid (s (wal_id w)) correlation now)
        \<lparr>rd_TransactionID = s (tx_id t), rd_ProviderID = tx_providerID t,
         rd_ExternalTransactionID = tx_externalTransactionID t, rd_WalletID = s (wal_id w),
         rd_Kind = tx_kind t, rd_Money = tx_amount t, rd_FailureCode = tx_failureCode t,
         rd_Balance = tx_observedBalance t,
         rd_ReferenceExternalTransactionID = tx_referenceExternalTransactionID t\<rparr>)) (\<lambda>envelope.
      outbox_Insert rt envelope now)))"

definition emitPendingReference :: "runtime \<Rightarrow> wager \<Rightarrow> time \<Rightarrow> string \<Rightarrow> unit tx" where
  "emitPendingReference rt t now correlation =
     (let s = uuid_String (rt_uuid rt) in
      tx_bind (newEventID rt) (\<lambda>eid.
      tx_bind (tx_event (NewWagerTransactionPendingReference
          (event_meta eid (s (tx_walletID t)) correlation now)
        \<lparr>qd_TransactionID = s (tx_id t), qd_ProviderID = tx_providerID t,
         qd_ExternalTransactionID = tx_externalTransactionID t, qd_WalletID = s (tx_walletID t),
         qd_Kind = tx_kind t, qd_Money = tx_amount t,
         qd_ReferenceExternalTransactionID = tx_referenceExternalTransactionID t,
         qd_ExpiresAt = tx_referenceDeadline t\<rparr>)) (\<lambda>envelope.
      outbox_Insert rt envelope now)))"

definition emitBalanceChanged ::
  "runtime \<Rightarrow> wallet \<Rightarrow> wager \<Rightarrow> movement \<Rightarrow> money \<Rightarrow> money \<Rightarrow> time \<Rightarrow> string \<Rightarrow> unit tx" where
  "emitBalanceChanged rt w t move balanceBefore balanceAfter now correlation =
     (let s = uuid_String (rt_uuid rt) in
      tx_bind (newEventID rt) (\<lambda>eid.
      tx_bind (tx_event (NewWalletBalanceChanged (event_meta eid (s (wal_id w)) correlation now)
        \<lparr>bd_WalletID = s (wal_id w), bd_TransactionID = s (tx_id t), bd_Direction = mv_direction move,
         bd_Money = mv_amount move, bd_BalanceBefore = balanceBefore, bd_BalanceAfter = balanceAfter,
         bd_WalletVersion = wal_version w\<rparr>)) (\<lambda>envelope.
      outbox_Insert rt envelope now)))"

section \<open>Opening a wallet\<close>

definition open_body :: "runtime \<Rightarrow> wallet \<Rightarrow> time \<Rightarrow> string \<Rightarrow> unit tx" where
  "open_body rt w now correlation =
     tx_bind (\<lambda>st. case wallets_Insert rt w st of
         (Inl e, st') \<Rightarrow>
           (if errors_Is e ErrWalletExists
            then (Inl (conflictError CodeWalletAlreadyExists (Some e)), st') else (Inl e, st'))
       | (Inr u, st') \<Rightarrow> (Inr u, st')) (\<lambda>_.
     if \<not> IsPositive (wal_balance w) then tx_return ()
     else
       tx_bind (new_id rt) (\<lambda>tid.
       tx_bind (tx_domain (NewInternalOpening tid (wal_id w) (wal_playerID w) (wal_balance w) now)) (\<lambda>opening.
       tx_bind (tx_domain (MarkProcessed opening uuid_Nil (wal_balance w) now)) (\<lambda>processed.
       tx_bind (transactions_Insert rt processed) (\<lambda>_.
       tx_bind (tx_domain (map_err FErrMoney (Zero (wal_currency w)))) (\<lambda>zero.
       tx_bind (new_id rt) (\<lambda>eid.
       tx_bind (tx_domain (NewWalletLedgerEntry eid (wal_id w) (tx_id processed) DirectionCredit
         (wal_balance w) zero (wal_balance w) now)) (\<lambda>entry.
       tx_bind (ledger_Insert rt entry) (\<lambda>_.
       tx_bind (emitProcessed rt w processed (wal_balance w) now correlation) (\<lambda>_.
       emitBalanceChanged rt w processed
         \<lparr>mv_direction = DirectionCredit, mv_amount = wal_balance w\<rparr> zero (wal_balance w) now
         correlation))))))))))"

definition OpenWallet :: "runtime \<Rightarrow> open_command \<Rightarrow> wallet_view tx" where
  "OpenWallet rt cmd =
     tx_bind (tx_lift (OpenWalletCommand_Validate cmd)) (\<lambda>_.
     tx_bind (clock_Now rt) (\<lambda>now.
     tx_bind (new_id rt) (\<lambda>wid.
     tx_bind (tx_lift (map_err (\<lambda>_. contractError CodeInvalidRequest)
       (NewWallet wid (oc_PlayerID cmd) (currency (oc_InitialBalance cmd)) (oc_InitialBalance cmd) now)))
     (\<lambda>w.
     tx_bind (correlationOrNew rt (oc_CorrelationID cmd)) (\<lambda>correlation.
     tx_bind (InTx rt (open_body rt w now correlation)) (\<lambda>_.
     tx_return (walletView w)))))))"

section \<open>Executing a plan\<close>

definition persist_rejection ::
  "runtime \<Rightarrow> wallet \<Rightarrow> wager \<Rightarrow> transaction_id \<Rightarrow> failure_code \<Rightarrow> time \<Rightarrow> string \<Rightarrow> wager_result tx" where
  "persist_rejection rt w t referenceID code now correlation =
     tx_bind (tx_domain (MarkRejected t referenceID code (wal_balance w) now)) (\<lambda>rejected.
     tx_bind (transactions_Update rt rejected None) (\<lambda>_.
     tx_bind (emitRejected rt w rejected now correlation) (\<lambda>_.
     tx_return (resultOf rejected False))))"

definition persist_failure :: "runtime \<Rightarrow> wallet \<Rightarrow> wager \<Rightarrow> time \<Rightarrow> wager_result tx" where
  "persist_failure rt w t now =
     tx_bind (tx_domain (MarkFailed t (wal_balance w) now)) (\<lambda>failed.
     tx_bind (transactions_Update rt failed None) (\<lambda>_.
     tx_return (resultOf failed False)))"

definition move_wallet :: "movement \<Rightarrow> wallet \<Rightarrow> time \<Rightarrow> app_error + (fin_error + wallet)" where
  "move_wallet mv w now =
     (if mv_direction mv = DirectionCredit then Inr (Credit w (mv_amount mv) now)
      else if mv_direction mv = DirectionDebit then Inr (Debit w (mv_amount mv) now)
      else Inl (wrapInvariant (Some (Plain None))))"

definition post_movement ::
  "runtime \<Rightarrow> wallet \<Rightarrow> wallet \<Rightarrow> wager \<Rightarrow> operation_plan \<Rightarrow> movement \<Rightarrow> time \<Rightarrow> string
     \<Rightarrow> wager_result tx" where
  "post_movement rt w updated t plan mv now correlation =
     tx_bind (new_id rt) (\<lambda>eid.
     tx_bind (tx_domain (NewWalletLedgerEntry eid (wal_id updated) (tx_id t) (mv_direction mv)
       (mv_amount mv) (wal_balance w) (wal_balance updated) now)) (\<lambda>entry.
     tx_bind (tx_domain (MarkProcessed t (pl_referenceID plan) (wal_balance updated) now)) (\<lambda>processed.
     tx_bind (wallets_SaveBalance rt updated) (\<lambda>_.
     tx_bind (ledger_Insert rt entry) (\<lambda>_.
     tx_bind (if pl_claim plan then
         tx_bind (new_id rt) (\<lambda>cid.
         tx_bind (tx_domain (NewReversalClaim cid (pl_referenceID plan) (tx_id t) now)) (\<lambda>claim.
         claims_Insert rt claim))
       else tx_return ()) (\<lambda>_.
     tx_bind (transactions_Update rt processed None) (\<lambda>_.
     tx_bind (emitProcessed rt updated processed (wal_balance updated) now correlation) (\<lambda>_.
     tx_bind (emitBalanceChanged rt updated processed mv (wal_balance w) (wal_balance updated) now
       correlation) (\<lambda>_.
     tx_return (resultOf processed False))))))))))"

definition applyMovement ::
  "runtime \<Rightarrow> wallet \<Rightarrow> wager \<Rightarrow> operation_plan \<Rightarrow> movement \<Rightarrow> time \<Rightarrow> string \<Rightarrow> wager_result tx" where
  "applyMovement rt w t plan mv now correlation =
     tx_bind (tx_lift (move_wallet mv w now)) (\<lambda>moved.
     case moved of
       Inl e \<Rightarrow>
         (if e = FErrInsufficientFunds then
            let code = (if tx_kind t \<noteq> KindBet then FailureReversalInsufficientFunds
                        else FailureInsufficientFunds)
            in persist_rejection rt w t (pl_referenceID plan) code now correlation
          else tx_fail (FromFin e))
     | Inr updated \<Rightarrow> post_movement rt w updated t plan mv now correlation)"

definition executePlan ::
  "runtime \<Rightarrow> wallet \<Rightarrow> wager \<Rightarrow> operation_plan \<Rightarrow> time \<Rightarrow> string \<Rightarrow> wager_result tx" where
  "executePlan rt w t plan now correlation =
     (if pl_pending plan then
        let deadline = time_Add now ReferenceTTL in
        tx_bind (tx_domain (MarkPendingReference t deadline now)) (\<lambda>pending.
        let schedule = \<lparr>rs_NextAttemptAt =
              ReferenceNextAttemptAt 0 (uuid_String (rt_uuid rt) (tx_id t)) now, rs_Attempts = 0\<rparr> in
        tx_bind (transactions_Update rt pending (Some schedule)) (\<lambda>_.
        tx_bind (emitPendingReference rt pending now correlation) (\<lambda>_.
        tx_return (resultOf pending False))))
      else if pl_failure plan \<noteq> '''' then
        persist_rejection rt w t (pl_referenceID plan) (pl_failure plan) now correlation
      else case pl_movement plan of
        None \<Rightarrow>
          tx_bind (tx_domain (MarkProcessed t (pl_referenceID plan) (wal_balance w) now)) (\<lambda>processed.
          tx_bind (transactions_Update rt processed None) (\<lambda>_.
          tx_bind (emitProcessed rt w processed (wal_balance w) now correlation) (\<lambda>_.
          tx_return (resultOf processed False))))
      | Some mv \<Rightarrow> applyMovement rt w t plan mv now correlation)"

section \<open>Resolving the reference\<close>

definition loadReference :: "runtime \<Rightarrow> wager \<Rightarrow> wager option tx" where
  "loadReference rt t =
     (if \<not> needsReference t then tx_return None
      else transactions_ByProviderAndExternalID rt (tx_providerID t)
             (tx_referenceExternalTransactionID t))"

definition planOperation :: "runtime \<Rightarrow> wager \<Rightarrow> wager option \<Rightarrow> operation_plan tx" where
  "planOperation rt t ro =
     tx_bind (case ro of
         None \<Rightarrow> tx_return False
       | Some ref \<Rightarrow>
           if isClaimingKind (tx_kind t) \<and> tx_state ref = StateProcessed
           then tx_bind (claims_ByReference rt (tx_id ref)) (\<lambda>c. tx_return (c \<noteq> None))
           else tx_return False) (\<lambda>claimExists.
     tx_bind (tx_lift (map_err (\<lambda>e. wrapInvariant (Some e)) (classify t ro claimExists))) (\<lambda>plan.
     case ro of
       Some ref \<Rightarrow>
         (if \<not> pl_pending plan \<and> id_IsZero (pl_referenceID plan)
          then tx_return (plan\<lparr>pl_referenceID := tx_id ref\<rparr>) else tx_return plan)
     | None \<Rightarrow> tx_return plan))"

definition executeWithReference ::
  "runtime \<Rightarrow> wallet \<Rightarrow> wager \<Rightarrow> wager option \<Rightarrow> time \<Rightarrow> string \<Rightarrow> wager_result tx" where
  "executeWithReference rt w t ro now correlation =
     tx_bind (planOperation rt t ro) (\<lambda>plan. executePlan rt w t plan now correlation)"

definition resolveAndExecute ::
  "runtime \<Rightarrow> wallet \<Rightarrow> wager \<Rightarrow> time \<Rightarrow> string \<Rightarrow> wager_result tx" where
  "resolveAndExecute rt w t now correlation =
     (if \<not> needsReference t then executeWithReference rt w t None now correlation
      else (\<lambda>st. case loadReference rt t st of
          (Inl e, st') \<Rightarrow>
            (if errors_Is e ErrCorruptPersistedRecord then persist_failure rt w t now st'
             else (Inl e, st'))
        | (Inr ro, st') \<Rightarrow> executeWithReference rt w t ro now correlation st'))"

section \<open>Submitting an external command\<close>

definition same_projection :: "wager \<Rightarrow> string \<Rightarrow> bool" where
  "same_projection t digest \<longleftrightarrow> tx_digest t = digest \<and> tx_digestVersion t = DigestVersion"

definition submit_new ::
  "runtime \<Rightarrow> submit_command \<Rightarrow> string \<Rightarrow> string \<Rightarrow> wager_result tx" where
  "submit_new rt cmd digest correlation =
     tx_bind (wallets_LockByID rt (sc_WalletID cmd)) (\<lambda>wall.
     case wall of
       None \<Rightarrow> tx_fail notFoundError
     | Some w \<Rightarrow>
         if wal_currency w \<noteq> currency (sc_Amount cmd)
         then tx_fail (contractError CodeUnsupportedCurrency)
         else
           tx_bind (clock_Now rt) (\<lambda>now.
           tx_bind (new_id rt) (\<lambda>tid.
           tx_bind (tx_lift (map_err (\<lambda>_. contractError CodeInvalidRequest)
             (NewExternalTransaction (params_of cmd tid DigestVersion digest now)))) (\<lambda>t.
           tx_bind (transactions_Insert rt t) (\<lambda>_.
           resolveAndExecute rt w t now correlation)))))"

definition submitWithinTx ::
  "runtime \<Rightarrow> submit_command \<Rightarrow> string \<Rightarrow> string \<Rightarrow> wager_result tx" where
  "submitWithinTx rt cmd digest correlation =
     tx_bind (transactions_ByProviderAndKey rt (sc_ProviderID cmd) (sc_IdempotencyKey cmd)) (\<lambda>found1.
     case found1 of
       Some existing \<Rightarrow>
         (if same_projection existing digest then tx_return (resultOf existing True)
          else tx_fail (conflictError CodeIdempotencyConflict None))
     | None \<Rightarrow>
         tx_bind (transactions_ByProviderAndExternalID rt (sc_ProviderID cmd)
           (sc_ExternalTransactionID cmd)) (\<lambda>found2.
         case found2 of
           Some conflicting \<Rightarrow>
             (if tx_idempotencyKey conflicting = sc_IdempotencyKey cmd then
                (if same_projection conflicting digest then tx_return (resultOf conflicting True)
                 else tx_fail (conflictError CodeIdempotencyConflict None))
              else tx_fail (conflictError CodeExternalTransactionConflict None))
         | None \<Rightarrow> submit_new rt cmd digest correlation))"

definition maxConcurrentWriteRetries :: nat where "maxConcurrentWriteRetries = 3"

definition hitFailpoint :: "runtime \<Rightarrow> unit tx" where
  "hitFailpoint rt w = (case rt_failpoint rt (w_calls w) of None \<Rightarrow> (Inr (), w) | Some e \<Rightarrow> (Inl e, w))"

definition submit_attempt ::
  "runtime \<Rightarrow> submit_command \<Rightarrow> string \<Rightarrow> string \<Rightarrow> wager_result tx" where
  "submit_attempt rt cmd digest correlation =
     InTx rt (tx_bind (submitWithinTx rt cmd digest correlation) (\<lambda>result.
              tx_bind (hitFailpoint rt) (\<lambda>_. tx_return result)))"

text \<open>The retry loop, with the attempts left and the last conflict.\<close>

fun submit_loop ::
  "runtime \<Rightarrow> submit_command \<Rightarrow> string \<Rightarrow> string \<Rightarrow> nat \<Rightarrow> app_error option \<Rightarrow> wager_result tx" where
  "submit_loop rt cmd digest correlation 0 lastConflict w =
     (Inl (transientError (Some (Plain lastConflict))), w)"
| "submit_loop rt cmd digest correlation (Suc left) lastConflict w =
     (case submit_attempt rt cmd digest correlation w of
        (Inr result, w') \<Rightarrow> (Inr result, w')
      | (Inl e, w') \<Rightarrow>
          if errors_Is e ErrConcurrentWrite
          then submit_loop rt cmd digest correlation left (Some e) w'
          else (Inl e, w'))"

definition SubmitWagerTransaction :: "runtime \<Rightarrow> submit_command \<Rightarrow> wager_result tx" where
  "SubmitWagerTransaction rt cmd =
     tx_bind (tx_lift (SubmitWagerCommand_Validate cmd)) (\<lambda>_.
     let digest = DigestOf (rt_uuid rt) (projection cmd) in
     tx_bind (correlationOrNew rt (sc_CorrelationID cmd)) (\<lambda>correlation.
     submit_loop rt cmd digest correlation maxConcurrentWriteRetries None))"

section \<open>Submitting from the inbox\<close>

definition wager_result_nil :: wager_result where
  "wager_result_nil =
     \<lparr>wr_TransactionID = uuid_Nil, wr_Origin = '''', wr_Kind = '''', wr_ProviderID = '''',
      wr_ExternalID = '''', wr_WalletID = uuid_Nil, wr_PlayerID = uuid_Nil, wr_RoundID = '''',
      wr_GameID = '''', wr_Amount = money_nil, wr_ReferenceExternal = '''', wr_State = '''',
      wr_ObservedBalance = money_nil, wr_FailureCode = '''', wr_ReferenceDeadline = time_zero,
      wr_IdempotentReplay = False, wr_CreatedAt = time_zero, wr_UpdatedAt = time_zero\<rparr>"

text \<open>
  The closure given to \<open>InTx\<close> assigns the captured \<open>result\<close>, which keeps its value over attempts; it
  is passed in and returned. The closure's own value is the captured \<open>duplicate\<close>.
\<close>

definition inbox_closure ::
  "runtime \<Rightarrow> submit_command \<Rightarrow> inbox_delivery \<Rightarrow> string \<Rightarrow> string \<Rightarrow> wager_result \<Rightarrow> world
     \<Rightarrow> (app_error + bool) \<times> wager_result \<times> world" where
  "inbox_closure rt cmd delivery digest correlation result w =
     (case inbox_Begin rt delivery w of
        (Inl e, w1) \<Rightarrow> (Inl e, result, w1)
      | (Inr (Some storedDigest), w1) \<Rightarrow>
          (if storedDigest = dl_Digest delivery then (Inr True, result, w1)
           else (Inl (conflictError CodeInboxPayloadConflict None), result, w1))
      | (Inr None, w1) \<Rightarrow>
          (case submitWithinTx rt cmd digest correlation w1 of
             (Inl e, w2) \<Rightarrow> (Inl e, wager_result_nil, w2)
           | (Inr r, w2) \<Rightarrow>
               (case tx_bind (clock_Now rt) (inbox_Complete rt (dl_ConsumerName delivery)
                       (dl_MessageID delivery)) w2 of
                  (Inl e, w3) \<Rightarrow> (Inl e, r, w3)
                | (Inr _, w3) \<Rightarrow> (Inr False, r, w3))))"

definition inbox_attempt ::
  "runtime \<Rightarrow> submit_command \<Rightarrow> inbox_delivery \<Rightarrow> string \<Rightarrow> string \<Rightarrow> wager_result \<Rightarrow> world
     \<Rightarrow> (app_error + bool) \<times> wager_result \<times> world" where
  "inbox_attempt rt cmd delivery digest correlation result w =
     (case begin_tx rt w of
        (Inl e, w1) \<Rightarrow> (Inl e, result, w1)
      | (Inr _, w1) \<Rightarrow>
          (case inbox_closure rt cmd delivery digest correlation result w1 of
             (r, result', w2) \<Rightarrow>
               (case finish_tx rt (w_db w) (r, w2) of (r', w3) \<Rightarrow> (r', result', w3))))"

fun inbox_loop ::
  "runtime \<Rightarrow> submit_command \<Rightarrow> inbox_delivery \<Rightarrow> string \<Rightarrow> string \<Rightarrow> nat \<Rightarrow> wager_result
     \<Rightarrow> app_error option \<Rightarrow> (wager_result \<times> bool) tx" where
  "inbox_loop rt cmd delivery digest correlation 0 result lastConflict w =
     (Inl (transientError (Some (Plain lastConflict))), w)"
| "inbox_loop rt cmd delivery digest correlation (Suc left) result lastConflict w =
     (case inbox_attempt rt cmd delivery digest correlation result w of
        (Inr duplicate, result', w') \<Rightarrow> (Inr (result', duplicate), w')
      | (Inl e, result', w') \<Rightarrow>
          if errors_Is e ErrConcurrentWrite
          then inbox_loop rt cmd delivery digest correlation left result' (Some e) w'
          else (Inl e, w'))"

definition SubmitWagerFromInbox ::
  "runtime \<Rightarrow> submit_command \<Rightarrow> inbox_delivery \<Rightarrow> (wager_result \<times> bool) tx" where
  "SubmitWagerFromInbox rt cmd delivery =
     tx_bind (tx_lift (SubmitWagerCommand_Validate cmd)) (\<lambda>_.
     tx_bind (tx_lift (InboxDelivery_Validate delivery)) (\<lambda>_.
     let digest = DigestOf (rt_uuid rt) (projection cmd) in
     tx_bind (correlationOrNew rt (sc_CorrelationID cmd)) (\<lambda>correlation.
     inbox_loop rt cmd delivery digest correlation maxConcurrentWriteRetries wager_result_nil None)))"

section \<open>Recovering a pending reference\<close>

definition rejectReferenceNotFound ::
  "runtime \<Rightarrow> wallet \<Rightarrow> wager \<Rightarrow> time \<Rightarrow> string \<Rightarrow> wager_result tx" where
  "rejectReferenceNotFound rt w t now correlation =
     persist_rejection rt w t uuid_Nil FailureReferenceNotFound now correlation"

definition rescheduleReference :: "runtime \<Rightarrow> wager \<Rightarrow> int \<Rightarrow> time \<Rightarrow> wager_result tx" where
  "rescheduleReference rt t attempts now =
     (let nextAttempt = attempts + 1;
          nextAt = ReferenceNextAttemptAt nextAttempt (uuid_String (rt_uuid rt) (tx_id t)) now
      in tx_bind (transactions_RescheduleReference rt (tx_id t) now nextAt nextAttempt) (\<lambda>_.
         tx_bind (tx_domain (RehydrateTransaction (t\<lparr>tx_updatedAt := now\<rparr>))) (\<lambda>rescheduled.
         tx_return (resultOf rescheduled False))))"

definition resolve_body ::
  "runtime \<Rightarrow> resolve_command \<Rightarrow> string \<Rightarrow> wager_result tx" where
  "resolve_body rt cmd correlation =
     tx_bind (transactions_LockByID rt (rcm_TransactionID cmd)) (\<lambda>found.
     case found of
       None \<Rightarrow> tx_fail notFoundError
     | Some (t, attempts) \<Rightarrow>
         if wager_IsTerminal t then tx_return (resultOf t False)
         else if tx_state t \<noteq> StatePendingReference then tx_fail (contractError CodeInvalidRequest)
         else
           tx_bind (wallets_LockByID rt (tx_walletID t)) (\<lambda>wall.
           case wall of
             None \<Rightarrow> tx_fail (corruptRecord (Some (Plain None)))
           | Some w \<Rightarrow>
               tx_bind (clock_Now rt) (\<lambda>now. \<lambda>st.
               case loadReference rt t st of
                 (Inl e, st') \<Rightarrow>
                   (if errors_Is e ErrCorruptPersistedRecord then persist_failure rt w t now st'
                    else (Inl e, st'))
               | (Inr ro, st') \<Rightarrow>
                   tx_bind (planOperation rt t ro) (\<lambda>plan.
                   if pl_pending plan then
                     (if \<not> time_Before now (tx_referenceDeadline t)
                      then rejectReferenceNotFound rt w t now correlation
                      else rescheduleReference rt t attempts now)
                   else executePlan rt w t plan now correlation) st')))"

definition ResolvePendingReference :: "runtime \<Rightarrow> resolve_command \<Rightarrow> wager_result tx" where
  "ResolvePendingReference rt cmd =
     tx_bind (tx_lift (ResolvePendingReferenceCommand_Validate cmd)) (\<lambda>_.
     tx_bind (correlationOrNew rt (rcm_CorrelationID cmd)) (\<lambda>correlation.
     InTx rt (resolve_body rt cmd correlation)))"

end
