(* ===== verification/FinSpec.thy ===== *)
theory FinSpec
  imports Service
begin

text \<open>
  What a use case may do to the database, without the code: the relation \<open>fin_step\<close> has one
  constructor per kind of committed transaction, and \<open>settles\<close> one per outcome of an operation.
  The refinement theory shows that every run of the service is such a step; here the financial
  invariant \<open>fin_inv\<close> is shown to hold after every sequence of steps from the empty database.
\<close>

section \<open>Abstract steps\<close>

definition wallet_at :: "uuid_lib \<Rightarrow> db \<Rightarrow> wallet_id \<Rightarrow> wallet \<Rightarrow> bool" where
  "wallet_at u d i w \<longleftrightarrow>
     (\<exists>r. find (\<lambda>r. wlr_id r = i) (db_wallets d) = Some r \<and> rehydrateWallet u r = Inr w)"

definition tx_at :: "uuid_lib \<Rightarrow> db \<Rightarrow> wager \<Rightarrow> bool" where
  "tx_at u d t \<longleftrightarrow> (\<exists>r \<in> set (db_transactions d). rehydrateTransaction u r = Inr t)"

text \<open>The events of one aggregate, appended unpublished and due at once.\<close>

definition event_row_ok :: "uuid_lib \<Rightarrow> wallet_id \<Rightarrow> outbox_row \<Rightarrow> bool" where
  "event_row_ok u i r \<longleftrightarrow>
     obr_aggregateId r = uuid_String u i \<and> envelope_ok (obr_payload r)
     \<and> obr_eventType r = ev_EventType (obr_payload r) \<and> obr_eventId r = ev_EventID (obr_payload r)
     \<and> obr_publishedAt r = None \<and> obr_claimedUntil r = None \<and> obr_attempts r = 0
     \<and> obr_nextAttemptAt r = obr_createdAt r"

definition emitted :: "uuid_lib \<Rightarrow> event_type list \<Rightarrow> wallet_id \<Rightarrow> db \<Rightarrow> db \<Rightarrow> bool" where
  "emitted u kinds i d d' \<longleftrightarrow>
     (\<exists>evs. d' = d\<lparr>db_outbox := db_outbox d @ evs\<rparr> \<and> map obr_eventType evs = kinds
        \<and> (\<forall>r \<in> set evs. event_row_ok u i r)
        \<and> distinct (map obr_eventId evs)
        \<and> set (map obr_eventId evs) \<inter> set (map obr_eventId (db_outbox d)) = {})"

definition persisted :: "wager \<Rightarrow> reference_schedule option \<Rightarrow> db \<Rightarrow> db \<Rightarrow> bool" where
  "persisted t' s d d' \<longleftrightarrow>
     update_transactions (\<lambda>r. txr_id r = tx_id t') (apply_update t' s) d = Inr ((), d')"

definition wallet_saved :: "wallet \<Rightarrow> db \<Rightarrow> db \<Rightarrow> bool" where
  "wallet_saved w d d' \<longleftrightarrow>
     update_wallet_balance (wal_id w) (minorUnits (wal_balance w)) (wal_version w) (wal_updatedAt w) d
       = Inr ((), d')"

text \<open>The claim of a compensation, when the posting is one.\<close>

definition claimed_for :: "bool \<Rightarrow> transaction_id \<Rightarrow> transaction_id \<Rightarrow> time \<Rightarrow> db \<Rightarrow> db \<Rightarrow> bool" where
  "claimed_for claim ref undo now d d' \<longleftrightarrow>
     (if claim then \<exists>i c. NewReversalClaim i ref undo now = Inr c
                     \<and> insert_claim (claim_to_row c) d = Inr ((), d')
      else d' = d)"

definition reference_at :: "uuid_lib \<Rightarrow> db \<Rightarrow> wager option \<Rightarrow> bool" where
  "reference_at u d ro \<longleftrightarrow> (case ro of None \<Rightarrow> True | Some ref \<Rightarrow> tx_at u d ref)"

definition reference_id :: "wager option \<Rightarrow> transaction_id" where
  "reference_id ro = (case ro of None \<Rightarrow> uuid_Nil | Some ref \<Rightarrow> tx_id ref)"

inductive settles :: "uuid_lib \<Rightarrow> db \<Rightarrow> wager \<Rightarrow> wager \<Rightarrow> db \<Rightarrow> bool" for u d t where
  settles_wait:
    "MarkPendingReference t deadline now = Inr t' \<Longrightarrow> persisted t' (Some s) d d1 \<Longrightarrow>
     emitted u [TypeWagerTransactionPendingReference] (tx_walletID t) d1 d' \<Longrightarrow>
     settles u d t t' d'"
| settles_refuse:
    "wallet_at u d (tx_walletID t) w \<Longrightarrow> MarkRejected t ref code (wal_balance w) now = Inr t' \<Longrightarrow>
     persisted t' None d d1 \<Longrightarrow>
     emitted u [TypeWagerTransactionRejected] (tx_walletID t) d1 d' \<Longrightarrow>
     settles u d t t' d'"
| settles_fail:
    "wallet_at u d (tx_walletID t) w \<Longrightarrow> MarkFailed t (wal_balance w) now = Inr t' \<Longrightarrow>
     persisted t' None d d' \<Longrightarrow> settles u d t t' d'"
| settles_loss:
    "wallet_at u d (tx_walletID t) w \<Longrightarrow> tx_kind t = KindLoss \<Longrightarrow>
     MarkProcessed t ref (wal_balance w) now = Inr t' \<Longrightarrow> persisted t' None d d1 \<Longrightarrow>
     emitted u [TypeWagerTransactionProcessed] (tx_walletID t) d1 d' \<Longrightarrow>
     settles u d t t' d'"
| settles_post:
    "wallet_at u d (tx_walletID t) w \<Longrightarrow> Kind_IsExternal (tx_kind t) \<Longrightarrow> reference_at u d ro \<Longrightarrow>
     decide t ro taken = Post dir a consumed claim \<Longrightarrow>
     (if dir = DirectionCredit then Credit w a now else Debit w a now) = Inr w' \<Longrightarrow>
     NewWalletLedgerEntry eid (wal_id w') (tx_id t) dir a (wal_balance w) (wal_balance w') now = Inr e \<Longrightarrow>
     MarkProcessed t (reference_id ro) (wal_balance w') now = Inr t' \<Longrightarrow>
     wallet_saved w' d d1 \<Longrightarrow> insert_ledger (ledger_to_row e) d1 = Inr ((), d2) \<Longrightarrow>
     claimed_for claim (reference_id ro) (tx_id t) now d2 d3 \<Longrightarrow> persisted t' None d3 d4 \<Longrightarrow>
     emitted u [TypeWagerTransactionProcessed, TypeWalletBalanceChanged] (tx_walletID t) d4 d' \<Longrightarrow>
     settles u d t t' d'"

inductive_cases settlesE: "settles u d t t' d'"

text \<open>Columns that only schedule work.\<close>

definition same_but_schedule :: "tx_row \<Rightarrow> tx_row \<Rightarrow> bool" where
  "same_but_schedule r r' \<longleftrightarrow>
     r'\<lparr>txr_nextAttemptAt := None, txr_referenceAttempts := 0, txr_claimedUntil := None,
        txr_updatedAt := 0\<rparr>
     = r\<lparr>txr_nextAttemptAt := None, txr_referenceAttempts := 0, txr_claimedUntil := None,
         txr_updatedAt := 0\<rparr>"

text \<open>What the publisher may change of an event: its schedule, and once its publication.\<close>

definition same_event :: "outbox_row \<Rightarrow> outbox_row \<Rightarrow> bool" where
  "same_event r r' \<longleftrightarrow>
     r'\<lparr>obr_publishedAt := None, obr_nextAttemptAt := 0, obr_attempts := 0, obr_claimedUntil := None\<rparr>
     = r\<lparr>obr_publishedAt := None, obr_nextAttemptAt := 0, obr_attempts := 0, obr_claimedUntil := None\<rparr>
     \<and> (obr_publishedAt r \<noteq> None \<longrightarrow> obr_publishedAt r' = obr_publishedAt r)"

lemma same_event_refl [simp]: "same_event r r"
  by (simp add: same_event_def)

lemma same_events_refl [simp]: "list_all2 same_event rs rs"
  by (rule list_all2_refl) simp

text \<open>The messages a consumer has registered.\<close>

definition message_keys :: "inbox_row list \<Rightarrow> (string \<times> string) set" where
  "message_keys rs = (\<lambda>r. (ibr_consumerName r, ibr_messageId r)) ` set rs"

inductive fin_step :: "uuid_lib \<Rightarrow> db \<Rightarrow> db \<Rightarrow> bool" for u where
  step_open_zero:
    "NewWallet i p c b now = Inr w \<Longrightarrow> bal w = 0 \<Longrightarrow>
     insert_wallet (wallet_to_row w) d = Inr ((), d') \<Longrightarrow> fin_step u d d'"
| step_open_positive:
    "NewWallet i p c b now = Inr w \<Longrightarrow> 0 < bal w \<Longrightarrow>
     insert_wallet (wallet_to_row w) d = Inr ((), d1) \<Longrightarrow>
     NewInternalOpening tid (wal_id w) (wal_playerID w) (wal_balance w) now = Inr opening \<Longrightarrow>
     MarkProcessed opening uuid_Nil (wal_balance w) now = Inr t \<Longrightarrow>
     insert_transaction (wager_to_row t) d1 = Inr ((), d2) \<Longrightarrow>
     Zero (wal_currency w) = Inr zero \<Longrightarrow>
     NewWalletLedgerEntry eid (wal_id w) (tx_id t) DirectionCredit (wal_balance w) zero
       (wal_balance w) now = Inr e \<Longrightarrow>
     insert_ledger (ledger_to_row e) d2 = Inr ((), d3) \<Longrightarrow>
     emitted u [TypeWagerTransactionProcessed, TypeWalletBalanceChanged] (wal_id w) d3 d' \<Longrightarrow>
     fin_step u d d'"
| step_submit:
    "external_params_ok p \<Longrightarrow> wallet_at u d (ep_WalletID p) w \<Longrightarrow>
     wal_currency w = currency (ep_Amount p) \<Longrightarrow>
     insert_transaction (wager_to_row (external_wager p)) d = Inr ((), d1) \<Longrightarrow>
     settles u d1 (external_wager p) t' d' \<Longrightarrow> fin_step u d d'"
| step_recover:
    "tx_at u d t \<Longrightarrow> tx_state t = StatePendingReference \<Longrightarrow> settles u d t t' d' \<Longrightarrow> fin_step u d d'"
| step_schedule:
    "\<forall>r \<in> set (db_transactions d). same_but_schedule r (f r) \<Longrightarrow>
     fin_step u d (d\<lparr>db_transactions := map f (db_transactions d)\<rparr>)"
| step_delivery:
    "list_all2 same_event (db_outbox d) ys \<Longrightarrow> message_keys (db_inbox d) \<subseteq> message_keys xs \<Longrightarrow>
     fin_step u d (d\<lparr>db_inbox := xs, db_outbox := ys\<rparr>)"

inductive fin_reach :: "uuid_lib \<Rightarrow> db \<Rightarrow> bool" for u where
  reach_empty: "fin_reach u db_empty"
| reach_more: "fin_reach u d \<Longrightarrow> fin_step u d d' \<Longrightarrow> fin_reach u d'"

section \<open>The financial invariant\<close>

text \<open>The postings of a wallet, in the order they were written, lead from one balance to another.\<close>

fun chain :: "int \<Rightarrow> ledger_row list \<Rightarrow> int \<Rightarrow> bool" where
  "chain b [] b' \<longleftrightarrow> b = b'"
| "chain b (e # es) b' \<longleftrightarrow>
     sint (lgr_balanceBefore e) = b
     \<and> sint (lgr_balanceAfter e) =
         b + (if lgr_direction e = DirectionCredit then sint (lgr_amount e) else - sint (lgr_amount e))
     \<and> chain (sint (lgr_balanceAfter e)) es b'"

definition entries_of :: "wallet_id \<Rightarrow> db \<Rightarrow> ledger_row list" where
  "entries_of i d = filter (\<lambda>e. lgr_walletId e = i) (db_ledger d)"

definition posts :: "tx_row \<Rightarrow> bool" where
  "posts r \<longleftrightarrow> txr_state r = StateProcessed \<and> txr_kind r \<noteq> KindLoss"

definition opening_ids :: "db \<Rightarrow> uuid set" where
  "opening_ids d = txr_id ` {r \<in> set (db_transactions d). txr_kind r = KindOpening}"

definition keys_inv :: "db \<Rightarrow> bool" where
  "keys_inv d \<longleftrightarrow>
     distinct (map wlr_id (db_wallets d)) \<and> distinct (map txr_id (db_transactions d))
     \<and> distinct (map lgr_transactionId (db_ledger d))
     \<and> distinct (map clr_referenceTransactionId (db_claims d))
     \<and> distinct (map clr_reversalTransactionId (db_claims d))"

definition postings_inv :: "db \<Rightarrow> bool" where
  "postings_inv d \<longleftrightarrow>
     set (map lgr_transactionId (db_ledger d)) = txr_id ` {r \<in> set (db_transactions d). posts r}
     \<and> (\<forall>e \<in> set (db_ledger d). \<forall>r \<in> set (db_transactions d). txr_id r = lgr_transactionId e \<longrightarrow>
          txr_walletId r = lgr_walletId e \<and> txr_amount r = lgr_amount e
          \<and> (txr_kind r = KindBet \<longrightarrow> lgr_direction e = DirectionDebit)
          \<and> (txr_kind r \<in> {KindOpening, KindWin, KindRefund} \<longrightarrow> lgr_direction e = DirectionCredit))
     \<and> (\<forall>e \<in> set (db_ledger d). Direction_Valid (lgr_direction e) \<and> 0 < sint (lgr_amount e))"

definition homes_inv :: "db \<Rightarrow> bool" where
  "homes_inv d \<longleftrightarrow>
     (\<forall>r \<in> set (db_transactions d). \<exists>w \<in> set (db_wallets d).
        wlr_id w = txr_walletId r \<and> wlr_currency w = txr_currency r)"

definition balance_inv :: "db \<Rightarrow> bool" where
  "balance_inv d \<longleftrightarrow>
     (\<forall>w \<in> set (db_wallets d).
        currencyPattern (wlr_currency w) \<and> 0 \<le> sint (wlr_balance w)
        \<and> chain 0 (entries_of (wlr_id w) d) (sint (wlr_balance w))
        \<and> wlr_version w = 1 + word_of_nat (length
            (filter (\<lambda>e. lgr_transactionId e \<notin> opening_ids d) (entries_of (wlr_id w) d))))"

definition reverses :: "tx_row \<Rightarrow> uuid \<Rightarrow> bool" where
  "reverses r i \<longleftrightarrow> txr_state r = StateProcessed
     \<and> (txr_kind r = KindRefund \<or> txr_kind r = KindRollback) \<and> txr_referenceTransactionId r = Some i"

text \<open>Two operations with postings on the same wallet, of the same amount and opposite directions.\<close>

definition compensated :: "db \<Rightarrow> transaction_id \<Rightarrow> transaction_id \<Rightarrow> bool" where
  "compensated d i j \<longleftrightarrow>
     (\<exists>e \<in> set (db_ledger d). \<exists>e' \<in> set (db_ledger d).
        lgr_transactionId e = i \<and> lgr_transactionId e' = j \<and> lgr_walletId e' = lgr_walletId e
        \<and> lgr_amount e' = lgr_amount e \<and> lgr_direction e' \<noteq> lgr_direction e)"

definition claims_inv :: "db \<Rightarrow> bool" where
  "claims_inv d \<longleftrightarrow>
     (\<forall>i j. (i, j) \<in> set (map (\<lambda>c. (clr_referenceTransactionId c, clr_reversalTransactionId c)) (db_claims d))
        \<longleftrightarrow> (\<exists>r \<in> set (db_transactions d). txr_id r = j \<and> reverses r i))
     \<and> (\<forall>r \<in> set (db_transactions d). txr_state r = StateProcessed
          \<and> (txr_kind r = KindRefund \<or> txr_kind r = KindRollback) \<longrightarrow> txr_referenceTransactionId r \<noteq> None)
     \<and> (\<forall>c \<in> set (db_claims d).
          compensated d (clr_referenceTransactionId c) (clr_reversalTransactionId c))"

definition fin_inv :: "db \<Rightarrow> bool" where
  "fin_inv d \<longleftrightarrow>
     keys_inv d \<and> postings_inv d \<and> homes_inv d \<and> balance_inv d \<and> claims_inv d"

lemma compensated_mono: "compensated d i j \<Longrightarrow> set (db_ledger d) \<subseteq> set (db_ledger d') \<Longrightarrow> compensated d' i j"
  unfolding compensated_def by blast

lemmas inv_defs = keys_inv_def postings_inv_def homes_inv_def balance_inv_def claims_inv_def

section \<open>Reading steps\<close>

lemma rehydrate_fields:
  assumes "uuid_lib_ok u" and "rehydrateTransaction u r = Inr t"
  shows "txr_id r = tx_id t" "txr_kind r = tx_kind t" "txr_state r = tx_state t"
    "txr_walletId r = tx_walletID t" "txr_playerId r = tx_playerID t"
    "txr_amount r = minorUnits (tx_amount t)" "txr_currency r = currency (tx_amount t)"
    "derefString (txr_referenceExternalTransactionId r) = tx_referenceExternalTransactionID t"
    "derefString (txr_externalTransactionId r) = tx_externalTransactionID t"
    "derefString (txr_idempotencyKey r) = tx_idempotencyKey t"
    "derefString (txr_digest r) = tx_digest t" "derefString (txr_digestVersion r) = tx_digestVersion t"
    "derefString (txr_providerId r) = tx_providerID t"
  using assms
  by (auto simp: rehydrateTransaction_def res_simps RehydrateTransaction_Inr_iff split: option.splits)

lemma find_Some_in: "find P xs = Some x \<Longrightarrow> x \<in> set xs \<and> P x"
  by (induction xs) (auto split: if_splits)

lemma wallet_atD:
  assumes "uuid_lib_ok u" and "wallet_at u d i w"
  shows "wallet_to_row w \<in> set (db_wallets d)" "wal_id w = i" "wallet_db_ok w"
proof -
  from assms(2) obtain r where r: "find (\<lambda>r. wlr_id r = i) (db_wallets d) = Some r"
    "rehydrateWallet u r = Inr w" by (auto simp: wallet_at_def)
  then show "wallet_to_row w \<in> set (db_wallets d)" "wallet_db_ok w" "wal_id w = i"
    using find_Some_in [OF r(1)] by (auto simp: rehydrateWallet_Inr_iff [OF assms(1)] wallet_to_row_def)
qed

lemma emitted_fin: "emitted u ks i d d' \<Longrightarrow> \<exists>x. d' = d\<lparr>db_outbox := x\<rparr>"
  by (auto simp: emitted_def)

lemma fin_inv_outbox [simp]: "fin_inv (d\<lparr>db_outbox := x\<rparr>) = fin_inv d"
  by (simp add: fin_inv_def inv_defs entries_of_def opening_ids_def compensated_def)

lemma fin_inv_inbox [simp]: "fin_inv (d\<lparr>db_inbox := x\<rparr>) = fin_inv d"
  by (simp add: fin_inv_def inv_defs entries_of_def opening_ids_def compensated_def)

text \<open>Columns that no update of a transaction touches.\<close>

definition same_core :: "tx_row \<Rightarrow> tx_row \<Rightarrow> bool" where
  "same_core r r' \<longleftrightarrow> txr_id r' = txr_id r \<and> txr_kind r' = txr_kind r \<and> txr_walletId r' = txr_walletId r
     \<and> txr_amount r' = txr_amount r \<and> txr_currency r' = txr_currency r"

lemma same_core_update [simp]: "same_core r (apply_update t s r)"
  by (simp add: same_core_def apply_update_def)

lemma same_core_refl [simp]: "same_core r r"
  by (simp add: same_core_def)

text \<open>An update of transactions that neither makes nor unmakes a posting.\<close>

definition quiet :: "tx_row \<Rightarrow> tx_row \<Rightarrow> bool" where
  "quiet r r' \<longleftrightarrow> same_core r r' \<and> (posts r' \<longleftrightarrow> posts r)
     \<and> (posts r \<longrightarrow> txr_referenceTransactionId r' = txr_referenceTransactionId r)"

lemma quiet_reverses: "quiet r r' \<Longrightarrow> reverses r' i \<longleftrightarrow> reverses r i"
  by (auto simp: quiet_def same_core_def reverses_def posts_def)

lemma opening_ids_map:
  "\<forall>r \<in> set (db_transactions d). same_core r (f r) \<Longrightarrow>
     opening_ids (d\<lparr>db_transactions := map f (db_transactions d)\<rparr>) = opening_ids d"
  by (auto simp: opening_ids_def same_core_def image_iff) force+

lemma posts_ids_quiet:
  assumes "\<forall>r \<in> set rs. quiet r (f r)"
  shows "txr_id ` {r \<in> set (map f rs). posts r} = txr_id ` {r \<in> set rs. posts r}"
proof -
  have "{r \<in> set (map f rs). posts r} = f ` {r \<in> set rs. posts r}"
    using assms by (auto simp: quiet_def)
  then show ?thesis using assms by (force simp: quiet_def same_core_def image_iff)
qed

lemma fin_inv_quiet:
  assumes inv: "fin_inv d" and q: "\<forall>r \<in> set (db_transactions d). quiet r (f r)"
  shows "fin_inv (d\<lparr>db_transactions := map f (db_transactions d)\<rparr>)"
proof -
  let ?d = "d\<lparr>db_transactions := map f (db_transactions d)\<rparr>"
  have c: "\<forall>r \<in> set (db_transactions d). same_core r (f r)" using q by (simp add: quiet_def)
  have "map (txr_id \<circ> f) (db_transactions d) = map txr_id (db_transactions d)"
    using c by (simp add: same_core_def)
  moreover have "distinct (map txr_id (db_transactions d))"
    using inv by (simp add: fin_inv_def keys_inv_def)
  ultimately have "distinct (map (txr_id \<circ> f) (db_transactions d))" by metis
  then have "keys_inv ?d" using inv by (simp add: fin_inv_def keys_inv_def)
  moreover have "postings_inv ?d"
    using inv posts_ids_quiet [OF q] c by (auto simp: fin_inv_def postings_inv_def same_core_def)
  moreover have "homes_inv ?d"
    using inv c by (auto simp: fin_inv_def homes_inv_def same_core_def)
  moreover have "balance_inv ?d"
    using inv opening_ids_map [OF c] by (simp add: fin_inv_def balance_inv_def entries_of_def)
  moreover have "claims_inv ?d"
  proof -
    have "reverses (f r) i \<longleftrightarrow> reverses r i" if "r \<in> set (db_transactions d)" for r i
      using q that quiet_reverses by blast
    then have rv: "(\<exists>r \<in> set (map f (db_transactions d)). txr_id r = j \<and> reverses r i)
        \<longleftrightarrow> (\<exists>r \<in> set (db_transactions d). txr_id r = j \<and> reverses r i)" for i j
      using c by (simp add: same_core_def cong: bex_cong conj_cong)
    have "\<forall>r \<in> set (map f (db_transactions d)). txr_state r = StateProcessed
          \<and> (txr_kind r = KindRefund \<or> txr_kind r = KindRollback) \<longrightarrow> txr_referenceTransactionId r \<noteq> None"
    proof (intro ballI impI)
      fix r assume r: "r \<in> set (map f (db_transactions d))"
        "txr_state r = StateProcessed \<and> (txr_kind r = KindRefund \<or> txr_kind r = KindRollback)"
      then obtain r0 where r0: "r0 \<in> set (db_transactions d)" "r = f r0" by auto
      with r(2) have "posts r" by (auto simp: posts_def)
      with r0 q have "posts r0" "txr_referenceTransactionId r = txr_referenceTransactionId r0"
        "txr_kind r0 = txr_kind r"
        by (auto simp: quiet_def same_core_def)
      then show "txr_referenceTransactionId r \<noteq> None"
        using inv r0(1) r(2) by (auto simp: fin_inv_def claims_inv_def posts_def)
    qed
    then show ?thesis
      using inv rv by (simp add: fin_inv_def claims_inv_def compensated_def)
  qed
  ultimately show ?thesis by (simp add: fin_inv_def)
qed

lemma same_but_schedule_quiet: "same_but_schedule r r' \<Longrightarrow> quiet r r'"
  by (cases r; cases r') (simp add: same_but_schedule_def quiet_def same_core_def posts_def)

lemma persisted_eq:
  "persisted t' s d d' \<Longrightarrow>
     d' = d\<lparr>db_transactions := map (\<lambda>r. if txr_id r = tx_id t' then apply_update t' s r else r)
            (db_transactions d)\<rparr>"
  unfolding persisted_def by (drule update_transactions_Inr) simp

lemma distinct_map_eq: "distinct (map f xs) \<Longrightarrow> x \<in> set xs \<Longrightarrow> y \<in> set xs \<Longrightarrow> f x = f y \<Longrightarrow> x = y"
  by (metis distinct_map inj_onD)

lemma tx_at_row:
  assumes "uuid_lib_ok u" and "fin_inv d" and "tx_at u d t" and "r \<in> set (db_transactions d)"
    and "txr_id r = tx_id t"
  shows "txr_state r = tx_state t" "txr_kind r = tx_kind t" "txr_walletId r = tx_walletID t"
    "txr_amount r = minorUnits (tx_amount t)" "txr_currency r = currency (tx_amount t)"
proof -
  from assms(3) obtain r0 where r0: "r0 \<in> set (db_transactions d)" "rehydrateTransaction u r0 = Inr t"
    by (auto simp: tx_at_def)
  note f = rehydrate_fields [OF assms(1) r0(2)]
  have "r = r0"
    using assms(2,4,5) r0(1) f(1) distinct_map_eq [of txr_id "db_transactions d" r r0]
    by (simp add: fin_inv_def keys_inv_def)
  then show "txr_state r = tx_state t" "txr_kind r = tx_kind t" "txr_walletId r = tx_walletID t"
    "txr_amount r = minorUnits (tx_amount t)" "txr_currency r = currency (tx_amount t)"
    using f by simp_all
qed

text \<open>Persisting an outcome that posts nothing.\<close>

lemma persisted_quiet:
  assumes u: "uuid_lib_ok u" and inv: "fin_inv d" and t: "tx_at u d t"
    and p: "persisted t' s d d'" and i: "tx_id t' = tx_id t"
    and st: "tx_state t \<noteq> StateProcessed"
    and np: "tx_state t' = StateProcessed \<Longrightarrow> tx_kind t = KindLoss"
  shows "fin_inv d'"
proof -
  have "quiet r (if txr_id r = tx_id t' then apply_update t' s r else r)"
    if r: "r \<in> set (db_transactions d)" for r
    using tx_at_row [OF u inv t r] i st np
    by (auto simp: quiet_def posts_def, auto simp: apply_update_def)
  then show ?thesis using fin_inv_quiet [OF inv] persisted_eq [OF p] by simp
qed

section \<open>Posting a movement\<close>

lemma chain_append: "chain b (es @ [e]) b' \<longleftrightarrow> (\<exists>m. chain b es m \<and> chain m [e] b')"
  by (induction es arbitrary: b) auto

text \<open>The effect of a posting on the rows, with everything the invariant needs to know of it.\<close>

definition posting ::
  "db \<Rightarrow> tx_row \<Rightarrow> tx_row \<Rightarrow> wallet_row \<Rightarrow> wallet_row \<Rightarrow> ledger_row \<Rightarrow> claim_row list \<Rightarrow> db \<Rightarrow> bool" where
  "posting d r0 r1 w0 w1 e cs d' \<longleftrightarrow>
     r0 \<in> set (db_transactions d) \<and> \<not> posts r0 \<and> same_core r0 r1 \<and> posts r1
     \<and> txr_kind r0 \<noteq> KindOpening
     \<and> w0 \<in> set (db_wallets d) \<and> wlr_id w0 = txr_walletId r0 \<and> wlr_id w1 = wlr_id w0
     \<and> wlr_currency w1 = wlr_currency w0 \<and> wlr_version w1 = wlr_version w0 + 1
     \<and> lgr_walletId e = wlr_id w0 \<and> lgr_transactionId e = txr_id r0 \<and> lgr_amount e = txr_amount r0
     \<and> Direction_Valid (lgr_direction e) \<and> 0 < sint (lgr_amount e)
     \<and> lgr_balanceBefore e = wlr_balance w0 \<and> lgr_balanceAfter e = wlr_balance w1
     \<and> 0 \<le> sint (wlr_balance w1)
     \<and> sint (wlr_balance w1) = sint (wlr_balance w0)
         + (if lgr_direction e = DirectionCredit then sint (lgr_amount e) else - sint (lgr_amount e))
     \<and> (txr_kind r0 = KindBet \<longrightarrow> lgr_direction e = DirectionDebit)
     \<and> (txr_kind r0 \<in> {KindWin, KindRefund} \<longrightarrow> lgr_direction e = DirectionCredit)
     \<and> (if txr_kind r0 = KindRefund \<or> txr_kind r0 = KindRollback then
          \<exists>c. cs = [c] \<and> clr_reversalTransactionId c = txr_id r0
            \<and> txr_referenceTransactionId r1 = Some (clr_referenceTransactionId c)
            \<and> clr_referenceTransactionId c \<notin> set (map clr_referenceTransactionId (db_claims d))
            \<and> (\<exists>e0 \<in> set (db_ledger d). lgr_transactionId e0 = clr_referenceTransactionId c
                 \<and> lgr_walletId e0 = lgr_walletId e \<and> lgr_amount e0 = lgr_amount e
                 \<and> lgr_direction e0 \<noteq> lgr_direction e)
        else cs = [])
     \<and> d' = d\<lparr>db_wallets := map (\<lambda>w. if wlr_id w = wlr_id w0 then w1 else w) (db_wallets d),
              db_transactions := map (\<lambda>r. if txr_id r = txr_id r0 then r1 else r) (db_transactions d),
              db_ledger := db_ledger d @ [e], db_claims := db_claims d @ cs\<rparr>"

lemma posting_ids:
  assumes "fin_inv d" and "posting d r0 r1 w0 w1 e cs d'"
  shows "r \<in> set (db_transactions d) \<Longrightarrow> txr_id r = txr_id r0 \<Longrightarrow> r = r0"
    and "w \<in> set (db_wallets d) \<Longrightarrow> wlr_id w = wlr_id w0 \<Longrightarrow> w = w0"
    and "txr_id r0 \<notin> set (map lgr_transactionId (db_ledger d))"
    and "txr_id r0 \<notin> set (map clr_reversalTransactionId (db_claims d))"
proof -
  have k: "distinct (map txr_id (db_transactions d))" "distinct (map wlr_id (db_wallets d))"
    "r0 \<in> set (db_transactions d)" "w0 \<in> set (db_wallets d)" "\<not> posts r0"
    using assms by (auto simp: fin_inv_def keys_inv_def posting_def)
  show r: "r = r0" if "r \<in> set (db_transactions d)" "txr_id r = txr_id r0" for r
    using distinct_map_eq [OF k(1) that(1) k(3) that(2)] .
  show "w \<in> set (db_wallets d) \<Longrightarrow> wlr_id w = wlr_id w0 \<Longrightarrow> w = w0"
    using distinct_map_eq [OF k(2) _ k(4)] .
  have p: "set (map lgr_transactionId (db_ledger d)) = txr_id ` {r \<in> set (db_transactions d). posts r}"
    using assms(1) by (simp add: fin_inv_def postings_inv_def)
  show "txr_id r0 \<notin> set (map lgr_transactionId (db_ledger d))"
    unfolding p using r k(5) by force
  show "txr_id r0 \<notin> set (map clr_reversalTransactionId (db_claims d))"
  proof
    assume "txr_id r0 \<in> set (map clr_reversalTransactionId (db_claims d))"
    then obtain c where c: "c \<in> set (db_claims d)" "clr_reversalTransactionId c = txr_id r0" by auto
    then have "(clr_referenceTransactionId c, txr_id r0)
        \<in> set (map (\<lambda>c. (clr_referenceTransactionId c, clr_reversalTransactionId c)) (db_claims d))"
      by force
    then obtain r' where "r' \<in> set (db_transactions d)" "txr_id r' = txr_id r0"
        "reverses r' (clr_referenceTransactionId c)"
      using assms(1) unfolding fin_inv_def claims_inv_def by blast
    then have "reverses r0 (clr_referenceTransactionId c)" using r by blast
    then show False using k(5) by (auto simp: reverses_def posts_def)
  qed
qed

lemma posting_fresh:
  assumes "fin_inv d" and "posting d r0 r1 w0 w1 e cs d'"
  shows "x \<in> set (db_ledger d) \<Longrightarrow> lgr_transactionId x \<noteq> txr_id r0"
    and "c \<in> set (db_claims d) \<Longrightarrow> clr_reversalTransactionId c \<noteq> txr_id r0"
  using posting_ids(3,4) [OF assms] by force+

lemma posting_parts:
  assumes "posting d r0 r1 w0 w1 e cs d'"
  shows "db_wallets d' = map (\<lambda>w. if wlr_id w = wlr_id w0 then w1 else w) (db_wallets d)"
    "db_transactions d' = map (\<lambda>r. if txr_id r = txr_id r0 then r1 else r) (db_transactions d)"
    "db_ledger d' = db_ledger d @ [e]" "db_claims d' = db_claims d @ cs"
  using assms by (simp_all add: posting_def)

lemma posting_tx:
  assumes "fin_inv d" and "posting d r0 r1 w0 w1 e cs d'"
  shows "r \<in> set (db_transactions d') \<longleftrightarrow> r = r1 \<or> (r \<in> set (db_transactions d) \<and> r \<noteq> r0)"
proof -
  have r0: "r0 \<in> set (db_transactions d)" using assms(2) by (simp add: posting_def)
  show ?thesis
    unfolding posting_parts(2) [OF assms(2)] using r0 posting_ids(1) [OF assms]
    by (auto simp: image_iff)
qed

lemma posting_keys:
  assumes "fin_inv d" and p: "posting d r0 r1 w0 w1 e cs d'"
  shows "keys_inv d'"
proof -
  note pp = posting_parts [OF p]
  have k: "keys_inv d" using assms(1) by (simp add: fin_inv_def)
  have "map wlr_id (db_wallets d') = map wlr_id (db_wallets d)"
    unfolding pp(1) using p by (simp add: posting_def)
  moreover have "map txr_id (db_transactions d') = map txr_id (db_transactions d)"
    unfolding pp(2) using p by (simp add: posting_def same_core_def)
  moreover have "distinct (map lgr_transactionId (db_ledger d'))"
    using k posting_ids(3) [OF assms] p by (simp add: pp(3) keys_inv_def posting_def)
  moreover have "cs = [] \<or> (\<exists>c. cs = [c]
      \<and> clr_referenceTransactionId c \<notin> set (map clr_referenceTransactionId (db_claims d))
      \<and> clr_reversalTransactionId c \<notin> set (map clr_reversalTransactionId (db_claims d)))"
    using p posting_ids(4) [OF assms] by (simp add: posting_def split: if_splits) force+
  then have "distinct (map clr_referenceTransactionId (db_claims d'))
      \<and> distinct (map clr_reversalTransactionId (db_claims d'))"
    using k by (elim disjE exE) (simp_all add: pp(4) keys_inv_def)
  ultimately show ?thesis using k by (simp add: keys_inv_def del: distinct_map)
qed

lemma posting_postings:
  assumes "fin_inv d" and p: "posting d r0 r1 w0 w1 e cs d'"
  shows "postings_inv d'"
proof -
  note pp = posting_parts [OF p]
  have inv: "postings_inv d" using assms(1) by (simp add: fin_inv_def)
  have h: "\<not> posts r0" "posts r1" "txr_id r1 = txr_id r0" "txr_kind r1 = txr_kind r0"
    "txr_walletId r1 = txr_walletId r0" "txr_amount r1 = txr_amount r0"
    "lgr_transactionId e = txr_id r0" "lgr_walletId e = txr_walletId r0" "lgr_amount e = txr_amount r0"
    "r0 \<in> set (db_transactions d)" "txr_kind r0 \<noteq> KindOpening"
    "txr_kind r0 = KindBet \<longrightarrow> lgr_direction e = DirectionDebit"
    "txr_kind r0 \<in> {KindWin, KindRefund} \<longrightarrow> lgr_direction e = DirectionCredit"
    "Direction_Valid (lgr_direction e)" "0 < sint (lgr_amount e)"
    using p by (auto simp: posting_def same_core_def)
  have "{r \<in> set (db_transactions d'). posts r} = insert r1 {r \<in> set (db_transactions d). posts r}"
    using posting_tx [OF assms] h(1,2) by auto
  then have ids: "set (map lgr_transactionId (db_ledger d'))
      = txr_id ` {r \<in> set (db_transactions d'). posts r}"
    using inv h(3,7) by (simp add: pp(3) postings_inv_def)
  have match: "txr_walletId r = lgr_walletId x \<and> txr_amount r = lgr_amount x
          \<and> (txr_kind r = KindBet \<longrightarrow> lgr_direction x = DirectionDebit)
          \<and> (txr_kind r \<in> {KindOpening, KindWin, KindRefund} \<longrightarrow> lgr_direction x = DirectionCredit)"
    if x: "x \<in> set (db_ledger d')" and r: "r \<in> set (db_transactions d')"
      and eq: "txr_id r = lgr_transactionId x" for x r
  proof -
    have old: "x \<in> set (db_ledger d) \<Longrightarrow> lgr_transactionId x \<noteq> txr_id r0"
      using posting_fresh(1) [OF assms] .
    consider "r = r1" | "r \<in> set (db_transactions d)" "r \<noteq> r0" using r posting_tx [OF assms] by auto
    then show ?thesis
    proof cases
      case 1
      then have "x = e" using x eq old h(3) by (auto simp: pp(3))
      then show ?thesis using 1 h by auto
    next
      case 2
      then have "txr_id r \<noteq> txr_id r0" using posting_ids(1) [OF assms] by auto
      then have "x \<in> set (db_ledger d)" using x eq h(7) by (auto simp: pp(3))
      then show ?thesis using inv 2 eq by (simp add: postings_inv_def)
    qed
  qed
  have "\<forall>x \<in> set (db_ledger d'). Direction_Valid (lgr_direction x) \<and> 0 < sint (lgr_amount x)"
    using inv h(14,15) by (auto simp: pp(3) postings_inv_def)
  then show ?thesis unfolding postings_inv_def using ids match by blast
qed

lemma posting_homes:
  assumes "fin_inv d" and p: "posting d r0 r1 w0 w1 e cs d'"
  shows "homes_inv d'"
proof -
  have h: "wlr_id w1 = wlr_id w0" "wlr_currency w1 = wlr_currency w0" "w0 \<in> set (db_wallets d)"
    "r0 \<in> set (db_transactions d)" "txr_walletId r1 = txr_walletId r0" "txr_currency r1 = txr_currency r0"
    using p by (auto simp: posting_def same_core_def)
  have w: "\<exists>x \<in> set (db_wallets d'). wlr_id x = wlr_id y \<and> wlr_currency x = wlr_currency y"
    if "y \<in> set (db_wallets d)" for y
    using that h(1,2) posting_ids(2) [OF assms that]
    by (auto simp: posting_parts(1) [OF p] image_iff)
  show ?thesis
    unfolding homes_inv_def
  proof
    fix r assume "r \<in> set (db_transactions d')"
    then consider "r = r1" | "r \<in> set (db_transactions d)" using posting_tx [OF assms] by auto
    then obtain r' where "r' \<in> set (db_transactions d)" "txr_walletId r' = txr_walletId r"
        "txr_currency r' = txr_currency r" using h(4,5,6) by cases auto
    then obtain y where "y \<in> set (db_wallets d)" "wlr_id y = txr_walletId r" "wlr_currency y = txr_currency r"
      using assms(1) by (auto simp: fin_inv_def homes_inv_def)
    with w show "\<exists>w \<in> set (db_wallets d'). wlr_id w = txr_walletId r \<and> wlr_currency w = txr_currency r"
      by metis
  qed
qed

lemma posting_openings:
  assumes "fin_inv d" and p: "posting d r0 r1 w0 w1 e cs d'"
  shows "opening_ids d' = opening_ids d" "txr_id r0 \<notin> opening_ids d"
proof -
  have h: "txr_kind r0 \<noteq> KindOpening" "txr_kind r1 = txr_kind r0"
    using p by (auto simp: posting_def same_core_def)
  then show "opening_ids d' = opening_ids d"
    using posting_tx [OF assms] by (auto simp: opening_ids_def)
  show "txr_id r0 \<notin> opening_ids d"
    using h posting_ids(1) [OF assms] by (force simp: opening_ids_def)
qed

lemma posting_balances:
  assumes "fin_inv d" and p: "posting d r0 r1 w0 w1 e cs d'"
  shows "balance_inv d'"
proof -
  note pp = posting_parts [OF p]
  let ?free = "\<lambda>x. lgr_transactionId x \<notin> opening_ids d"
  have inv: "currencyPattern (wlr_currency w) \<and> 0 \<le> sint (wlr_balance w)
        \<and> chain 0 (entries_of (wlr_id w) d) (sint (wlr_balance w))
        \<and> wlr_version w = 1 + word_of_nat (length (filter ?free (entries_of (wlr_id w) d)))"
    if "w \<in> set (db_wallets d)" for w
    using assms(1) that by (simp add: fin_inv_def balance_inv_def)
  have h: "wlr_id w1 = wlr_id w0" "wlr_currency w1 = wlr_currency w0" "w0 \<in> set (db_wallets d)"
    "wlr_version w1 = wlr_version w0 + 1" "lgr_walletId e = wlr_id w0"
    "lgr_balanceBefore e = wlr_balance w0" "lgr_balanceAfter e = wlr_balance w1"
    "0 \<le> sint (wlr_balance w1)" "lgr_transactionId e = txr_id r0"
    "sint (wlr_balance w1) = sint (wlr_balance w0)
         + (if lgr_direction e = DirectionCredit then sint (lgr_amount e) else - sint (lgr_amount e))"
    using p by (auto simp: posting_def)
  have ent: "entries_of i d' = entries_of i d @ (if i = wlr_id w0 then [e] else [])" for i
    using h(5) by (auto simp: entries_of_def pp(3))
  have o': "opening_ids d' = opening_ids d" "?free e"
    using posting_openings [OF assms] h(9) by auto
  show ?thesis
    unfolding balance_inv_def o'(1)
  proof
    fix w assume "w \<in> set (db_wallets d')"
    then consider "w = w1" | "w \<in> set (db_wallets d)" "wlr_id w \<noteq> wlr_id w0"
      by (auto simp: pp(1) split: if_splits)
    then show "currencyPattern (wlr_currency w) \<and> 0 \<le> sint (wlr_balance w)
        \<and> chain 0 (entries_of (wlr_id w) d') (sint (wlr_balance w))
        \<and> wlr_version w = 1 + word_of_nat (length (filter ?free (entries_of (wlr_id w) d')))"
    proof cases
      case 1
      then show ?thesis
        using inv [OF h(3)] h o'(2) by (auto simp: ent chain_append)
    next
      case 2
      then show ?thesis using inv [OF 2(1)] by (simp add: ent)
    qed
  qed
qed

lemma posting_claims:
  assumes "fin_inv d" and p: "posting d r0 r1 w0 w1 e cs d'"
  shows "claims_inv d'"
proof -
  note pp = posting_parts [OF p]
  let ?rev = "\<lambda>r. txr_kind r = KindRefund \<or> txr_kind r = KindRollback"
  let ?pairs = "\<lambda>d. set (map (\<lambda>c. (clr_referenceTransactionId c, clr_reversalTransactionId c)) (db_claims d))"
  have inv: "claims_inv d" using assms(1) by (simp add: fin_inv_def)
  have h: "\<not> posts r0" "posts r1" "txr_id r1 = txr_id r0" "txr_kind r1 = txr_kind r0"
    "lgr_transactionId e = txr_id r0"
    using p by (auto simp: posting_def same_core_def)
  have c1: "?rev r0 \<Longrightarrow> \<exists>c. cs = [c] \<and> clr_reversalTransactionId c = txr_id r0
            \<and> txr_referenceTransactionId r1 = Some (clr_referenceTransactionId c)
            \<and> (\<exists>e0 \<in> set (db_ledger d). lgr_transactionId e0 = clr_referenceTransactionId c
                 \<and> lgr_walletId e0 = lgr_walletId e \<and> lgr_amount e0 = lgr_amount e
                 \<and> lgr_direction e0 \<noteq> lgr_direction e)"
    and c2: "\<not> ?rev r0 \<Longrightarrow> cs = []"
    using p by (auto simp: posting_def split: if_splits)
  have n0: "\<not> reverses r0 i" for i using h(1) by (auto simp: reverses_def posts_def)
  have ex: "(\<exists>r \<in> set (db_transactions d'). txr_id r = j \<and> reverses r i) \<longleftrightarrow>
      (txr_id r0 = j \<and> reverses r1 i) \<or> (\<exists>r \<in> set (db_transactions d). txr_id r = j \<and> reverses r i)" for i j
    using posting_tx [OF assms] n0 h(3) by auto
  have new: "(i, j) \<in> set (map (\<lambda>c. (clr_referenceTransactionId c, clr_reversalTransactionId c)) cs)
      \<longleftrightarrow> txr_id r0 = j \<and> reverses r1 i" for i j
    using c1 c2 h(2,4) by (cases "?rev r0") (auto simp: reverses_def posts_def)
  have "(i, j) \<in> ?pairs d' \<longleftrightarrow> (\<exists>r \<in> set (db_transactions d'). txr_id r = j \<and> reverses r i)" for i j
    using inv new [of i j] unfolding ex claims_inv_def pp(4) map_append set_append by blast
  moreover have "txr_referenceTransactionId r \<noteq> None"
    if "r \<in> set (db_transactions d')" "txr_state r = StateProcessed \<and> ?rev r" for r
    using that posting_tx [OF assms, of r] inv c1 h(4) by (auto simp: claims_inv_def)
  moreover have "compensated d' (clr_referenceTransactionId c) (clr_reversalTransactionId c)"
    if c: "c \<in> set (db_claims d')" for c
  proof (cases "c \<in> set (db_claims d)")
    case True
    then have "compensated d (clr_referenceTransactionId c) (clr_reversalTransactionId c)"
      using inv by (simp add: claims_inv_def)
    then show ?thesis by (rule compensated_mono) (auto simp: pp(3))
  next
    case False
    then have "c \<in> set cs" using c by (simp add: pp(4))
    then have "?rev r0" using c2 by (cases "?rev r0") auto
    from c1 [OF this] \<open>c \<in> set cs\<close> obtain e0 where "clr_reversalTransactionId c = txr_id r0"
        "e0 \<in> set (db_ledger d)" "lgr_transactionId e0 = clr_referenceTransactionId c"
        "lgr_walletId e0 = lgr_walletId e" "lgr_amount e0 = lgr_amount e"
        "lgr_direction e0 \<noteq> lgr_direction e" by auto
    then show ?thesis using h(5) unfolding compensated_def pp(3)
      by (intro bexI [of _ e0] bexI [of _ e]) auto
  qed
  ultimately show ?thesis unfolding claims_inv_def by blast
qed

lemma fin_inv_posting:
  "fin_inv d \<Longrightarrow> posting d r0 r1 w0 w1 e cs d' \<Longrightarrow> fin_inv d'"
  unfolding fin_inv_def [of d']
  by (intro conjI posting_keys posting_postings posting_homes posting_balances posting_claims)

section \<open>Steps preserve the invariant\<close>

lemma decide_Post:
  assumes "Kind_IsExternal (tx_kind t)" and "decide t ro taken = Post dir a consumed claim"
  shows "a = tx_amount t" "tx_kind t = KindBet \<Longrightarrow> dir = DirectionDebit"
    "tx_kind t = KindWin \<or> tx_kind t = KindRefund \<Longrightarrow> dir = DirectionCredit"
    "claim \<longleftrightarrow> tx_kind t = KindRefund \<or> tx_kind t = KindRollback"
    "dir = DirectionCredit \<or> dir = DirectionDebit" "tx_kind t \<noteq> KindLoss"
    "claim \<Longrightarrow> \<exists>ref. ro = Some ref \<and> tx_state ref = StateProcessed
       \<and> reversible (tx_kind t) (tx_kind ref) \<and> same_identity t ref
       \<and> amt (tx_amount t) = amt (tx_amount ref) \<and> dir = undo_direction (tx_kind ref)"
proof -
  consider "tx_kind t = KindLoss" | "tx_kind t = KindBet" | "tx_kind t = KindWin"
    | (rev) "tx_kind t = KindRefund \<or> tx_kind t = KindRollback"
    using assms(1) by (auto simp: Kind_IsExternal_def)
  then have "a = tx_amount t \<and> (tx_kind t = KindBet \<longrightarrow> dir = DirectionDebit)
      \<and> (tx_kind t = KindWin \<or> tx_kind t = KindRefund \<longrightarrow> dir = DirectionCredit)
      \<and> (claim \<longleftrightarrow> tx_kind t = KindRefund \<or> tx_kind t = KindRollback)
      \<and> (dir = DirectionCredit \<or> dir = DirectionDebit) \<and> tx_kind t \<noteq> KindLoss
      \<and> (claim \<longrightarrow> (\<exists>ref. ro = Some ref \<and> tx_state ref = StateProcessed
       \<and> reversible (tx_kind t) (tx_kind ref) \<and> same_identity t ref
       \<and> amt (tx_amount t) = amt (tx_amount ref) \<and> dir = undo_direction (tx_kind ref)))"
  proof cases
    case rev
    then obtain ref where ro: "ro = Some ref"
      using assms(2) by (cases ro) (auto simp: decide_def split: if_splits)
    have d: "reversible (tx_kind t) (tx_kind ref)" "same_identity t ref"
      "amt (tx_amount t) = amt (tx_amount ref)"
      "by_state ref (reversal_decision ref taken) = Post dir a consumed claim"
      using assms(2) unfolding ro decide_reversal [OF rev] by (auto split: if_splits)
    then have p: "tx_state ref = StateProcessed" "claim" "dir = undo_direction (tx_kind ref)"
      "a = tx_amount ref"
      by (auto simp: by_state_def reversal_decision_def split: if_splits)
    moreover have "tx_amount ref = tx_amount t"
      using d(2,3) by (intro money_eq_of_amt) (simp_all add: same_identity_def)
    moreover have "tx_kind t = KindRefund \<longrightarrow> dir = DirectionCredit"
      using d(1) p(3) by (auto simp: undo_direction_def)
    ultimately show ?thesis using rev d(1,2,3) ro by (auto simp: undo_direction_def)
  qed (use assms(2) in \<open>auto simp: decide_def by_state_def split: option.splits if_splits\<close>)
  then show "a = tx_amount t" "tx_kind t = KindBet \<Longrightarrow> dir = DirectionDebit"
    "tx_kind t = KindWin \<or> tx_kind t = KindRefund \<Longrightarrow> dir = DirectionCredit"
    "claim \<longleftrightarrow> tx_kind t = KindRefund \<or> tx_kind t = KindRollback"
    "dir = DirectionCredit \<or> dir = DirectionDebit" "tx_kind t \<noteq> KindLoss"
    "claim \<Longrightarrow> \<exists>ref. ro = Some ref \<and> tx_state ref = StateProcessed
       \<and> reversible (tx_kind t) (tx_kind ref) \<and> same_identity t ref
       \<and> amt (tx_amount t) = amt (tx_amount ref) \<and> dir = undo_direction (tx_kind ref)"
    by blast+
qed

text \<open>The posting of a processed reference.\<close>

lemma processed_entry:
  assumes u: "uuid_lib_ok u" and inv: "fin_inv d" and ref: "tx_at u d ref"
    and st: "tx_state ref = StateProcessed" and k: "tx_kind ref \<noteq> KindLoss"
  shows "\<exists>e \<in> set (db_ledger d). lgr_transactionId e = tx_id ref \<and> lgr_walletId e = tx_walletID ref
     \<and> lgr_amount e = minorUnits (tx_amount ref)
     \<and> (tx_kind ref = KindBet \<longrightarrow> lgr_direction e = DirectionDebit)
     \<and> (tx_kind ref \<in> {KindOpening, KindWin, KindRefund} \<longrightarrow> lgr_direction e = DirectionCredit)"
proof -
  from ref obtain r where r: "r \<in> set (db_transactions d)" "rehydrateTransaction u r = Inr ref"
    by (auto simp: tx_at_def)
  note f = rehydrate_fields [OF u r(2)]
  have "posts r" using st k f by (simp add: posts_def)
  then have "txr_id r \<in> txr_id ` {r \<in> set (db_transactions d). posts r}"
    using r(1) by (intro imageI) simp
  then have "tx_id ref \<in> set (map lgr_transactionId (db_ledger d))"
    using inv f(1) by (simp add: fin_inv_def postings_inv_def)
  then obtain e where e: "e \<in> set (db_ledger d)" "lgr_transactionId e = tx_id ref" by auto
  then have "txr_walletId r = lgr_walletId e \<and> txr_amount r = lgr_amount e
          \<and> (txr_kind r = KindBet \<longrightarrow> lgr_direction e = DirectionDebit)
          \<and> (txr_kind r \<in> {KindOpening, KindWin, KindRefund} \<longrightarrow> lgr_direction e = DirectionCredit)"
    using inv r(1) f(1) by (simp add: fin_inv_def postings_inv_def)
  then show ?thesis using e f by (intro bexI [of _ e]) auto
qed

lemma moved_of_direction:
  assumes "wallet_ok w" and "dir = DirectionCredit \<or> dir = DirectionDebit"
    and "(if dir = DirectionCredit then Credit w a now else Debit w a now) = Inr w'"
  shows "wal_id w' = wal_id w" "wal_currency w' = wal_currency w"
    "wal_version w' = wal_version w + 1" "wal_updatedAt w' = now" "0 < amt a" "0 \<le> bal w'"
    "bal w' = bal w + (if dir = DirectionCredit then amt a else - amt a)"
  using assms credit.move_keeps [of w a now w'] debit.move_keeps [of w a now w']
    credit.move_amount [of w a now w'] debit.move_amount [of w a now w']
    credit.move_nonneg [of w a now w'] debit.move_nonneg [of w a now w']
    credit.move_balance [of w a now w'] debit.move_balance [of w a now w']
  by (auto split: if_splits)

lemma map_at_key:
  assumes "distinct (map key xs)" and "x \<in> set xs"
  shows "map (\<lambda>y. if key y = key x then f y else y) xs = map (\<lambda>y. if key y = key x then f x else y) xs"
  using distinct_map_eq [OF assms(1) _ assms(2)] by (auto intro!: map_cong)

lemma settles_post_inv:
  assumes u: "uuid_lib_ok u" and inv: "fin_inv d" and t: "tx_at u d t"
    and w: "wallet_at u d (tx_walletID t) w" and k: "Kind_IsExternal (tx_kind t)"
    and ro: "reference_at u d ro" and dec: "decide t ro taken = Post dir a consumed claim"
    and mv: "(if dir = DirectionCredit then Credit w a now else Debit w a now) = Inr w'"
    and e: "NewWalletLedgerEntry eid (wal_id w') (tx_id t) dir a (wal_balance w) (wal_balance w') now = Inr e"
    and pr: "MarkProcessed t (reference_id ro) (wal_balance w') now = Inr t'"
    and s: "wallet_saved w' d d1" and l: "insert_ledger (ledger_to_row e) d1 = Inr ((), d2)"
    and c: "claimed_for claim (reference_id ro) (tx_id t) now d2 d3" and p: "persisted t' None d3 d4"
  shows "fin_inv d4"
proof -
  from t obtain r0 where r0: "r0 \<in> set (db_transactions d)" "rehydrateTransaction u r0 = Inr t"
    by (auto simp: tx_at_def)
  note f = rehydrate_fields [OF u r0(2)]
  note W = wallet_atD [OF u w]
  have wok: "wallet_ok w" using W(3) by (simp add: wallet_db_ok_def)
  note D = decide_Post [OF k dec]
  note M = moved_of_direction [OF wok D(5) mv]
  define w0 where "w0 = wallet_to_row w"
  define w1 where "w1 = w0\<lparr>wlr_balance := minorUnits (wal_balance w'), wlr_version := wal_version w',
    wlr_updatedAt := wal_updatedAt w'\<rparr>"
  define r1 where "r1 = apply_update t' None r0"
  have keys: "distinct (map wlr_id (db_wallets d))" "distinct (map txr_id (db_transactions d))"
    using inv by (simp_all add: fin_inv_def keys_inv_def)
  have w0: "w0 \<in> set (db_wallets d)" "wlr_id w0 = tx_walletID t" using W by (simp_all add: w0_def wallet_to_row_def)
  have d1: "d1 = d\<lparr>db_wallets := map (\<lambda>x. if wlr_id x = wlr_id w0 then w1 else x) (db_wallets d)\<rparr>"
    using update_wallet_balance_Inr [OF s [unfolded wallet_saved_def]]
      map_at_key [OF keys(1) w0(1), of "\<lambda>r. r\<lparr>wlr_balance := minorUnits (wal_balance w'),
        wlr_version := wal_version w', wlr_updatedAt := wal_updatedAt w'\<rparr>"]
    by (simp add: w1_def M(1) w0(2) W(2))
  have t': "tx_state t' = StateProcessed" "tx_id t' = tx_id t"
    "tx_referenceTransactionID t' = reference_id ro"
    and st: "tx_state t \<noteq> StateProcessed"
    using pr by (auto simp: MarkProcessed_Inr_iff transition_Inr_iff)
  have E: "ledger_entry_ok e" "ledger_to_row e = \<lparr>lgr_id = eid, lgr_walletId = wal_id w',
      lgr_transactionId = tx_id t, lgr_direction = dir, lgr_amount = minorUnits a,
      lgr_balanceBefore = minorUnits (wal_balance w), lgr_balanceAfter = minorUnits (wal_balance w'),
      lgr_createdAt = now\<rparr>"
    using e by (auto simp: NewWalletLedgerEntry_Inr_iff ledger_to_row_def)
  have d2: "d2 = d1\<lparr>db_ledger := db_ledger d1 @ [ledger_to_row e]\<rparr>"
    using l by (simp add: insert_ledger_Inr)
  obtain cs where cs: "d3 = d2\<lparr>db_claims := db_claims d2 @ cs\<rparr>"
    and cs': "if claim then \<exists>i rc. NewReversalClaim i (reference_id ro) (tx_id t) now = Inr rc
         \<and> cs = [claim_to_row rc]
         \<and> reference_id ro \<notin> set (map clr_referenceTransactionId (db_claims d))
       else cs = []"
  proof (cases claim)
    case True
    with c obtain i rc where "NewReversalClaim i (reference_id ro) (tx_id t) now = Inr rc"
        "insert_claim (claim_to_row rc) d2 = Inr ((), d3)" by (auto simp: claimed_for_def)
    with True that [of "[claim_to_row rc]"] show thesis
      by (auto simp: insert_claim_Inr d2 d1 NewReversalClaim_Inr_iff claim_to_row_def)
  next
    case False
    with c that [of "[]"] show thesis by (simp add: claimed_for_def)
  qed
  have d4: "d4 = d\<lparr>db_wallets := map (\<lambda>w. if wlr_id w = wlr_id w0 then w1 else w) (db_wallets d),
              db_transactions := map (\<lambda>r. if txr_id r = txr_id r0 then r1 else r) (db_transactions d),
              db_ledger := db_ledger d @ [ledger_to_row e], db_claims := db_claims d @ cs\<rparr>"
    using persisted_eq [OF p] map_at_key [OF keys(2) r0(1), of "apply_update t' None"]
    by (simp add: cs d2 d1 r1_def t'(2) f(1))
  have "posting d r0 r1 w0 w1 (ledger_to_row e) cs d4"
    unfolding posting_def
  proof (intro conjI)
    show "if txr_kind r0 = KindRefund \<or> txr_kind r0 = KindRollback then
          \<exists>c. cs = [c] \<and> clr_reversalTransactionId c = txr_id r0
            \<and> txr_referenceTransactionId r1 = Some (clr_referenceTransactionId c)
            \<and> clr_referenceTransactionId c \<notin> set (map clr_referenceTransactionId (db_claims d))
            \<and> (\<exists>e0 \<in> set (db_ledger d). lgr_transactionId e0 = clr_referenceTransactionId c
                 \<and> lgr_walletId e0 = lgr_walletId (ledger_to_row e)
                 \<and> lgr_amount e0 = lgr_amount (ledger_to_row e)
                 \<and> lgr_direction e0 \<noteq> lgr_direction (ledger_to_row e))
        else cs = []"
    proof (cases claim)
      case True
      from D(7) [OF True] obtain ref where ref: "ro = Some ref" "tx_state ref = StateProcessed"
        "reversible (tx_kind t) (tx_kind ref)" "same_identity t ref"
        "amt (tx_amount t) = amt (tx_amount ref)" "dir = undo_direction (tx_kind ref)" by auto
      have kr: "tx_kind ref = KindBet \<or> tx_kind ref = KindWin \<or> tx_kind ref = KindRefund"
        using ref(3) by (auto simp: reversible_def)
      have "tx_at u d ref" using ro ref(1) by (simp add: reference_at_def)
      from processed_entry [OF u inv this ref(2)] kr obtain e0 where e0: "e0 \<in> set (db_ledger d)"
        "lgr_transactionId e0 = tx_id ref" "lgr_walletId e0 = tx_walletID ref"
        "lgr_amount e0 = minorUnits (tx_amount ref)" "lgr_direction e0 \<noteq> dir"
        using ref(6) by (auto simp: undo_direction_def)
      moreover have "minorUnits (tx_amount ref) = minorUnits a"
        using ref(5) D(1) by (simp add: sint_inject_int64)
      moreover from True cs' obtain i rc where rc: "reversal_claim_ok rc" "cs = [claim_to_row rc]"
        "rc_referenceTransactionID rc = tx_id ref" "rc_reversalTransactionID rc = tx_id t"
        "tx_id ref \<notin> set (map clr_referenceTransactionId (db_claims d))"
        using ref(1) by (auto simp: NewReversalClaim_Inr_iff reference_id_def)
      moreover have "txr_referenceTransactionId r1 = Some (tx_id ref)"
        using rc(1,3) ref(1) t'(3)
        by (simp add: r1_def apply_update_def null_iffs reversal_claim_ok_def reference_id_def)
      ultimately show ?thesis
        using True D(4) f(1,2) E(2) M(1) W(2) ref(4)
        by (auto simp: claim_to_row_def same_identity_def)
    qed (use cs' D(4) f(2) in auto)
  qed (use r0 w0 f st t' D M W E w1_def r1_def d4 k in
      \<open>auto simp: posts_def apply_update_def w0_def wallet_to_row_def same_core_def Kind_IsExternal_def
         Direction_Valid_def\<close>)
  then show ?thesis by (rule fin_inv_posting [OF inv])
qed

lemma settles_fin_inv:
  assumes u: "uuid_lib_ok u" and inv: "fin_inv d" and t: "tx_at u d t" and s: "settles u d t t' d'"
  shows "fin_inv d'"
  using s
proof cases
  case (settles_wait deadline now s d1)
  then have "fin_inv d1"
    by (intro persisted_quiet [OF u inv t settles_wait(2)]) (auto simp: MarkPendingReference_Inr_iff)
  with settles_wait(3) emitted_fin show ?thesis by fastforce
next
  case (settles_refuse w ref code now d1)
  then have "fin_inv d1"
    by (intro persisted_quiet [OF u inv t settles_refuse(3)])
      (auto simp: MarkRejected_Inr_iff transition_Inr_iff)
  with settles_refuse(4) emitted_fin show ?thesis by fastforce
next
  case (settles_fail w now)
  then show ?thesis
    by (intro persisted_quiet [OF u inv t settles_fail(3)])
      (auto simp: MarkFailed_Inr_iff transition_Inr_iff)
next
  case (settles_loss w ref now d1)
  then have "fin_inv d1"
    by (intro persisted_quiet [OF u inv t settles_loss(4)])
      (auto simp: MarkProcessed_Inr_iff transition_Inr_iff)
  with settles_loss(5) emitted_fin show ?thesis by fastforce
next
  case (settles_post w ro taken dir a consumed claim now w' eid e d1 d2 d3 d4)
  then have "fin_inv d4" by (intro settles_post_inv [OF u inv t])
  with settles_post(12) emitted_fin show ?thesis by fastforce
qed

text \<open>A new row that posts nothing.\<close>

lemma insert_quiet_inv:
  assumes inv: "fin_inv d" and i: "insert_transaction r d = Inr ((), d')"
    and np: "txr_state r \<noteq> StateProcessed" and ko: "txr_kind r \<noteq> KindOpening"
    and w: "w \<in> set (db_wallets d)" "wlr_id w = txr_walletId r" "wlr_currency w = txr_currency r"
  shows "fin_inv d'"
proof -
  have fresh: "txr_id r \<notin> set (map txr_id (db_transactions d))"
    and d': "d' = d\<lparr>db_transactions := db_transactions d @ [r]\<rparr>"
    using insert_transaction_Inr [OF i] by auto
  have p: "\<not> posts r" and nr: "\<not> reverses r j" for j using np by (auto simp: posts_def reverses_def)
  have "set (map lgr_transactionId (db_ledger d)) = txr_id ` {r \<in> set (db_transactions d). posts r}"
    using inv by (simp add: fin_inv_def postings_inv_def)
  then have nl: "x \<in> set (db_ledger d) \<Longrightarrow> lgr_transactionId x \<noteq> txr_id r" for x
    using fresh by force
  have ids: "{x \<in> set (db_transactions d'). posts x} = {x \<in> set (db_transactions d). posts x}"
    using p by (auto simp: d')
  have op: "opening_ids d' = opening_ids d" using ko by (auto simp: opening_ids_def d')
  have "keys_inv d'" using inv fresh by (simp add: fin_inv_def keys_inv_def d')
  moreover have old: "x \<in> set (db_transactions d)"
    if "e \<in> set (db_ledger d)" "x \<in> set (db_transactions d')" "txr_id x = lgr_transactionId e" for e x
    using that nl [OF that(1)] by (auto simp: d')
  have "postings_inv d'"
    using inv old unfolding fin_inv_def postings_inv_def ids
    by (simp add: d' del: set_map set_append set_simps) blast
  moreover have "homes_inv d'" using inv w by (auto simp: fin_inv_def homes_inv_def d')
  moreover have "balance_inv d'"
    using inv unfolding fin_inv_def balance_inv_def op by (simp add: d' entries_of_def)
  moreover have "claims_inv d'"
    using inv np nr unfolding fin_inv_def claims_inv_def by (auto simp: d' compensated_def)
  ultimately show ?thesis by (simp add: fin_inv_def)
qed

text \<open>A wallet that is not there has no transactions and no postings.\<close>

lemma absent_wallet:
  assumes inv: "fin_inv d" and fresh: "i \<notin> set (map wlr_id (db_wallets d))"
  shows "entries_of i d = []" and "x \<in> set (db_transactions d) \<Longrightarrow> txr_walletId x \<noteq> i"
proof -
  show home: "x \<in> set (db_transactions d) \<Longrightarrow> txr_walletId x \<noteq> i" for x
  proof
    assume "x \<in> set (db_transactions d)" "txr_walletId x = i"
    then obtain y where "y \<in> set (db_wallets d)" "wlr_id y = i"
      using inv by (metis fin_inv_def homes_inv_def)
    then have "i \<in> set (map wlr_id (db_wallets d))" by auto
    with fresh show False by simp
  qed
  show "entries_of i d = []"
  proof (rule ccontr)
    assume "entries_of i d \<noteq> []"
    then obtain e where e: "e \<in> set (db_ledger d)" "lgr_walletId e = i"
      unfolding entries_of_def by (meson filter_False)
    then have "lgr_transactionId e \<in> set (map lgr_transactionId (db_ledger d))" by simp
    then obtain x where "x \<in> set (db_transactions d)" "txr_id x = lgr_transactionId e"
      using inv by (auto simp: fin_inv_def postings_inv_def)
    then show False using inv e home by (auto simp: fin_inv_def postings_inv_def)
  qed
qed

lemma insert_wallet_inv:
  assumes inv: "fin_inv d" and i: "insert_wallet r d = Inr ((), d')"
    and b: "wlr_balance r = 0" "wlr_version r = 1"
  shows "fin_inv d'"
proof -
  have fresh: "wlr_id r \<notin> set (map wlr_id (db_wallets d))"
    and d': "d' = d\<lparr>db_wallets := db_wallets d @ [r]\<rparr>" and cp: "currencyPattern (wlr_currency r)"
    using i by (auto simp: insert_wallet_Inr wallet_checks_def)
  have ent: "entries_of i d' = entries_of i d" "opening_ids d' = opening_ids d" for i
    by (simp_all add: d' entries_of_def opening_ids_def)
  have "balance_inv d'"
    unfolding balance_inv_def ent using inv b cp absent_wallet(1) [OF inv fresh]
    by (auto simp: fin_inv_def balance_inv_def d')
  then show ?thesis
    using inv fresh by (auto simp: fin_inv_def keys_inv_def postings_inv_def homes_inv_def claims_inv_def
        compensated_def d')
qed

lemma opening_inv:
  assumes inv: "fin_inv d" and fw: "wlr_id w \<notin> set (map wlr_id (db_wallets d))"
    and ft: "txr_id t \<notin> set (map txr_id (db_transactions d))"
    and w: "currencyPattern (wlr_currency w)" "0 < sint (wlr_balance w)" "wlr_version w = 1"
    and t: "txr_state t = StateProcessed" "txr_kind t = KindOpening" "txr_walletId t = wlr_id w"
      "txr_currency t = wlr_currency w" "txr_amount t = wlr_balance w"
    and e: "lgr_walletId e = wlr_id w" "lgr_transactionId e = txr_id t" "lgr_direction e = DirectionCredit"
      "lgr_amount e = wlr_balance w" "lgr_balanceBefore e = 0" "lgr_balanceAfter e = wlr_balance w"
    and d': "d' = d\<lparr>db_wallets := db_wallets d @ [w], db_transactions := db_transactions d @ [t],
      db_ledger := db_ledger d @ [e]\<rparr>"
  shows "fin_inv d'"
proof -
  have led: "set (map lgr_transactionId (db_ledger d)) = txr_id ` {r \<in> set (db_transactions d). posts r}"
    using inv by (simp add: fin_inv_def postings_inv_def)
  then have nl: "x \<in> set (db_ledger d) \<Longrightarrow> lgr_transactionId x \<noteq> txr_id t" for x
    using ft by force
  have pt: "posts t" and nr: "\<not> reverses t j" for j using t by (simp_all add: posts_def reverses_def)
  have ids: "{x \<in> set (db_transactions d'). posts x} = insert t {x \<in> set (db_transactions d). posts x}"
    using pt by (auto simp: d')
  have op: "opening_ids d' = insert (txr_id t) (opening_ids d)"
    using t(2) by (auto simp: opening_ids_def d')
  have ent: "entries_of i d' = entries_of i d @ (if i = wlr_id w then [e] else [])" for i
    using e(1) by (auto simp: entries_of_def d')
  have free: "filter (\<lambda>x. lgr_transactionId x \<notin> opening_ids d') (entries_of i d)
      = filter (\<lambda>x. lgr_transactionId x \<notin> opening_ids d) (entries_of i d)" for i
    using nl by (auto simp: op entries_of_def intro!: filter_cong)
  have "txr_id t \<notin> set (map lgr_transactionId (db_ledger d))" unfolding led using ft by auto
  then have "keys_inv d'" using inv fw ft e(2) by (simp add: fin_inv_def keys_inv_def d')
  moreover have "postings_inv d'"
  proof -
    have "set (map lgr_transactionId (db_ledger d')) = txr_id ` {r \<in> set (db_transactions d'). posts r}"
      using led e(2) unfolding ids by (simp add: d')
    moreover have "txr_walletId r = lgr_walletId x \<and> txr_amount r = lgr_amount x
          \<and> (txr_kind r = KindBet \<longrightarrow> lgr_direction x = DirectionDebit)
          \<and> (txr_kind r \<in> {KindOpening, KindWin, KindRefund} \<longrightarrow> lgr_direction x = DirectionCredit)"
      if x: "x \<in> set (db_ledger d')" and r: "r \<in> set (db_transactions d')"
        and eq: "txr_id r = lgr_transactionId x" for x r
    proof (cases "r = t")
      case True
      then have "x = e" using x eq nl by (auto simp: d')
      with True t e show ?thesis by simp
    next
      case False
      then have r': "r \<in> set (db_transactions d)" using r by (simp add: d')
      then have "txr_id r \<noteq> txr_id t" using ft by (metis image_eqI list.set_map)
      then have "x \<in> set (db_ledger d)" using x eq e(2) by (auto simp: d')
      then show ?thesis using inv r' eq by (simp add: fin_inv_def postings_inv_def)
    qed
    moreover have "\<forall>x \<in> set (db_ledger d'). Direction_Valid (lgr_direction x) \<and> 0 < sint (lgr_amount x)"
      using inv e w(2) by (auto simp: d' fin_inv_def postings_inv_def)
    ultimately show ?thesis unfolding postings_inv_def by blast
  qed
  moreover have "homes_inv d'" using inv t by (auto simp: fin_inv_def homes_inv_def d')
  moreover have "balance_inv d'"
    unfolding balance_inv_def
  proof
    fix x assume x: "x \<in> set (db_wallets d')"
    have "wlr_id x \<noteq> wlr_id w" if "x \<in> set (db_wallets d)"
      using fw that by (metis image_eqI list.set_map)
    with x consider "x = w" | "x \<in> set (db_wallets d)" "wlr_id x \<noteq> wlr_id w" by (auto simp: d')
    then show "currencyPattern (wlr_currency x) \<and> 0 \<le> sint (wlr_balance x)
        \<and> chain 0 (entries_of (wlr_id x) d') (sint (wlr_balance x))
        \<and> wlr_version x = 1 + word_of_nat (length
            (filter (\<lambda>e. lgr_transactionId e \<notin> opening_ids d') (entries_of (wlr_id x) d')))"
    proof cases
      case 1
      then show ?thesis
        using w e absent_wallet(1) [OF inv fw] by (simp add: ent op)
    next
      case 2
      then show ?thesis using inv free [of "wlr_id x"]
        by (simp add: ent fin_inv_def balance_inv_def)
    qed
  qed
  moreover have "claims_inv d'"
    using inv t nr unfolding fin_inv_def claims_inv_def by (auto simp: d' compensated_def)
  ultimately show ?thesis by (simp add: fin_inv_def)
qed

lemma fin_inv_empty: "fin_inv db_empty"
  by (simp add: fin_inv_def inv_defs db_empty_def)

text \<open>The row of a transaction that was just created reads back.\<close>

lemma external_wager_at:
  assumes u: "uuid_lib_ok u" and p: "external_params_ok p"
    and i: "insert_transaction (wager_to_row (external_wager p)) d = Inr ((), d1)"
  shows "tx_at u d1 (external_wager p)"
proof -
  have "currencyPattern (currency (tx_amount (external_wager p)))"
    using insert_transaction_Inr [OF i] by (simp add: transaction_checks_def wager_to_row_def)
  then have "wager_db_ok (external_wager p)"
    using p by (auto simp: wager_db_ok_def wager_row_ok_def external_wager_def external_params_ok_def
        money_nil_def)
  from wager_rows.dec_enc [OF u this] show ?thesis
    using insert_transaction_Inr [OF i] by (auto simp: tx_at_def)
qed

lemma fin_step_inv:
  assumes u: "uuid_lib_ok u" and inv: "fin_inv d" and s: "fin_step u d d'"
  shows "fin_inv d'"
  using s
proof cases
  case (step_open_zero i p c b now w)
  then show ?thesis
    by (intro insert_wallet_inv [OF inv step_open_zero(3)])
      (auto simp: NewWallet_Inr_iff wallet_to_row_def sint_inject_int64 [symmetric])
next
  case (step_open_positive i p c b now w d1 tid op0 t d2 zero eid e d3)
  have W: "wallet_ok w" "wal_version w = 1"
    using step_open_positive(1) by (auto simp: NewWallet_Inr_iff)
  have T: "t = op0\<lparr>tx_state := StateProcessed, tx_referenceTransactionID := uuid_Nil,
      tx_observedBalance := wal_balance w\<rparr>" "tx_kind op0 = KindOpening"
    "tx_walletID op0 = wal_id w" "tx_amount op0 = wal_balance w"
    using step_open_positive(4,5) by (auto simp: NewInternalOpening_Inr_iff MarkProcessed_Inr_iff)
  have E: "ledger_to_row e = \<lparr>lgr_id = eid, lgr_walletId = wal_id w, lgr_transactionId = tx_id t,
      lgr_direction = DirectionCredit, lgr_amount = minorUnits (wal_balance w),
      lgr_balanceBefore = 0, lgr_balanceAfter = minorUnits (wal_balance w), lgr_createdAt = now\<rparr>"
    using step_open_positive(7,8) by (auto simp: NewWalletLedgerEntry_Inr_iff ledger_to_row_def Zero_Inr_iff)
  note I1 = step_open_positive(3) [unfolded insert_wallet_Inr]
    and I2 = insert_transaction_Inr [OF step_open_positive(6)]
    and I3 = step_open_positive(9) [unfolded insert_ledger_Inr]
  have "fin_inv d3"
  proof (rule opening_inv [OF inv, of "wallet_to_row w" "wager_to_row t" "ledger_to_row e"])
    show "wlr_id (wallet_to_row w) \<notin> set (map wlr_id (db_wallets d))" using I1 by simp
    show "txr_id (wager_to_row t) \<notin> set (map txr_id (db_transactions d))"
      using I1 I2 by (simp add: wallet_to_row_def)
    show "currencyPattern (wlr_currency (wallet_to_row w))"
      using I1 by (simp add: wallet_checks_def)
    show "d3 = d\<lparr>db_wallets := db_wallets d @ [wallet_to_row w],
        db_transactions := db_transactions d @ [wager_to_row t], db_ledger := db_ledger d @ [ledger_to_row e]\<rparr>"
      using I1 I2 I3 by simp
  qed (use W T step_open_positive(2) E in
      \<open>simp_all add: wallet_to_row_def wager_to_row_def wallet_ok_def\<close>)
  with step_open_positive(10) emitted_fin show ?thesis by fastforce
next
  case (step_submit p w d1 t')
  note W = wallet_atD [OF u step_submit(2)]
  have "fin_inv d1"
    by (rule insert_quiet_inv [OF inv step_submit(4) _ _ W(1)])
      (use W step_submit(1,3) in \<open>auto simp: wager_to_row_def external_wager_def wallet_to_row_def
         external_params_ok_def Kind_IsExternal_def\<close>)
  then show ?thesis
    using settles_fin_inv [OF u _ external_wager_at [OF u step_submit(1,4)] step_submit(5)] by blast
next
  case (step_recover t t')
  then show ?thesis using settles_fin_inv [OF u inv] by blast
next
  case (step_schedule f)
  then show ?thesis using fin_inv_quiet [OF inv, of f] same_but_schedule_quiet by simp
next
  case (step_delivery ys xs)
  then show ?thesis using inv by simp
qed

lemma fin_reach_inv: "uuid_lib_ok u \<Longrightarrow> fin_reach u d \<Longrightarrow> fin_inv d"
  by (rotate_tac, induction d rule: fin_reach.induct) (auto simp: fin_inv_empty intro: fin_step_inv)

end
