(* ===== verification/Refine.thy ===== *)
theory Refine
  imports FinSpec
begin

text \<open>
  The refinement: every run of a use case of \<open>Service\<close> leaves the database as it was or takes it
  through one step of \<open>FinSpec\<close>, and what it returns is the transaction that the step wrote (or,
  for a replay, the one that was there). Faults of the driver, lost acknowledgements of a commit and
  panics are covered: the runtime is arbitrary.
\<close>

section \<open>Repositories\<close>

lemmas tx_invs = tx_bind_Inr_iff new_id_Inr clock_Now_Inr db_call_Inr

lemma uuid_of_rt [simp]: "w_db (w\<lparr>w_ids := n\<rparr>) = w_db w" "w_db (w\<lparr>w_ticks := n\<rparr>) = w_db w"
  "w_db (w\<lparr>w_calls := n\<rparr>) = w_db w"
  by simp_all

lemma wallets_LockByID_Inr:
  assumes "wallets_LockByID rt i st = (Inr wo, st')"
  shows "w_db st' = w_db st"
    "wo = Some w \<Longrightarrow> wallet_at (rt_uuid rt) (w_db st) i w"
    "wo = None \<Longrightarrow> find (\<lambda>r. wlr_id r = i) (db_wallets (w_db st)) = None"
  using assms
  by (cases wo; auto simp: wallets_LockByID_def tx_invs scan_row_Inr wallet_at_def)+

lemma by_provider_Inr:
  assumes "tx_bind (db_call rt (select_transaction P)) (\<lambda>ro. tx_lift (scanTransaction u ro)) st = (Inr to, st')"
  shows "w_db st' = w_db st"
    "to = Some t \<Longrightarrow> \<exists>r \<in> set (db_transactions (w_db st)). P r \<and> rehydrateTransaction u r = Inr t"
    "to = None \<Longrightarrow> find P (db_transactions (w_db st)) = None"
  using assms find_Some_in [of P]
  by (cases to; fastforce simp: tx_invs scanTransaction_Inr)+

lemma db_unchanged_on_read:
  assumes "tx_bind (db_call rt (select_transaction P)) (\<lambda>ro. tx_lift (f ro)) st = (r, st')"
  shows "w_db st' = w_db st"
proof (cases "db_call rt (select_transaction P) st")
  case (Pair x v)
  show ?thesis
  proof (cases x)
    case (Inl e)
    then show ?thesis using Pair assms db_call_Inl [of rt "select_transaction P" st e v]
      by (simp add: tx_bind_def)
  next
    case (Inr y)
    then have "w_db v = w_db st" using Pair by (auto simp: db_call_Inr)
    then show ?thesis using Pair Inr assms by (simp add: tx_bind_def)
  qed
qed

lemma transactions_Update_Inr:
  "transactions_Update rt t s st = (Inr u, st') \<Longrightarrow> persisted t s (w_db st) (w_db st')"
  by (auto simp: transactions_Update_def db_call_Inr persisted_def)

lemma wallets_SaveBalance_Inr:
  "wallets_SaveBalance rt w st = (Inr u, st') \<Longrightarrow> wallet_saved w (w_db st) (w_db st')"
  by (auto simp: wallets_SaveBalance_def db_call_Inr wallet_saved_def)

lemma outbox_Insert_Inr:
  assumes "outbox_Insert rt e now st = (Inr x, st')" and "envelope_ok e"
    and "ev_AggregateID e = uuid_String u i"
  shows "emitted u [ev_EventType e] i (w_db st) (w_db st')"
proof -
  have "insert_outbox (envelope_to_row e now e) (w_db st) = Inr ((), w_db st')"
    using assms(1) by (auto simp: outbox_Insert_def tx_invs map_err_Inr_iff marshal_envelope_Inr)
  then have "ev_EventID e \<notin> set (map obr_eventId (db_outbox (w_db st)))"
    "w_db st' = (w_db st)\<lparr>db_outbox := db_outbox (w_db st) @ [envelope_to_row e now e]\<rparr>"
    by (auto simp: insert_outbox_Inr envelope_to_row_def)
  moreover have "event_row_ok u i (envelope_to_row e now e)"
    using assms(2,3) by (simp add: event_row_ok_def envelope_to_row_def)
  ultimately show ?thesis
    unfolding emitted_def by (intro exI [of _ "[envelope_to_row e now e]"]) (simp add: envelope_to_row_def)
qed

lemma emitted_append:
  assumes "emitted u ks i d d1" and "emitted u ls i d1 d2"
  shows "emitted u (ks @ ls) i d d2"
proof -
  from assms obtain xs ys where x: "d1 = d\<lparr>db_outbox := db_outbox d @ xs\<rparr>" "map obr_eventType xs = ks"
    "\<forall>r \<in> set xs. event_row_ok u i r" "distinct (map obr_eventId xs)"
    "set (map obr_eventId xs) \<inter> set (map obr_eventId (db_outbox d)) = {}"
    and y: "d2 = d1\<lparr>db_outbox := db_outbox d1 @ ys\<rparr>" "map obr_eventType ys = ls"
    "\<forall>r \<in> set ys. event_row_ok u i r" "distinct (map obr_eventId ys)"
    "set (map obr_eventId ys) \<inter> set (map obr_eventId (db_outbox d1)) = {}"
    unfolding emitted_def by blast
  then show ?thesis
    unfolding emitted_def by (intro exI [of _ "xs @ ys"]) auto
qed

lemma emit_Inr:
  assumes "tx_bind (newEventID rt) (\<lambda>eid. tx_bind (tx_event (newEnvelope ty
        (event_meta eid (uuid_String u i) c now) dat)) (\<lambda>env. outbox_Insert rt env now)) st = (Inr x, st')"
    and "ty = type_of_data dat"
  shows "emitted u [ty] i (w_db st) (w_db st')"
proof -
  from assms obtain eid st1 e where "newEventID rt st = (Inr eid, st1)"
    and e: "newEnvelope ty (event_meta eid (uuid_String u i) c now) dat = Inr e"
    and o': "outbox_Insert rt e now st1 = (Inr x, st')"
    by (auto simp: tx_bind_Inr_iff tx_event_def map_err_Inr_iff)
  then have "w_db st1 = w_db st" by (auto simp: newEventID_def tx_invs)
  moreover have "envelope_ok e" using newEnvelope_ok_eq [OF e assms(2)] .
  moreover have "ev_AggregateID e = uuid_String u i" "ev_EventType e = ty"
    using e by (auto simp: newEnvelope_Inr_iff event_meta_def)
  ultimately show ?thesis using outbox_Insert_Inr [OF o'] by metis
qed

lemma emitProcessed_Inr:
  "emitProcessed rt w t b now c st = (Inr x, st') \<Longrightarrow>
     emitted (rt_uuid rt) [TypeWagerTransactionProcessed] (wal_id w) (w_db st) (w_db st')"
  unfolding emitProcessed_def Let_def NewWagerTransactionProcessed_def by (erule emit_Inr) simp

lemma emitRejected_Inr:
  "emitRejected rt w t now c st = (Inr x, st') \<Longrightarrow>
     emitted (rt_uuid rt) [TypeWagerTransactionRejected] (wal_id w) (w_db st) (w_db st')"
  unfolding emitRejected_def Let_def NewWagerTransactionRejected_def by (erule emit_Inr) simp

lemma emitPendingReference_Inr:
  "emitPendingReference rt t now c st = (Inr x, st') \<Longrightarrow>
     emitted (rt_uuid rt) [TypeWagerTransactionPendingReference] (tx_walletID t) (w_db st) (w_db st')"
  unfolding emitPendingReference_def Let_def NewWagerTransactionPendingReference_def
  by (erule emit_Inr) simp

lemma emitBalanceChanged_Inr:
  "emitBalanceChanged rt w t mv b1 b2 now c st = (Inr x, st') \<Longrightarrow>
     emitted (rt_uuid rt) [TypeWalletBalanceChanged] (wal_id w) (w_db st) (w_db st')"
  unfolding emitBalanceChanged_def Let_def NewWalletBalanceChanged_def by (erule emit_Inr) simp

lemmas emit_Inrs = emitProcessed_Inr emitRejected_Inr emitPendingReference_Inr emitBalanceChanged_Inr

section \<open>Outcomes\<close>

text \<open>What executing a transaction amounts to.\<close>

definition settled :: "uuid_lib \<Rightarrow> db \<Rightarrow> wager \<Rightarrow> wager_result \<Rightarrow> db \<Rightarrow> bool" where
  "settled u d t r d' \<longleftrightarrow> (\<exists>t'. settles u d t t' d' \<and> r = resultOf t' False)"

lemma persist_rejection_refines:
  assumes "persist_rejection rt w t ref code now c st = (Inr r, st')"
    and w: "wallet_at (rt_uuid rt) (w_db st) (tx_walletID t) w" and i: "wal_id w = tx_walletID t"
  shows "settled (rt_uuid rt) (w_db st) t r (w_db st')"
proof -
  from assms(1) obtain t' st1 where m: "MarkRejected t ref code (wal_balance w) now = Inr t'"
    and p: "transactions_Update rt t' None st = (Inr (), st1)"
    and e: "emitRejected rt w t' now c st1 = (Inr (), st')" and r: "r = resultOf t' False"
    by (auto simp: persist_rejection_def tx_bind_Inr_iff)
  have "settles (rt_uuid rt) (w_db st) t t' (w_db st')"
    using emitRejected_Inr [OF e] i
    by (intro settles_refuse [OF w m transactions_Update_Inr [OF p]]) simp
  then show ?thesis using r by (auto simp: settled_def)
qed

lemma persist_failure_refines:
  assumes "persist_failure rt w t now st = (Inr r, st')"
    and w: "wallet_at (rt_uuid rt) (w_db st) (tx_walletID t) w"
  shows "settled (rt_uuid rt) (w_db st) t r (w_db st')"
proof -
  from assms(1) obtain t' where m: "MarkFailed t (wal_balance w) now = Inr t'"
    and p: "transactions_Update rt t' None st = (Inr (), st')" and r: "r = resultOf t' False"
    by (auto simp: persist_failure_def tx_bind_Inr_iff)
  from settles_fail [OF w m transactions_Update_Inr [OF p]] show ?thesis
    using r by (auto simp: settled_def)
qed

section \<open>Plans\<close>

lemma reference_at_valid:
  assumes "uuid_lib_ok u" and "reference_at u d ro"
  shows "reference_valid ro" "ro = Some ref \<Longrightarrow> tx_id ref \<noteq> uuid_Nil"
proof -
  have "State_Valid (tx_state ref) \<and> IsInitialized (tx_amount ref) \<and> tx_id ref \<noteq> uuid_Nil"
    if "ro = Some ref" for ref
    using that assms rehydrateTransaction_ok [OF assms(1)]
    by (auto simp: reference_at_def tx_at_def wager_db_ok_def wager_row_ok_def)
  note all = this
  show "reference_valid ro" using all by (cases ro) (simp_all add: reference_valid_def)
  show "ro = Some ref \<Longrightarrow> tx_id ref \<noteq> uuid_Nil" using all by blast
qed

text \<open>A plan for a persisted transaction exists only for external kinds.\<close>

lemma classify_Inr_external:
  assumes "wager_row_ok t" and "classify t ro taken = Inr plan"
  shows "Kind_IsExternal (tx_kind t)"
proof (rule ccontr)
  assume n: "\<not> Kind_IsExternal (tx_kind t)"
  then have "tx_kind t = KindOpening" "tx_referenceExternalTransactionID t = ''''"
    using assms(1) by (auto simp: wager_row_ok_def)
  then show False using assms(2) by (auto simp: classify_def)
qed

lemma plan_of_reference:
  assumes "Kind_IsExternal (tx_kind t)" and "decide t ro taken = D"
  shows "pl_pending (plan_of D) \<longleftrightarrow> D = Await"
    "D \<noteq> Await \<Longrightarrow> pl_referenceID (plan_of D) = uuid_Nil \<or> pl_referenceID (plan_of D) = reference_id ro"
  using assms
  by (cases D; auto simp: plan_nil_def reference_id_def decide_def by_state_def
      split: option.splits if_splits)+

definition with_reference :: "wager option \<Rightarrow> operation_plan \<Rightarrow> operation_plan" where
  "with_reference ro plan =
     (if pl_pending plan then plan else plan\<lparr>pl_referenceID := reference_id ro\<rparr>)"

lemma plan_eta: "pl_referenceID p = i \<Longrightarrow> p\<lparr>pl_referenceID := i\<rparr> = p"
  by (cases p) simp

lemma planOperation_Inr:
  assumes u: "uuid_lib_ok (rt_uuid rt)" and t: "wager_row_ok t"
    and ro: "reference_at (rt_uuid rt) d ro" and p: "planOperation rt t ro st = (Inr plan, st')"
  shows "w_db st' = w_db st" "Kind_IsExternal (tx_kind t)"
    "\<exists>taken. plan = with_reference ro (plan_of (decide t ro taken))"
proof -
  let ?look = "case ro of None \<Rightarrow> tx_return False
       | Some ref \<Rightarrow>
           if isClaimingKind (tx_kind t) \<and> tx_state ref = StateProcessed
           then tx_bind (claims_ByReference rt (tx_id ref)) (\<lambda>c. tx_return (c \<noteq> None))
           else tx_return False"
  from p obtain taken st1 plan0 st2 where l: "?look st = (Inr taken, st1)"
    and c0: "tx_lift (map_err (\<lambda>e. wrapInvariant (Some e)) (classify t ro taken)) st1 = (Inr plan0, st2)"
    and pl0: "(case ro of Some ref \<Rightarrow>
         (if \<not> pl_pending plan0 \<and> id_IsZero (pl_referenceID plan0)
          then tx_return (plan0\<lparr>pl_referenceID := tx_id ref\<rparr>) else tx_return plan0)
       | None \<Rightarrow> tx_return plan0) st2 = (Inr plan, st')"
    unfolding planOperation_def tx_bind_Inr_iff by blast
  have c: "classify t ro taken = Inr plan0" and st2: "st2 = st1" using c0 by (auto simp: map_err_Inr_iff)
  have pl: "plan = (case ro of Some ref \<Rightarrow>
         (if \<not> pl_pending plan0 \<and> id_IsZero (pl_referenceID plan0)
          then plan0\<lparr>pl_referenceID := tx_id ref\<rparr> else plan0) | None \<Rightarrow> plan0)"
    and st1: "st' = st1"
    using pl0 st2 by (auto split: option.splits if_splits)
  have "w_db st1 = w_db st"
    using l by (auto simp: claims_ByReference_def tx_invs split: option.splits if_splits)
  then show "w_db st' = w_db st" by (simp add: st1)
  show k: "Kind_IsExternal (tx_kind t)" by (rule classify_Inr_external [OF t c])
  have am: "IsInitialized (tx_amount t)" using t by (simp add: wager_row_ok_def)
  have plan0: "plan0 = plan_of (decide t ro taken)"
    using c classify_eq [OF k reference_at_valid(1) [OF u ro] am] by simp
  note pr = plan_of_reference [OF k refl, of ro taken]
  have "plan = with_reference ro plan0"
  proof (cases ro)
    case None
    then have "\<not> pl_pending plan0 \<Longrightarrow> pl_referenceID plan0 = uuid_Nil"
      using pr by (auto simp: plan0 reference_id_def)
    then show ?thesis
      using None by (auto simp: pl with_reference_def reference_id_def plan_eta)
  next
    case (Some ref)
    then have "\<not> pl_pending plan0 \<Longrightarrow> pl_referenceID plan0 \<noteq> uuid_Nil \<Longrightarrow> pl_referenceID plan0 = tx_id ref"
      using pr by (auto simp: plan0 reference_id_def)
    then show ?thesis
      using Some by (auto simp: pl with_reference_def reference_id_def id_IsZero_def plan_eta)
  qed
  then show "\<exists>taken. plan = with_reference ro (plan_of (decide t ro taken))"
    unfolding plan0 by blast
qed

section \<open>Executing\<close>

lemma post_movement_refines:
  assumes w: "wallet_at (rt_uuid rt) (w_db st) (tx_walletID t) w" and i: "wal_id w' = tx_walletID t"
    and k: "Kind_IsExternal (tx_kind t)" and ro: "reference_at (rt_uuid rt) (w_db st) ro"
    and dec: "decide t ro taken = Post dir a consumed claim"
    and mv: "(if dir = DirectionCredit then Credit w a now else Debit w a now) = Inr w'"
    and run: "post_movement rt w w' t plan \<lparr>mv_direction = dir, mv_amount = a\<rparr> now c st = (Inr r, st')"
    and pl: "pl_referenceID plan = reference_id ro" "pl_claim plan = claim"
  shows "settled (rt_uuid rt) (w_db st) t r (w_db st')"
proof -
  let ?claim = "if claim then
         tx_bind (new_id rt) (\<lambda>cid.
         tx_bind (tx_domain (NewReversalClaim cid (reference_id ro) (tx_id t) now)) (\<lambda>claim.
         claims_Insert rt claim))
       else tx_return ()"
  from run obtain eid st0 e t' st1 st2 st3 st4 st5 st6 where
    "new_id rt st = (Inr eid, st0)"
    and e: "NewWalletLedgerEntry eid (wal_id w') (tx_id t) dir a (wal_balance w) (wal_balance w') now = Inr e"
    and m: "MarkProcessed t (reference_id ro) (wal_balance w') now = Inr t'"
    and s: "wallets_SaveBalance rt w' st0 = (Inr (), st2)"
    and l: "ledger_Insert rt e st2 = (Inr (), st3)"
    and cl: "?claim st3 = (Inr (), st4)"
    and up: "transactions_Update rt t' None st4 = (Inr (), st5)"
    and e1: "emitProcessed rt w' t' (wal_balance w') now c st5 = (Inr (), st6)"
    and e2: "emitBalanceChanged rt w' t' \<lparr>mv_direction = dir, mv_amount = a\<rparr> (wal_balance w)
       (wal_balance w') now c st6 = (Inr (), st')"
    and r: "r = resultOf t' False"
    unfolding post_movement_def pl by (auto simp: tx_bind_Inr_iff)
  then have st0: "w_db st0 = w_db st" by (auto simp: new_id_Inr)
  have l': "insert_ledger (ledger_to_row e) (w_db st2) = Inr ((), w_db st3)"
    using l by (auto simp: ledger_Insert_def db_call_Inr)
  have cl': "claimed_for claim (reference_id ro) (tx_id t) now (w_db st3) (w_db st4)"
    using cl by (cases claim) (fastforce simp: claimed_for_def claims_Insert_def tx_invs)+
  have em: "emitted (rt_uuid rt) [TypeWagerTransactionProcessed, TypeWalletBalanceChanged] (tx_walletID t)
      (w_db st5) (w_db st')"
    using emitted_append [OF emitProcessed_Inr [OF e1] emitBalanceChanged_Inr [OF e2]] i by simp
  have "settles (rt_uuid rt) (w_db st) t t' (w_db st')"
    using settles_post [OF w k ro dec mv e m wallets_SaveBalance_Inr [OF s, unfolded st0] l' cl'
        transactions_Update_Inr [OF up] em] .
  then show ?thesis using r by (auto simp: settled_def)
qed

lemma executePlan_refines:
  assumes u: "uuid_lib_ok (rt_uuid rt)"
    and w: "wallet_at (rt_uuid rt) (w_db st) (tx_walletID t) w"
    and k: "Kind_IsExternal (tx_kind t)" and ro: "reference_at (rt_uuid rt) (w_db st) ro"
    and run: "executePlan rt w t (with_reference ro (plan_of (decide t ro taken))) now c st = (Inr r, st')"
  shows "settled (rt_uuid rt) (w_db st) t r (w_db st')"
proof (cases "decide t ro taken")
  case Settle
  then have kl: "tx_kind t = KindLoss"
    using k by (auto simp: decide_def Kind_IsExternal_def by_state_def split: option.splits if_splits)
  from run Settle obtain t' st1 where m: "MarkProcessed t (reference_id ro) (wal_balance w) now = Inr t'"
    and p: "transactions_Update rt t' None st = (Inr (), st1)"
    and e: "emitProcessed rt w t' (wal_balance w) now c st1 = (Inr (), st')" and r: "r = resultOf t' False"
    by (auto simp: executePlan_def with_reference_def plan_nil_def tx_bind_Inr_iff)
  have "settles (rt_uuid rt) (w_db st) t t' (w_db st')"
    using emitProcessed_Inr [OF e] wallet_atD(2) [OF u w]
    by (intro settles_loss [OF w kl m transactions_Update_Inr [OF p]]) simp
  then show ?thesis using r by (auto simp: settled_def)
next
  case (Refuse code)
  have "code \<noteq> ''''"
    using Refuse k by (auto simp: decide_def Kind_IsExternal_def by_state_def failure_defs
        split: option.splits if_splits)
  with run Refuse have "persist_rejection rt w t (reference_id ro) code now c st = (Inr r, st')"
    by (simp add: executePlan_def with_reference_def plan_nil_def)
  then show ?thesis using persist_rejection_refines [OF _ w wallet_atD(2) [OF u w]] by blast
next
  case Await
  from run Await obtain t' s st1 where m: "MarkPendingReference t (time_Add now ReferenceTTL) now = Inr t'"
    and p: "transactions_Update rt t' (Some s) st = (Inr (), st1)"
    and e: "emitPendingReference rt t' now c st1 = (Inr (), st')" and r: "r = resultOf t' False"
    by (auto simp: executePlan_def with_reference_def plan_nil_def tx_bind_Inr_iff Let_def)
  have "tx_walletID t' = tx_walletID t" using m by (auto simp: MarkPendingReference_Inr_iff)
  then have "settles (rt_uuid rt) (w_db st) t t' (w_db st')"
    using emitPendingReference_Inr [OF e] by (intro settles_wait [OF m transactions_Update_Inr [OF p]]) simp
  then show ?thesis using r by (auto simp: settled_def)
next
  case (Post dir a consumed claim)
  let ?plan = "with_reference ro (plan_of (Post dir a consumed claim))"
  note D = decide_Post [OF k Post]
  have pl: "pl_referenceID ?plan = reference_id ro" "pl_claim ?plan = claim"
    by (simp_all add: with_reference_def plan_nil_def)
  have ap: "applyMovement rt w t ?plan \<lparr>mv_direction = dir, mv_amount = a\<rparr> now c st = (Inr r, st')"
    using run Post by (simp add: executePlan_def with_reference_def plan_nil_def)
  define res where "res = (if dir = DirectionCredit then Credit w a now else Debit w a now)"
  have mw: "move_wallet \<lparr>mv_direction = dir, mv_amount = a\<rparr> w now = Inr res"
    using D(5) by (auto simp: move_wallet_def res_def)
  show ?thesis
  proof (cases res)
    case (Inl e)
    then obtain code where "persist_rejection rt w t (reference_id ro) code now c st = (Inr r, st')"
      using ap mw pl(1) by (auto simp: applyMovement_def tx_bind_Inr_iff Let_def split: if_splits)
    then show ?thesis using persist_rejection_refines [OF _ w wallet_atD(2) [OF u w]] by blast
  next
    case (Inr w')
    then have "post_movement rt w w' t ?plan \<lparr>mv_direction = dir, mv_amount = a\<rparr> now c st = (Inr r, st')"
      using ap mw by (auto simp: applyMovement_def tx_bind_Inr_iff)
    moreover have ww: "(if dir = DirectionCredit then Credit w a now else Debit w a now) = Inr w'"
      using Inr by (simp add: res_def)
    moreover have "wal_id w' = tx_walletID t"
      using moved_of_direction(1) [OF _ D(5) ww] wallet_atD(2,3) [OF u w] by (simp add: wallet_db_ok_def)
    ultimately show ?thesis
      using post_movement_refines [OF w _ k ro Post ww _ pl] by blast
  qed
qed

lemma executeWithReference_refines:
  assumes u: "uuid_lib_ok (rt_uuid rt)" and t: "wager_row_ok t"
    and w: "wallet_at (rt_uuid rt) (w_db st) (tx_walletID t) w"
    and ro: "reference_at (rt_uuid rt) (w_db st) ro"
    and run: "executeWithReference rt w t ro now c st = (Inr r, st')"
  shows "settled (rt_uuid rt) (w_db st) t r (w_db st')"
proof -
  from run obtain plan st1 where p: "planOperation rt t ro st = (Inr plan, st1)"
    and x: "executePlan rt w t plan now c st1 = (Inr r, st')"
    by (auto simp: executeWithReference_def tx_bind_Inr_iff)
  from planOperation_Inr [OF u t ro p] obtain taken where P: "w_db st1 = w_db st"
    "Kind_IsExternal (tx_kind t)" "plan = with_reference ro (plan_of (decide t ro taken))" by blast
  from executePlan_refines [OF u, of st1 t w ro taken now c r st'] show ?thesis
    using w ro x P by simp
qed

lemma loadReference_Inr:
  assumes "loadReference rt t st = (Inr ro, st')"
  shows "w_db st' = w_db st" "reference_at (rt_uuid rt) (w_db st) ro"
proof -
  have "w_db st' = w_db st \<and> reference_at (rt_uuid rt) (w_db st) ro"
  proof (cases "needsReference t")
    case False
    with assms show ?thesis by (auto simp: loadReference_def reference_at_def)
  next
    case True
    with assms have l: "tx_bind (db_call rt (select_transaction (\<lambda>r. txr_providerId r = Some (tx_providerID t)
         \<and> txr_externalTransactionId r = Some (tx_referenceExternalTransactionID t))))
       (\<lambda>ro. tx_lift (scanTransaction (rt_uuid rt) ro)) st = (Inr ro, st')"
      by (simp add: loadReference_def transactions_ByProviderAndExternalID_def)
    note b = by_provider_Inr [OF l]
    show ?thesis
      using b(1) b(2) by (cases ro) (auto simp: reference_at_def tx_at_def)
  qed
  then show "w_db st' = w_db st" "reference_at (rt_uuid rt) (w_db st) ro" by simp_all
qed

lemma loadReference_Inl: "loadReference rt t st = (Inl e, st') \<Longrightarrow> w_db st' = w_db st"
  by (auto simp: loadReference_def transactions_ByProviderAndExternalID_def
      intro: db_unchanged_on_read split: if_splits)

lemma resolveAndExecute_refines:
  assumes u: "uuid_lib_ok (rt_uuid rt)" and t: "wager_row_ok t"
    and w: "wallet_at (rt_uuid rt) (w_db st) (tx_walletID t) w"
    and run: "resolveAndExecute rt w t now c st = (Inr r, st')"
  shows "settled (rt_uuid rt) (w_db st) t r (w_db st')"
proof (cases "needsReference t")
  case False
  then have "executeWithReference rt w t None now c st = (Inr r, st')"
    using run by (simp add: resolveAndExecute_def)
  from executeWithReference_refines [OF u t w _ this] show ?thesis by (simp add: reference_at_def)
next
  case True
  obtain x st1 where l: "loadReference rt t st = (x, st1)" by (cases "loadReference rt t st")
  show ?thesis
  proof (cases x)
    case (Inl e)
    then have "persist_failure rt w t now st1 = (Inr r, st')"
      using run True l by (auto simp: resolveAndExecute_def split: if_splits)
    moreover have "w_db st1 = w_db st" using l Inl loadReference_Inl by blast
    ultimately show ?thesis using persist_failure_refines [of rt w t now st1 r st'] w by simp
  next
    case (Inr ro)
    then have x: "executeWithReference rt w t ro now c st1 = (Inr r, st')"
      using run True l by (simp add: resolveAndExecute_def)
    have "w_db st1 = w_db st" "reference_at (rt_uuid rt) (w_db st) ro"
      using l Inr loadReference_Inr by blast+
    then show ?thesis using executeWithReference_refines [OF u t _ _ x] w by simp
  qed
qed

section \<open>Submitting\<close>

text \<open>
  The specification of one attempt: a replay changes nothing and returns the stored transaction; a
  fresh command inserts its transaction, settles it in the same step and returns the outcome.
\<close>

inductive submit_spec ::
  "uuid_lib \<Rightarrow> submit_command \<Rightarrow> string \<Rightarrow> db \<Rightarrow> wager_result \<Rightarrow> db \<Rightarrow> bool"
  for u cmd digest d where
  spec_replay:
    "tx_at u d t \<Longrightarrow> tx_providerID t = sc_ProviderID cmd \<Longrightarrow>
     tx_idempotencyKey t = sc_IdempotencyKey cmd \<Longrightarrow> same_projection t digest \<Longrightarrow>
     submit_spec u cmd digest d (resultOf t True) d"
| spec_fresh:
    "external_params_ok (params_of cmd tid DigestVersion digest now) \<Longrightarrow>
     wallet_at u d (sc_WalletID cmd) w \<Longrightarrow> wal_currency w = currency (sc_Amount cmd) \<Longrightarrow>
     insert_transaction (wager_to_row (external_wager (params_of cmd tid DigestVersion digest now))) d
       = Inr ((), d1) \<Longrightarrow>
     settles u d1 (external_wager (params_of cmd tid DigestVersion digest now)) t' d' \<Longrightarrow>
     submit_spec u cmd digest d (resultOf t' False) d'"

inductive_cases submit_specE: "submit_spec u cmd digest d r d'"

lemma external_wager_fields [simp]:
  "tx_walletID (external_wager (params_of cmd i v g now)) = sc_WalletID cmd"
  "tx_id (external_wager (params_of cmd i v g now)) = i"
  "tx_kind (external_wager (params_of cmd i v g now)) = sc_Kind cmd"
  "tx_digest (external_wager (params_of cmd i v g now)) = g"
  "tx_digestVersion (external_wager (params_of cmd i v g now)) = v"
  "tx_providerID (external_wager (params_of cmd i v g now)) = sc_ProviderID cmd"
  "tx_idempotencyKey (external_wager (params_of cmd i v g now)) = sc_IdempotencyKey cmd"
  "tx_externalTransactionID (external_wager (params_of cmd i v g now)) = sc_ExternalTransactionID cmd"
  "tx_amount (external_wager (params_of cmd i v g now)) = sc_Amount cmd"
  by (simp_all add: external_wager_def params_of_def)

lemma external_wager_row_ok: "external_params_ok p \<Longrightarrow> wager_row_ok (external_wager p)"
  by (auto simp: external_params_ok_def external_wager_def wager_row_ok_def)

lemma submit_new_refines:
  assumes u: "uuid_lib_ok (rt_uuid rt)" and run: "submit_new rt cmd digest c st = (Inr r, st')"
  shows "submit_spec (rt_uuid rt) cmd digest (w_db st) r (w_db st')"
proof -
  from run obtain w st1 now st2 tid st3 st4 where
    l: "wallets_LockByID rt (sc_WalletID cmd) st = (Inr (Some w), st1)"
    and cur: "wal_currency w = currency (sc_Amount cmd)"
    and "clock_Now rt st1 = (Inr now, st2)" "new_id rt st2 = (Inr tid, st3)"
    and p: "external_params_ok (params_of cmd tid DigestVersion digest now)"
    and i: "transactions_Insert rt (external_wager (params_of cmd tid DigestVersion digest now)) st3
       = (Inr (), st4)"
    and x: "resolveAndExecute rt w (external_wager (params_of cmd tid DigestVersion digest now)) now c st4
       = (Inr r, st')"
    unfolding submit_new_def
    by (auto simp: tx_bind_Inr_iff map_err_Inr_iff NewExternalTransaction_Inr_iff
        split: option.splits if_splits)
  then have d: "w_db st3 = w_db st" using wallets_LockByID_Inr(1) [OF l] by (auto simp: tx_invs)
  have ins: "insert_transaction (wager_to_row (external_wager (params_of cmd tid DigestVersion digest now)))
      (w_db st) = Inr ((), w_db st4)"
    using i d by (auto simp: transactions_Insert_def db_call_Inr)
  have w: "wallet_at (rt_uuid rt) (w_db st) (sc_WalletID cmd) w"
    using wallets_LockByID_Inr(2) [OF l] by simp
  then have "wallet_at (rt_uuid rt) (w_db st4) (sc_WalletID cmd) w"
    using insert_transaction_Inr [OF ins] by (auto simp: wallet_at_def)
  then have "settled (rt_uuid rt) (w_db st4)
      (external_wager (params_of cmd tid DigestVersion digest now)) r (w_db st')"
    using resolveAndExecute_refines [OF u external_wager_row_ok [OF p] _ x] by simp
  then show ?thesis
    using spec_fresh [OF p w cur ins] by (auto simp: settled_def)
qed

lemma submitWithinTx_refines:
  assumes u: "uuid_lib_ok (rt_uuid rt)" and key: "sc_IdempotencyKey cmd \<noteq> ''''"
    and run: "submitWithinTx rt cmd digest c st = (Inr r, st')"
  shows "submit_spec (rt_uuid rt) cmd digest (w_db st) r (w_db st')"
proof -
  from run obtain f1 st1 where
    l1: "transactions_ByProviderAndKey rt (sc_ProviderID cmd) (sc_IdempotencyKey cmd) st = (Inr f1, st1)"
    and k1: "(case f1 of
       Some existing \<Rightarrow>
         (if same_projection existing digest then tx_return (resultOf existing True)
          else tx_fail (conflictError CodeIdempotencyConflict None))
     | None \<Rightarrow>
         tx_bind (transactions_ByProviderAndExternalID rt (sc_ProviderID cmd)
           (sc_ExternalTransactionID cmd)) (\<lambda>found2.
         case found2 of
           Some conflicting \<Rightarrow>
             (if tx_idempotencyKey conflicting = sc_IdempotencyKey cmd then
                (if same_projection conflicting digest then tx_return (resultOf conflicting True)
                 else tx_fail (conflictError CodeIdempotencyConflict None))
              else tx_fail (conflictError CodeExternalTransactionConflict None))
         | None \<Rightarrow> submit_new rt cmd digest c)) st1 = (Inr r, st')"
    unfolding submitWithinTx_def tx_bind_Inr_iff by blast
  note b1 = by_provider_Inr [OF l1 [unfolded transactions_ByProviderAndKey_def]]
  show ?thesis
  proof (cases f1)
    case (Some t)
    then obtain row where "row \<in> set (db_transactions (w_db st))" "txr_providerId row = Some (sc_ProviderID cmd)"
      "txr_idempotencyKey row = Some (sc_IdempotencyKey cmd)"
      "rehydrateTransaction (rt_uuid rt) row = Inr t" using b1(2) by blast
    then have "tx_at (rt_uuid rt) (w_db st) t" "tx_providerID t = sc_ProviderID cmd"
      "tx_idempotencyKey t = sc_IdempotencyKey cmd"
      using rehydrate_fields(10,13) [OF u, of row t] by (auto simp: tx_at_def)
    then show ?thesis
      using k1 Some b1(1) spec_replay [of "rt_uuid rt" "w_db st" t cmd digest]
      by (auto split: if_splits)
  next
    case None
    with k1 obtain f2 st2 where
      l2: "transactions_ByProviderAndExternalID rt (sc_ProviderID cmd) (sc_ExternalTransactionID cmd) st1
        = (Inr f2, st2)"
      and k2: "(case f2 of
           Some conflicting \<Rightarrow>
             (if tx_idempotencyKey conflicting = sc_IdempotencyKey cmd then
                (if same_projection conflicting digest then tx_return (resultOf conflicting True)
                 else tx_fail (conflictError CodeIdempotencyConflict None))
              else tx_fail (conflictError CodeExternalTransactionConflict None))
         | None \<Rightarrow> submit_new rt cmd digest c) st2 = (Inr r, st')"
      by (auto simp: tx_bind_Inr_iff)
    note b2 = by_provider_Inr [OF l2 [unfolded transactions_ByProviderAndExternalID_def]]
    show ?thesis
    proof (cases f2)
      case (Some t)
      then obtain row where "row \<in> set (db_transactions (w_db st))" "txr_providerId row = Some (sc_ProviderID cmd)"
        "rehydrateTransaction (rt_uuid rt) row = Inr t" using b2(2) b1(1) by auto
      then have "tx_at (rt_uuid rt) (w_db st) t" "tx_providerID t = sc_ProviderID cmd"
        using rehydrate_fields(13) [OF u, of row t] by (auto simp: tx_at_def)
      then show ?thesis
        using k2 Some b1(1) b2(1) spec_replay [of "rt_uuid rt" "w_db st" t cmd digest]
        by (auto split: if_splits)
    next
      case None
      then have "submit_new rt cmd digest c st2 = (Inr r, st')" using k2 by simp
      from submit_new_refines [OF u this] show ?thesis using b1(1) b2(1) by simp
    qed
  qed
qed

lemma submit_spec_step:
  assumes "submit_spec u cmd digest d r d'"
  shows "d' = d \<or> fin_step u d d'"
  using assms
proof cases
  case (spec_fresh tid now w d1 t')
  then have "fin_step u d d'"
    by (intro step_submit [OF spec_fresh(2) _ _ spec_fresh(5,6)]) (simp_all add: params_of_def)
  then show ?thesis ..
qed simp

text \<open>A command commits at most once: afterwards its key is taken.\<close>

definition key_columns :: "tx_row \<Rightarrow> string option \<times> string option" where
  "key_columns r = (txr_providerId r, txr_idempotencyKey r)"

lemma settles_columns:
  assumes "settles u d t t' d'"
  shows "map key_columns (db_transactions d') = map key_columns (db_transactions d)"
    "map txr_id (db_transactions d') = map txr_id (db_transactions d)"
proof -
  have p: "map key_columns (db_transactions d2) = map key_columns (db_transactions d1)
      \<and> map txr_id (db_transactions d2) = map txr_id (db_transactions d1)" if "persisted t' s d1 d2" for s d1 d2
    using persisted_eq [OF that] by (auto simp: key_columns_def apply_update_def)
  have e: "db_transactions d2 = db_transactions d1" if "emitted u ks i d1 d2" for ks i d1 d2
    using that by (auto simp: emitted_def)
  have "map key_columns (db_transactions d') = map key_columns (db_transactions d)
      \<and> map txr_id (db_transactions d') = map txr_id (db_transactions d)"
    using assms
  proof cases
    case (settles_post w ro taken dir a consumed claim now w' eid e d1 d2 d3 d4)
    have "db_transactions d1 = db_transactions d"
      using update_wallet_balance_Inr [OF settles_post(8) [unfolded wallet_saved_def]] by simp
    moreover have "db_transactions d2 = db_transactions d1"
      using settles_post(9) by (simp add: insert_ledger_Inr)
    moreover have "db_transactions d3 = db_transactions d2"
      using settles_post(10) by (auto simp: claimed_for_def insert_claim_Inr split: if_splits)
    ultimately show ?thesis using p [OF settles_post(11)] e [OF settles_post(12)] by metis
  next
    case (settles_wait deadline now s d1)
    then show ?thesis using p e by metis
  next
    case (settles_refuse w ref code now d1)
    then show ?thesis using p e by metis
  next
    case (settles_fail w now)
    then show ?thesis using p by blast
  next
    case (settles_loss w ref now d1)
    then show ?thesis using p e by metis
  qed
  then show "map key_columns (db_transactions d') = map key_columns (db_transactions d)"
    "map txr_id (db_transactions d') = map txr_id (db_transactions d)" by simp_all
qed

lemma submit_spec_key:
  assumes "submit_spec u cmd digest d r d'" and "d' \<noteq> d"
  shows "(Some (sc_ProviderID cmd), Some (sc_IdempotencyKey cmd)) \<notin> set (map key_columns (db_transactions d))"
    and "(Some (sc_ProviderID cmd), Some (sc_IdempotencyKey cmd)) \<in> set (map key_columns (db_transactions d'))"
proof -
  have "(Some (sc_ProviderID cmd), Some (sc_IdempotencyKey cmd)) \<notin> set (map key_columns (db_transactions d))
      \<and> (Some (sc_ProviderID cmd), Some (sc_IdempotencyKey cmd)) \<in> set (map key_columns (db_transactions d'))"
    using assms(1)
  proof cases
    case (spec_fresh tid now w d1 t')
    let ?t = "external_wager (params_of cmd tid DigestVersion digest now)"
    have r: "txr_providerId (wager_to_row ?t) = Some (sc_ProviderID cmd)"
      "txr_idempotencyKey (wager_to_row ?t) = Some (sc_IdempotencyKey cmd)"
    proof -
      have "sc_ProviderID cmd \<noteq> ''''" "sc_IdempotencyKey cmd \<noteq> ''''"
        using spec_fresh(2) by (simp_all add: external_params_ok_def params_of_def)
      then show "txr_providerId (wager_to_row ?t) = Some (sc_ProviderID cmd)"
        "txr_idempotencyKey (wager_to_row ?t) = Some (sc_IdempotencyKey cmd)"
        by (simp_all add: wager_to_row_def)
    qed
    have "(Some (sc_ProviderID cmd), Some (sc_IdempotencyKey cmd))
        \<in> set (map key_columns (db_transactions d1))"
      using insert_transaction_Inr [OF spec_fresh(5)] r by (simp add: key_columns_def)
    moreover have "map key_columns (db_transactions d') = map key_columns (db_transactions d1)"
      by (rule settles_columns [OF spec_fresh(6)])
    ultimately show ?thesis
      using insert_transaction_keys(1) [OF spec_fresh(5) r] unfolding key_columns_def by simp
  qed (use assms(2) in simp)
  then show "(Some (sc_ProviderID cmd), Some (sc_IdempotencyKey cmd)) \<notin> set (map key_columns (db_transactions d))"
    "(Some (sc_ProviderID cmd), Some (sc_IdempotencyKey cmd)) \<in> set (map key_columns (db_transactions d'))"
    by simp_all
qed

lemma submit_once:
  "submit_spec u cmd digest d r d1 \<Longrightarrow> d1 \<noteq> d \<Longrightarrow> submit_spec u cmd digest d1 r' d2 \<Longrightarrow> d2 = d1"
  using submit_spec_key by blast

lemma submit_attempt_db:
  assumes u: "uuid_lib_ok (rt_uuid rt)" and key: "sc_IdempotencyKey cmd \<noteq> ''''"
    and run: "submit_attempt rt cmd digest c st = (res, st')"
  shows "w_db st' = w_db st \<or> (\<exists>r. submit_spec (rt_uuid rt) cmd digest (w_db st) r (w_db st'))"
    and "res = Inr r \<Longrightarrow> submit_spec (rt_uuid rt) cmd digest (w_db st) r (w_db st')"
proof -
  let ?body = "tx_bind (submitWithinTx rt cmd digest c) (\<lambda>result.
              tx_bind (hitFailpoint rt) (\<lambda>_. tx_return result))"
  have b: "submit_spec (rt_uuid rt) cmd digest (w_db st) r (w_db st2)"
    if "?body (started st) = (Inr r, st2)" for r st2
  proof -
    from that obtain st1 where s: "submitWithinTx rt cmd digest c (started st) = (Inr r, st1)"
        and "st2 = st1"
      by (auto simp: tx_bind_Inr_iff hitFailpoint_def split: option.splits)
    then show ?thesis using submitWithinTx_refines [OF u key s] by simp
  qed
  show "w_db st' = w_db st \<or> (\<exists>r. submit_spec (rt_uuid rt) cmd digest (w_db st) r (w_db st'))"
    using InTx_db [OF run [unfolded submit_attempt_def]] b by metis
  show "res = Inr r \<Longrightarrow> submit_spec (rt_uuid rt) cmd digest (w_db st) r (w_db st')"
    using InTx_Inr [of rt ?body st r st'] run b by (auto simp: submit_attempt_def)
qed

lemma submit_loop_refines:
  assumes u: "uuid_lib_ok (rt_uuid rt)" and key: "sc_IdempotencyKey cmd \<noteq> ''''"
    and run: "submit_loop rt cmd digest c n lst st = (res, st')"
  shows "(w_db st' = w_db st \<or> (\<exists>r. submit_spec (rt_uuid rt) cmd digest (w_db st) r (w_db st')))
    \<and> (\<forall>r. res = Inr r \<longrightarrow> submit_spec (rt_uuid rt) cmd digest (w_db st) r (w_db st')
          \<or> submit_spec (rt_uuid rt) cmd digest (w_db st') r (w_db st'))"
  using run
proof (induction n arbitrary: lst st)
  case 0
  then show ?case by auto
next
  case (Suc n)
  let ?spec = "submit_spec (rt_uuid rt) cmd digest"
  obtain x st1 where a: "submit_attempt rt cmd digest c st = (x, st1)"
    by (cases "submit_attempt rt cmd digest c st")
  note A = submit_attempt_db [OF u key a]
  show ?case
  proof (cases x)
    case (Inr r)
    then have "res = Inr r" "st' = st1" using Suc.prems a by simp_all
    then show ?thesis using A Inr by blast
  next
    case (Inl e)
    show ?thesis
    proof (cases "errors_Is e ErrConcurrentWrite")
      case False
      then have "res = Inl e" "st' = st1" using Suc.prems a Inl by simp_all
      then show ?thesis using A(1) by blast
    next
      case True
      then have "submit_loop rt cmd digest c n (Some e) st1 = (res, st')"
        using Suc.prems a Inl by simp
      note I = Suc.IH [OF this]
      show ?thesis
      proof (cases "w_db st1 = w_db st")
        case True
        then show ?thesis using I by simp
      next
        case False
        with A(1) obtain r0 where s: "?spec (w_db st) r0 (w_db st1)" by blast
        then have "w_db st' = w_db st1" using I submit_once False by blast
        then show ?thesis using I s by auto
      qed
    qed
  qed
qed

lemma correlationOrNew_db: "correlationOrNew rt c st = (x, st') \<Longrightarrow> w_db st' = w_db st \<and> (\<exists>y. x = Inr y)"
  by (auto simp: correlationOrNew_def split: if_splits option.splits)

lemma SubmitWagerTransaction_refines:
  assumes u: "uuid_lib_ok (rt_uuid rt)" and run: "SubmitWagerTransaction rt cmd st = (res, st')"
  defines "digest \<equiv> DigestOf (rt_uuid rt) (projection cmd)"
  shows "(w_db st' = w_db st \<or> (\<exists>r. submit_spec (rt_uuid rt) cmd digest (w_db st) r (w_db st')))
    \<and> (\<forall>r. res = Inr r \<longrightarrow> submit_spec (rt_uuid rt) cmd digest (w_db st) r (w_db st')
          \<or> submit_spec (rt_uuid rt) cmd digest (w_db st') r (w_db st'))"
proof (cases "SubmitWagerCommand_Validate cmd")
  case (Inl e)
  then show ?thesis using run by (auto simp: SubmitWagerTransaction_def tx_bind_def)
next
  case (Inr y)
  obtain x st1 where c: "correlationOrNew rt (sc_CorrelationID cmd) st = (x, st1)"
    by (cases "correlationOrNew rt (sc_CorrelationID cmd) st")
  from correlationOrNew_db [OF c] obtain z where z: "w_db st1 = w_db st" "x = Inr z" by blast
  have "sc_IdempotencyKey cmd \<noteq> ''''"
    using Inr by (simp add: SubmitWagerCommand_Validate_Inr submit_ok_def)
  moreover have "submit_loop rt cmd digest z maxConcurrentWriteRetries None st1 = (res, st')"
    using run c z Inr by (simp add: SubmitWagerTransaction_def tx_bind_def digest_def Let_def)
  ultimately show ?thesis using submit_loop_refines [OF u] z(1) by metis
qed

end
