(* ===== verification/UseCases.thy ===== *)
theory UseCases
  imports Refine
begin

text \<open>
  The refinement of the remaining use cases: opening a wallet, recovering a pending reference, a
  delivery from the inbox and the lease of due references. \<open>service_reach\<close> is the database after any
  sequence of use cases, each with a runtime of its own; the financial invariant holds in all.
\<close>

section \<open>Opening a wallet\<close>

lemma new_id_db: "new_id rt st = (x, st') \<Longrightarrow> w_db st' = w_db st"
  by (auto simp: new_id_def split: option.splits)

lemma open_body_refines:
  assumes new: "NewWallet i p cur b now = Inr w" and run: "open_body rt w now c st = (Inr x, st')"
  shows "fin_step (rt_uuid rt) (w_db st) (w_db st')"
proof -
  let ?ins = "\<lambda>st. case wallets_Insert rt w st of
         (Inl e, st') \<Rightarrow>
           (if errors_Is e ErrWalletExists
            then (Inl (conflictError CodeWalletAlreadyExists (Some e)), st') else (Inl e, st'))
       | (Inr u, st') \<Rightarrow> (Inr u, st')"
  from run obtain y st1 where i: "?ins st = (Inr y, st1)"
    and rest: "(if \<not> IsPositive (wal_balance w) then tx_return ()
     else
       tx_bind (new_id rt) (\<lambda>tid.
       tx_bind (tx_domain (NewInternalOpening tid (wal_id w) (wal_playerID w) (wal_balance w) now)) (\<lambda>opening.
       tx_bind (tx_domain (MarkProcessed opening uuid_Nil (wal_balance w) now)) (\<lambda>processed.
       tx_bind (transactions_Insert rt processed) (\<lambda>_.
       tx_bind (tx_domain (map_err FErrMoney (Zero (wal_currency w)))) (\<lambda>zero.
       tx_bind (new_id rt) (\<lambda>eid.
       tx_bind (tx_domain (NewWalletLedgerEntry eid (wal_id w) (tx_id processed) DirectionCredit
         (wal_balance w) zero (wal_balance w) now)) (\<lambda>entry.
       tx_bind (ledger_Insert rt entry) (\<lambda>_.
       tx_bind (emitProcessed rt w processed (wal_balance w) now c) (\<lambda>_.
       emitBalanceChanged rt w processed
         \<lparr>mv_direction = DirectionCredit, mv_amount = wal_balance w\<rparr> zero (wal_balance w) now
         c)))))))))) st1 = (Inr x, st')"
    unfolding open_body_def tx_bind_Inr_iff [of _ _ st] by blast
  from i have "wallets_Insert rt w st = (Inr (), st1)" by (auto split: prod.splits sum.splits if_splits)
  then have ins: "insert_wallet (wallet_to_row w) (w_db st) = Inr ((), w_db st1)"
    by (auto simp: wallets_Insert_def db_call_Inr)
  have pos: "IsPositive (wal_balance w) \<longleftrightarrow> 0 < bal w" by (simp add: IsPositive_def i64_less_def)
  have nn: "0 \<le> bal w" using new by (auto simp: NewWallet_Inr_iff wallet_ok_def)
  show ?thesis
  proof (cases "IsPositive (wal_balance w)")
    case False
    then have "w_db st' = w_db st1" "bal w = 0" using rest pos nn by simp_all
    then show ?thesis using step_open_zero [OF new _ ins] by simp
  next
    case True
    with rest obtain tid st2 op0 t st3 zero eid st4 e st5 st6 where
      "new_id rt st1 = (Inr tid, st2)"
      and o': "NewInternalOpening tid (wal_id w) (wal_playerID w) (wal_balance w) now = Inr op0"
      and m: "MarkProcessed op0 uuid_Nil (wal_balance w) now = Inr t"
      and ti: "transactions_Insert rt t st2 = (Inr (), st3)"
      and z: "Zero (wal_currency w) = Inr zero" and "new_id rt st3 = (Inr eid, st4)"
      and e: "NewWalletLedgerEntry eid (wal_id w) (tx_id t) DirectionCredit (wal_balance w) zero
         (wal_balance w) now = Inr e"
      and l: "ledger_Insert rt e st4 = (Inr (), st5)"
      and e1: "emitProcessed rt w t (wal_balance w) now c st5 = (Inr (), st6)"
      and e2: "emitBalanceChanged rt w t \<lparr>mv_direction = DirectionCredit, mv_amount = wal_balance w\<rparr>
         zero (wal_balance w) now c st6 = (Inr x, st')"
      by (auto simp: tx_bind_Inr_iff map_err_Inr_iff)
    then have d: "w_db st2 = w_db st1" "w_db st4 = w_db st3" by (auto simp: new_id_Inr)
    have "insert_transaction (wager_to_row t) (w_db st1) = Inr ((), w_db st3)"
      "insert_ledger (ledger_to_row e) (w_db st3) = Inr ((), w_db st5)"
      using ti l d by (auto simp: transactions_Insert_def ledger_Insert_def db_call_Inr)
    moreover have "emitted (rt_uuid rt) [TypeWagerTransactionProcessed, TypeWalletBalanceChanged]
        (wal_id w) (w_db st5) (w_db st')"
      using emitted_append [OF emitProcessed_Inr [OF e1] emitBalanceChanged_Inr [OF e2]] by simp
    ultimately show ?thesis
      using step_open_positive [OF new _ ins o' m _ z e] True pos by blast
  qed
qed

text \<open>The handler ends before its transaction begins, or as its transaction ends.\<close>

lemma OpenWallet_cases:
  assumes run: "OpenWallet rt cmd st = (res, st')"
  shows "(w_db st' = w_db st \<and> (\<exists>e. res = Inl e))
    \<or> (\<exists>wid now w cid st3 q. NewWallet wid (oc_PlayerID cmd) (currency (oc_InitialBalance cmd))
          (oc_InitialBalance cmd) now = Inr w \<and> w_db st3 = w_db st
        \<and> InTx rt (open_body rt w now cid) st3 = (q, st')
        \<and> res = (case q of Inl e \<Rightarrow> Inl e | Inr _ \<Rightarrow> Inr (walletView w)))"
proof (cases "OpenWalletCommand_Validate cmd")
  case (Inl e)
  then show ?thesis using run by (auto simp: OpenWallet_def tx_bind_def)
next
  case (Inr y)
  obtain now st1 where n: "clock_Now rt st = (Inr now, st1)" "w_db st1 = w_db st"
    by (auto simp: clock_Now_def)
  obtain a st2 where i: "new_id rt st1 = (a, st2)" "w_db st2 = w_db st1"
    using new_id_db by (cases "new_id rt st1") blast
  show ?thesis
  proof (cases a)
    case (Inl e)
    then show ?thesis using run Inr n i by (auto simp: OpenWallet_def tx_bind_def)
  next
    case (Inr wid)
    show ?thesis
    proof (cases "NewWallet wid (oc_PlayerID cmd) (currency (oc_InitialBalance cmd)) (oc_InitialBalance cmd) now")
      case (Inl e)
      then show ?thesis
        using run \<open>OpenWalletCommand_Validate cmd = Inr y\<close> n i Inr
        by (auto simp: OpenWallet_def tx_bind_def)
    next
      case (Inr w)
      obtain b st3 where c: "correlationOrNew rt (oc_CorrelationID cmd) st2 = (b, st3)"
        by (cases "correlationOrNew rt (oc_CorrelationID cmd) st2")
      from correlationOrNew_db [OF c] obtain cid where c': "w_db st3 = w_db st2" "b = Inr cid" by blast
      obtain q st4 where x: "InTx rt (open_body rt w now cid) st3 = (q, st4)"
        by (cases "InTx rt (open_body rt w now cid) st3")
      have fin: "(case q of Inl e \<Rightarrow> (Inl e, st4) | Inr _ \<Rightarrow> (Inr (walletView w), st4)) = (res, st')"
        using run \<open>OpenWalletCommand_Validate cmd = Inr y\<close> \<open>a = Inr wid\<close> n i Inr c c'(2) x
        by (simp add: OpenWallet_def tx_bind_def split: sum.splits)
      then have "st4 = st'" "res = (case q of Inl e \<Rightarrow> Inl e | Inr _ \<Rightarrow> Inr (walletView w))"
        by (auto split: sum.splits)
      moreover from this x have x': "InTx rt (open_body rt w now cid) st3 = (q, st')" by simp
      moreover have d: "w_db st3 = w_db st" using c'(1) i(2) n(2) by simp
      ultimately show ?thesis
        by (intro disjI2 exI conjI) (rule Inr, rule d, rule x', assumption)
    qed
  qed
qed

lemma OpenWallet_refines:
  assumes run: "OpenWallet rt cmd st = (res, st')"
  shows "w_db st' = w_db st \<or> fin_step (rt_uuid rt) (w_db st) (w_db st')"
    and "res = Inr v \<Longrightarrow> fin_step (rt_uuid rt) (w_db st) (w_db st')"
proof -
  have "(w_db st' = w_db st \<or> fin_step (rt_uuid rt) (w_db st) (w_db st'))
      \<and> (\<forall>v. res = Inr v \<longrightarrow> fin_step (rt_uuid rt) (w_db st) (w_db st'))"
    using OpenWallet_cases [OF run]
  proof (elim disjE exE conjE)
    fix wid now w cid st3 q
    assume new: "NewWallet wid (oc_PlayerID cmd) (currency (oc_InitialBalance cmd)) (oc_InitialBalance cmd) now
        = Inr w" and d: "w_db st3 = w_db st" and x: "InTx rt (open_body rt w now cid) st3 = (q, st')"
      and res: "res = (case q of Inl e \<Rightarrow> Inl e | Inr _ \<Rightarrow> Inr (walletView w))"
    have "w_db st' = w_db st3 \<or> fin_step (rt_uuid rt) (w_db st3) (w_db st')"
      using InTx_db [OF x] open_body_refines [OF new] by fastforce
    moreover have "q = Inr () \<Longrightarrow> fin_step (rt_uuid rt) (w_db st3) (w_db st')"
      using InTx_Inr [of rt _ st3 "()" st'] x open_body_refines [OF new] by fastforce
    ultimately show ?thesis using d res by (auto split: sum.splits)
  qed simp
  then show "w_db st' = w_db st \<or> fin_step (rt_uuid rt) (w_db st) (w_db st')"
    "res = Inr v \<Longrightarrow> fin_step (rt_uuid rt) (w_db st) (w_db st')" by blast+
qed

section \<open>Recovering a pending reference\<close>

definition rescheduled :: "time \<Rightarrow> time \<Rightarrow> int \<Rightarrow> tx_row \<Rightarrow> tx_row" where
  "rescheduled now nextAt attempts r =
     r\<lparr>txr_nextAttemptAt := Some (time_UTC nextAt), txr_referenceAttempts := attempts,
       txr_claimedUntil := None, txr_updatedAt := time_UTC now\<rparr>"

inductive resolve_spec :: "uuid_lib \<Rightarrow> transaction_id \<Rightarrow> db \<Rightarrow> wager_result \<Rightarrow> db \<Rightarrow> bool"
  for u i d where
  resolve_final:
    "tx_at u d t \<Longrightarrow> tx_id t = i \<Longrightarrow> wager_IsTerminal t \<Longrightarrow> resolve_spec u i d (resultOf t False) d"
| resolve_settled:
    "tx_at u d t \<Longrightarrow> tx_id t = i \<Longrightarrow> tx_state t = StatePendingReference \<Longrightarrow> settles u d t t' d' \<Longrightarrow>
     resolve_spec u i d (resultOf t' False) d'"
| resolve_later:
    "tx_at u d t \<Longrightarrow> tx_id t = i \<Longrightarrow> tx_state t = StatePendingReference \<Longrightarrow>
     time_Before now (tx_referenceDeadline t) \<Longrightarrow>
     update_transactions (\<lambda>r. txr_id r = i)
       (rescheduled now (ReferenceNextAttemptAt (n + 1) (uuid_String u i) now) (n + 1)) d = Inr ((), d') \<Longrightarrow>
     resolve_spec u i d (resultOf (t\<lparr>tx_updatedAt := now\<rparr>) False) d'"

inductive_cases resolve_specE: "resolve_spec u i d r d'"

lemma transactions_LockByID_Inr:
  assumes u: "uuid_lib_ok (rt_uuid rt)"
    and run: "transactions_LockByID rt i st = (Inr (Some (t, n)), st')"
  shows "w_db st' = w_db st" "tx_at (rt_uuid rt) (w_db st) t" "tx_id t = i"
proof -
  from run obtain r where r: "find (\<lambda>r. txr_id r = i) (db_transactions (w_db st)) = Some r"
    "rehydrateTransaction (rt_uuid rt) r = Inr t" "w_db st' = w_db st"
    by (auto simp: transactions_LockByID_def tx_invs scanTransactionWithAttempts_Inr)
  then show "w_db st' = w_db st" "tx_at (rt_uuid rt) (w_db st) t" "tx_id t = i"
    using find_Some_in [OF r(1)] rehydrate_fields(1) [OF u r(2)] by (auto simp: tx_at_def)
qed

lemma rescheduleReference_Inr:
  assumes "rescheduleReference rt t n now st = (Inr r, st')"
  shows "r = resultOf (t\<lparr>tx_updatedAt := now\<rparr>) False"
    "update_transactions (\<lambda>r. txr_id r = tx_id t)
       (rescheduled now (ReferenceNextAttemptAt (n + 1) (uuid_String (rt_uuid rt) (tx_id t)) now) (n + 1))
       (w_db st) = Inr ((), w_db st')"
  using assms unfolding rescheduled_def
  by (auto simp: rescheduleReference_def Let_def tx_bind_Inr_iff RehydrateTransaction_Inr_iff
      transactions_RescheduleReference_def db_call_Inr)

lemma resolve_body_refines:
  assumes u: "uuid_lib_ok (rt_uuid rt)" and run: "resolve_body rt cmd c st = (Inr r, st')"
  shows "resolve_spec (rt_uuid rt) (rcm_TransactionID cmd) (w_db st) r (w_db st')"
proof -
  let ?u = "rt_uuid rt" and ?i = "rcm_TransactionID cmd"
  from run obtain t n st1 where l: "transactions_LockByID rt ?i st = (Inr (Some (t, n)), st1)"
    and k: "(if wager_IsTerminal t then tx_return (resultOf t False)
         else if tx_state t \<noteq> StatePendingReference then tx_fail (contractError CodeInvalidRequest)
         else
           tx_bind (wallets_LockByID rt (tx_walletID t)) (\<lambda>wall.
           case wall of
             None \<Rightarrow> tx_fail (corruptRecord (Some (Plain None)))
           | Some w \<Rightarrow>
               tx_bind (clock_Now rt) (\<lambda>now. \<lambda>st.
               case loadReference rt t st of
                 (Inl e, st') \<Rightarrow>
                   (if errors_Is e ErrCorruptPersistedRecord then persist_failure rt w t now st'
                    else (Inl e, st'))
               | (Inr ro, st') \<Rightarrow>
                   tx_bind (planOperation rt t ro) (\<lambda>plan.
                   if pl_pending plan then
                     (if \<not> time_Before now (tx_referenceDeadline t)
                      then rejectReferenceNotFound rt w t now c
                      else rescheduleReference rt t n now)
                   else executePlan rt w t plan now c) st'))) st1 = (Inr r, st')"
    unfolding resolve_body_def tx_bind_Inr_iff [of _ _ st]
    by (auto split: option.splits simp del: split_paired_Ex)
  note L = transactions_LockByID_Inr [OF u l]
  show ?thesis
  proof (cases "wager_IsTerminal t")
    case True
    then show ?thesis using k L resolve_final [OF L(2,3)] by simp
  next
    case False
    then have ps: "tx_state t = StatePendingReference" using k by (simp split: if_splits)
    from k False ps obtain w st2 now st3 where wl: "wallets_LockByID rt (tx_walletID t) st1 = (Inr (Some w), st2)"
      and n: "clock_Now rt st2 = (Inr now, st3)"
      and k2: "(case loadReference rt t st3 of
                 (Inl e, st') \<Rightarrow>
                   (if errors_Is e ErrCorruptPersistedRecord then persist_failure rt w t now st'
                    else (Inl e, st'))
               | (Inr ro, st') \<Rightarrow>
                   tx_bind (planOperation rt t ro) (\<lambda>plan.
                   if pl_pending plan then
                     (if \<not> time_Before now (tx_referenceDeadline t)
                      then rejectReferenceNotFound rt w t now c
                      else rescheduleReference rt t n now)
                   else executePlan rt w t plan now c) st') = (Inr r, st')"
      by (auto simp: tx_bind_Inr_iff [of "wallets_LockByID rt (tx_walletID t)"]
          tx_bind_Inr_iff [of "clock_Now rt"] split: option.splits)
    have d3: "w_db st3 = w_db st"
      using n L(1) wallets_LockByID_Inr(1) [OF wl] by (auto simp: clock_Now_Inr)
    have w: "wallet_at ?u (w_db st) (tx_walletID t) w"
      using wallets_LockByID_Inr(2) [OF wl] L(1) by simp
    have tr: "wager_row_ok t"
      using L(2) rehydrateTransaction_ok [OF u] by (auto simp: tx_at_def wager_db_ok_def)
    have fine: "settled ?u (w_db st) t r (w_db st') \<Longrightarrow> ?thesis"
      using resolve_settled [OF L(2,3) ps] by (auto simp: settled_def)
    obtain x st4 where lr: "loadReference rt t st3 = (x, st4)" by (cases "loadReference rt t st3")
    show ?thesis
    proof (cases x)
      case (Inl e)
      then have "persist_failure rt w t now st4 = (Inr r, st')" using k2 lr by (auto split: if_splits)
      moreover have "w_db st4 = w_db st" using lr Inl loadReference_Inl d3 by metis
      ultimately show ?thesis using persist_failure_refines [of rt w t now st4 r st'] w fine by simp
    next
      case (Inr ro)
      have ro: "w_db st4 = w_db st" "reference_at ?u (w_db st) ro"
        using lr Inr loadReference_Inr d3 by metis+
      from k2 lr Inr obtain plan st5 where p: "planOperation rt t ro st4 = (Inr plan, st5)"
        and k3: "(if pl_pending plan then
                     (if \<not> time_Before now (tx_referenceDeadline t)
                      then rejectReferenceNotFound rt w t now c
                      else rescheduleReference rt t n now)
                   else executePlan rt w t plan now c) st5 = (Inr r, st')"
        by (auto simp: tx_bind_Inr_iff)
      from planOperation_Inr [OF u tr ro(2) p] obtain taken where P: "w_db st5 = w_db st"
        "Kind_IsExternal (tx_kind t)" "plan = with_reference ro (plan_of (decide t ro taken))"
        using ro(1) by metis
      consider (run) "\<not> pl_pending plan" | (late) "pl_pending plan" "\<not> time_Before now (tx_referenceDeadline t)"
        | (wait) "pl_pending plan" "time_Before now (tx_referenceDeadline t)" by blast
      then show ?thesis
      proof cases
        case run
        then have "executePlan rt w t (with_reference ro (plan_of (decide t ro taken))) now c st5 = (Inr r, st')"
          using k3 P(3) by simp
        then show ?thesis
          using executePlan_refines [OF u, of st5 t w ro taken now c r st'] w ro(2) P fine by simp
      next
        case late
        then have "persist_rejection rt w t uuid_Nil FailureReferenceNotFound now c st5 = (Inr r, st')"
          using k3 by (simp add: rejectReferenceNotFound_def)
        then show ?thesis
          using persist_rejection_refines [of rt w t] w wallet_atD(2) [OF u w] P(1) fine by fastforce
      next
        case wait
        then have "rescheduleReference rt t n now st5 = (Inr r, st')" using k3 by simp
        note R = rescheduleReference_Inr [OF this]
        then show ?thesis
          using resolve_later [OF L(2,3) ps wait(2)] L(3) P(1) by auto
      qed
    qed
  qed
qed

lemma update_schedule_step:
  assumes "update_transactions hit f d = Inr ((), d')" and "\<And>r. same_but_schedule r (f r)"
  shows "fin_step u d d'"
proof -
  have "d' = d\<lparr>db_transactions := map (\<lambda>r. if hit r then f r else r) (db_transactions d)\<rparr>"
    using update_transactions_Inr [OF assms(1)] by simp
  then show ?thesis
    using step_schedule [of d "\<lambda>r. if hit r then f r else r" u] assms(2)
    by (simp add: same_but_schedule_def)
qed

lemma resolve_spec_step: "resolve_spec u i d r d' \<Longrightarrow> d' = d \<or> fin_step u d d'"
  by (erule resolve_specE)
    (auto intro: step_recover update_schedule_step simp: rescheduled_def same_but_schedule_def)

lemma ResolvePendingReference_refines:
  assumes u: "uuid_lib_ok (rt_uuid rt)" and run: "ResolvePendingReference rt cmd st = (res, st')"
  shows "(w_db st' = w_db st \<or> (\<exists>r. resolve_spec (rt_uuid rt) (rcm_TransactionID cmd) (w_db st) r (w_db st')))
    \<and> (\<forall>r. res = Inr r \<longrightarrow> resolve_spec (rt_uuid rt) (rcm_TransactionID cmd) (w_db st) r (w_db st'))"
proof (cases "ResolvePendingReferenceCommand_Validate cmd")
  case (Inl e)
  then show ?thesis using run by (auto simp: ResolvePendingReference_def tx_bind_def)
next
  case (Inr y)
  obtain x st1 where c: "correlationOrNew rt (rcm_CorrelationID cmd) st = (x, st1)"
    by (cases "correlationOrNew rt (rcm_CorrelationID cmd) st")
  from correlationOrNew_db [OF c] obtain z where z: "w_db st1 = w_db st" "x = Inr z" by blast
  have i: "InTx rt (resolve_body rt cmd z) st1 = (res, st')"
    using run c z Inr by (simp add: ResolvePendingReference_def tx_bind_def)
  show ?thesis
    using InTx_db [OF i] InTx_Inr [of rt "resolve_body rt cmd z" st1 _ st'] i
      resolve_body_refines [OF u] z(1) by fastforce
qed

section \<open>A delivery from the inbox\<close>

text \<open>
  A new delivery registers the message, runs the command as \<open>submit_spec\<close> says and completes the
  registration, all in one step. A known one leaves the database alone.
\<close>

definition inbox_keys :: "db \<Rightarrow> (string \<times> string) set" where
  "inbox_keys d = message_keys (db_inbox d)"

definition delivery_key :: "inbox_delivery \<Rightarrow> string \<times> string" where
  "delivery_key dl = (dl_ConsumerName dl, dl_MessageID dl)"

inductive inbox_spec ::
  "uuid_lib \<Rightarrow> submit_command \<Rightarrow> inbox_delivery \<Rightarrow> string \<Rightarrow> db \<Rightarrow> wager_result \<Rightarrow> db \<Rightarrow> bool"
  for u cmd dl digest d where
  inbox_fresh:
    "delivery_key dl \<notin> inbox_keys d \<Longrightarrow>
     (ibr_consumerName row, ibr_messageId row) = delivery_key dl \<Longrightarrow> ibr_digest row = dl_Digest dl \<Longrightarrow>
     submit_spec u cmd digest (d\<lparr>db_inbox := db_inbox d @ [row]\<rparr>) r d2 \<Longrightarrow>
     update_inbox_completed (dl_ConsumerName dl) (dl_MessageID dl) t d2 = Inr ((), d') \<Longrightarrow>
     inbox_spec u cmd dl digest d r d'"

inductive_cases inbox_specE: "inbox_spec u cmd dl digest d r d'"

lemma inbox_Begin_Inr:
  assumes "inbox_Begin rt dl st = (Inr x, st')"
  shows "x = Some g \<Longrightarrow> w_db st' = w_db st \<and> delivery_key dl \<in> inbox_keys (w_db st)
       \<and> (\<exists>r \<in> set (db_inbox (w_db st)). (ibr_consumerName r, ibr_messageId r) = delivery_key dl
              \<and> ibr_digest r = g)"
    and "x = None \<Longrightarrow> delivery_key dl \<notin> inbox_keys (w_db st)
       \<and> (\<exists>row. (ibr_consumerName row, ibr_messageId row) = delivery_key dl \<and> ibr_digest row = dl_Digest dl
            \<and> w_db st' = (w_db st)\<lparr>db_inbox := db_inbox (w_db st) @ [row]\<rparr>)"
proof -
  from assms obtain i where i: "rt_NewV7 rt (w_ids st) = Some i"
    by (auto simp: inbox_Begin_def split: option.splits)
  let ?row = "\<lparr>ibr_id = i, ibr_consumerName = dl_ConsumerName dl, ibr_messageId = dl_MessageID dl,
              ibr_digest = dl_Digest dl, ibr_receivedAt = time_UTC (dl_ReceivedAt dl),
              ibr_completedAt = None\<rparr>"
  let ?st = "st\<lparr>w_ids := Suc (w_ids st)\<rparr>"
  from assms i obtain ins st1 where b: "db_call rt (insert_inbox ?row) ?st = (Inr ins, st1)"
    and k: "(case ins of
             Some _ \<Rightarrow> tx_return None
           | None \<Rightarrow>
               tx_bind (db_call rt (select_inbox_digest (dl_ConsumerName dl) (dl_MessageID dl))) (\<lambda>found.
                 case found of
                   None \<Rightarrow> tx_fail (mapError DriverError)
                 | Some digest \<Rightarrow> tx_return (Some digest))) st1 = (Inr x, st')"
    by (auto simp: inbox_Begin_def tx_bind_Inr_iff [of _ _ ?st])
  from b have n: "insert_inbox ?row (w_db st) = Inr (ins, w_db st1)" by (auto simp: db_call_Inr)
  note N = insert_inbox_Inr [OF n]
  have "(\<forall>g. x = Some g \<longrightarrow> w_db st' = w_db st \<and> delivery_key dl \<in> inbox_keys (w_db st)
       \<and> (\<exists>r \<in> set (db_inbox (w_db st)). (ibr_consumerName r, ibr_messageId r) = delivery_key dl
              \<and> ibr_digest r = g))
     \<and> (x = None \<longrightarrow> delivery_key dl \<notin> inbox_keys (w_db st)
       \<and> (\<exists>row. (ibr_consumerName row, ibr_messageId row) = delivery_key dl \<and> ibr_digest row = dl_Digest dl
            \<and> w_db st' = (w_db st)\<lparr>db_inbox := db_inbox (w_db st) @ [row]\<rparr>))"
  proof (cases ins)
    case None
    with k obtain g st2 where q: "db_call rt (select_inbox_digest (dl_ConsumerName dl) (dl_MessageID dl)) st1
        = (Inr (Some g), st2)" and x: "x = Some g" "st' = st2"
      by (auto simp: tx_bind_Inr_iff split: option.splits)
    from q obtain r where f: "find (\<lambda>r. ibr_consumerName r = dl_ConsumerName dl
        \<and> ibr_messageId r = dl_MessageID dl) (db_inbox (w_db st1)) = Some r" "g = ibr_digest r" "w_db st2 = w_db st1"
      by (auto simp: db_call_Inr select_inbox_digest_def)
    then show ?thesis
      using N None x find_Some_in [OF f(1)] by (force simp: delivery_key_def inbox_keys_def message_keys_def)
  next
    case (Some j)
    then have "x = None" "w_db st' = w_db st1" using k by simp_all
    moreover have "(ibr_consumerName ?row, ibr_messageId ?row) = delivery_key dl" "ibr_digest ?row = dl_Digest dl"
      by (simp_all add: delivery_key_def)
    moreover have "w_db st1 = (w_db st)\<lparr>db_inbox := db_inbox (w_db st) @ [?row]\<rparr>"
      "delivery_key dl \<notin> inbox_keys (w_db st)"
      using N Some by (auto simp: delivery_key_def inbox_keys_def message_keys_def)
    ultimately show ?thesis by (metis option.distinct(1))
  qed
  then show "x = Some g \<Longrightarrow> w_db st' = w_db st \<and> delivery_key dl \<in> inbox_keys (w_db st)
       \<and> (\<exists>r \<in> set (db_inbox (w_db st)). (ibr_consumerName r, ibr_messageId r) = delivery_key dl
              \<and> ibr_digest r = g)"
    "x = None \<Longrightarrow> delivery_key dl \<notin> inbox_keys (w_db st)
       \<and> (\<exists>row. (ibr_consumerName row, ibr_messageId row) = delivery_key dl \<and> ibr_digest row = dl_Digest dl
            \<and> w_db st' = (w_db st)\<lparr>db_inbox := db_inbox (w_db st) @ [row]\<rparr>)" by blast+
qed

lemma inbox_closure_refines:
  assumes u: "uuid_lib_ok (rt_uuid rt)" and key: "sc_IdempotencyKey cmd \<noteq> ''''"
    and run: "inbox_closure rt cmd dl digest c r0 st = (Inr dup, r, st')"
  shows "if dup then r = r0 \<and> w_db st' = w_db st \<and> delivery_key dl \<in> inbox_keys (w_db st)
         else inbox_spec (rt_uuid rt) cmd dl digest (w_db st) r (w_db st')"
proof -
  obtain x st1 where b: "inbox_Begin rt dl st = (x, st1)" by (cases "inbox_Begin rt dl st")
  from run b obtain fo where x: "x = Inr fo" by (cases x) (auto simp: inbox_closure_def)
  note B = inbox_Begin_Inr [OF b [unfolded x]]
  show ?thesis
  proof (cases fo)
    case (Some g)
    then have "dup" "r = r0" "st' = st1"
      using run b x by (auto simp: inbox_closure_def split: if_splits)
    then show ?thesis using B(1) [OF Some] by simp
  next
    case None
    from B(2) [OF None] obtain row where R: "delivery_key dl \<notin> inbox_keys (w_db st)"
      "(ibr_consumerName row, ibr_messageId row) = delivery_key dl" "ibr_digest row = dl_Digest dl"
      "w_db st1 = (w_db st)\<lparr>db_inbox := db_inbox (w_db st) @ [row]\<rparr>" by blast
    obtain y st2 where s: "submitWithinTx rt cmd digest c st1 = (y, st2)"
      by (cases "submitWithinTx rt cmd digest c st1")
    obtain z st3 where k: "tx_bind (clock_Now rt) (inbox_Complete rt (dl_ConsumerName dl) (dl_MessageID dl)) st2
        = (z, st3)" by (cases "tx_bind (clock_Now rt) (inbox_Complete rt (dl_ConsumerName dl) (dl_MessageID dl)) st2")
    from run b x None s k have y: "y = Inr r" "z = Inr ()" "\<not> dup" "st' = st3"
      by (auto simp: inbox_closure_def split: sum.splits)
    from k y obtain t where "update_inbox_completed (dl_ConsumerName dl) (dl_MessageID dl) t (w_db st2)
        = Inr ((), w_db st3)"
      by (auto simp: tx_bind_Inr_iff clock_Now_Inr inbox_Complete_def db_call_Inr)
    moreover have "submit_spec (rt_uuid rt) cmd digest (w_db st1) r (w_db st2)"
      using submitWithinTx_refines [OF u key] s y(1) by simp
    ultimately show ?thesis
      using inbox_fresh [OF R(1-3)] R(4) y(3,4) by simp
  qed
qed

lemma inbox_attempt_db:
  assumes u: "uuid_lib_ok (rt_uuid rt)" and key: "sc_IdempotencyKey cmd \<noteq> ''''"
    and run: "inbox_attempt rt cmd dl digest c r0 st = (res, r, st')"
  shows "w_db st' = w_db st \<or> (\<exists>r. inbox_spec (rt_uuid rt) cmd dl digest (w_db st) r (w_db st'))"
    and "res = Inr False \<Longrightarrow> inbox_spec (rt_uuid rt) cmd dl digest (w_db st) r (w_db st')"
    and "res = Inr True \<Longrightarrow> r = r0 \<and> w_db st' = w_db st \<and> delivery_key dl \<in> inbox_keys (w_db st)"
proof -
  have "(w_db st' = w_db st \<or> (\<exists>r. inbox_spec (rt_uuid rt) cmd dl digest (w_db st) r (w_db st')))
      \<and> (\<forall>dup. res = Inr dup \<longrightarrow> (if dup then r = r0 \<and> w_db st' = w_db st \<and> delivery_key dl \<in> inbox_keys (w_db st)
         else inbox_spec (rt_uuid rt) cmd dl digest (w_db st) r (w_db st')))"
  proof (cases "begin_tx rt st")
    case (Pair b v)
    show ?thesis
    proof (cases b)
      case (Inl e)
      then have "st' = v" "res = Inl e" using run Pair by (simp_all add: inbox_attempt_def)
      then show ?thesis using begin_tx_Inl [of rt st e v] Pair Inl by simp
    next
      case (Inr x)
      then have v: "w_db v = w_db st" using Pair by (auto simp: begin_tx_Inr)
      obtain y r1 st2 where cl: "inbox_closure rt cmd dl digest c r0 v = (y, r1, st2)"
        by (cases "inbox_closure rt cmd dl digest c r0 v")
      then have f: "finish_tx rt (w_db st) (y, st2) = (res, st')" and r: "r = r1"
        using run Pair Inr by (auto simp: inbox_attempt_def split: prod.splits)
      note C = inbox_closure_refines [OF u key, of dl digest c r0 v _ r1 st2]
      show ?thesis
      proof (cases res)
        case (Inl e)
        from finish_tx_Inl [OF f [unfolded Inl]] show ?thesis
          using C cl v Inl by (fastforce split: if_splits)
      next
        case (Inr dup)
        then have "y = Inr dup" "w_db st' = w_db st2" using f by (auto simp: finish_tx_Inr)
        then show ?thesis using C cl v Inr r by (auto split: if_splits)
      qed
    qed
  qed
  then show "w_db st' = w_db st \<or> (\<exists>r. inbox_spec (rt_uuid rt) cmd dl digest (w_db st) r (w_db st'))"
    "res = Inr False \<Longrightarrow> inbox_spec (rt_uuid rt) cmd dl digest (w_db st) r (w_db st')"
    "res = Inr True \<Longrightarrow> r = r0 \<and> w_db st' = w_db st \<and> delivery_key dl \<in> inbox_keys (w_db st)"
    by (metis (full_types))+
qed

lemma settles_inbox:
  assumes "settles u d t t' d'"
  shows "db_inbox d' = db_inbox d"
proof -
  have p: "db_inbox d2 = db_inbox d1" if "persisted t' s d1 d2" for s d1 d2
    using update_transactions_Inr [OF that [unfolded persisted_def]] by simp
  have e: "db_inbox d2 = db_inbox d1" if "emitted u ks i d1 d2" for ks i d1 d2
    using that by (auto simp: emitted_def)
  show ?thesis
    using assms
  proof cases
    case (settles_post w ro taken dir a consumed claim now w' eid e d1 d2 d3 d4)
    have "db_inbox d1 = db_inbox d"
      using update_wallet_balance_Inr [OF settles_post(8) [unfolded wallet_saved_def]] by simp
    moreover have "db_inbox d2 = db_inbox d1"
      using settles_post(9) by (simp add: insert_ledger_Inr)
    moreover have "db_inbox d3 = db_inbox d2"
      using settles_post(10) by (auto simp: claimed_for_def insert_claim_Inr split: if_splits)
    ultimately show ?thesis using p [OF settles_post(11)] e [OF settles_post(12)] by metis
  qed (use p e in metis)+
qed

lemma submit_spec_inbox: "submit_spec u cmd digest d r d' \<Longrightarrow> db_inbox d' = db_inbox d"
  by (erule submit_specE) (auto dest!: settles_inbox insert_transaction_Inr)

lemma completed_keys:
  assumes "update_inbox_completed c m t d = Inr (x, d')"
  shows "inbox_keys d' = inbox_keys d"
proof -
  let ?key = "\<lambda>r. (ibr_consumerName r, ibr_messageId r)"
  have "map ?key (db_inbox d') = map ?key (db_inbox d)"
    using update_inbox_completed_Inr [OF assms] by simp
  then have "set (map ?key (db_inbox d')) = set (map ?key (db_inbox d))" by (rule arg_cong)
  then show ?thesis by (simp add: inbox_keys_def message_keys_def)
qed

lemma inbox_spec_key:
  assumes "inbox_spec u cmd dl digest d r d'"
  shows "delivery_key dl \<notin> inbox_keys d" "delivery_key dl \<in> inbox_keys d'"
proof -
  have "delivery_key dl \<notin> inbox_keys d \<and> delivery_key dl \<in> inbox_keys d'"
    using assms
  proof cases
    case (inbox_fresh row d2 t)
    then show ?thesis
      using completed_keys [OF inbox_fresh(5)] submit_spec_inbox [OF inbox_fresh(4)]
      by (auto simp: inbox_keys_def message_keys_def)
  qed
  then show "delivery_key dl \<notin> inbox_keys d" "delivery_key dl \<in> inbox_keys d'" by blast+
qed

lemma inbox_loop_refines:
  assumes u: "uuid_lib_ok (rt_uuid rt)" and key: "sc_IdempotencyKey cmd \<noteq> ''''"
    and run: "inbox_loop rt cmd dl digest c n r0 lst st = (res, st')"
  shows "(w_db st' = w_db st \<or> (\<exists>r. inbox_spec (rt_uuid rt) cmd dl digest (w_db st) r (w_db st')))
    \<and> (\<forall>r. res = Inr (r, False) \<longrightarrow> inbox_spec (rt_uuid rt) cmd dl digest (w_db st) r (w_db st'))
    \<and> (\<forall>r. res = Inr (r, True) \<longrightarrow> delivery_key dl \<in> inbox_keys (w_db st'))"
  using run
proof (induction n arbitrary: r0 lst st)
  case 0
  then show ?case by auto
next
  case (Suc n)
  let ?spec = "inbox_spec (rt_uuid rt) cmd dl digest"
  obtain x r1 st1 where a: "inbox_attempt rt cmd dl digest c r0 st = (x, r1, st1)"
    by (cases "inbox_attempt rt cmd dl digest c r0 st")
  note A = inbox_attempt_db [OF u key a]
  show ?case
  proof (cases x)
    case (Inr dup)
    then have "res = Inr (r1, dup)" "st' = st1" using Suc.prems a by simp_all
    then show ?thesis using A Inr by auto
  next
    case (Inl e)
    show ?thesis
    proof (cases "errors_Is e ErrConcurrentWrite")
      case False
      then have "res = Inl e" "st' = st1" using Suc.prems a Inl by simp_all
      then show ?thesis using A(1) by blast
    next
      case True
      then have "inbox_loop rt cmd dl digest c n r1 (Some e) st1 = (res, st')"
        using Suc.prems a Inl by simp
      note I = Suc.IH [OF this]
      show ?thesis
      proof (cases "w_db st1 = w_db st")
        case True
        then show ?thesis using I by simp
      next
        case False
        with A(1) obtain r where s: "?spec (w_db st) r (w_db st1)" by blast
        then have "\<not> ?spec (w_db st1) q d" for q d using inbox_spec_key by blast
        then show ?thesis using I s by metis
      qed
    qed
  qed
qed

lemma SubmitWagerFromInbox_refines:
  assumes u: "uuid_lib_ok (rt_uuid rt)" and run: "SubmitWagerFromInbox rt cmd dl st = (res, st')"
  defines "digest \<equiv> DigestOf (rt_uuid rt) (projection cmd)"
  shows "(w_db st' = w_db st \<or> (\<exists>r. inbox_spec (rt_uuid rt) cmd dl digest (w_db st) r (w_db st')))
    \<and> (\<forall>r. res = Inr (r, False) \<longrightarrow> inbox_spec (rt_uuid rt) cmd dl digest (w_db st) r (w_db st'))
    \<and> (\<forall>r. res = Inr (r, True) \<longrightarrow> delivery_key dl \<in> inbox_keys (w_db st'))"
proof (cases "SubmitWagerCommand_Validate cmd")
  case (Inl e)
  then show ?thesis using run by (auto simp: SubmitWagerFromInbox_def tx_bind_def)
next
  case (Inr y)
  show ?thesis
  proof (cases "InboxDelivery_Validate dl")
    case (Inl e)
    then show ?thesis using run Inr by (auto simp: SubmitWagerFromInbox_def tx_bind_def)
  next
    case (Inr v)
    obtain x st1 where c: "correlationOrNew rt (sc_CorrelationID cmd) st = (x, st1)"
      by (cases "correlationOrNew rt (sc_CorrelationID cmd) st")
    from correlationOrNew_db [OF c] obtain z where z: "w_db st1 = w_db st" "x = Inr z" by blast
    have "sc_IdempotencyKey cmd \<noteq> ''''"
      using \<open>SubmitWagerCommand_Validate cmd = Inr y\<close>
      by (simp add: SubmitWagerCommand_Validate_Inr submit_ok_def)
    moreover have "inbox_loop rt cmd dl digest z maxConcurrentWriteRetries wager_result_nil None st1 = (res, st')"
      using run c z Inr \<open>SubmitWagerCommand_Validate cmd = Inr y\<close>
      by (simp add: SubmitWagerFromInbox_def tx_bind_def digest_def Let_def)
    ultimately show ?thesis using inbox_loop_refines [OF u] z(1) by metis
  qed
qed

lemma inbox_spec_steps:
  assumes "inbox_spec u cmd dl digest d r d'"
  shows "(fin_step u)\<^sup>*\<^sup>* d d'"
  using assms
proof cases
  case (inbox_fresh row d2 t)
  have a: "fin_step u d (d\<lparr>db_inbox := db_inbox d @ [row]\<rparr>)"
    using step_delivery [where d = d and xs = "db_inbox d @ [row]" and ys = "db_outbox d" and u = u]
    by (auto simp: message_keys_def)
  have b: "(fin_step u)\<^sup>*\<^sup>* (d\<lparr>db_inbox := db_inbox d @ [row]\<rparr>) d2"
    using submit_spec_step [OF inbox_fresh(4)] by (auto intro: r_into_rtranclp)
  have "fin_step u d2 d'"
    using update_inbox_completed_Inr [OF inbox_fresh(5)] completed_keys [OF inbox_fresh(5)]
      step_delivery [where d = d2 and xs = "db_inbox d'" and ys = "db_outbox d2" and u = u]
    by (simp add: inbox_keys_def)
  with a b show ?thesis by (meson converse_rtranclp_into_rtranclp rtranclp.rtrancl_into_rtrancl)
qed

section \<open>The lease of due references\<close>

lemma ClaimDueReferences_refines:
  assumes run: "transactions_ClaimDueReferences rt now lim lease st = (res, st')"
  shows "w_db st' = w_db st \<or> fin_step (rt_uuid rt) (w_db st) (w_db st')"
proof -
  let ?claim = "claim_due_references (time_UTC now) (time_UTC (time_Add now lease)) lim"
  obtain x st1 where c: "db_call rt ?claim st = (x, st1)" by (cases "db_call rt ?claim st")
  then have st': "st' = st1"
    using run by (cases x) (auto simp: transactions_ClaimDueReferences_def tx_bind_def)
  show ?thesis
  proof (cases x)
    case (Inl e)
    then show ?thesis using c db_call_Inl st' by metis
  next
    case (Inr rows)
    then have "?claim (w_db st) = Inr (rows, w_db st')" using c st' by (auto simp: db_call_Inr)
    then obtain hit where "update_transactions hit
        (\<lambda>r. r\<lparr>txr_claimedUntil := Some (time_UTC (time_Add now lease)), txr_updatedAt := time_UTC now\<rparr>)
        (w_db st) = Inr ((), w_db st')"
      by (auto simp: claim_due_references_def res_simps Let_def)
    from update_schedule_step [OF this] show ?thesis by (simp add: same_but_schedule_def)
  qed
qed

end
