(* ===== verification/Outbox.thy ===== *)
theory Outbox
  imports UseCases
begin

text \<open>
  The publication of the outbox: \<open>internal/adapters/postgres/outbox_publisher.go\<close> and
  \<open>internal/adapters/outbox/publisher.go\<close>. A pass leases a batch of due events, sends each and
  confirms it, or schedules another attempt. The lease counter is a fencing token: a confirmation
  that carries an old counter changes nothing. The queue is a parameter of the pass, as the fate of
  each sending; what reached the queue is returned beside the result.
\<close>

section \<open>Statements\<close>

definition due_event :: "time \<Rightarrow> outbox_row \<Rightarrow> bool" where
  "due_event now r \<longleftrightarrow>
     obr_publishedAt r = None \<and> obr_nextAttemptAt r \<le> now
     \<and> (case obr_claimedUntil r of None \<Rightarrow> True | Some t \<Rightarrow> t \<le> now)"

record outbox_record =
  or_EventID :: string
  or_EventType :: string
  or_AggregateID :: string
  or_Payload :: envelope
  or_Attempts :: int

definition outbox_record_of :: "outbox_row \<Rightarrow> outbox_record" where
  "outbox_record_of r =
     \<lparr>or_EventID = obr_eventId r, or_EventType = obr_eventType r, or_AggregateID = obr_aggregateId r,
      or_Payload = obr_payload r, or_Attempts = obr_attempts r\<rparr>"

definition update_outbox ::
  "(outbox_row \<Rightarrow> bool) \<Rightarrow> (outbox_row \<Rightarrow> outbox_row) \<Rightarrow> db \<Rightarrow> pg_failure + (outbox_row list \<times> db)" where
  "update_outbox hit f d =
     res_bind (update_rows hit f outbox_checks (db_outbox d)) (\<lambda>rows.
     Inr (map f (filter hit (db_outbox d)), d\<lparr>db_outbox := rows\<rparr>))"

definition claim_due_events ::
  "time \<Rightarrow> time \<Rightarrow> nat \<Rightarrow> db \<Rightarrow> pg_failure + (outbox_row list \<times> db)" where
  "claim_due_events now leaseEnd lim d =
     (let due = filter (due_event now) (db_outbox d);
          ids = map obr_eventId (take lim (sort_key (\<lambda>r. (obr_nextAttemptAt r, obr_eventId r)) due))
      in update_outbox (\<lambda>r. obr_eventId r \<in> set ids)
           (\<lambda>r. r\<lparr>obr_claimedUntil := Some leaseEnd, obr_attempts := obr_attempts r + 1\<rparr>) d)"

definition ClaimDueEvents :: "runtime \<Rightarrow> time \<Rightarrow> nat \<Rightarrow> duration \<Rightarrow> outbox_record list tx" where
  "ClaimDueEvents rt now lim lease =
     tx_bind (db_call rt (claim_due_events (time_UTC now) (time_UTC (time_Add now lease)) lim))
       (\<lambda>rows. tx_return (map outbox_record_of rows))"

text \<open>The condition of both updates that end a lease.\<close>

definition leased :: "string \<Rightarrow> int \<Rightarrow> outbox_row \<Rightarrow> bool" where
  "leased eventID attempts r \<longleftrightarrow>
     obr_eventId r = eventID \<and> obr_publishedAt r = None \<and> obr_claimedUntil r \<noteq> None
     \<and> obr_attempts r = attempts"

definition lease_kept :: "outbox_row list \<Rightarrow> unit tx" where
  "lease_kept rows = (if rows = [] then tx_fail (Wrap ErrOutboxLeaseLost None) else tx_return ())"

definition ConfirmEvent :: "runtime \<Rightarrow> string \<Rightarrow> time \<Rightarrow> int \<Rightarrow> unit tx" where
  "ConfirmEvent rt eventID confirmedAt attempts =
     tx_bind (db_call rt (update_outbox (leased eventID attempts)
       (\<lambda>r. r\<lparr>obr_publishedAt := Some (time_UTC confirmedAt), obr_claimedUntil := None\<rparr>))) lease_kept"

definition RescheduleEvent :: "runtime \<Rightarrow> string \<Rightarrow> time \<Rightarrow> int \<Rightarrow> unit tx" where
  "RescheduleEvent rt eventID nextAttemptAt attempts =
     tx_bind (db_call rt (update_outbox (leased eventID attempts)
       (\<lambda>r. r\<lparr>obr_nextAttemptAt := time_UTC nextAttemptAt, obr_attempts := attempts,
             obr_claimedUntil := None\<rparr>))) lease_kept"

text \<open>\<open>SELECT min("createdAt")\<close> over the unpublished events; no rows give NULL.\<close>

definition oldest_pending :: "db \<Rightarrow> pg_failure + (time option \<times> db)" where
  "oldest_pending d =
     (case map obr_createdAt (filter (\<lambda>r. obr_publishedAt r = None) (db_outbox d)) of
        [] \<Rightarrow> Inr (None, d)
      | t # ts \<Rightarrow> Inr (Some (fold min ts t), d))"

definition OldestPendingAge :: "runtime \<Rightarrow> time \<Rightarrow> duration option tx" where
  "OldestPendingAge rt now =
     tx_bind (db_call rt oldest_pending) (\<lambda>oldest. tx_return (map_option (\<lambda>t. now - t) oldest))"

section \<open>The publisher\<close>

definition BackoffBase :: duration where "BackoffBase = Second"
definition BackoffCap :: duration where "BackoffCap = 5 * Minute"
definition Batch :: nat where "Batch = 50"
definition Lease :: duration where "Lease = 30 * Second"

text \<open>The loop of \<open>Backoff\<close> with the iterations left.\<close>

fun backoff_loop :: "nat \<Rightarrow> duration \<Rightarrow> duration" where
  "backoff_loop 0 delay = delay"
| "backoff_loop (Suc n) delay =
     (let delay' = delay * 2 in if BackoffCap \<le> delay' then BackoffCap else backoff_loop n delay')"

definition OutboxBackoff :: "int \<Rightarrow> duration" where
  "OutboxBackoff attempts =
     (let attempts = (if attempts < 1 then 1 else attempts)
      in backoff_loop (nat (attempts - 1)) BackoffBase)"

text \<open>
  What happens to a sending: the queue accepts it, refuses it, or accepts it while the sender sees an
  error. \<open>pe_stop\<close> is \<open>ctx.Err() != nil\<close>, \<open>pe_crash\<close> the failpoint after a publication.
\<close>

datatype send_fate = Accepted | Refused | AcceptedUnseen

record publish_env =
  pe_fate :: "nat \<Rightarrow> send_fate"
  pe_stop :: "nat \<Rightarrow> bool"
  pe_crash :: "nat \<Rightarrow> bool"

fun publish_loop ::
  "runtime \<Rightarrow> publish_env \<Rightarrow> time \<Rightarrow> outbox_record list \<Rightarrow> nat \<Rightarrow> world
     \<Rightarrow> (app_error + nat) \<times> outbox_record list \<times> world" where
  "publish_loop rt env now [] published w = (Inr published, [], w)"
| "publish_loop rt env now (r # rs) published w =
     (let k = w_calls w in
      if pe_stop env k then (Inr published, [], w)
      else if pe_fate env k = Accepted then
        (if pe_crash env k then (Inl Panicked, [r], w)
         else case ConfirmEvent rt (or_EventID r) now (or_Attempts r) w of
             (Inl e, w') \<Rightarrow>
               (if errors_Is e ErrOutboxLeaseLost then
                  (case publish_loop rt env now rs published w' of (x, sent, w'') \<Rightarrow> (x, r # sent, w''))
                else (Inl e, [r], w'))
           | (Inr _, w') \<Rightarrow>
               (case publish_loop rt env now rs (Suc published) w' of (x, sent, w'') \<Rightarrow> (x, r # sent, w'')))
      else
        let reached = (if pe_fate env k = AcceptedUnseen then [r] else []) in
        case RescheduleEvent rt (or_EventID r) (time_Add now (OutboxBackoff (or_Attempts r))) (or_Attempts r) w of
          (Inl e, w') \<Rightarrow>
            (if errors_Is e ErrOutboxLeaseLost then
               (case publish_loop rt env now rs published w' of (x, sent, w'') \<Rightarrow> (x, reached @ sent, w''))
             else (Inl e, reached, w'))
        | (Inr _, w') \<Rightarrow>
            (case publish_loop rt env now rs published w' of (x, sent, w'') \<Rightarrow> (x, reached @ sent, w'')))"

definition PublishOnce ::
  "runtime \<Rightarrow> publish_env \<Rightarrow> world \<Rightarrow> (app_error + nat) \<times> outbox_record list \<times> world" where
  "PublishOnce rt env w =
     (case clock_Now rt w of
        (Inl e, w0) \<Rightarrow> (Inl e, [], w0)
      | (Inr now, w0) \<Rightarrow>
          (case ClaimDueEvents rt now Batch Lease w0 of
             (Inl e, w1) \<Rightarrow> (Inl e, [], w1)
           | (Inr records, w1) \<Rightarrow>
               (case OldestPendingAge rt now w1 of (_, w2) \<Rightarrow> publish_loop rt env now records 0 w2)))"

section \<open>The delay between attempts\<close>

lemma backoff_loop_eq:
  assumes "0 < b" "b < BackoffCap"
  shows "backoff_loop n b = min BackoffCap (b * 2 ^ n)"
  using assms
proof (induction n arbitrary: b)
  case (Suc n)
  have ge: "b * 2 \<le> b * 2 ^ Suc n" using Suc.prems(1) by simp
  show ?case
  proof (cases "BackoffCap \<le> b * 2")
    case True
    then show ?thesis using ge by (simp add: Let_def)
  next
    case False
    then show ?thesis using Suc.IH [of "b * 2"] Suc.prems(1) by (simp add: Let_def mult.assoc)
  qed
qed simp

lemma OutboxBackoff_eq:
  "OutboxBackoff a = min (300 * Second) (Second * 2 ^ nat ((if a < 1 then 1 else a) - 1))"
  using backoff_loop_eq [of BackoffBase]
  by (simp add: OutboxBackoff_def Let_def BackoffBase_def BackoffCap_def duration_defs)

interpretation outbox_retry: retry_schedule "\<lambda>a s. OutboxBackoff a" OutboxBackoff "300 * Second"
proof
  fix a b :: int
  show "0 < OutboxBackoff a" by (simp add: OutboxBackoff_eq Second_def)
  show "OutboxBackoff a \<le> OutboxBackoff b" if "a \<le> b"
  proof -
    have "(2 :: int) ^ nat ((if a < 1 then 1 else a) - 1) \<le> 2 ^ nat ((if b < 1 then 1 else b) - 1)"
      using that by (intro power_increasing nat_mono) simp_all
    then show ?thesis by (simp add: OutboxBackoff_eq Second_def min.coboundedI2)
  qed
qed (simp_all add: OutboxBackoff_eq)

section \<open>A pass\<close>

lemma update_outbox_Inr:
  "update_outbox hit f d = Inr (rows, d') \<Longrightarrow>
     rows = map f (filter hit (db_outbox d))
     \<and> d' = d\<lparr>db_outbox := map (\<lambda>r. if hit r then f r else r) (db_outbox d)\<rparr>"
  by (auto simp: update_outbox_def res_simps update_rows_Inr)

text \<open>The outbox after an operation, row by row.\<close>

definition outbox_becomes :: "(outbox_row \<Rightarrow> outbox_row \<Rightarrow> bool) \<Rightarrow> db \<Rightarrow> db \<Rightarrow> bool" where
  "outbox_becomes R d d' \<longleftrightarrow>
     (\<exists>ys. d' = d\<lparr>db_outbox := ys\<rparr> \<and> list_all2 R (db_outbox d) ys)"

lemma outbox_becomes_refl: "(\<And>r. R r r) \<Longrightarrow> outbox_becomes R d d"
  unfolding outbox_becomes_def by (intro exI [of _ "db_outbox d"]) (simp add: list_all2_refl)

lemma outbox_becomes_trans:
  assumes "outbox_becomes R d d1" and "outbox_becomes S d1 d2"
    and "\<And>r r1 r2. R r r1 \<Longrightarrow> S r1 r2 \<Longrightarrow> T r r2"
  shows "outbox_becomes T d d2"
proof -
  from assms obtain ys zs where "d1 = d\<lparr>db_outbox := ys\<rparr>" "list_all2 R (db_outbox d) ys"
    "d2 = d1\<lparr>db_outbox := zs\<rparr>" "list_all2 S ys zs" by (auto simp: outbox_becomes_def)
  moreover have "list_all2 T (db_outbox d) zs"
  proof (rule list_all2_trans)
    show "R a b \<Longrightarrow> S b c \<Longrightarrow> T a c" for a b c by (rule assms(3))
  qed fact+
  ultimately show ?thesis by (auto simp: outbox_becomes_def)
qed

lemma outbox_becomes_mono:
  "outbox_becomes R d d' \<Longrightarrow> (\<And>r r'. R r r' \<Longrightarrow> S r r') \<Longrightarrow> outbox_becomes S d d'"
  unfolding outbox_becomes_def using list_all2_mono by metis

lemma update_outbox_becomes:
  assumes run: "tx_bind (db_call rt (update_outbox hit f)) k w = (x, w')"
    and k: "\<And>rows v. snd (k rows v) = v" and R: "\<And>r. R r r" "\<And>r. hit r \<Longrightarrow> R r (f r)"
  shows "outbox_becomes R (w_db w) (w_db w')"
proof -
  obtain y w1 where c: "db_call rt (update_outbox hit f) w = (y, w1)"
    by (cases "db_call rt (update_outbox hit f) w")
  have w': "w_db w' = w_db w1"
    using run c k by (cases y) (auto simp: tx_bind_def dest: arg_cong [where f = snd])
  show ?thesis
  proof (cases y)
    case (Inl e)
    then show ?thesis using c db_call_Inl w' outbox_becomes_refl [of R] R(1) by metis
  next
    case (Inr rows)
    then have "update_outbox hit f (w_db w) = Inr (rows, w_db w')" using c w' by (auto simp: db_call_Inr)
    note U = update_outbox_Inr [OF this]
    have "list_all2 R (db_outbox (w_db w)) (map (\<lambda>r. if hit r then f r else r) (db_outbox (w_db w)))"
      using R by (simp add: list_all2_conv_all_nth)
    then show ?thesis using U unfolding outbox_becomes_def by blast
  qed
qed

lemma lease_kept_world: "snd (lease_kept rows v) = v"
  by (simp add: lease_kept_def)

text \<open>Publication is monotone, and only what was sent becomes published.\<close>

definition published_by :: "outbox_record list \<Rightarrow> outbox_row \<Rightarrow> outbox_row \<Rightarrow> bool" where
  "published_by sent r r' \<longleftrightarrow> same_event r r'
     \<and> (obr_publishedAt r = None \<and> obr_publishedAt r' \<noteq> None \<longrightarrow>
          (\<exists>s \<in> set sent. or_EventID s = obr_eventId r \<and> or_Payload s = obr_payload r))"

lemma published_by_refl: "published_by sent r r"
  by (auto simp add: published_by_def)

lemma same_event_fields:
  assumes "same_event r r'"
  shows "obr_eventId r' = obr_eventId r" "obr_payload r' = obr_payload r"
    "obr_publishedAt r \<noteq> None \<Longrightarrow> obr_publishedAt r' = obr_publishedAt r"
  using assms unfolding same_event_def by (cases r; cases r'; simp)+

lemma published_by_trans:
  assumes "published_by s r r1" and "published_by s' r1 r2"
  shows "published_by (s @ s') r r2"
proof -
  have "same_event r r2" using assms by (auto simp: published_by_def same_event_def)
  moreover note same_event_fields [of r r1]
  ultimately show ?thesis using assms unfolding published_by_def by (cases "obr_publishedAt r1") auto
qed

lemma published_becomes_trans:
  assumes "outbox_becomes (published_by s) d d1" and "outbox_becomes (published_by s') d1 d2"
  shows "outbox_becomes (published_by (s @ s')) d d2"
  using assms by (rule outbox_becomes_trans) (rule published_by_trans)

definition records_match :: "outbox_record list \<Rightarrow> db \<Rightarrow> bool" where
  "records_match rs d \<longleftrightarrow>
     (\<forall>s \<in> set rs. \<forall>r \<in> set (db_outbox d). obr_eventId r = or_EventID s \<longrightarrow> or_Payload s = obr_payload r)"

lemma records_match_becomes:
  assumes "records_match rs d" and "outbox_becomes R d d'" and "\<And>r r'. R r r' \<Longrightarrow> same_event r r'"
  shows "records_match rs d'"
proof -
  from assms(2,3) obtain ys where ys: "db_outbox d' = ys" "list_all2 same_event (db_outbox d) ys"
    unfolding outbox_becomes_def using list_all2_mono [of R "db_outbox d" _ same_event] by auto
  have "\<exists>r \<in> set (db_outbox d). obr_eventId r' = obr_eventId r \<and> obr_payload r' = obr_payload r"
    if "r' \<in> set ys" for r'
    using ys(2) that same_event_fields by (fastforce simp: list_all2_conv_all_nth in_set_conv_nth)
  then show ?thesis using assms(1) ys(1) unfolding records_match_def by metis
qed

lemma ConfirmEvent_becomes:
  assumes run: "ConfirmEvent rt (or_EventID s) now (or_Attempts s) w = (x, w')"
    and m: "records_match [s] (w_db w)"
  shows "outbox_becomes (published_by [s]) (w_db w) (w_db w')"
proof -
  let ?R = "\<lambda>r r'. same_event r r' \<and> (obr_publishedAt r = None \<and> obr_publishedAt r' \<noteq> None
      \<longrightarrow> obr_eventId r = or_EventID s)"
  have "outbox_becomes ?R (w_db w) (w_db w')"
    by (rule update_outbox_becomes [OF run [unfolded ConfirmEvent_def]])
      (auto simp: lease_kept_world leased_def same_event_def)
  then obtain ys where ys: "w_db w' = (w_db w)\<lparr>db_outbox := ys\<rparr>" "list_all2 ?R (db_outbox (w_db w)) ys"
    by (auto simp: outbox_becomes_def)
  have "list_all2 (published_by [s]) (db_outbox (w_db w)) ys"
    using ys(2) m
    by (auto simp: list_all2_conv_all_nth published_by_def records_match_def)
  then show ?thesis using ys(1) by (auto simp: outbox_becomes_def)
qed

lemma RescheduleEvent_becomes:
  "RescheduleEvent rt i t n w = (x, w') \<Longrightarrow> outbox_becomes (published_by []) (w_db w) (w_db w')"
  unfolding RescheduleEvent_def
  by (erule update_outbox_becomes) (auto simp: lease_kept_world leased_def same_event_def published_by_def)

lemma records_match_Cons: "records_match (r # rs) d \<longleftrightarrow> records_match [r] d \<and> records_match rs d"
  by (auto simp: records_match_def)

lemma published_same: "published_by s r r' \<Longrightarrow> same_event r r'"
  by (simp add: published_by_def)

lemma publish_loop_becomes:
  assumes "publish_loop rt env now rs n w = (x, sent, w')" and "records_match rs (w_db w)"
  shows "outbox_becomes (published_by sent) (w_db w) (w_db w')"
  using assms
proof (induction rs arbitrary: n w sent x)
  case Nil
  then show ?case by (simp add: outbox_becomes_refl published_by_refl)
next
  case (Cons r rs)
  let ?k = "w_calls w"
  note m = Cons.prems(2) [unfolded records_match_Cons [of r rs]]
  have stay: "outbox_becomes (published_by s) (w_db w) (w_db w)" for s
    by (simp add: outbox_becomes_refl published_by_refl)
  consider (stop) "pe_stop env ?k" | (crash) "\<not> pe_stop env ?k" "pe_fate env ?k = Accepted" "pe_crash env ?k"
    | (sent) "\<not> pe_stop env ?k" "pe_fate env ?k = Accepted" "\<not> pe_crash env ?k"
    | (failed) "\<not> pe_stop env ?k" "pe_fate env ?k \<noteq> Accepted" by blast
  then show ?case
  proof cases
    case stop
    then show ?thesis using Cons.prems(1) stay by (simp add: Let_def)
  next
    case crash
    then show ?thesis using Cons.prems(1) stay by (simp add: Let_def)
  next
    case sent
    obtain y w1 where c: "ConfirmEvent rt (or_EventID r) now (or_Attempts r) w = (y, w1)"
      by (cases "ConfirmEvent rt (or_EventID r) now (or_Attempts r) w")
    note C = ConfirmEvent_becomes [OF c m [THEN conjunct1]]
    have m1: "records_match rs (w_db w1)"
      by (rule records_match_becomes [OF m [THEN conjunct2] C]) (rule published_same)
    have "(sent = [r] \<and> w' = w1)
        \<or> (\<exists>n' sent'. publish_loop rt env now rs n' w1 = (x, sent', w') \<and> sent = r # sent')"
      using Cons.prems(1) sent c
      by (cases y) (auto simp: Let_def split: if_splits prod.splits)
    then show ?thesis
    proof
      assume "sent = [r] \<and> w' = w1"
      then show ?thesis using C by simp
    next
      assume "\<exists>n' sent'. publish_loop rt env now rs n' w1 = (x, sent', w') \<and> sent = r # sent'"
      then obtain n' sent' where l: "publish_loop rt env now rs n' w1 = (x, sent', w')" "sent = r # sent'"
        by blast
      from published_becomes_trans [OF C Cons.IH [OF l(1) m1]]
      show ?thesis using l(2) by simp
    qed
  next
    case failed
    let ?t = "time_Add now (OutboxBackoff (or_Attempts r))"
    obtain y w1 where c: "RescheduleEvent rt (or_EventID r) ?t (or_Attempts r) w = (y, w1)"
      by (cases "RescheduleEvent rt (or_EventID r) ?t (or_Attempts r) w")
    note C = RescheduleEvent_becomes [OF c]
    have m1: "records_match rs (w_db w1)"
      by (rule records_match_becomes [OF m [THEN conjunct2] C]) (rule published_same)
    have more: "outbox_becomes (published_by (s @ s')) d d'"
      if "outbox_becomes (published_by s') d d'" for s s' d d'
      using that by (rule outbox_becomes_mono) (auto simp: published_by_def)
    define reached where "reached = (if pe_fate env ?k = AcceptedUnseen then [r] else [])"
    have "(sent = reached \<and> w' = w1)
        \<or> (\<exists>n' sent'. publish_loop rt env now rs n' w1 = (x, sent', w') \<and> sent = reached @ sent')"
      using Cons.prems(1) failed c
      by (cases y) (auto simp: Let_def reached_def split: if_splits prod.splits)
    then show ?thesis
    proof
      assume "sent = reached \<and> w' = w1"
      then show ?thesis using more [OF C, of reached] by simp
    next
      assume "\<exists>n' sent'. publish_loop rt env now rs n' w1 = (x, sent', w') \<and> sent = reached @ sent'"
      then obtain n' sent' where l: "publish_loop rt env now rs n' w1 = (x, sent', w')"
        "sent = reached @ sent'" by blast
      from more [OF published_becomes_trans [OF C Cons.IH [OF l(1) m1]]]
      show ?thesis using l(2) by simp
    qed
  qed
qed

lemma set_update_hit:
  assumes "\<And>r. hit (f r) = hit r"
  shows "set (map f (filter hit rs)) = {r \<in> set (map (\<lambda>r. if hit r then f r else r) rs). hit r}"
  by (induction rs) (use assms in \<open>auto split: if_splits\<close>)

lemma claim_due_events_Inr:
  assumes "claim_due_events now leaseEnd lim d = Inr (rows, d')" and "distinct (map obr_eventId (db_outbox d))"
  shows "\<exists>ids. length ids \<le> lim \<and> set rows = {r \<in> set (db_outbox d'). obr_eventId r \<in> set ids}
    \<and> d' = d\<lparr>db_outbox := map (\<lambda>r. if obr_eventId r \<in> set ids
       then r\<lparr>obr_claimedUntil := Some leaseEnd, obr_attempts := obr_attempts r + 1\<rparr> else r) (db_outbox d)\<rparr>
    \<and> (\<forall>r \<in> set (db_outbox d). obr_eventId r \<in> set ids \<longrightarrow> due_event now r)
    \<and> map obr_eventId rows = map obr_eventId (filter (\<lambda>r. obr_eventId r \<in> set ids) (db_outbox d))"
proof -
  define batch where
    "batch = take lim (sort_key (\<lambda>r. (obr_nextAttemptAt r, obr_eventId r)) (filter (due_event now) (db_outbox d)))"
  let ?ids = "map obr_eventId batch"
  let ?f = "\<lambda>r. r\<lparr>obr_claimedUntil := Some leaseEnd, obr_attempts := obr_attempts r + 1\<rparr>"
  have U: "rows = map ?f (filter (\<lambda>r. obr_eventId r \<in> set ?ids) (db_outbox d))"
    "d' = d\<lparr>db_outbox := map (\<lambda>r. if obr_eventId r \<in> set ?ids then ?f r else r) (db_outbox d)\<rparr>"
    using update_outbox_Inr [OF assms(1) [unfolded claim_due_events_def Let_def, folded batch_def]] by blast+
  have b: "s \<in> set batch \<Longrightarrow> s \<in> set (db_outbox d) \<and> due_event now s" for s
    by (auto simp: batch_def dest: in_set_takeD)
  have due: "due_event now r" if "r \<in> set (db_outbox d)" "obr_eventId r \<in> set ?ids" for r
  proof -
    from that(2) obtain s where s: "s \<in> set batch" "obr_eventId s = obr_eventId r" by auto
    then have "s = r" using b that(1) assms(2) by (metis distinct_map inj_onD)
    then show ?thesis using b s(1) by blast
  qed
  have "length ?ids \<le> lim" by (simp add: batch_def)
  moreover have "set rows = {r \<in> set (db_outbox d'). obr_eventId r \<in> set ?ids}"
    unfolding U using set_update_hit [of "\<lambda>r. obr_eventId r \<in> set ?ids" ?f "db_outbox d"] by simp
  moreover have "map obr_eventId rows
      = map obr_eventId (filter (\<lambda>r. obr_eventId r \<in> set ?ids) (db_outbox d))"
    unfolding U(1) by (simp add: o_def del: set_map)
  ultimately show ?thesis using U(2) due by blast
qed

lemma ClaimDueEvents_becomes:
  assumes run: "ClaimDueEvents rt now lim lease w = (x, w')"
    and d: "distinct (map obr_eventId (db_outbox (w_db w)))"
  shows "outbox_becomes (published_by []) (w_db w) (w_db w')"
    and "x = Inr rs \<Longrightarrow> records_match rs (w_db w')"
proof -
  let ?stmt = "claim_due_events (time_UTC now) (time_UTC (time_Add now lease)) lim"
  obtain y w1 where c: "db_call rt ?stmt w = (y, w1)" by (cases "db_call rt ?stmt w")
  have "outbox_becomes (published_by []) (w_db w) (w_db w') \<and> (x = Inr rs \<longrightarrow> records_match rs (w_db w'))"
  proof (cases y)
    case (Inl e)
    then have "x = Inl e" "w' = w1" using run c by (simp_all add: ClaimDueEvents_def tx_bind_def)
    then show ?thesis
      using c Inl db_call_Inl outbox_becomes_refl [of "published_by []"] published_by_refl by fastforce
  next
    case (Inr rows)
    then have x: "x = Inr (map outbox_record_of rows)" "w' = w1"
      using run c by (simp_all add: ClaimDueEvents_def tx_bind_def)
    then have "?stmt (w_db w) = Inr (rows, w_db w')" using c Inr by (auto simp: db_call_Inr)
    from claim_due_events_Inr [OF this d] obtain ids where I:
      "set rows = {r \<in> set (db_outbox (w_db w')). obr_eventId r \<in> set ids}"
      "w_db w' = (w_db w)\<lparr>db_outbox := map (\<lambda>r. if obr_eventId r \<in> set ids
         then r\<lparr>obr_claimedUntil := Some (time_UTC (time_Add now lease)),
           obr_attempts := obr_attempts r + 1\<rparr> else r) (db_outbox (w_db w))\<rparr>" by blast
    have "list_all2 (published_by []) (db_outbox (w_db w)) (db_outbox (w_db w'))"
      by (auto simp: I(2) list_all2_conv_all_nth published_by_def same_event_def)
    moreover have "map obr_eventId (db_outbox (w_db w')) = map obr_eventId (db_outbox (w_db w))"
      by (simp add: I(2))
    then have "inj_on obr_eventId (set (db_outbox (w_db w')))" using d by (metis distinct_map)
    then have "records_match (map outbox_record_of rows) (w_db w')"
      using I(1) by (auto simp: records_match_def outbox_record_of_def dest: inj_onD)
    ultimately show ?thesis using x I(2) by (auto simp: outbox_becomes_def)
  qed
  then show "outbox_becomes (published_by []) (w_db w) (w_db w')"
    "x = Inr rs \<Longrightarrow> records_match rs (w_db w')" by blast+
qed

lemma OldestPendingAge_db: "OldestPendingAge rt now w = (x, w') \<Longrightarrow> w_db w' = w_db w"
proof -
  assume a: "OldestPendingAge rt now w = (x, w')"
  obtain y w1 where c: "db_call rt oldest_pending w = (y, w1)" by (cases "db_call rt oldest_pending w")
  then have "w' = w1" using a by (cases y) (auto simp: OldestPendingAge_def tx_bind_def)
  then show ?thesis
    using c db_call_Inl [of rt oldest_pending w _ w1]
    by (cases y) (auto simp: db_call_Inr oldest_pending_def split: list.splits)
qed

lemma PublishOnce_becomes:
  assumes run: "PublishOnce rt env w = (x, sent, w')"
    and d: "distinct (map obr_eventId (db_outbox (w_db w)))"
  shows "outbox_becomes (published_by sent) (w_db w) (w_db w')"
proof -
  obtain now w0 where n: "clock_Now rt w = (Inr now, w0)" "w_db w0 = w_db w" by (auto simp: clock_Now_def)
  obtain y w1 where c: "ClaimDueEvents rt now Batch Lease w0 = (y, w1)"
    by (cases "ClaimDueEvents rt now Batch Lease w0")
  note C = ClaimDueEvents_becomes [OF c d [folded n(2)], unfolded n(2)]
  show ?thesis
  proof (cases y)
    case (Inl e)
    then show ?thesis using run n c C(1) by (simp add: PublishOnce_def)
  next
    case (Inr rs)
    obtain z w2 where o': "OldestPendingAge rt now w1 = (z, w2)" by (cases "OldestPendingAge rt now w1")
    then have "publish_loop rt env now rs 0 w2 = (x, sent, w')"
      using run n c Inr by (simp add: PublishOnce_def)
    from publish_loop_becomes [OF this] have "outbox_becomes (published_by sent) (w_db w1) (w_db w')"
      using C(2) [OF Inr] OldestPendingAge_db [OF o'] by simp
    from published_becomes_trans [OF C(1) this] show ?thesis by simp
  qed
qed

lemma outbox_becomes_step:
  assumes "outbox_becomes (published_by sent) d d'"
  shows "fin_step u d d'"
proof -
  from assms obtain ys where "d' = d\<lparr>db_outbox := ys\<rparr>" "list_all2 same_event (db_outbox d) ys"
    unfolding outbox_becomes_def using list_all2_mono [of "published_by sent" "db_outbox d" _ same_event]
    by (auto simp: published_by_def)
  then show ?thesis using step_delivery [where d = d and ys = ys and xs = "db_inbox d" and u = u] by simp
qed

section \<open>Properties\<close>

text \<open>
  The delay before the next attempt to publish is one second doubled per attempt and capped at
  five minutes; it is positive and never decreases, so every refused event comes due again within
  five minutes.
\<close>

theorem outbox_backoff_exact:
  "OutboxBackoff (int n + 1) = min (300 * Second) (Second * 2 ^ n)
   \<and> Second \<le> OutboxBackoff a \<and> OutboxBackoff a \<le> 300 * Second
   \<and> (a \<le> b \<longrightarrow> OutboxBackoff a \<le> OutboxBackoff b)"
proof -
  have "(1 :: int) \<le> 2 ^ k" for k by simp
  then have "Second \<le> Second * 2 ^ k" for k by (simp add: Second_def)
  then show ?thesis
    using outbox_retry.delay_upper [of a] outbox_retry.base_mono [of a b]
    by (auto simp: OutboxBackoff_eq Second_def)
qed

theorem outbox_backoff_exact_witness:
  "OutboxBackoff 3 = 4 * Second \<and> OutboxBackoff 3 \<le> OutboxBackoff 20"
  using outbox_backoff_exact [of 2 3 20] by (auto simp: Second_def)

text \<open>
  C38: a pass of the publisher, whatever fails in it, keeps every event with its payload, never
  unpublishes one, and marks as published only events whose own payload was handed to the queue in
  that pass; no other table changes.
\<close>

theorem publish_pass_at_least_once:
  assumes "PublishOnce rt env w = (x, sent, w')"
    and "distinct (map obr_eventId (db_outbox (w_db w)))"
  shows "w_db w' = (w_db w)\<lparr>db_outbox := db_outbox (w_db w')\<rparr>
    \<and> list_all2 (\<lambda>r r'. obr_eventId r' = obr_eventId r \<and> obr_payload r' = obr_payload r
        \<and> obr_eventType r' = obr_eventType r \<and> obr_aggregateId r' = obr_aggregateId r
        \<and> (if obr_publishedAt r \<noteq> None then obr_publishedAt r' = obr_publishedAt r
           else obr_publishedAt r' = None
             \<or> (\<exists>s \<in> set sent. or_EventID s = obr_eventId r \<and> or_Payload s = obr_payload r)))
      (db_outbox (w_db w)) (db_outbox (w_db w'))"
    (is "_ \<and> list_all2 ?R _ _")
proof -
  from PublishOnce_becomes [OF assms] obtain ys where "w_db w' = (w_db w)\<lparr>db_outbox := ys\<rparr>"
    "list_all2 (published_by sent) (db_outbox (w_db w)) ys" by (auto simp: outbox_becomes_def)
  moreover have "?R r r'" if "published_by sent r r'" for r r'
    using that unfolding published_by_def same_event_def by (cases r; cases r') auto
  then have "list_all2 (published_by sent) rs rs' \<Longrightarrow> list_all2 ?R rs rs'" for rs rs'
    using list_all2_mono [of "published_by sent" rs rs' ?R] by blast
  ultimately show ?thesis by simp
qed

definition sample_envelope :: envelope where
  "sample_envelope =
     \<lparr>ev_EventID = ''7'', ev_EventType = TypeWalletBalanceChanged, ev_AggregateID = ''1'',
      ev_CorrelationID = ''c'', ev_CausationID = '''', ev_OccurredAt = 900, ev_Version = 1,
      ev_Data = BalanceChangedData \<lparr>bd_WalletID = ''1'', bd_TransactionID = ''2'',
        bd_Direction = DirectionCredit, bd_Money = \<lparr>minorUnits = 5, currency = ''BRL''\<rparr>,
        bd_BalanceBefore = \<lparr>minorUnits = 0, currency = ''BRL''\<rparr>,
        bd_BalanceAfter = \<lparr>minorUnits = 5, currency = ''BRL''\<rparr>, bd_WalletVersion = 1\<rparr>\<rparr>"

definition sample_outbox_db :: db where
  "sample_outbox_db = db_empty\<lparr>db_outbox := [envelope_to_row sample_envelope 900 sample_envelope]\<rparr>"

definition sample_publish_env :: publish_env where
  "sample_publish_env = \<lparr>pe_fate = (\<lambda>_. Accepted), pe_stop = (\<lambda>_. False), pe_crash = (\<lambda>_. False)\<rparr>"

lemma sample_pass:
  "\<exists>w'. PublishOnce sample_runtime sample_publish_env (sample_world sample_outbox_db)
     = (Inr 1, [outbox_record_of ((envelope_to_row sample_envelope 900 sample_envelope)\<lparr>obr_attempts := 1\<rparr>)], w')
   \<and> map obr_publishedAt (db_outbox (w_db w')) = [Some 1000]"
  by (simp add: PublishOnce_def sample_runtime_def sample_publish_env_def sample_world_def
      sample_outbox_db_def clock_Now_def ClaimDueEvents_def tx_bind_def db_call_def exec_def Let_def
      claim_due_events_def update_outbox_def update_rows_def res_simps due_event_def
      envelope_to_row_def time_defs Batch_def Lease_def outbox_checks_def sample_envelope_def
      event_types_def checked_def OldestPendingAge_def oldest_pending_def outbox_record_of_def
      ConfirmEvent_def leased_def lease_kept_def db_empty_def)

theorem publish_pass_at_least_once_witness:
  "\<exists>sent w'. sent \<noteq> [] \<and> list_all2 (\<lambda>r r'. obr_payload r' = obr_payload r)
     (db_outbox sample_outbox_db) (db_outbox (w_db w'))
   \<and> PublishOnce sample_runtime sample_publish_env (sample_world sample_outbox_db) = (Inr 1, sent, w')"
proof -
  from sample_pass obtain sent w' where run:
    "PublishOnce sample_runtime sample_publish_env (sample_world sample_outbox_db) = (Inr 1, sent, w')"
    "sent \<noteq> []" by blast
  have "distinct (map obr_eventId (db_outbox (w_db (sample_world sample_outbox_db))))"
    by (simp add: sample_world_def sample_outbox_db_def)
  from publish_pass_at_least_once [OF run(1) this]
  have "list_all2 (\<lambda>r r'. obr_payload r' = obr_payload r) (db_outbox sample_outbox_db) (db_outbox (w_db w'))"
    by (auto simp: sample_world_def elim: list_all2_mono)
  then show ?thesis using run by blast
qed

text \<open>
  C39: a confirmation is fenced by its lease: unless the event is unpublished, still leased and its
  claim count is the confirmation's, nothing changes and the publisher is told that the lease was
  lost (or that the statement failed).
\<close>

theorem confirmation_is_fenced:
  assumes "ConfirmEvent rt i t n w = (x, w')"
    and "\<forall>r \<in> set (db_outbox (w_db w)). obr_eventId r = i \<longrightarrow>
       obr_publishedAt r \<noteq> None \<or> obr_claimedUntil r = None \<or> obr_attempts r \<noteq> n"
  shows "w_db w' = w_db w \<and> (x = Inl (Wrap ErrOutboxLeaseLost None) \<or> (\<exists>f. x = Inl (mapError f)))"
proof -
  let ?stmt = "update_outbox (leased i n) (\<lambda>r. r\<lparr>obr_publishedAt := Some (time_UTC t), obr_claimedUntil := None\<rparr>)"
  obtain y w1 where c: "db_call rt ?stmt w = (y, w1)" by (cases "db_call rt ?stmt w")
  have none: "filter (leased i n) (db_outbox (w_db w)) = []"
    using assms(2) by (auto simp: leased_def filter_empty_conv)
  show ?thesis
  proof (cases y)
    case (Inl e)
    then show ?thesis
      using assms(1) c db_call_Inl [of rt ?stmt w e w1] by (auto simp: ConfirmEvent_def tx_bind_def)
  next
    case (Inr rows)
    then have "?stmt (w_db w) = Inr (rows, w_db w1)" using c by (auto simp: db_call_Inr)
    from update_outbox_Inr [OF this] none have "rows = []" and d: "w_db w1
        = (w_db w)\<lparr>db_outbox := map (\<lambda>r. if leased i n r
            then r\<lparr>obr_publishedAt := Some (time_UTC t), obr_claimedUntil := None\<rparr> else r) (db_outbox (w_db w))\<rparr>"
      by auto
    moreover have "map (\<lambda>r. if leased i n r
            then r\<lparr>obr_publishedAt := Some (time_UTC t), obr_claimedUntil := None\<rparr> else r) (db_outbox (w_db w))
        = db_outbox (w_db w)"
      using none by (intro map_idI) (auto simp: filter_empty_conv)
    ultimately show ?thesis
      using assms(1) c Inr by (auto simp: ConfirmEvent_def tx_bind_def lease_kept_def)
  qed
qed

theorem confirmation_is_fenced_witness:
  "\<exists>x w'. ConfirmEvent sample_runtime ''7'' 1000 1 (sample_world sample_outbox_db) = (x, w')
     \<and> w_db w' = sample_outbox_db"
proof -
  obtain x w' where run: "ConfirmEvent sample_runtime ''7'' 1000 1 (sample_world sample_outbox_db) = (x, w')"
    by (cases "ConfirmEvent sample_runtime ''7'' 1000 1 (sample_world sample_outbox_db)")
  have "\<forall>r \<in> set (db_outbox (w_db (sample_world sample_outbox_db))). obr_eventId r = ''7'' \<longrightarrow>
       obr_publishedAt r \<noteq> None \<or> obr_claimedUntil r = None \<or> obr_attempts r \<noteq> 1"
    by (simp add: sample_world_def sample_outbox_db_def envelope_to_row_def)
  from confirmation_is_fenced [OF run this] show ?thesis using run by (simp add: sample_world_def)
qed

lemma claimed_are_leased:
  assumes run: "ClaimDueEvents rt now lim lease w = (Inr rs, w')"
    and d: "distinct (map obr_eventId (db_outbox (w_db w)))"
  shows "s \<in> set rs \<Longrightarrow> r \<in> set (db_outbox (w_db w')) \<Longrightarrow> obr_eventId r = or_EventID s \<Longrightarrow>
      obr_claimedUntil r = Some (now + lease)"
    and "length rs \<le> lim"
    and "s \<in> set rs \<Longrightarrow> \<exists>r \<in> set (db_outbox (w_db w)). obr_eventId r = or_EventID s \<and> due_event now r"
    and "map obr_eventId (db_outbox (w_db w')) = map obr_eventId (db_outbox (w_db w))"
proof -
  let ?stmt = "claim_due_events (time_UTC now) (time_UTC (time_Add now lease)) lim"
  from run obtain rows where "db_call rt ?stmt w = (Inr rows, w')" and rs: "rs = map outbox_record_of rows"
    by (auto simp: ClaimDueEvents_def tx_bind_Inr_iff)
  then have "?stmt (w_db w) = Inr (rows, w_db w')" by (auto simp: db_call_Inr)
  from claim_due_events_Inr [OF this d] obtain ids where I: "length ids \<le> lim"
    "set rows = {r \<in> set (db_outbox (w_db w')). obr_eventId r \<in> set ids}"
    "w_db w' = (w_db w)\<lparr>db_outbox := map (\<lambda>r. if obr_eventId r \<in> set ids
       then r\<lparr>obr_claimedUntil := Some (time_UTC (time_Add now lease)), obr_attempts := obr_attempts r + 1\<rparr>
       else r) (db_outbox (w_db w))\<rparr>"
    "\<forall>r \<in> set (db_outbox (w_db w)). obr_eventId r \<in> set ids \<longrightarrow> due_event (time_UTC now) r"
    "map obr_eventId rows = map obr_eventId (filter (\<lambda>r. obr_eventId r \<in> set ids) (db_outbox (w_db w)))"
    by (elim exE conjE) (rule that)
  show "s \<in> set rs \<Longrightarrow> r \<in> set (db_outbox (w_db w')) \<Longrightarrow> obr_eventId r = or_EventID s \<Longrightarrow>
      obr_claimedUntil r = Some (now + lease)"
  proof -
    assume "s \<in> set rs" "obr_eventId r = or_EventID s" and r: "r \<in> set (db_outbox (w_db w'))"
    then have i: "obr_eventId r \<in> set ids" by (auto simp: rs I(2) outbox_record_of_def)
    have "db_outbox (w_db w') = map (\<lambda>r. if obr_eventId r \<in> set ids
       then r\<lparr>obr_claimedUntil := Some (time_UTC (time_Add now lease)), obr_attempts := obr_attempts r + 1\<rparr>
       else r) (db_outbox (w_db w))" by (subst I(3)) simp
    then show ?thesis using i r by (auto simp: time_defs)
  qed
  have "distinct (map obr_eventId rows)" unfolding I(5) using d by (rule distinct_map_filter)
  then have "length (map obr_eventId rows) = card (set (map obr_eventId rows))"
    by (rule distinct_card [symmetric])
  moreover have "card (set (map obr_eventId rows)) \<le> card (set ids)"
    by (rule card_mono) (auto simp only: I(5) set_map set_filter finite_set)
  moreover have "length (map obr_eventId rows) = length rs" by (simp only: rs length_map)
  ultimately show "length rs \<le> lim" using I(1) card_length [of ids] by linarith
  show "s \<in> set rs \<Longrightarrow> \<exists>r \<in> set (db_outbox (w_db w)). obr_eventId r = or_EventID s \<and> due_event now r"
  proof -
    assume "s \<in> set rs"
    then have "or_EventID s \<in> set (map obr_eventId rows)" using rs by (auto simp: outbox_record_of_def)
    then show ?thesis using I(4) unfolding I(5) by (auto simp: time_defs)
  qed
  show "map obr_eventId (db_outbox (w_db w')) = map obr_eventId (db_outbox (w_db w))"
    by (subst I(3)) simp
qed

text \<open>
  C40: a leased event is nobody else's until its lease ends: a later claim before that instant, with
  any runtime, returns none of the events that the first returned.
\<close>

theorem leases_are_exclusive:
  assumes "ClaimDueEvents rt now lim lease w = (Inr rs, w')"
    and "ClaimDueEvents rt' now' lim' lease' w' = (Inr rs', w'')"
    and "distinct (map obr_eventId (db_outbox (w_db w)))" and "now' < now + lease"
  shows "set (map or_EventID rs) \<inter> set (map or_EventID rs') = {} \<and> length rs \<le> lim"
proof -
  note A = claimed_are_leased [OF assms(1,3)]
  have d': "distinct (map obr_eventId (db_outbox (w_db w')))" using A(4) assms(3) by simp
  note B = claimed_are_leased [OF assms(2) d']
  have False if s: "s \<in> set rs" and s': "s' \<in> set rs'" and eq: "or_EventID s = or_EventID s'" for s s'
  proof -
    from B(3) [OF s'] obtain r where "r \<in> set (db_outbox (w_db w'))" "obr_eventId r = or_EventID s"
      "due_event now' r" using eq by auto
    then show False using A(1) [OF s] assms(4) by (auto simp: due_event_def)
  qed
  then show ?thesis using A(2) by auto
qed

theorem leases_are_exclusive_witness:
  "\<exists>rs w' rs' w''. ClaimDueEvents sample_runtime 1000 50 Lease (sample_world sample_outbox_db) = (Inr rs, w')
     \<and> ClaimDueEvents sample_runtime 2000 50 Lease w' = (Inr rs', w'')
     \<and> map or_EventID rs = [''7''] \<and> ''7'' \<notin> set (map or_EventID rs')"
proof -
  obtain rs w' where a: "ClaimDueEvents sample_runtime 1000 50 Lease (sample_world sample_outbox_db) = (Inr rs, w')"
    and ids: "map or_EventID rs = [''7'']" and s: "w_status w' = Autocommit"
    by (simp add: sample_runtime_def sample_world_def sample_outbox_db_def ClaimDueEvents_def
      tx_bind_def db_call_def exec_def Let_def claim_due_events_def update_outbox_def update_rows_def
      res_simps due_event_def envelope_to_row_def time_defs outbox_checks_def sample_envelope_def
      event_types_def checked_def outbox_record_of_def)
  have "\<exists>rs' w''. ClaimDueEvents sample_runtime 2000 50 Lease w' = (Inr rs', w'')"
    using a by (auto simp: sample_runtime_def sample_world_def sample_outbox_db_def ClaimDueEvents_def
      tx_bind_def db_call_def exec_def Let_def claim_due_events_def update_outbox_def update_rows_def
      res_simps due_event_def envelope_to_row_def time_defs outbox_checks_def sample_envelope_def
      event_types_def checked_def outbox_record_of_def Lease_def duration_defs)
  then obtain rs' w'' where b: "ClaimDueEvents sample_runtime 2000 50 Lease w' = (Inr rs', w'')" by blast
  have "set (map or_EventID rs) \<inter> set (map or_EventID rs') = {} \<and> length rs \<le> 50"
    by (rule leases_are_exclusive [OF a b])
      (simp_all add: sample_world_def sample_outbox_db_def Lease_def Second_def)
  then show ?thesis using a b ids by fastforce
qed

end
