(* ===== verification/Worker.thy ===== *)
theory Worker
  imports Outbox
begin

text \<open>
  \<open>internal/adapters/worker/reference.go\<close>: a pass of the worker that recovers accepted transactions
  that wait for their reference. It leases a batch and resolves each item with the use case of the
  service; failures of one item leave the others alone. The polling loop, the metrics and the log are
  left out.
\<close>

definition ClaimBatch :: nat where "ClaimBatch = 50"
definition ClaimLease :: duration where "ClaimLease = 30 * Second"

text \<open>The batch, with the number resolved; \<open>stop\<close> is \<open>ctx.Err() != nil\<close>. A panic ends the pass.\<close>

fun resolve_batch ::
  "runtime \<Rightarrow> (nat \<Rightarrow> bool) \<Rightarrow> wager list \<Rightarrow> nat \<Rightarrow> nat tx" where
  "resolve_batch rt stop [] resolved w = (Inr resolved, w)"
| "resolve_batch rt stop (t # ts) resolved w =
     (if stop (w_calls w) then (Inr resolved, w)
      else case ResolvePendingReference rt
          \<lparr>rcm_TransactionID = tx_id t, rcm_CorrelationID = uuid_String (rt_uuid rt) (tx_id t)\<rparr> w of
        (Inl e, w') \<Rightarrow>
          (if e = Panicked then (Inl Panicked, w') else resolve_batch rt stop ts resolved w')
      | (Inr result, w') \<Rightarrow>
          resolve_batch rt stop ts (if wager_result_IsTerminal result then Suc resolved else resolved) w')"

definition ResolveOnce :: "runtime \<Rightarrow> (nat \<Rightarrow> bool) \<Rightarrow> nat tx" where
  "ResolveOnce rt stop =
     tx_bind (clock_Now rt) (\<lambda>now.
     tx_bind (transactions_ClaimDueReferences rt now ClaimBatch ClaimLease) (\<lambda>claimed.
     resolve_batch rt stop claimed 0))"

lemma ResolvePendingReference_step:
  assumes "uuid_lib_ok (rt_uuid rt)" and "ResolvePendingReference rt cmd st = (res, st')"
  shows "w_db st' = w_db st \<or> fin_step (rt_uuid rt) (w_db st) (w_db st')"
  using ResolvePendingReference_refines [OF assms] resolve_spec_step by blast

lemma resolve_batch_steps:
  assumes u: "uuid_lib_ok (rt_uuid rt)" and run: "resolve_batch rt stop ts n st = (res, st')"
  shows "(fin_step (rt_uuid rt))\<^sup>*\<^sup>* (w_db st) (w_db st')"
  using run
proof (induction ts arbitrary: n st)
  case Nil
  then show ?case by simp
next
  case (Cons t ts)
  let ?cmd = "\<lparr>rcm_TransactionID = tx_id t, rcm_CorrelationID = uuid_String (rt_uuid rt) (tx_id t)\<rparr>"
  show ?case
  proof (cases "stop (w_calls st)")
    case True
    then show ?thesis using Cons.prems by simp
  next
    case False
    obtain x st1 where r: "ResolvePendingReference rt ?cmd st = (x, st1)"
      by (cases "ResolvePendingReference rt ?cmd st")
    have s: "(fin_step (rt_uuid rt))\<^sup>*\<^sup>* (w_db st) (w_db st1)"
      using ResolvePendingReference_step [OF u r] by (auto intro: r_into_rtranclp)
    have "st' = st1 \<or> (\<exists>n'. resolve_batch rt stop ts n' st1 = (res, st'))"
      using Cons.prems False r by (cases x) (auto split: if_splits)
    then show ?thesis using s Cons.IH by (meson rtranclp_trans)
  qed
qed

lemma ResolveOnce_steps:
  assumes u: "uuid_lib_ok (rt_uuid rt)" and run: "ResolveOnce rt stop st = (res, st')"
  shows "(fin_step (rt_uuid rt))\<^sup>*\<^sup>* (w_db st) (w_db st')"
proof -
  obtain now st0 where n: "clock_Now rt st = (Inr now, st0)" "w_db st0 = w_db st"
    by (auto simp: clock_Now_def)
  obtain x st1 where c: "transactions_ClaimDueReferences rt now ClaimBatch ClaimLease st0 = (x, st1)"
    by (cases "transactions_ClaimDueReferences rt now ClaimBatch ClaimLease st0")
  have s: "(fin_step (rt_uuid rt))\<^sup>*\<^sup>* (w_db st) (w_db st1)"
    using ClaimDueReferences_refines [OF c] n(2) by (auto intro: r_into_rtranclp)
  have "st' = st1 \<or> (\<exists>ts. resolve_batch rt stop ts 0 st1 = (res, st'))"
    using run n c by (cases x) (auto simp: ResolveOnce_def tx_bind_def)
  then show ?thesis using s resolve_batch_steps [OF u] by (meson rtranclp_trans)
qed

end
