(* ===== verification/EventBooks.thy ===== *)
theory EventBooks
  imports Worker
begin

text \<open>
  The transactional outbox keeps its books: in every reachable database the events of a wallet are
  as many as the postings, the processed transactions and the rejected transactions they report.
\<close>

definition events_of :: "uuid_lib \<Rightarrow> event_type \<Rightarrow> wallet_id \<Rightarrow> db \<Rightarrow> nat" where
  "events_of u k i d =
     length (filter (\<lambda>r. obr_eventType r = k \<and> obr_aggregateId r = uuid_String u i) (db_outbox d))"

definition in_state :: "tstate \<Rightarrow> wallet_id \<Rightarrow> db \<Rightarrow> nat" where
  "in_state s i d = length (filter (\<lambda>r. txr_state r = s \<and> txr_walletId r = i) (db_transactions d))"

definition events_inv :: "uuid_lib \<Rightarrow> db \<Rightarrow> bool" where
  "events_inv u d \<longleftrightarrow>
     distinct (map obr_eventId (db_outbox d))
     \<and> (\<forall>i. events_of u TypeWalletBalanceChanged i d = length (entries_of i d)
          \<and> events_of u TypeWagerTransactionProcessed i d = in_state StateProcessed i d
          \<and> events_of u TypeWagerTransactionRejected i d = in_state StateRejected i d)"

lemma emitted_events:
  assumes u: "uuid_lib_ok u" and e: "emitted u ks i d d'"
  shows "events_of u k j d' = events_of u k j d + (if j = i then length (filter (\<lambda>x. x = k) ks) else 0)"
    and "distinct (map obr_eventId (db_outbox d)) \<Longrightarrow> distinct (map obr_eventId (db_outbox d'))"
    and "db_transactions d' = db_transactions d" "db_ledger d' = db_ledger d"
proof -
  from e obtain evs where E: "d' = d\<lparr>db_outbox := db_outbox d @ evs\<rparr>" "map obr_eventType evs = ks"
    "\<forall>r \<in> set evs. event_row_ok u i r" "distinct (map obr_eventId evs)"
    "set (map obr_eventId evs) \<inter> set (map obr_eventId (db_outbox d)) = {}"
    unfolding emitted_def by blast
  have ag: "\<forall>r \<in> set evs. obr_aggregateId r = uuid_String u i" using E(3) by (simp add: event_row_ok_def)
  have "length (filter (\<lambda>r. obr_eventType r = k \<and> obr_aggregateId r = uuid_String u j) evs)
      = (if j = i then length (filter (\<lambda>x. x = k) ks) else 0)"
    unfolding E(2) [symmetric] using ag
    by (induction evs) (auto simp: uuid_String_inject [OF u])
  then show "events_of u k j d' = events_of u k j d + (if j = i then length (filter (\<lambda>x. x = k) ks) else 0)"
    by (simp add: events_of_def E(1))
  show "distinct (map obr_eventId (db_outbox d)) \<Longrightarrow> distinct (map obr_eventId (db_outbox d'))"
    using E(1,4,5) by auto
qed (use e in \<open>auto simp: emitted_def\<close>)

lemma same_events_count:
  assumes "list_all2 same_event xs ys"
  shows "map obr_eventId ys = map obr_eventId xs"
    "length (filter (\<lambda>r. obr_eventType r = k \<and> obr_aggregateId r = a) ys)
      = length (filter (\<lambda>r. obr_eventType r = k \<and> obr_aggregateId r = a) xs)"
proof -
  have f: "obr_eventId y = obr_eventId x" "obr_eventType y = obr_eventType x"
    "obr_aggregateId y = obr_aggregateId x" if "same_event x y" for x y
    using that unfolding same_event_def by (cases x; cases y; simp)+
  from assms show "map obr_eventId ys = map obr_eventId xs"
    by induction (use f in auto)
  from assms show "length (filter (\<lambda>r. obr_eventType r = k \<and> obr_aggregateId r = a) ys)
      = length (filter (\<lambda>r. obr_eventType r = k \<and> obr_aggregateId r = a) xs)"
    by induction (use f in auto)
qed

text \<open>Persisting a transition moves one row from its old state to its new one.\<close>

lemma persisted_count:
  assumes u: "uuid_lib_ok u" and dis: "distinct (map txr_id (db_transactions d))" and t: "tx_at u d t"
    and p: "persisted t' s d d'" and id: "tx_id t' = tx_id t" and st: "tx_state t \<noteq> k"
  shows "in_state k i d' = in_state k i d + (if tx_state t' = k \<and> tx_walletID t = i then 1 else 0)"
    and "db_outbox d' = db_outbox d" "db_ledger d' = db_ledger d"
proof -
  from t obtain r where r: "r \<in> set (db_transactions d)" "rehydrateTransaction u r = Inr t"
    by (auto simp: tx_at_def)
  note f = rehydrate_fields [OF u r(2)]
  let ?f = "\<lambda>r. if txr_id r = tx_id t' then apply_update t' s r else r"
  have d': "d' = d\<lparr>db_transactions := map ?f (db_transactions d)\<rparr>"
    using update_transactions_Inr [OF p [unfolded persisted_def]] by simp
  then show "db_outbox d' = db_outbox d" "db_ledger d' = db_ledger d" by simp_all
  obtain as bs where ab: "db_transactions d = as @ r # bs" using r(1) by (meson split_list)
  have no: "x \<in> set as \<union> set bs \<Longrightarrow> txr_id x \<noteq> tx_id t'" for x
    using dis f(1) id unfolding ab by auto (metis image_eqI)+
  then have "map ?f as = as" "map ?f bs = bs" by (auto intro!: map_idI)
  then have "db_transactions d' = as @ apply_update t' s r # bs" using f(1) id by (simp add: d' ab)
  then show "in_state k i d' = in_state k i d + (if tx_state t' = k \<and> tx_walletID t = i then 1 else 0)"
    using f(3,4) st by (simp add: in_state_def ab apply_update_def)
qed

lemma tx_at_cong: "db_transactions d' = db_transactions d \<Longrightarrow> tx_at u d' t = tx_at u d t"
  by (simp add: tx_at_def)

text \<open>The books of events after a step: what was emitted against what was written.\<close>

definition posted_gap :: "uuid_lib \<Rightarrow> db \<Rightarrow> wallet_id \<Rightarrow> int" where
  "posted_gap u d i = int (events_of u TypeWalletBalanceChanged i d) - int (length (entries_of i d))"

definition state_gap :: "uuid_lib \<Rightarrow> event_type \<Rightarrow> tstate \<Rightarrow> db \<Rightarrow> wallet_id \<Rightarrow> int" where
  "state_gap u k s d i = int (events_of u k i d) - int (in_state s i d)"

lemma events_inv_books:
  "events_inv u d \<longleftrightarrow> distinct (map obr_eventId (db_outbox d))
     \<and> (\<forall>i. posted_gap u d i = 0 \<and> state_gap u TypeWagerTransactionProcessed StateProcessed d i = 0
          \<and> state_gap u TypeWagerTransactionRejected StateRejected d i = 0)"
  by (auto simp: events_inv_def posted_gap_def state_gap_def)

lemmas gap_defs = posted_gap_def state_gap_def

lemma events_of_cong: "db_outbox d' = db_outbox d \<Longrightarrow> events_of u k i d' = events_of u k i d"
  by (simp add: events_of_def)

lemma in_state_cong: "db_transactions d' = db_transactions d \<Longrightarrow> in_state s i d' = in_state s i d"
  by (simp add: in_state_def)

lemma entries_of_cong: "db_ledger d' = db_ledger d \<Longrightarrow> entries_of i d' = entries_of i d"
  by (simp add: entries_of_def)

lemmas table_congs = events_of_cong in_state_cong entries_of_cong

lemma event_type_neqs [simp]:
  "TypeWagerTransactionProcessed \<noteq> TypeWagerTransactionRejected"
  "TypeWagerTransactionRejected \<noteq> TypeWagerTransactionProcessed"
  "TypeWagerTransactionProcessed \<noteq> TypeWalletBalanceChanged"
  "TypeWalletBalanceChanged \<noteq> TypeWagerTransactionProcessed"
  "TypeWagerTransactionRejected \<noteq> TypeWalletBalanceChanged"
  "TypeWalletBalanceChanged \<noteq> TypeWagerTransactionRejected"
  "TypeWagerTransactionPendingReference \<noteq> TypeWagerTransactionProcessed"
  "TypeWagerTransactionPendingReference \<noteq> TypeWagerTransactionRejected"
  "TypeWagerTransactionPendingReference \<noteq> TypeWalletBalanceChanged"
  by (simp_all add: event_type_defs)

text \<open>Persisting one transition and emitting its events keeps the books, when the events are the
  ones of the new state.\<close>

lemma persist_emit_books:
  assumes u: "uuid_lib_ok u" and dis: "distinct (map txr_id (db_transactions d))" and t: "tx_at u d t"
    and p: "persisted t' s d d1" and id: "tx_id t' = tx_id t"
    and open_state: "tx_state t \<noteq> StateProcessed" "tx_state t \<noteq> StateRejected"
    and e: "emitted u ks (tx_walletID t) d1 d'"
    and ks: "length (filter (\<lambda>x. x = TypeWagerTransactionProcessed) ks) = of_bool (tx_state t' = StateProcessed)"
      "length (filter (\<lambda>x. x = TypeWagerTransactionRejected) ks) = of_bool (tx_state t' = StateRejected)"
  shows "posted_gap u d' i = posted_gap u d i
      + (if i = tx_walletID t then int (length (filter (\<lambda>x. x = TypeWalletBalanceChanged) ks)) else 0)"
    and "state_gap u TypeWagerTransactionProcessed StateProcessed d' i
       = state_gap u TypeWagerTransactionProcessed StateProcessed d i"
    and "state_gap u TypeWagerTransactionRejected StateRejected d' i
       = state_gap u TypeWagerTransactionRejected StateRejected d i"
    and "distinct (map obr_eventId (db_outbox d)) \<Longrightarrow> distinct (map obr_eventId (db_outbox d'))"
proof -
  note C = persisted_count [OF u dis t p id]
  note O' = C(2) [OF open_state(1)] and L = C(3) [OF open_state(1)]
  note E = emitted_events [OF u e]
  show "posted_gap u d' i = posted_gap u d i
      + (if i = tx_walletID t then int (length (filter (\<lambda>x. x = TypeWalletBalanceChanged) ks)) else 0)"
    by (simp add: posted_gap_def E(1) events_of_cong [OF O'] entries_of_cong [OF L] entries_of_cong [OF E(4)])
  show "state_gap u TypeWagerTransactionProcessed StateProcessed d' i
       = state_gap u TypeWagerTransactionProcessed StateProcessed d i"
    using C(1) [OF open_state(1), of i] ks(1)
    by (auto simp: state_gap_def E(1) events_of_cong [OF O'] in_state_cong [OF E(3)])
  show "state_gap u TypeWagerTransactionRejected StateRejected d' i
       = state_gap u TypeWagerTransactionRejected StateRejected d i"
    using C(1) [OF open_state(2), of i] ks(2)
    by (auto simp: state_gap_def E(1) events_of_cong [OF O'] in_state_cong [OF E(3)])
  show "distinct (map obr_eventId (db_outbox d)) \<Longrightarrow> distinct (map obr_eventId (db_outbox d'))"
    using E(2) O' by simp
qed

lemma emitted_nothing: "emitted u [] i d d"
  by (auto simp: emitted_def intro!: exI [of _ "[]"])

lemma settles_events:
  assumes u: "uuid_lib_ok u" and keys: "distinct (map txr_id (db_transactions d))" and t: "tx_at u d t"
    and s: "settles u d t t' d'" and inv: "events_inv u d"
  shows "events_inv u d'"
  using s
proof cases
  case (settles_wait deadline now s d1)
  then show ?thesis
    using persist_emit_books [OF u keys t settles_wait(2) _ _ _ settles_wait(3)] inv
    by (auto simp: events_inv_books MarkPendingReference_Inr_iff)
next
  case (settles_refuse w ref code now d1)
  then show ?thesis
    using persist_emit_books [OF u keys t settles_refuse(3) _ _ _ settles_refuse(4)] inv
    by (auto simp: events_inv_books MarkRejected_Inr_iff transition_Inr_iff)
next
  case (settles_fail w now)
  then show ?thesis
    using persist_emit_books [OF u keys t settles_fail(3) _ _ _ emitted_nothing] inv
    by (auto simp: events_inv_books MarkFailed_Inr_iff transition_Inr_iff)
next
  case (settles_loss w ref now d1)
  then show ?thesis
    using persist_emit_books [OF u keys t settles_loss(4) _ _ _ settles_loss(5)] inv
    by (auto simp: events_inv_books MarkProcessed_Inr_iff transition_Inr_iff)
next
  case (settles_post w ro taken dir a consumed claim now w' eid e d1 d2 d3 d4)
  have D1: "db_transactions d1 = db_transactions d" "db_outbox d1 = db_outbox d" "db_ledger d1 = db_ledger d"
    using update_wallet_balance_Inr [OF settles_post(8) [unfolded wallet_saved_def]] by simp_all
  have D2: "db_transactions d2 = db_transactions d1" "db_outbox d2 = db_outbox d1"
      "db_ledger d2 = db_ledger d1 @ [ledger_to_row e]"
    using settles_post(9) by (simp_all add: insert_ledger_Inr)
  have D3: "db_transactions d3 = db_transactions d2" "db_outbox d3 = db_outbox d2" "db_ledger d3 = db_ledger d2"
    using settles_post(10) by (auto simp: claimed_for_def insert_claim_Inr split: if_splits)
  note W = wallet_atD [OF u settles_post(1)]
  have dir: "dir = DirectionCredit \<or> dir = DirectionDebit"
    using decide_Post [OF settles_post(2,4)] by blast
  have "wal_id w' = tx_walletID t"
    using moved_of_direction(1) [OF _ dir settles_post(5)] W by (simp add: wallet_db_ok_def)
  then have ent: "entries_of i d3 = entries_of i d @ (if i = tx_walletID t then [ledger_to_row e] else [])" for i
    using settles_post(6) D1 D2 D3
    by (auto simp: entries_of_def ledger_to_row_def NewWalletLedgerEntry_Inr_iff)
  have tr: "db_transactions d3 = db_transactions d" "db_outbox d3 = db_outbox d" using D1 D2 D3 by simp_all
  have b: "posted_gap u d3 i = posted_gap u d i - (if i = tx_walletID t then 1 else 0)"
    "state_gap u k z d3 i = state_gap u k z d i" for i k z
    by (simp_all add: gap_defs ent events_of_cong [OF tr(2)] in_state_cong [OF tr(1)])
  have st: "tx_id t' = tx_id t" "tx_state t' = StateProcessed" "tx_state t \<noteq> StateProcessed"
    "tx_state t \<noteq> StateRejected"
    using settles_post(7) by (auto simp: MarkProcessed_Inr_iff transition_Inr_iff)
  have keys3: "distinct (map txr_id (db_transactions d3))" and t3: "tx_at u d3 t"
    using keys t tr(1) by (simp_all add: tx_at_def)
  note B = persist_emit_books [OF u keys3 t3 settles_post(11) st(1,3,4) settles_post(12)]
  then show ?thesis
    using inv b st tr(2) by (auto simp: events_inv_books)
qed

lemma fin_step_events:
  assumes u: "uuid_lib_ok u" and fin: "fin_inv d" and inv: "events_inv u d" and s: "fin_step u d d'"
  shows "events_inv u d'"
  using s
proof cases
  case (step_open_zero i p c b now w)
  then have "d' = d\<lparr>db_wallets := db_wallets d @ [wallet_to_row w]\<rparr>" by (simp add: insert_wallet_Inr)
  then show ?thesis using inv by (simp add: events_inv_def events_of_def in_state_def entries_of_def)
next
  case (step_open_positive i p c b now w d1 tid op0 t d2 zero eid e d3)
  have T: "tx_state t = StateProcessed" "tx_walletID t = wal_id w"
    using step_open_positive(4,5) by (auto simp: NewInternalOpening_Inr_iff MarkProcessed_Inr_iff)
  have E: "lgr_walletId (ledger_to_row e) = wal_id w"
    using step_open_positive(8) by (auto simp: NewWalletLedgerEntry_Inr_iff ledger_to_row_def)
  have D: "db_transactions d3 = db_transactions d @ [wager_to_row t]" "db_outbox d3 = db_outbox d"
    "db_ledger d3 = db_ledger d @ [ledger_to_row e]"
    using step_open_positive(3,9) insert_transaction_Inr [OF step_open_positive(6)]
    by (simp_all add: insert_wallet_Inr insert_ledger_Inr)
  note M = emitted_events [OF u step_open_positive(10)]
  have "posted_gap u d' i = posted_gap u d i"
    "state_gap u TypeWagerTransactionProcessed StateProcessed d' i
       = state_gap u TypeWagerTransactionProcessed StateProcessed d i"
    "state_gap u TypeWagerTransactionRejected StateRejected d' i
       = state_gap u TypeWagerTransactionRejected StateRejected d i" for i
    using T E
    by (simp_all add: gap_defs M(1) events_of_cong [OF D(2)] in_state_cong [OF M(3)] entries_of_cong [OF M(4)])
      (simp_all add: in_state_def entries_of_def wager_to_row_def D)
  then show ?thesis using inv M(2) D(2) by (simp add: events_inv_books)
next
  case (step_submit p w d1 t')
  have D: "d1 = d\<lparr>db_transactions := db_transactions d @ [wager_to_row (external_wager p)]\<rparr>"
    "txr_id (wager_to_row (external_wager p)) \<notin> set (map txr_id (db_transactions d))"
    using insert_transaction_Inr [OF step_submit(4)] by blast+
  have "events_inv u d1"
    using inv D(1) by (simp add: events_inv_def events_of_def in_state_def entries_of_def wager_to_row_def
        external_wager_def)
  moreover have "distinct (map txr_id (db_transactions d1))"
    using fin D by (simp add: fin_inv_def keys_inv_def)
  ultimately show ?thesis
    using settles_events [OF u _ external_wager_at [OF u step_submit(1,4)] step_submit(5)] by blast
next
  case (step_recover t t')
  then show ?thesis using settles_events [OF u _ _ _ inv] fin by (simp add: fin_inv_def keys_inv_def)
next
  case (step_schedule f)
  have "txr_state (f r) = txr_state r \<and> txr_walletId (f r) = txr_walletId r"
    if "r \<in> set (db_transactions d)" for r
    using step_schedule(2) that unfolding same_but_schedule_def by (cases r; cases "f r") fastforce
  then have "in_state k i d' = in_state k i d" for k i
    unfolding in_state_def step_schedule(1) by (simp add: filter_map o_def cong: filter_cong)
  then show ?thesis
    using inv step_schedule(1) by (simp add: events_inv_def events_of_def entries_of_def)
next
  case (step_delivery ys xs)
  then show ?thesis
    using inv same_events_count [OF step_delivery(2)]
    by (simp add: events_inv_def events_of_def entries_of_def in_state_def)
qed

lemma fin_reach_events: "uuid_lib_ok u \<Longrightarrow> fin_reach u d \<Longrightarrow> events_inv u d"
proof (rotate_tac, induction d rule: fin_reach.induct)
  case reach_empty
  then show ?case by (simp add: events_inv_def events_of_def in_state_def entries_of_def db_empty_def)
next
  case (reach_more d d')
  then show ?case using fin_step_events fin_reach_inv by blast
qed

end
