(* ===== verification/System.thy ===== *)
theory System
  imports EventBooks
begin

text \<open>
  The whole service: a database is \<open>service_reach\<close>able when a sequence of use cases, passes of the
  worker and passes of the publisher leads to it from the empty one, each with a runtime of its own,
  so with its own identities, clock, faults, lost acknowledgements and panics. Its invariants are the
  guarantees of the system.
\<close>

section \<open>Steps of the service\<close>

datatype use_case =
    Open open_command
  | Submit submit_command
  | Deliver submit_command inbox_delivery
  | Recover resolve_command
  | WorkerPass "nat \<Rightarrow> bool"
  | PublisherPass publish_env

fun perform :: "runtime \<Rightarrow> use_case \<Rightarrow> world \<Rightarrow> world" where
  "perform rt (Open cmd) w = snd (OpenWallet rt cmd w)"
| "perform rt (Submit cmd) w = snd (SubmitWagerTransaction rt cmd w)"
| "perform rt (Deliver cmd dl) w = snd (SubmitWagerFromInbox rt cmd dl w)"
| "perform rt (Recover cmd) w = snd (ResolvePendingReference rt cmd w)"
| "perform rt (WorkerPass stop) w = snd (ResolveOnce rt stop w)"
| "perform rt (PublisherPass env) w = snd (snd (PublishOnce rt env w))"

inductive service_step :: "uuid_lib \<Rightarrow> db \<Rightarrow> db \<Rightarrow> bool" for u where
  service_step: "rt_uuid rt = u \<Longrightarrow> service_step u (w_db w) (w_db (perform rt uc w))"

inductive_cases service_stepE: "service_step u d d'"

definition service_reach :: "uuid_lib \<Rightarrow> db \<Rightarrow> bool" where
  "service_reach u d \<longleftrightarrow> (service_step u)\<^sup>*\<^sup>* db_empty d"

lemma service_step_fin:
  assumes u: "uuid_lib_ok u" and s: "service_step u d d'" and ids: "distinct (map obr_eventId (db_outbox d))"
  shows "(fin_step u)\<^sup>*\<^sup>* d d'"
  using s
proof cases
  case (service_step rt w uc)
  note uu = u [folded service_step(3)]
  show ?thesis
  proof (cases uc)
    case (Open cmd)
    then show ?thesis
      using service_step OpenWallet_refines(1) [of rt cmd w] by (metis perform.simps(1) prod.collapse r_into_rtranclp rtranclp.rtrancl_refl)
  next
    case (Submit cmd)
    then show ?thesis
      using service_step SubmitWagerTransaction_refines [OF uu, of cmd w] submit_spec_step
      by (metis perform.simps(2) prod.collapse r_into_rtranclp rtranclp.rtrancl_refl)
  next
    case (Deliver cmd dl)
    then show ?thesis
      using service_step SubmitWagerFromInbox_refines [OF uu, of cmd dl w] inbox_spec_steps
      by (metis perform.simps(3) prod.collapse rtranclp.rtrancl_refl)
  next
    case (Recover cmd)
    then show ?thesis
      using service_step ResolvePendingReference_step [OF uu, of cmd w]
      by (metis perform.simps(4) prod.collapse r_into_rtranclp rtranclp.rtrancl_refl)
  next
    case (WorkerPass stop)
    then show ?thesis
      using service_step ResolveOnce_steps [OF uu, of stop w] by (metis perform.simps(5) prod.collapse)
  next
    case (PublisherPass env)
    obtain x sent w' where p: "PublishOnce rt env w = (x, sent, w')" by (cases "PublishOnce rt env w")
    from outbox_becomes_step [OF PublishOnce_becomes [OF p], of u] show ?thesis
      using service_step PublisherPass p ids by (simp add: r_into_rtranclp)
  qed
qed

lemma fin_reach_steps: "(fin_step u)\<^sup>*\<^sup>* d d' \<Longrightarrow> fin_reach u d \<Longrightarrow> fin_reach u d'"
  by (induction rule: rtranclp_induct) (auto intro: reach_more)

lemma service_steps_fin:
  assumes u: "uuid_lib_ok u" and s: "(service_step u)\<^sup>*\<^sup>* d d'" and r: "fin_reach u d"
  shows "(fin_step u)\<^sup>*\<^sup>* d d' \<and> fin_reach u d'"
  using s
proof (induction rule: rtranclp_induct)
  case base
  then show ?case using r by simp
next
  case (step d1 d2)
  have "distinct (map obr_eventId (db_outbox d1))"
    using fin_reach_events [OF u] step.IH by (simp add: events_inv_def)
  from service_step_fin [OF u step.hyps(2) this] show ?case
    using step.IH fin_reach_steps by (meson rtranclp_trans)
qed

lemma service_fin_reach: "uuid_lib_ok u \<Longrightarrow> service_reach u d \<Longrightarrow> fin_reach u d"
  using service_steps_fin reach_empty unfolding service_reach_def by blast

lemma service_reach_inv:
  assumes "uuid_lib_ok u" and "service_reach u d"
  shows "fin_inv d" "events_inv u d"
  using assms service_fin_reach fin_reach_inv fin_reach_events by blast+

lemma service_reach_steps: "service_reach u d \<Longrightarrow> (service_step u)\<^sup>*\<^sup>* d d' \<Longrightarrow> service_reach u d'"
  unfolding service_reach_def by (rule rtranclp_trans)

section \<open>Identities are taken once and for ever\<close>

definition ident :: "tx_row \<Rightarrow> uuid \<times> string option \<times> string option \<times> string option" where
  "ident r = (txr_id r, txr_providerId r, txr_idempotencyKey r, txr_digest r)"

definition same_key :: "uuid \<times> string option \<times> string option \<times> string option
     \<Rightarrow> uuid \<times> string option \<times> string option \<times> string option \<Rightarrow> bool" where
  "same_key x y \<longleftrightarrow> (\<exists>p k. fst (snd x) = Some p \<and> fst (snd (snd x)) = Some k
     \<and> fst (snd y) = Some p \<and> fst (snd (snd y)) = Some k)"

definition idents_inv :: "db \<Rightarrow> bool" where
  "idents_inv d \<longleftrightarrow>
     (\<forall>x \<in> set (map ident (db_transactions d)). \<forall>y \<in> set (map ident (db_transactions d)).
        same_key x y \<longrightarrow> fst x = fst y)"

lemma persisted_idents: "persisted t' s d d' \<Longrightarrow> map ident (db_transactions d') = map ident (db_transactions d)"
  by (drule persisted_eq) (simp add: ident_def apply_update_def)

lemma emitted_tables: "emitted u ks i d d' \<Longrightarrow> \<exists>x. d' = d\<lparr>db_outbox := x\<rparr>"
  by (rule emitted_fin)

lemma settles_idents:
  assumes "settles u d t t' d'"
  shows "map ident (db_transactions d') = map ident (db_transactions d)"
proof -
  have e: "db_transactions d2 = db_transactions d1" if "emitted u ks i d1 d2" for ks i d1 d2
    using emitted_fin [OF that] by auto
  show ?thesis
    using assms
  proof cases
    case (settles_post w ro taken dir a consumed claim now w' eid e d1 d2 d3 d4)
    have "db_transactions d1 = db_transactions d"
      using update_wallet_balance_Inr [OF settles_post(8) [unfolded wallet_saved_def]] by simp
    moreover have "db_transactions d2 = db_transactions d1"
      using settles_post(9) by (simp add: insert_ledger_Inr)
    moreover have "db_transactions d3 = db_transactions d2"
      using settles_post(10) by (auto simp: claimed_for_def insert_claim_Inr split: if_splits)
    ultimately show ?thesis using persisted_idents [OF settles_post(11)] e [OF settles_post(12)] by metis
  qed (use persisted_idents e in metis)+
qed

text \<open>A step keeps every transaction with its identities and may add some at the end.\<close>

lemma fin_step_idents:
  assumes "fin_step u d d'"
  shows "\<exists>xs. map ident (db_transactions d') = map ident (db_transactions d) @ xs"
  using assms
proof cases
  case (step_open_zero i p c b now w)
  then show ?thesis by (simp add: insert_wallet_Inr)
next
  case (step_open_positive i p c b now w d1 tid op0 t d2 zero eid e d3)
  then show ?thesis
    using emitted_fin [OF step_open_positive(10)] insert_transaction_Inr [OF step_open_positive(6)]
    by (auto simp: insert_wallet_Inr insert_ledger_Inr)
next
  case (step_submit p w d1 t')
  then show ?thesis
    using settles_idents [OF step_submit(5)] insert_transaction_Inr [OF step_submit(4)] by auto
next
  case (step_recover t t')
  then show ?thesis using settles_idents by fastforce
next
  case (step_schedule f)
  have "ident (f r) = ident r" if "r \<in> set (db_transactions d)" for r
    using step_schedule(2) that unfolding same_but_schedule_def by (cases r; cases "f r") (fastforce simp: ident_def)
  then show ?thesis using step_schedule(1) by (intro exI [of _ "[]"]) simp
qed simp

lemma fin_steps_idents:
  "(fin_step u)\<^sup>*\<^sup>* d d' \<Longrightarrow> \<exists>xs. map ident (db_transactions d') = map ident (db_transactions d) @ xs"
proof (induction rule: rtranclp_induct)
  case (step d1 d2)
  then show ?case using fin_step_idents [OF step.hyps(2)] by fastforce
qed simp

lemma idents_inv_cong:
  "map ident (db_transactions d') = map ident (db_transactions d) \<Longrightarrow> idents_inv d' = idents_inv d"
  by (simp only: idents_inv_def)

lemma idents_invD:
  assumes "idents_inv d" and "r \<in> set (db_transactions d)" and "r' \<in> set (db_transactions d)"
    and "txr_providerId r = Some p" "txr_idempotencyKey r = Some k"
    and "txr_providerId r' = Some p" "txr_idempotencyKey r' = Some k"
  shows "txr_id r = txr_id r'"
proof -
  have "same_key (ident r) (ident r')" using assms(4-) by (simp add: same_key_def ident_def)
  moreover have "ident r \<in> set (map ident (db_transactions d))" "ident r' \<in> set (map ident (db_transactions d))"
    using assms(2,3) by simp_all
  ultimately have "fst (ident r) = fst (ident r')" using assms(1) unfolding idents_inv_def by blast
  then show ?thesis by (simp add: ident_def)
qed

lemma insert_idents_inv:
  assumes i: "insert_transaction r d = Inr ((), d')" and inv: "idents_inv d"
  shows "idents_inv d'"
proof -
  have d': "db_transactions d' = db_transactions d @ [r]" using insert_transaction_Inr [OF i] by simp
  have free: "\<not> same_key (ident x) (ident r)" "\<not> same_key (ident r) (ident x)"
    if x: "x \<in> set (db_transactions d)" for x
  proof -
    have False if "txr_providerId r = Some p" "txr_idempotencyKey r = Some k"
      "txr_providerId x = Some p" "txr_idempotencyKey x = Some k" for p k
      using insert_transaction_keys(1) [OF i that(1,2)] that(3,4) x by force
    then show "\<not> same_key (ident x) (ident r)" "\<not> same_key (ident r) (ident x)"
      unfolding same_key_def ident_def by fastforce+
  qed
  have "same_key (ident x) (ident y) \<longrightarrow> fst (ident x) = fst (ident y)"
    if x: "x \<in> set (db_transactions d')" and y: "y \<in> set (db_transactions d')" for x y
  proof -
    consider "x = r" "y = r" | "x = r" "y \<in> set (db_transactions d)" | "x \<in> set (db_transactions d)" "y = r"
      | "x \<in> set (db_transactions d)" "y \<in> set (db_transactions d)" using x y by (auto simp: d')
    then show ?thesis
    proof cases
      case 4
      then show ?thesis using inv unfolding idents_inv_def by force
    qed (use free in auto)
  qed
  then show ?thesis unfolding idents_inv_def by auto
qed

lemma fin_step_idents_inv:
  assumes "fin_step u d d'" and "idents_inv d"
  shows "idents_inv d'"
  using assms(1)
proof cases
  case (step_open_zero i p c b now w)
  then show ?thesis using assms(2) by (simp add: insert_wallet_Inr idents_inv_def)
next
  case (step_open_positive i p c b now w d1 tid op0 t d2 zero eid e d3)
  have "idents_inv d1" using step_open_positive(3) assms(2) by (simp add: insert_wallet_Inr idents_inv_def)
  then have "idents_inv d2" using insert_idents_inv [OF step_open_positive(6)] by blast
  moreover have "db_transactions d' = db_transactions d2"
    using step_open_positive(9) emitted_fin [OF step_open_positive(10)] by (auto simp: insert_ledger_Inr)
  ultimately show ?thesis using idents_inv_cong [of d' d2] by simp
next
  case (step_submit p w d1 t')
  then show ?thesis
    using insert_idents_inv [OF step_submit(4) assms(2)] idents_inv_cong [OF settles_idents] by blast
next
  case (step_recover t t')
  then show ?thesis using assms(2) idents_inv_cong [OF settles_idents] by blast
next
  case (step_schedule f)
  have "ident (f r) = ident r" if "r \<in> set (db_transactions d)" for r
    using step_schedule(2) that unfolding same_but_schedule_def by (cases r; cases "f r") (fastforce simp: ident_def)
  then have "map ident (db_transactions d') = map ident (db_transactions d)"
    using step_schedule(1) by simp
  then show ?thesis using assms(2) idents_inv_cong by blast
next
  case (step_delivery ys xs)
  then show ?thesis using assms(2) by (simp add: idents_inv_def)
qed

lemma fin_reach_idents: "fin_reach u d \<Longrightarrow> idents_inv d"
proof (induction rule: fin_reach.induct)
  case reach_empty
  show ?case by (simp add: idents_inv_def db_empty_def)
qed (rule fin_step_idents_inv)

lemma fin_step_messages: "fin_step u d d' \<Longrightarrow> inbox_keys d \<subseteq> inbox_keys d'"
proof (induction rule: fin_step.induct)
  case (step_open_positive i p c b now w d d1 tid op0 t d2 zero eid e d3 d')
  then show ?case
    using emitted_fin [OF step_open_positive(10)] insert_transaction_Inr [OF step_open_positive(6)]
    by (auto simp: insert_wallet_Inr insert_ledger_Inr inbox_keys_def)
next
  case (step_submit p d w d1 t' d')
  then show ?case
    using settles_inbox [OF step_submit(5)] insert_transaction_Inr [OF step_submit(4)]
    by (auto simp: inbox_keys_def)
qed (auto simp: inbox_keys_def insert_wallet_Inr dest: settles_inbox)

lemma fin_steps_messages: "(fin_step u)\<^sup>*\<^sup>* d d' \<Longrightarrow> inbox_keys d \<subseteq> inbox_keys d'"
  by (induction rule: rtranclp_induct) (use fin_step_messages in blast)+

section \<open>Atomicity\<close>

text \<open>No commit loses its acknowledgement.\<close>

definition commits_known :: "runtime \<Rightarrow> bool" where
  "commits_known rt \<longleftrightarrow> (\<forall>n f. rt_commit rt n \<noteq> CommitUnknown f)"

lemma finish_tx_atomic:
  "commits_known rt \<Longrightarrow> finish_tx rt d0 rw = (Inl e, w') \<Longrightarrow> w_db w' = d0"
  using finish_tx_Inl [of rt d0 rw e w'] by (auto simp: commits_known_def)

lemma InTx_atomic: "commits_known rt \<Longrightarrow> InTx rt fn w = (Inl e, w') \<Longrightarrow> w_db w' = w_db w"
  by (cases "begin_tx rt w")
    (auto simp: InTx_def split: sum.splits dest: finish_tx_atomic begin_tx_Inl)

lemma submit_loop_atomic:
  assumes k: "commits_known rt"
  shows "submit_loop rt cmd digest c n lst w = (Inl e, w') \<Longrightarrow> w_db w' = w_db w"
proof (induction n arbitrary: lst w)
  case (Suc n)
  obtain x w1 where a: "submit_attempt rt cmd digest c w = (x, w1)"
    by (cases "submit_attempt rt cmd digest c w")
  show ?case
  proof (cases x)
    case (Inl f)
    then have "w_db w1 = w_db w" using a InTx_atomic [OF k] by (simp add: submit_attempt_def)
    then show ?thesis using Suc a Inl by (auto split: if_splits)
  qed (use Suc.prems a in simp)
qed simp

lemma inbox_attempt_atomic:
  "commits_known rt \<Longrightarrow> inbox_attempt rt cmd dl digest c r0 w = (Inl e, r, w') \<Longrightarrow> w_db w' = w_db w"
  by (auto simp: inbox_attempt_def split: prod.splits sum.splits dest: finish_tx_atomic begin_tx_Inl)

lemma inbox_loop_atomic:
  assumes k: "commits_known rt"
  shows "inbox_loop rt cmd dl digest c n r0 lst w = (Inl e, w') \<Longrightarrow> w_db w' = w_db w"
proof (induction n arbitrary: r0 lst w)
  case (Suc n)
  obtain x r w1 where a: "inbox_attempt rt cmd dl digest c r0 w = (x, r, w1)"
    by (cases "inbox_attempt rt cmd dl digest c r0 w")
  show ?case
  proof (cases x)
    case (Inl f)
    then have "w_db w1 = w_db w" using a inbox_attempt_atomic [OF k] by blast
    then show ?thesis using Suc a Inl by (auto split: if_splits)
  qed (use Suc.prems a in simp)
qed simp

lemma OpenWallet_atomic:
  assumes k: "commits_known rt" and run: "OpenWallet rt cmd w = (Inl e, w')"
  shows "w_db w' = w_db w"
  using OpenWallet_cases [OF run]
proof (elim disjE exE conjE)
  fix wid now wa cid st3 q
  assume d: "w_db st3 = w_db w" and x: "InTx rt (open_body rt wa now cid) st3 = (q, w')"
    and res: "Inl e = (case q of Inl e \<Rightarrow> Inl e | Inr _ \<Rightarrow> Inr (walletView wa))"
  from res obtain f where "q = Inl f" by (cases q) auto
  then show ?thesis using InTx_atomic [OF k] x d by metis
qed simp

lemma after_correlation:
  assumes "tx_bind (tx_lift v) (\<lambda>_. tx_bind (correlationOrNew rt c) body) w = (Inl e, w')"
    and "\<And>z w1. w_db w1 = w_db w \<Longrightarrow> body z w1 = (Inl e, w') \<Longrightarrow> w_db w' = w_db w1"
  shows "w_db w' = w_db w"
proof (cases v)
  case (Inl f)
  then show ?thesis using assms(1) by (simp add: tx_bind_def)
next
  case (Inr y)
  obtain x w1 where x: "correlationOrNew rt c w = (x, w1)" by (cases "correlationOrNew rt c w")
  from correlationOrNew_db [OF x] obtain z where "w_db w1 = w_db w" "x = Inr z" by blast
  then show ?thesis using assms x Inr by (simp add: tx_bind_def)
qed

lemma SubmitWagerTransaction_atomic:
  assumes k: "commits_known rt" and run: "SubmitWagerTransaction rt cmd w = (Inl e, w')"
  shows "w_db w' = w_db w"
  using run unfolding SubmitWagerTransaction_def Let_def
  by (rule after_correlation) (rule submit_loop_atomic [OF k])

lemma SubmitWagerFromInbox_atomic:
  assumes k: "commits_known rt" and run: "SubmitWagerFromInbox rt cmd dl w = (Inl e, w')"
  shows "w_db w' = w_db w"
proof (cases "SubmitWagerCommand_Validate cmd")
  case (Inl f)
  then show ?thesis using run by (simp add: SubmitWagerFromInbox_def tx_bind_def)
next
  case (Inr y)
  then have "tx_bind (tx_lift (InboxDelivery_Validate dl)) (\<lambda>_.
     tx_bind (correlationOrNew rt (sc_CorrelationID cmd)) (\<lambda>correlation.
     inbox_loop rt cmd dl (DigestOf (rt_uuid rt) (projection cmd)) correlation maxConcurrentWriteRetries
       wager_result_nil None)) w = (Inl e, w')"
    using run by (simp add: SubmitWagerFromInbox_def tx_bind_def Let_def)
  then show ?thesis by (rule after_correlation) (rule inbox_loop_atomic [OF k])
qed

lemma ResolvePendingReference_atomic:
  assumes k: "commits_known rt" and run: "ResolvePendingReference rt cmd w = (Inl e, w')"
  shows "w_db w' = w_db w"
  using run unfolding ResolvePendingReference_def by (rule after_correlation) (rule InTx_atomic [OF k])

end
