(* ===== verification/Progress.thy ===== *)
theory Progress
  imports System
begin

text \<open>
  What the service delivers when its environment works: in a healthy runtime (no driver call fails,
  every commit is acknowledged, identities are new) a valid command completes, with the outcome its
  contract promises. The concrete runs of the development are instances.
\<close>

section \<open>Healthy runtimes\<close>

definition healthy :: "runtime \<Rightarrow> bool" where
  "healthy rt \<longleftrightarrow>
     (\<forall>n. rt_fault rt n = None \<and> rt_commit rt n = CommitOk \<and> rt_failpoint rt n = None
        \<and> rt_Now rt n \<noteq> 0 \<and> rt_NewString rt n \<noteq> '''')"

lemma healthyD:
  assumes "healthy rt"
  shows "rt_fault rt n = None" "rt_commit rt n = CommitOk" "rt_failpoint rt n = None" "rt_Now rt n \<noteq> 0"
    "rt_NewString rt n \<noteq> ''''"
  using assms by (auto simp: healthy_def)

text \<open>
  The next \<open>k\<close> identities of the generator are issued, differ from each other and from the zero
  identity, and are not in the database.
\<close>

definition id_at :: "runtime \<Rightarrow> nat \<Rightarrow> uuid" where
  "id_at rt n = (case rt_NewV7 rt n of None \<Rightarrow> uuid_Nil | Some i \<Rightarrow> i)"

definition unused_id :: "uuid_lib \<Rightarrow> db \<Rightarrow> uuid \<Rightarrow> bool" where
  "unused_id u d i \<longleftrightarrow>
     i \<noteq> uuid_Nil \<and> i \<notin> set (map wlr_id (db_wallets d)) \<and> i \<notin> set (map txr_id (db_transactions d))
     \<and> i \<notin> set (map lgr_id (db_ledger d)) \<and> i \<notin> set (map clr_id (db_claims d))
     \<and> uuid_String u i \<notin> set (map obr_eventId (db_outbox d))"

definition fresh_ids :: "runtime \<Rightarrow> world \<Rightarrow> nat \<Rightarrow> bool" where
  "fresh_ids rt w k \<longleftrightarrow>
     list_all (\<lambda>n. unused_id (rt_uuid rt) (w_db w) (id_at rt n)) [w_ids w ..< w_ids w + k]
     \<and> distinct (map (id_at rt) [w_ids w ..< w_ids w + k])"

lemma fresh_idsD:
  assumes "fresh_ids rt w k" and "w_ids w \<le> n" "n < w_ids w + k"
  shows "rt_NewV7 rt n = Some (id_at rt n)" "id_at rt n \<noteq> uuid_Nil"
    "id_at rt n \<notin> wlr_id ` set (db_wallets (w_db w))" "id_at rt n \<notin> txr_id ` set (db_transactions (w_db w))"
    "id_at rt n \<notin> lgr_id ` set (db_ledger (w_db w))" "id_at rt n \<notin> clr_id ` set (db_claims (w_db w))"
    "uuid_String (rt_uuid rt) (id_at rt n) \<notin> obr_eventId ` set (db_outbox (w_db w))"
proof -
  have u: "unused_id (rt_uuid rt) (w_db w) (id_at rt n)"
    using assms by (auto simp: fresh_ids_def list_all_iff)
  then show "id_at rt n \<noteq> uuid_Nil" by (simp add: unused_id_def)
  then show "rt_NewV7 rt n = Some (id_at rt n)" by (simp add: id_at_def split: option.splits)
qed (use assms in \<open>auto simp: fresh_ids_def list_all_iff unused_id_def\<close>)

lemma fresh_ids_distinct:
  assumes "fresh_ids rt w k" and "uuid_lib_ok (rt_uuid rt)" and "w_ids w \<le> n" "n < w_ids w + k"
    and "w_ids w \<le> m" "m < w_ids w + k" and "n \<noteq> m"
  shows "uuid_String (rt_uuid rt) (id_at rt n) \<noteq> uuid_String (rt_uuid rt) (id_at rt m)"
proof -
  have "inj_on (id_at rt) (set [w_ids w ..< w_ids w + k])"
    using assms(1) unfolding fresh_ids_def distinct_map by blast
  then have "id_at rt n \<noteq> id_at rt m" using assms(3-7) by (simp add: inj_on_eq_iff)
  then show ?thesis using assms(2) by (simp add: uuid_String_inject)
qed

lemma fresh_ids_sub:
  assumes "fresh_ids rt w k" and "w_db w' = w_db w" and "w_ids w \<le> w_ids w'" "w_ids w' + k' \<le> w_ids w + k"
  shows "fresh_ids rt w' k'"
proof -
  have s: "set [w_ids w' ..< w_ids w' + k'] \<subseteq> set [w_ids w ..< w_ids w + k]"
  proof
    fix x
    assume "x \<in> set [w_ids w' ..< w_ids w' + k']"
    then have "w_ids w' \<le> x" "x < w_ids w' + k'" by simp_all
    then have "w_ids w \<le> x" "x < w_ids w + k" using assms(3,4) by linarith+
    then show "x \<in> set [w_ids w ..< w_ids w + k]" by simp
  qed
  have "list_all (\<lambda>n. unused_id (rt_uuid rt) (w_db w) (id_at rt n)) [w_ids w' ..< w_ids w' + k']"
    using assms(1) s unfolding fresh_ids_def list_all_iff by blast
  moreover have "inj_on (id_at rt) (set [w_ids w' ..< w_ids w' + k'])"
    using assms(1) s unfolding fresh_ids_def distinct_map by (blast intro: inj_on_subset)
  ultimately show ?thesis unfolding fresh_ids_def distinct_map assms(2) by (simp only: distinct_upt simp_thms)
qed

lemma new_id_healthy:
  "id_at rt (w_ids w) \<noteq> uuid_Nil \<Longrightarrow> new_id rt w = (Inr (id_at rt (w_ids w)), w\<lparr>w_ids := Suc (w_ids w)\<rparr>)"
  by (simp add: new_id_def id_at_def split: option.splits)

lemma newEventID_healthy:
  "id_at rt (w_ids w) \<noteq> uuid_Nil \<Longrightarrow> newEventID rt w
     = (Inr (uuid_String (rt_uuid rt) (id_at rt (w_ids w))), w\<lparr>w_ids := Suc (w_ids w)\<rparr>)"
  by (simp add: newEventID_def new_id_healthy tx_bind_def)

lemma db_call_healthy:
  "healthy rt \<Longrightarrow> w_status w \<noteq> AbortedTransaction \<Longrightarrow> stmt (w_db w) = Inr (x, d) \<Longrightarrow>
     db_call rt stmt w = (Inr x, w\<lparr>w_calls := Suc (w_calls w), w_db := d\<rparr>)"
  by (simp add: db_call_def exec_def Let_def healthyD)

lemma InTx_healthy:
  assumes "healthy rt" and "fn (started w) = (Inr x, w2)" and "w_status w2 \<noteq> AbortedTransaction"
  shows "InTx rt fn w = (Inr x, w2\<lparr>w_calls := Suc (w_calls w2), w_status := Autocommit\<rparr>)"
  using assms by (simp add: InTx_def begin_tx_def healthyD started_def finish_tx_def Let_def)

lemma correlationOrNew_healthy:
  assumes "healthy rt" and "uuid_lib_ok (rt_uuid rt)"
  obtains s n where "correlationOrNew rt c w = (Inr s, w\<lparr>w_ids := n\<rparr>)" "s \<noteq> ''''" "w_ids w \<le> n"
    "n \<le> Suc (w_ids w)"
proof (cases "c = ''''")
  case False
  then have "correlationOrNew rt c w = (Inr c, w\<lparr>w_ids := w_ids w\<rparr>)" by (simp add: correlationOrNew_def)
  then show ?thesis by (rule that) (use False in simp_all)
next
  case True
  show ?thesis
  proof (cases "rt_NewV7 rt (w_ids w)")
    case None
    then show ?thesis using that True healthyD(5) [OF assms(1)] by (simp add: correlationOrNew_def)
  next
    case (Some i)
    then show ?thesis using that True uuid_String_nonempty [OF assms(2)] by (simp add: correlationOrNew_def)
  qed
qed

text \<open>Writing an event: a row of the outbox more.\<close>

lemma emit_healthy:
  assumes h: "healthy rt" and u: "uuid_lib_ok (rt_uuid rt)" and st: "w_status w \<noteq> AbortedTransaction"
    and c: "c \<noteq> ''''" "now \<noteq> 0" and ms: "list_all IsInitialized (event_moneys dat)"
    and ty: "ty = type_of_data dat"
    and nz: "id_at rt (w_ids w) \<noteq> uuid_Nil"
    and fresh: "uuid_String (rt_uuid rt) (id_at rt (w_ids w)) \<notin> obr_eventId ` set (db_outbox (w_db w))"
  shows "\<exists>r. obr_eventId r = uuid_String (rt_uuid rt) (id_at rt (w_ids w))
    \<and> tx_bind (newEventID rt) (\<lambda>eid. tx_bind (tx_event (newEnvelope ty
        (event_meta eid (uuid_String (rt_uuid rt) i) c now) dat)) (\<lambda>env. outbox_Insert rt env now)) w
      = (Inr (), w\<lparr>w_ids := Suc (w_ids w), w_calls := Suc (w_calls w),
          w_db := (w_db w)\<lparr>db_outbox := db_outbox (w_db w) @ [r]\<rparr>\<rparr>)"
proof -
  let ?eid = "uuid_String (rt_uuid rt) (id_at rt (w_ids w))"
  let ?w1 = "w\<lparr>w_ids := Suc (w_ids w)\<rparr>"
  let ?m = "event_meta ?eid (uuid_String (rt_uuid rt) i) c now"
  have "metadata_validate ?m = Inr ()"
    using c uuid_String_nonempty [OF u] by (simp add: event_meta_def)
  then obtain env where env: "newEnvelope ty ?m dat = Inr env" and E: "ev_EventID env = ?eid"
      "ev_EventType env = ty" "ev_Version env = 1" "ev_Data env = dat"
    by (simp add: newEnvelope_def res_simps event_meta_def event_Version_def)
  have mar: "marshal_envelope env = Inr env" using ms by (simp add: marshal_envelope_Inr E)
  have "insert_outbox (envelope_to_row env now env) (w_db ?w1)
      = Inr ((), (w_db w)\<lparr>db_outbox := db_outbox (w_db w) @ [envelope_to_row env now env]\<rparr>)"
    using fresh E ty type_of_data_known by (simp add: insert_outbox_Inr envelope_to_row_def)
  from db_call_healthy [where w = ?w1 and stmt = "insert_outbox (envelope_to_row env now env)", OF h _ this] st
  have "outbox_Insert rt env now ?w1 = (Inr (), ?w1\<lparr>w_calls := Suc (w_calls w),
      w_db := (w_db w)\<lparr>db_outbox := db_outbox (w_db w) @ [envelope_to_row env now env]\<rparr>\<rparr>)"
    by (simp add: outbox_Insert_def tx_bind_def mar)
  then show ?thesis
    using E(1) env by (intro exI [of _ "envelope_to_row env now env"])
      (simp add: tx_bind_def newEventID_healthy [OF nz] tx_event_def envelope_to_row_def)
qed

section \<open>Opening a wallet\<close>

lemma emitProcessed_healthy:
  assumes "healthy rt" and "uuid_lib_ok (rt_uuid rt)" and "w_status st \<noteq> AbortedTransaction"
    and "c \<noteq> ''''" "now \<noteq> 0" and "IsInitialized (tx_amount t)" "IsInitialized b"
    and "id_at rt (w_ids st) \<noteq> uuid_Nil"
    and "uuid_String (rt_uuid rt) (id_at rt (w_ids st)) \<notin> obr_eventId ` set (db_outbox (w_db st))"
  shows "\<exists>r. obr_eventId r = uuid_String (rt_uuid rt) (id_at rt (w_ids st))
    \<and> emitProcessed rt w t b now c st = (Inr (), st\<lparr>w_ids := Suc (w_ids st), w_calls := Suc (w_calls st),
          w_db := (w_db st)\<lparr>db_outbox := db_outbox (w_db st) @ [r]\<rparr>\<rparr>)"
  unfolding emitProcessed_def Let_def NewWagerTransactionProcessed_def
  by (rule emit_healthy) (use assms in simp_all)

lemma emitBalanceChanged_healthy:
  assumes "healthy rt" and "uuid_lib_ok (rt_uuid rt)" and "w_status st \<noteq> AbortedTransaction"
    and "c \<noteq> ''''" "now \<noteq> 0" and "IsInitialized (mv_amount mv)" "IsInitialized b1" "IsInitialized b2"
    and "id_at rt (w_ids st) \<noteq> uuid_Nil"
    and "uuid_String (rt_uuid rt) (id_at rt (w_ids st)) \<notin> obr_eventId ` set (db_outbox (w_db st))"
  shows "\<exists>r. obr_eventId r = uuid_String (rt_uuid rt) (id_at rt (w_ids st))
    \<and> emitBalanceChanged rt w t mv b1 b2 now c st
      = (Inr (), st\<lparr>w_ids := Suc (w_ids st), w_calls := Suc (w_calls st),
          w_db := (w_db st)\<lparr>db_outbox := db_outbox (w_db st) @ [r]\<rparr>\<rparr>)"
  unfolding emitBalanceChanged_def Let_def NewWalletBalanceChanged_def
  by (rule emit_healthy) (use assms in simp_all)

lemma emitRejected_healthy:
  assumes "healthy rt" and "uuid_lib_ok (rt_uuid rt)" and "w_status st \<noteq> AbortedTransaction"
    and "c \<noteq> ''''" "now \<noteq> 0" and "IsInitialized (tx_amount t)" "IsInitialized (tx_observedBalance t)"
    and "id_at rt (w_ids st) \<noteq> uuid_Nil"
    and "uuid_String (rt_uuid rt) (id_at rt (w_ids st)) \<notin> obr_eventId ` set (db_outbox (w_db st))"
  shows "\<exists>r. obr_eventId r = uuid_String (rt_uuid rt) (id_at rt (w_ids st))
    \<and> emitRejected rt w t now c st = (Inr (), st\<lparr>w_ids := Suc (w_ids st), w_calls := Suc (w_calls st),
          w_db := (w_db st)\<lparr>db_outbox := db_outbox (w_db st) @ [r]\<rparr>\<rparr>)"
  unfolding emitRejected_def Let_def NewWagerTransactionRejected_def
  by (rule emit_healthy) (use assms in simp_all)

definition opened :: "wallet \<Rightarrow> transaction_id \<Rightarrow> wager" where
  "opened w tid =
     \<lparr>tx_id = tid, tx_origin = OriginInternal, tx_kind = KindOpening, tx_providerID = '''',
      tx_externalTransactionID = '''', tx_idempotencyKey = '''', tx_digestVersion = '''', tx_digest = '''',
      tx_walletID = wal_id w, tx_playerID = wal_playerID w, tx_roundID = '''', tx_gameID = '''',
      tx_amount = wal_balance w, tx_referenceExternalTransactionID = '''',
      tx_referenceTransactionID = uuid_Nil, tx_state = StateProcessed, tx_failureCode = '''',
      tx_observedBalance = wal_balance w, tx_referenceDeadline = 0, tx_createdAt = wal_createdAt w,
      tx_updatedAt = wal_createdAt w\<rparr>"

lemma opening_row_checked:
  "wallet_ok w \<Longrightarrow> currencyPattern (wal_currency w) \<Longrightarrow> 0 < bal w \<Longrightarrow> tid \<noteq> uuid_Nil \<Longrightarrow>
     NewInternalOpening tid (wal_id w) (wal_playerID w) (wal_balance w) (wal_createdAt w)
       = Inr ((opened w tid)\<lparr>tx_state := StatePending, tx_observedBalance := money_nil\<rparr>)
     \<and> MarkProcessed ((opened w tid)\<lparr>tx_state := StatePending, tx_observedBalance := money_nil\<rparr>)
         uuid_Nil (wal_balance w) (wal_createdAt w) = Inr (opened w tid)
     \<and> (\<forall>c \<in> set (transaction_checks (wager_to_row (opened w tid))). snd c)"
  by (auto simp: opened_def NewInternalOpening_Inr_iff MarkProcessed_Inr_iff transition_Inr_iff wager_init_def
      wallet_ok_def IsInitialized_def transaction_checks_def wager_to_row_def origin_metadata_def
      terminal_snapshot_def Kind_Valid_def Origin_Valid_def State_Valid_def null_iffs nullUUID_def nullMoney_def
      id_IsZero_def nullTime_def nullString_def time_defs)

lemma open_body_completes:
  assumes h: "healthy rt" and u: "uuid_lib_ok (rt_uuid rt)" and inv: "fin_inv (w_db st)"
    and st: "w_status st \<noteq> AbortedTransaction" and c: "c \<noteq> ''''"
    and w: "NewWallet i p cur b now = Inr w" "currencyPattern cur"
    and i: "i \<notin> set (map wlr_id (db_wallets (w_db st)))"
    and pc: "(p, cur) \<notin> set (map (\<lambda>x. (wlr_playerId x, wlr_currency x)) (db_wallets (w_db st)))"
    and fresh: "fresh_ids rt st 4"
  shows "\<exists>st'. open_body rt w now c st = (Inr (), st') \<and> w_status st' = w_status st
    \<and> db_wallets (w_db st') = db_wallets (w_db st) @ [wallet_to_row w]
    \<and> length (db_transactions (w_db st')) = length (db_transactions (w_db st)) + of_bool (0 < bal w)"
proof -
  have W: "wallet_ok w" "wal_id w = i" "wal_playerID w = p" "wal_currency w = cur" "wal_balance w = b"
    "wal_version w = 1" "wal_createdAt w = now" "wal_updatedAt w = now" using w(1) by (auto simp: NewWallet_Inr_iff)
  let ?d = "w_db st" and ?n = "w_ids st"
  let ?d1 = "?d\<lparr>db_wallets := db_wallets ?d @ [wallet_to_row w]\<rparr>"
  let ?st1 = "st\<lparr>w_calls := Suc (w_calls st), w_db := ?d1\<rparr>"
  have "insert_wallet (wallet_to_row w) ?d = Inr ((), ?d1)"
    using i pc w(2) W by (auto simp: insert_wallet_Inr wallet_checks_def wallet_to_row_def wallet_ok_def)
  then have ins: "wallets_Insert rt w st = (Inr (), ?st1)"
    unfolding wallets_Insert_def by (rule db_call_healthy [OF h st])
  have pos: "IsPositive (wal_balance w) \<longleftrightarrow> 0 < bal w" by (simp add: IsPositive_def i64_less_def)
  show ?thesis
  proof (cases "0 < bal w")
    case False
    then show ?thesis using pos ins by (simp add: open_body_def tx_bind_def)
  next
    case True
    let ?tid = "id_at rt ?n" and ?eid = "id_at rt (Suc ?n)"
    let ?t = "opened w ?tid"
    let ?d2 = "?d1\<lparr>db_transactions := db_transactions ?d @ [wager_to_row ?t]\<rparr>"
    let ?st2 = "?st1\<lparr>w_ids := Suc ?n\<rparr>"
    let ?st3 = "?st2\<lparr>w_calls := Suc (w_calls ?st2), w_db := ?d2\<rparr>"
    note F = fresh_idsD [OF fresh]
    have F0: "id_at rt ?n \<noteq> uuid_Nil" "id_at rt (Suc ?n) \<noteq> uuid_Nil" "id_at rt (Suc (Suc ?n)) \<noteq> uuid_Nil"
      "id_at rt (Suc (Suc (Suc ?n))) \<noteq> uuid_Nil" by (rule F(2), simp, simp)+
    note T = opening_row_checked [OF W(1) _ True F0(1), unfolded W(4,7), OF w(2)]
    have nowallet: "\<forall>x \<in> set (db_transactions ?d). txr_walletId x \<noteq> i"
      using absent_wallet(2) [OF inv i] by blast
    define row where "row = wager_to_row ?t"
    have R: "txr_id row = ?tid" "txr_providerId row = None" "txr_kind row = KindOpening" "txr_walletId row = i"
      "txr_referenceTransactionId row = None" "\<forall>c \<in> set (transaction_checks row). snd c"
      using T W(2) by (simp_all add: row_def wager_to_row_def opened_def nullUUID_def nullString_def id_IsZero_def)
    have "insert_transaction row ?d1 = Inr ((), ?d2)"
      using R(1-5) F(4) [of ?n] nowallet W(2)
      by (auto simp: insert_transaction_def res_simps R(6) wallet_to_row_def row_def [symmetric])
    then have ti: "transactions_Insert rt ?t ?st2 = (Inr (), ?st3)"
      unfolding transactions_Insert_def row_def using st by (intro db_call_healthy [OF h]) simp_all
    obtain zero where z: "Zero cur = Inr zero" "zero = \<lparr>minorUnits = 0, currency = cur\<rparr>"
      using w(2) by (auto simp: Zero_Inr_iff)
    let ?e = "\<lparr>le_id = ?eid, le_walletID = i, le_transactionID = ?tid, le_direction = DirectionCredit,
        le_amount = b, le_balanceBefore = zero, le_balanceAfter = b, le_createdAt = now\<rparr>"
    have le: "NewWalletLedgerEntry ?eid i ?tid DirectionCredit b zero b now = Inr ?e"
      using W True z F0(1,2)
      by (auto simp: NewWalletLedgerEntry_Inr_iff ledger_entry_ok_def wallet_ok_def le_effect_def Direction_Valid_def)
    let ?d3 = "?d2\<lparr>db_ledger := db_ledger ?d @ [ledger_to_row ?e]\<rparr>"
    let ?st4 = "?st3\<lparr>w_ids := Suc (Suc ?n)\<rparr>"
    let ?st5 = "?st4\<lparr>w_calls := Suc (w_calls ?st4), w_db := ?d3\<rparr>"
    have "\<forall>x \<in> set (db_ledger ?d). lgr_walletId x \<noteq> i"
      using absent_wallet(1) [OF inv i] by (auto simp: entries_of_def filter_empty_conv)
    then have "insert_ledger (ledger_to_row ?e) ?d2 = Inr ((), ?d3)"
      using F(5) [of "Suc ?n"] True W z
      by (auto simp: insert_ledger_Inr ledger_checks_def ledger_to_row_def wallet_to_row_def wager_to_row_def
          opened_def Direction_Valid_def)
    then have li: "ledger_Insert rt ?e ?st4 = (Inr (), ?st5)"
      unfolding ledger_Insert_def using st by (intro db_call_healthy [OF h]) simp_all
    have init: "IsInitialized b" "IsInitialized zero" "now \<noteq> 0"
      using W z currencyPattern_nonempty w(2) by (auto simp: IsInitialized_def wallet_ok_def)
    obtain r1 where e1: "obr_eventId r1 = uuid_String (rt_uuid rt) (id_at rt (w_ids ?st5))"
      "emitProcessed rt w ?t b now c ?st5 = (Inr (), ?st5\<lparr>w_ids := Suc (w_ids ?st5), w_calls := Suc (w_calls ?st5),
          w_db := (w_db ?st5)\<lparr>db_outbox := db_outbox (w_db ?st5) @ [r1]\<rparr>\<rparr>)"
      using emitProcessed_healthy [OF h u, of ?st5 c now ?t b w] st c init F0 F(7) [of "Suc (Suc ?n)"]
      by (auto simp: opened_def W)
    let ?st6 = "?st5\<lparr>w_ids := Suc (w_ids ?st5), w_calls := Suc (w_calls ?st5),
          w_db := (w_db ?st5)\<lparr>db_outbox := db_outbox (w_db ?st5) @ [r1]\<rparr>\<rparr>"
    have "uuid_String (rt_uuid rt) (id_at rt (w_ids ?st6)) \<notin> obr_eventId ` set (db_outbox (w_db ?st6))"
      using F(7) [of "Suc (Suc (Suc ?n))"] e1(1)
        fresh_ids_distinct [OF fresh u, of "Suc (Suc (Suc ?n))" "Suc (Suc ?n)"]
      by simp
    then obtain r2 where e2: "emitBalanceChanged rt w ?t \<lparr>mv_direction = DirectionCredit, mv_amount = b\<rparr> zero b now c ?st6
        = (Inr (), ?st6\<lparr>w_ids := Suc (w_ids ?st6), w_calls := Suc (w_calls ?st6),
          w_db := (w_db ?st6)\<lparr>db_outbox := db_outbox (w_db ?st6) @ [r2]\<rparr>\<rparr>)"
      using emitBalanceChanged_healthy [OF h u, of ?st6 c now "\<lparr>mv_direction = DirectionCredit, mv_amount = b\<rparr>" zero b w ?t]
        st c init F0 by auto
    have "open_body rt w now c st = (Inr (), ?st6\<lparr>w_ids := Suc (w_ids ?st6), w_calls := Suc (w_calls ?st6),
          w_db := (w_db ?st6)\<lparr>db_outbox := db_outbox (w_db ?st6) @ [r2]\<rparr>\<rparr>)"
      using T ins ti li e1(2) e2 le z(1) True pos W F0
      by (simp add: open_body_def tx_bind_def new_id_healthy tx_domain_def opened_def)
    then show ?thesis using True by (auto simp: of_bool_def)
  qed
qed

lemma OpenWallet_completes:
  assumes h: "healthy rt" and u: "uuid_lib_ok (rt_uuid rt)" and inv: "fin_inv (w_db st)"
    and ok: "OpenWalletCommand_Validate cmd = Inr ()" "currencyPattern (currency (oc_InitialBalance cmd))"
    and pc: "(oc_PlayerID cmd, currency (oc_InitialBalance cmd))
      \<notin> set (map (\<lambda>x. (wlr_playerId x, wlr_currency x)) (db_wallets (w_db st)))"
    and fresh: "fresh_ids rt st 6"
  shows "\<exists>v st'. OpenWallet rt cmd st = (Inr v, st') \<and> wv_Balance v = oc_InitialBalance cmd \<and> wv_Version v = 1
    \<and> (\<exists>r. db_wallets (w_db st') = db_wallets (w_db st) @ [r] \<and> wlr_id r = wv_ID v
          \<and> wlr_playerId r = oc_PlayerID cmd \<and> wlr_currency r = currency (oc_InitialBalance cmd)
          \<and> wlr_balance r = minorUnits (oc_InitialBalance cmd) \<and> wlr_version r = 1)
    \<and> length (db_transactions (w_db st'))
        = length (db_transactions (w_db st)) + of_bool (0 < amt (oc_InitialBalance cmd))"
proof -
  let ?b = "oc_InitialBalance cmd" and ?i = "id_at rt (w_ids st)" and ?now = "rt_Now rt (w_ticks st)"
  let ?st1 = "st\<lparr>w_ticks := Suc (w_ticks st), w_ids := Suc (w_ids st)\<rparr>"
  let ?w = "\<lparr>wal_id = ?i, wal_playerID = oc_PlayerID cmd, wal_currency = currency ?b, wal_balance = ?b,
      wal_version = 1, wal_createdAt = ?now, wal_updatedAt = ?now\<rparr>"
  note F = fresh_idsD [OF fresh, of "w_ids st", simplified]
  have new: "NewWallet ?i (oc_PlayerID cmd) (currency ?b) ?b ?now = Inr ?w"
    using ok healthyD(4) [OF h] F(2) currencyPattern_nonempty
    by (auto simp: NewWallet_Inr_iff wallet_ok_def OpenWalletCommand_Validate_Inr)
  obtain c n where c: "correlationOrNew rt (oc_CorrelationID cmd) ?st1 = (Inr c, ?st1\<lparr>w_ids := n\<rparr>)" "c \<noteq> ''''"
      "Suc (w_ids st) \<le> n" "n \<le> Suc (Suc (w_ids st))"
    by (rule correlationOrNew_healthy [OF h u, of "oc_CorrelationID cmd" ?st1]) simp
  let ?st2 = "started (?st1\<lparr>w_ids := n\<rparr>)"
  have f2: "fresh_ids rt ?st2 4" by (rule fresh_ids_sub [OF fresh]) (use c(3,4) in \<open>simp_all add: started_def\<close>)
  have "?i \<notin> set (map wlr_id (db_wallets (w_db ?st2)))" using F(3) by simp
  then obtain st' where b: "open_body rt ?w ?now c ?st2 = (Inr (), st')" "w_status st' = w_status ?st2"
    "db_wallets (w_db st') = db_wallets (w_db ?st2) @ [wallet_to_row ?w]"
    "length (db_transactions (w_db st')) = length (db_transactions (w_db ?st2)) + of_bool (0 < bal ?w)"
    using open_body_completes [OF h u _ _ c(2) new ok(2), of ?st2] inv pc f2 by auto
  have "InTx rt (open_body rt ?w ?now c) (?st1\<lparr>w_ids := n\<rparr>)
      = (Inr (), st'\<lparr>w_calls := Suc (w_calls st'), w_status := Autocommit\<rparr>)"
    by (rule InTx_healthy [OF h], rule b(1)) (simp add: b(2))
  then have "OpenWallet rt cmd st = (Inr (walletView ?w), st'\<lparr>w_calls := Suc (w_calls st'), w_status := Autocommit\<rparr>)"
    using ok(1) c(1) new by (simp add: OpenWallet_def tx_bind_def clock_Now_def new_id_healthy F(2))
  then show ?thesis using b(3,4) by (auto simp: walletView_def wallet_to_row_def)
qed

section \<open>A bet\<close>

lemma update_last:
  assumes "txr_id r \<notin> txr_id ` set rs" and "tx_id t = txr_id r" and "tx_referenceTransactionID t = uuid_Nil"
    and "\<forall>c \<in> set (transaction_checks (apply_update t s r)). snd c"
    and "db_transactions d = rs @ [r]"
  shows "update_transactions (\<lambda>x. txr_id x = tx_id t) (apply_update t s) d
    = Inr ((), d\<lparr>db_transactions := rs @ [apply_update t s r]\<rparr>)"
proof -
  have f: "filter (\<lambda>x. txr_id x = txr_id r) rs = []" using assms(1) unfolding filter_empty_conv by (metis image_eqI)
  have m: "map (\<lambda>x. if txr_id x = txr_id r then apply_update t s x else x) rs = rs"
    using assms(1) by (intro map_idI) (metis image_eqI)
  show ?thesis
    using assms(2-) f m
    by (simp add: update_transactions_def update_rows_def res_simps apply_update_def nullUUID_def id_IsZero_def)
qed

text \<open>The columns of the row of a new provider transaction that the checks look at.\<close>

definition external_columns :: "wager \<Rightarrow> bool" where
  "external_columns t \<longleftrightarrow>
     tx_origin t = OriginExternal \<and> Kind_IsExternal (tx_kind t) \<and> 0 \<le> amt (tx_amount t)
     \<and> currencyPattern (currency (tx_amount t)) \<and> hex64 (tx_digest t)
     \<and> tx_providerID t \<noteq> '''' \<and> tx_externalTransactionID t \<noteq> '''' \<and> tx_idempotencyKey t \<noteq> ''''
     \<and> tx_digestVersion t \<noteq> '''' \<and> tx_digest t \<noteq> '''' \<and> tx_roundID t \<noteq> '''' \<and> tx_gameID t \<noteq> ''''
     \<and> (tx_kind t = KindRefund \<or> tx_kind t = KindRollback \<longrightarrow> tx_referenceExternalTransactionID t \<noteq> '''')"

lemma pending_row_checked:
  assumes "external_columns t" and "tx_state t = StatePending" "tx_failureCode t = ''''"
    and "tx_observedBalance t = money_nil"
  shows "\<forall>c \<in> set (transaction_checks (wager_to_row t)). snd c"
  using assms
  by (auto simp: external_columns_def transaction_checks_def wager_to_row_def origin_metadata_def Origin_Valid_def
      terminal_snapshot_def State_Valid_def null_iffs nullString_def nullMoney_def IsInitialized_def money_nil_def)

lemma settled_row_checked:
  assumes "external_columns t" and "IsInitialized (tx_observedBalance t')" "0 \<le> amt (tx_observedBalance t')"
    and "tx_state t' = StateProcessed \<and> tx_failureCode t' = ''''
      \<or> tx_state t' = StateRejected \<and> FailureCode_Valid (tx_failureCode t') \<and> tx_failureCode t' \<noteq> ''''"
  shows "\<forall>c \<in> set (transaction_checks (apply_update t' None (wager_to_row t))). snd c"
  using assms
  by (auto simp: external_columns_def transaction_checks_def wager_to_row_def origin_metadata_def Origin_Valid_def
      terminal_snapshot_def State_Valid_def null_iffs nullString_def nullMoney_def apply_update_def)

text \<open>Executing the plan of a bet on a wallet that was locked.\<close>

lemma bet_executes:
  assumes h: "healthy rt" and u: "uuid_lib_ok (rt_uuid rt)" and st: "w_status st \<noteq> AbortedTransaction"
    and c: "c \<noteq> ''''" "now \<noteq> 0" and w: "wallet_ok w" "wallet_to_row w \<in> set (db_wallets (w_db st))"
    and v: "sint (wal_version w) < 9223372036854775807" and t: "external_columns t" "wager_init t"
      "tx_kind t = KindBet" "tx_state t = StatePending" "tx_failureCode t = ''''" "tx_referenceTransactionID t = uuid_Nil"
      "tx_walletID t = wal_id w" "currency (tx_amount t) = wal_currency w" "0 < amt (tx_amount t)" "tx_id t \<noteq> uuid_Nil"
      "tx_referenceExternalTransactionID t = ''''"
    and d: "db_transactions (w_db st) = rs @ [wager_to_row t]" "tx_id t \<notin> txr_id ` set rs"
      "tx_id t \<notin> lgr_transactionId ` set (db_ledger (w_db st))"
    and fresh: "fresh_ids rt st0 k" "w_ids st0 \<le> w_ids st" "w_ids st + 3 \<le> w_ids st0 + k"
      "db_ledger (w_db st) = db_ledger (w_db st0)" "db_outbox (w_db st) = db_outbox (w_db st0)"
    and dis: "distinct (map wlr_id (db_wallets (w_db st)))"
  shows "\<exists>r st'. executeWithReference rt w t None now c st = (Inr r, st') \<and> w_status st' = w_status st
    \<and> wr_TransactionID r = tx_id t \<and> \<not> wr_IdempotentReplay r
    \<and> (if amt (tx_amount t) \<le> bal w
       then wr_State r = StateProcessed \<and> amt (wr_ObservedBalance r) = bal w - amt (tx_amount t)
       else wr_State r = StateRejected \<and> wr_FailureCode r = FailureInsufficientFunds
          \<and> wr_ObservedBalance r = wal_balance w \<and> db_wallets (w_db st') = db_wallets (w_db st)
          \<and> db_ledger (w_db st') = db_ledger (w_db st))"
proof -
  let ?plan = "plan_move DirectionDebit (tx_amount t)" and ?d = "w_db st" and ?n = "w_ids st"
  let ?mv = "\<lparr>mv_direction = DirectionDebit, mv_amount = tx_amount t\<rparr>"
  have ex: "executeWithReference rt w t None now c st = applyMovement rt w t ?plan ?mv now c st"
    using t(3,11)
    by (simp add: executeWithReference_def planOperation_def tx_bind_def classify_def needsReference_def
        text_IsZero_def executePlan_def plan_nil_def)
  have init: "IsInitialized (tx_amount t)" "IsInitialized (wal_balance w)" "0 \<le> bal w"
    using w(1) t(8) by (simp_all add: IsInitialized_def wallet_ok_def)
  have g: "movement_guard w (tx_amount t) now = None"
    using c(2) t(8,9) w(1) by (simp add: movement_guard_def wallet_ok_def)
  have tr: "transition t s now = Inr ()" for s using t(2,4) c(2) by (simp add: transition_Inr_iff)
  have row: "txr_id (wager_to_row t) = tx_id t" by (simp add: wager_to_row_def)
  note F = fresh_idsD [OF fresh(1), folded fresh(4,5)]
  have F0: "id_at rt ?n \<noteq> uuid_Nil" "id_at rt (Suc ?n) \<noteq> uuid_Nil" "id_at rt (Suc (Suc ?n)) \<noteq> uuid_Nil"
    by (rule F(2), use fresh(2,3) in simp, use fresh(2,3) in simp)+
  have F5: "id_at rt ?n \<notin> lgr_id ` set (db_ledger ?d)" by (rule F(5)) (use fresh(2,3) in simp_all)
  have F7: "uuid_String (rt_uuid rt) (id_at rt m) \<notin> obr_eventId ` set (db_outbox ?d)"
    if "?n \<le> m" "m < ?n + 3" for m by (rule F(7)) (use fresh(2,3) that in simp_all)
  show ?thesis
  proof (cases "bal w < amt (tx_amount t)")
    case True
    let ?t' = "t\<lparr>tx_state := StateRejected, tx_referenceTransactionID := uuid_Nil,
        tx_failureCode := FailureInsufficientFunds, tx_observedBalance := wal_balance w\<rparr>"
    have m: "MarkRejected t uuid_Nil FailureInsufficientFunds (wal_balance w) now = Inr ?t'"
      using tr init by (simp add: MarkRejected_Inr_iff FailureCode_Valid_def failure_defs)
    let ?st1 = "st\<lparr>w_calls := Suc (w_calls st),
        w_db := ?d\<lparr>db_transactions := rs @ [apply_update ?t' None (wager_to_row t)]\<rparr>\<rparr>"
    have "update_transactions (\<lambda>x. txr_id x = tx_id ?t') (apply_update ?t' None) ?d
        = Inr ((), ?d\<lparr>db_transactions := rs @ [apply_update ?t' None (wager_to_row t)]\<rparr>)"
      by (rule update_last) (use d(1,2) row settled_row_checked [OF t(1), of ?t'] init in
          \<open>simp_all add: FailureCode_Valid_def failure_defs\<close>)
    then have up: "transactions_Update rt ?t' None st = (Inr (), ?st1)"
      unfolding transactions_Update_def using st by (intro db_call_healthy [OF h]) simp_all
    obtain r where e: "emitRejected rt w ?t' now c ?st1 = (Inr (), ?st1\<lparr>w_ids := Suc (w_ids ?st1),
        w_calls := Suc (w_calls ?st1), w_db := (w_db ?st1)\<lparr>db_outbox := db_outbox (w_db ?st1) @ [r]\<rparr>\<rparr>)"
      using emitRejected_healthy [OF h u, of ?st1 c now ?t' w] st c init F0 F7 [of ?n] by auto
    have "applyMovement rt w t ?plan ?mv now c st = (Inr (resultOf ?t' False), ?st1\<lparr>w_ids := Suc (w_ids ?st1),
        w_calls := Suc (w_calls ?st1), w_db := (w_db ?st1)\<lparr>db_outbox := db_outbox (w_db ?st1) @ [r]\<rparr>\<rparr>)"
      using True g m up e t(3)
      by (simp add: applyMovement_def tx_bind_def move_wallet_def Debit_eq [OF w(1)] persist_rejection_def
          tx_domain_def plan_nil_def)
    then show ?thesis using True ex by (simp add: resultOf_def)
  next
    case False
    let ?w' = "moved w (- amt (tx_amount t)) now"
    have W': "wal_id ?w' = wal_id w" "wal_balance ?w' = \<lparr>minorUnits = word_of_int (bal w - amt (tx_amount t)),
        currency = wal_currency w\<rparr>" "wal_version ?w' = wal_version w + 1" by (simp_all add: moved_def)
    have rng: "int64_range (bal w - amt (tx_amount t))"
      using False t(9) init(3) sint_int64_bounds [of "minorUnits (wal_balance w)"] by (simp add: int64_range_def)
    have b': "amt (wal_balance ?w') = bal w - amt (tx_amount t)" "IsInitialized (wal_balance ?w')"
      using sint_of_int64 [OF rng] w(1) by (simp_all only: W' money.simps IsInitialized_def wallet_ok_def not_False_eq_True simp_thms)
    let ?t' = "t\<lparr>tx_state := StateProcessed, tx_referenceTransactionID := uuid_Nil,
        tx_observedBalance := wal_balance ?w'\<rparr>"
    let ?eid = "id_at rt ?n"
    let ?e = "\<lparr>le_id = ?eid, le_walletID = wal_id w, le_transactionID = tx_id t, le_direction = DirectionDebit,
        le_amount = tx_amount t, le_balanceBefore = wal_balance w, le_balanceAfter = wal_balance ?w',
        le_createdAt = now\<rparr>"
    have le: "NewWalletLedgerEntry ?eid (wal_id w) (tx_id t) DirectionDebit (tx_amount t) (wal_balance w)
        (wal_balance ?w') now = Inr ?e"
      using w(1) t(8,9,10) c(2) b' False F0(1) init(3)
      by (auto simp: NewWalletLedgerEntry_Inr_iff ledger_entry_ok_def wallet_ok_def le_effect_def
          Direction_Valid_def W')
    have m: "MarkProcessed t uuid_Nil (wal_balance ?w') now = Inr ?t'"
      using tr b' False by (simp add: MarkProcessed_Inr_iff)
    let ?upd = "\<lambda>r. r\<lparr>wlr_balance := minorUnits (wal_balance ?w'), wlr_version := wal_version ?w', wlr_updatedAt := now\<rparr>"
    let ?d1 = "?d\<lparr>db_wallets := map (\<lambda>r. if wlr_id r = wal_id w then ?upd r else r) (db_wallets ?d)\<rparr>"
    have "sint (wal_version w + 1) = sint (wal_version w) + 1"
      using v w(1) sint_add_int64 [of "wal_version w" 1] by (simp add: wallet_ok_def int64_range_def)
    moreover have "wlr_currency r = wal_currency w" if "r \<in> set (db_wallets ?d)" "wlr_id r = wal_id w" for r
      using distinct_map_eq [OF dis that(1) w(2)] that(2) by (simp add: wallet_to_row_def)
    ultimately have uwb: "update_wallet_balance (wal_id w) (minorUnits (wal_balance ?w')) (wal_version ?w') now ?d
        = Inr ((), ?d1)"
      using t(1,8) b'(1) False w(1)
      by (auto simp: update_wallet_balance_def res_simps update_rows_Inr wallet_checks_def W'(3)
          external_columns_def wallet_ok_def)
    let ?st1 = "st\<lparr>w_ids := Suc ?n\<rparr>"
    let ?st2 = "?st1\<lparr>w_calls := Suc (w_calls ?st1), w_db := ?d1\<rparr>"
    from uwb have sv: "wallets_SaveBalance rt ?w' ?st1 = (Inr (), ?st2)"
      unfolding wallets_SaveBalance_def W'(1) time_UTC_def using st
      by (intro db_call_healthy [OF h]) (simp_all add: moved_def)
    let ?d2 = "?d1\<lparr>db_ledger := db_ledger ?d @ [ledger_to_row ?e]\<rparr>"
    let ?st3 = "?st2\<lparr>w_calls := Suc (w_calls ?st2), w_db := ?d2\<rparr>"
    have ids: "map wlr_id (db_wallets ?d1) = map wlr_id (db_wallets ?d)" by simp
    have "wal_id w \<in> set (map wlr_id (db_wallets ?d1))"
      unfolding ids using w(2) by (force simp: wallet_to_row_def)
    moreover have "(wal_id w, tx_id t) \<notin> set (map (\<lambda>x. (lgr_walletId x, lgr_transactionId x)) (db_ledger ?d))"
      using d(3) by auto
    ultimately have "insert_ledger (ledger_to_row ?e) ?d1 = Inr ((), ?d2)"
      unfolding insert_ledger_Inr
      using F5 d(1) row b' t(9) False init(3)
      by (simp add: ledger_to_row_def ledger_checks_def Direction_Valid_def)
    then have li: "ledger_Insert rt ?e ?st2 = (Inr (), ?st3)"
      unfolding ledger_Insert_def using st by (intro db_call_healthy [OF h]) simp_all
    let ?d3 = "?d2\<lparr>db_transactions := rs @ [apply_update ?t' None (wager_to_row t)]\<rparr>"
    let ?st4 = "?st3\<lparr>w_calls := Suc (w_calls ?st3), w_db := ?d3\<rparr>"
    have "update_transactions (\<lambda>x. txr_id x = tx_id ?t') (apply_update ?t' None) ?d2 = Inr ((), ?d3)"
      by (rule update_last) (use d(1,2) row settled_row_checked [OF t(1), of ?t'] b' False t(5) in simp_all)
    then have up: "transactions_Update rt ?t' None ?st3 = (Inr (), ?st4)"
      unfolding transactions_Update_def using st by (intro db_call_healthy [OF h]) simp_all
    obtain r1 where r1: "obr_eventId r1 = uuid_String (rt_uuid rt) (id_at rt (w_ids ?st4))"
      and e1: "emitProcessed rt ?w' ?t' (wal_balance ?w') now c ?st4 = (Inr (), ?st4\<lparr>w_ids := Suc (w_ids ?st4),
        w_calls := Suc (w_calls ?st4), w_db := (w_db ?st4)\<lparr>db_outbox := db_outbox (w_db ?st4) @ [r1]\<rparr>\<rparr>)"
      using emitProcessed_healthy [OF h u, of ?st4 c now ?t' "wal_balance ?w'" ?w'] st c init b' F0 F7 [of "Suc ?n"]
      by auto
    let ?st5 = "?st4\<lparr>w_ids := Suc (w_ids ?st4), w_calls := Suc (w_calls ?st4),
        w_db := (w_db ?st4)\<lparr>db_outbox := db_outbox (w_db ?st4) @ [r1]\<rparr>\<rparr>"
    have "uuid_String (rt_uuid rt) (id_at rt (w_ids ?st5)) \<notin> obr_eventId ` set (db_outbox (w_db ?st5))"
      using r1 F7 [of "Suc (Suc ?n)"] fresh(2,3) fresh_ids_distinct [OF fresh(1) u, of "Suc (Suc ?n)" "Suc ?n"] by simp
    then obtain r2 where e2: "emitBalanceChanged rt ?w' ?t' ?mv (wal_balance w) (wal_balance ?w') now c ?st5
        = (Inr (), ?st5\<lparr>w_ids := Suc (w_ids ?st5), w_calls := Suc (w_calls ?st5),
            w_db := (w_db ?st5)\<lparr>db_outbox := db_outbox (w_db ?st5) @ [r2]\<rparr>\<rparr>)"
      using emitBalanceChanged_healthy [OF h u, of ?st5 c now ?mv "wal_balance w" "wal_balance ?w'" ?w' ?t']
        st c init b' F0 by auto
    have "applyMovement rt w t ?plan ?mv now c st = (Inr (resultOf ?t' False), ?st5\<lparr>w_ids := Suc (w_ids ?st5),
        w_calls := Suc (w_calls ?st5), w_db := (w_db ?st5)\<lparr>db_outbox := db_outbox (w_db ?st5) @ [r2]\<rparr>\<rparr>)"
      using False g m le sv li up e1 e2 F0
      by (simp add: applyMovement_def tx_bind_def move_wallet_def Debit_eq [OF w(1)] post_movement_def
          tx_domain_def plan_nil_def new_id_healthy W'(1))
    then show ?thesis using False ex b' by (simp add: resultOf_def)
  qed
qed

section \<open>Submitting a bet\<close>

lemma wallets_LockByID_healthy:
  "healthy rt \<Longrightarrow> w_status st \<noteq> AbortedTransaction \<Longrightarrow> wallet_at (rt_uuid rt) (w_db st) i w \<Longrightarrow>
     wallets_LockByID rt i st = (Inr (Some w), st\<lparr>w_calls := Suc (w_calls st)\<rparr>)"
  by (auto simp: wallets_LockByID_def tx_bind_def db_call_healthy select_wallet_def wallet_at_def scan_row_def)

lemma lookup_healthy:
  assumes "healthy rt" and "w_status st \<noteq> AbortedTransaction" and "find P (db_transactions (w_db st)) = None"
  shows "tx_bind (db_call rt (select_transaction P)) (\<lambda>ro. tx_lift (scanTransaction u ro)) st
    = (Inr None, st\<lparr>w_calls := Suc (w_calls st)\<rparr>)"
proof -
  have "db_call rt (select_transaction P) st = (Inr None, st\<lparr>w_calls := Suc (w_calls st), w_db := w_db st\<rparr>)"
    by (rule db_call_healthy [OF assms(1,2)]) (simp add: select_transaction_def assms(3))
  then show ?thesis
    by (simp add: tx_bind_def scanTransaction_def scanTransactionWithAttempts_def scan_row_def)
qed

lemma external_wager_columns:
  assumes "submit_ok cmd" and "currencyPattern (currency (sc_Amount cmd))" and "hex64 g" and "i \<noteq> uuid_Nil"
  shows "external_columns (external_wager (params_of cmd i DigestVersion g now))"
  using assms hex64_nonempty [OF assms(3)]
  by (auto simp: external_columns_def external_wager_def params_of_def submit_ok_def amount_rule_def
      reference_rule_def DigestVersion_def Kind_IsExternal_def)

definition bet_outcome :: "wallet \<Rightarrow> money \<Rightarrow> wager_result \<Rightarrow> bool" where
  "bet_outcome w a r \<longleftrightarrow>
     (if amt a \<le> bal w
      then wr_State r = StateProcessed \<and> amt (wr_ObservedBalance r) = bal w - amt a
      else wr_State r = StateRejected \<and> wr_FailureCode r = FailureInsufficientFunds
         \<and> wr_ObservedBalance r = wal_balance w)"

lemma submit_new_bet:
  assumes h: "healthy rt" and u: "uuid_lib_ok (rt_uuid rt)" and inv: "fin_inv (w_db st)"
    and st: "w_status st \<noteq> AbortedTransaction" and c: "c \<noteq> ''''"
    and ok: "submit_ok cmd" "sc_Kind cmd = KindBet" and g: "hex64 g"
    and w: "wallet_at (rt_uuid rt) (w_db st) (sc_WalletID cmd) w" "wal_currency w = currency (sc_Amount cmd)"
    and v: "sint (wal_version w) < 9223372036854775807"
    and new: "\<forall>r \<in> set (db_transactions (w_db st)). txr_providerId r = Some (sc_ProviderID cmd) \<longrightarrow>
      txr_idempotencyKey r \<noteq> Some (sc_IdempotencyKey cmd)
      \<and> txr_externalTransactionId r \<noteq> Some (sc_ExternalTransactionID cmd)"
    and fresh: "fresh_ids rt st 4"
  shows "\<exists>r st'. submit_new rt cmd g c st = (Inr r, st') \<and> w_status st' = w_status st
    \<and> \<not> wr_IdempotentReplay r \<and> bet_outcome w (sc_Amount cmd) r"
proof -
  let ?i = "id_at rt (w_ids st)" and ?now = "rt_Now rt (w_ticks st)"
  let ?p = "params_of cmd ?i DigestVersion g ?now"
  let ?t = "external_wager ?p"
  let ?st1 = "st\<lparr>w_calls := Suc (w_calls st), w_ticks := Suc (w_ticks st), w_ids := Suc (w_ids st)\<rparr>"
  let ?st2 = "?st1\<lparr>w_calls := Suc (w_calls ?st1),
      w_db := (w_db st)\<lparr>db_transactions := db_transactions (w_db st) @ [wager_to_row ?t]\<rparr>\<rparr>"
  note F = fresh_idsD [OF fresh, of "w_ids st", simplified] and W = wallet_atD [OF u w(1)]
  have now: "?now \<noteq> 0" using healthyD(4) [OF h] .
  have p: "external_params_ok ?p"
    using ok(1) F(2) now hex64_nonempty [OF g] by (simp add: params_of_ok DigestVersion_def)
  then have ext: "NewExternalTransaction ?p = Inr ?t" by (simp add: NewExternalTransaction_Inr_iff)
  have W2: "wallet_ok w" "currencyPattern (wal_currency w)" using W(3) by (simp_all add: wallet_db_ok_def)
  have cols: "external_columns ?t" using external_wager_columns [OF ok(1) _ g F(2)] W2 w(2) by simp
  have T: "tx_state ?t = StatePending" "tx_failureCode ?t = ''''" "tx_observedBalance ?t = money_nil"
    "tx_referenceTransactionID ?t = uuid_Nil" "tx_referenceExternalTransactionID ?t = ''''" "0 < amt (tx_amount ?t)"
    "wager_init ?t"
    using ok F(2) by (auto simp: external_wager_def params_of_def submit_ok_def reference_rule_def amount_rule_def
        wager_init_def State_Valid_def)
  have R: "txr_id (wager_to_row ?t) = ?i" "txr_providerId (wager_to_row ?t) = Some (sc_ProviderID cmd)"
    "txr_idempotencyKey (wager_to_row ?t) = Some (sc_IdempotencyKey cmd)"
    "txr_externalTransactionId (wager_to_row ?t) = Some (sc_ExternalTransactionID cmd)"
    "txr_kind (wager_to_row ?t) = KindBet" "txr_walletId (wager_to_row ?t) = sc_WalletID cmd"
    "txr_referenceTransactionId (wager_to_row ?t) = None"
    using ok T(4) by (simp_all add: wager_to_row_def submit_ok_def nullString_def nullUUID_def id_IsZero_def)
  have "sc_WalletID cmd \<in> set (map wlr_id (db_wallets (w_db st)))"
    using W(1,2) by (force simp: wallet_to_row_def)
  moreover have "KindBet \<noteq> KindOpening" by simp
  ultimately have "insert_transaction (wager_to_row ?t) (w_db st)
      = Inr ((), (w_db st)\<lparr>db_transactions := db_transactions (w_db st) @ [wager_to_row ?t]\<rparr>)"
    unfolding insert_transaction_def res_simps R
    using pending_row_checked [OF cols T(1,2,3)] new F(4) by auto
  then have ins: "transactions_Insert rt ?t ?st1 = (Inr (), ?st2)"
    unfolding transactions_Insert_def using st by (intro db_call_healthy [OF h]) simp_all
  have dis: "distinct (map wlr_id (db_wallets (w_db ?st2)))"
    using inv by (simp add: fin_inv_def keys_inv_def)
  have "set (map lgr_transactionId (db_ledger (w_db st))) = txr_id ` {r \<in> set (db_transactions (w_db st)). posts r}"
    using inv by (simp add: fin_inv_def postings_inv_def)
  then have nl: "tx_id ?t \<notin> lgr_transactionId ` set (db_ledger (w_db ?st2))" using F(4) by auto
  obtain r st' where X: "executeWithReference rt w ?t None ?now c ?st2 = (Inr r, st')" "w_status st' = w_status ?st2"
    "\<not> wr_IdempotentReplay r" "bet_outcome w (sc_Amount cmd) r"
    using bet_executes [OF h u _ c now W2(1) _ v cols T(7) _ T(1,2,4) _ _ T(6) _ T(5) _ _ nl fresh _ _ _ _ dis]
      st W F(2,4) ok(2) w(2) unfolding bet_outcome_def by auto
  have "resolveAndExecute rt w ?t ?now c ?st2 = (Inr r, st')"
    using X(1) T(5) ok(2) by (simp add: resolveAndExecute_def needsReference_def text_IsZero_def)
  then have "submit_new rt cmd g c st = (Inr r, st')"
    using wallets_LockByID_healthy [OF h st w(1)] w(2) ext ins F(2)
    by (simp add: submit_new_def tx_bind_def clock_Now_def new_id_healthy)
  then show ?thesis using X by auto
qed

lemma submitWithinTx_bet:
  assumes h: "healthy rt" and u: "uuid_lib_ok (rt_uuid rt)" and inv: "fin_inv (w_db st)"
    and st: "w_status st \<noteq> AbortedTransaction" and c: "c \<noteq> ''''"
    and ok: "submit_ok cmd" "sc_Kind cmd = KindBet" and g: "hex64 g"
    and w: "wallet_at (rt_uuid rt) (w_db st) (sc_WalletID cmd) w" "wal_currency w = currency (sc_Amount cmd)"
    and v: "sint (wal_version w) < 9223372036854775807"
    and new: "\<forall>r \<in> set (db_transactions (w_db st)). txr_providerId r = Some (sc_ProviderID cmd) \<longrightarrow>
      txr_idempotencyKey r \<noteq> Some (sc_IdempotencyKey cmd)
      \<and> txr_externalTransactionId r \<noteq> Some (sc_ExternalTransactionID cmd)"
    and fresh: "fresh_ids rt st 4"
  shows "\<exists>r st'. submitWithinTx rt cmd g c st = (Inr r, st') \<and> w_status st' = w_status st
    \<and> \<not> wr_IdempotentReplay r \<and> bet_outcome w (sc_Amount cmd) r"
proof -
  let ?st2 = "st\<lparr>w_calls := Suc (Suc (w_calls st))\<rparr>"
  have "fresh_ids rt ?st2 4" by (rule fresh_ids_sub [OF fresh]) simp_all
  then obtain r st' where X: "submit_new rt cmd g c ?st2 = (Inr r, st')" "w_status st' = w_status ?st2"
    "\<not> wr_IdempotentReplay r" "bet_outcome w (sc_Amount cmd) r"
    using submit_new_bet [OF h u _ _ c ok g _ w(2) v, of ?st2] inv st w(1) new by auto
  have "find (\<lambda>r. txr_providerId r = Some (sc_ProviderID cmd) \<and> txr_idempotencyKey r = Some (sc_IdempotencyKey cmd))
      (db_transactions (w_db st)) = None"
    "find (\<lambda>r. txr_providerId r = Some (sc_ProviderID cmd)
      \<and> txr_externalTransactionId r = Some (sc_ExternalTransactionID cmd)) (db_transactions (w_db st)) = None"
    using new by (auto simp: find_None_iff)
  then have "submitWithinTx rt cmd g c st = (Inr r, st')"
    using X(1) st by (simp add: submitWithinTx_def transactions_ByProviderAndKey_def
        transactions_ByProviderAndExternalID_def tx_bind_def [of "tx_bind _ _"] lookup_healthy [OF h])
  then show ?thesis using X by auto
qed

lemma SubmitWagerTransaction_bet:
  assumes h: "healthy rt" and u: "uuid_lib_ok (rt_uuid rt)" and inv: "fin_inv (w_db st)"
    and ok: "SubmitWagerCommand_Validate cmd = Inr ()" "sc_Kind cmd = KindBet"
    and w: "wallet_at (rt_uuid rt) (w_db st) (sc_WalletID cmd) w" "wal_currency w = currency (sc_Amount cmd)"
    and v: "sint (wal_version w) < 9223372036854775807"
    and new: "\<forall>r \<in> set (db_transactions (w_db st)). txr_providerId r = Some (sc_ProviderID cmd) \<longrightarrow>
      txr_idempotencyKey r \<noteq> Some (sc_IdempotencyKey cmd)
      \<and> txr_externalTransactionId r \<noteq> Some (sc_ExternalTransactionID cmd)"
    and fresh: "fresh_ids rt st 5"
  shows "\<exists>r st'. SubmitWagerTransaction rt cmd st = (Inr r, st')
    \<and> \<not> wr_IdempotentReplay r \<and> bet_outcome w (sc_Amount cmd) r"
proof -
  let ?g = "DigestOf (rt_uuid rt) (projection cmd)"
  obtain c n where c: "correlationOrNew rt (sc_CorrelationID cmd) st = (Inr c, st\<lparr>w_ids := n\<rparr>)" "c \<noteq> ''''"
      "w_ids st \<le> n" "n \<le> Suc (w_ids st)"
    by (rule correlationOrNew_healthy [OF h u, of "sc_CorrelationID cmd" st])
  let ?st1 = "started (st\<lparr>w_ids := n\<rparr>)"
  have "fresh_ids rt ?st1 4"
    by (rule fresh_ids_sub [OF fresh]) (use c(3,4) in \<open>simp_all add: started_def\<close>)
  then obtain r st' where X: "submitWithinTx rt cmd ?g c ?st1 = (Inr r, st')" "w_status st' = w_status ?st1"
    "\<not> wr_IdempotentReplay r" "bet_outcome w (sc_Amount cmd) r"
    using submitWithinTx_bet [OF h u _ _ c(2) _ ok(2) DigestOf_hex64 _ w(2) v, of ?st1 "rt_uuid rt" "projection cmd"]
      inv w(1) new ok(1) by (auto simp: SubmitWagerCommand_Validate_Inr)
  then have "submit_attempt rt cmd ?g c (st\<lparr>w_ids := n\<rparr>)
      = (Inr r, st'\<lparr>w_calls := Suc (w_calls st'), w_status := Autocommit\<rparr>)"
    unfolding submit_attempt_def
    by (intro InTx_healthy [OF h]) (use healthyD(3) [OF h] in \<open>simp_all add: tx_bind_def hitFailpoint_def\<close>)
  then have "SubmitWagerTransaction rt cmd st
      = (Inr r, st'\<lparr>w_calls := Suc (w_calls st'), w_status := Autocommit\<rparr>)"
    using ok(1) c(1) by (simp add: SubmitWagerTransaction_def tx_bind_def Let_def maxConcurrentWriteRetries_def
        numeral_3_eq_3)
  then show ?thesis using X by blast
qed

text \<open>The same bet from the inbox, in a message that was not seen before.\<close>

lemma SubmitWagerFromInbox_bet:
  assumes h: "healthy rt" and u: "uuid_lib_ok (rt_uuid rt)" and inv: "fin_inv (w_db st)"
    and ok: "SubmitWagerCommand_Validate cmd = Inr ()" "sc_Kind cmd = KindBet"
    and dl: "InboxDelivery_Validate dl = Inr ()" "hex64 (dl_Digest dl)" "delivery_key dl \<notin> inbox_keys (w_db st)"
    and w: "wallet_at (rt_uuid rt) (w_db st) (sc_WalletID cmd) w" "wal_currency w = currency (sc_Amount cmd)"
    and v: "sint (wal_version w) < 9223372036854775807"
    and new: "\<forall>r \<in> set (db_transactions (w_db st)). txr_providerId r = Some (sc_ProviderID cmd) \<longrightarrow>
      txr_idempotencyKey r \<noteq> Some (sc_IdempotencyKey cmd)
      \<and> txr_externalTransactionId r \<noteq> Some (sc_ExternalTransactionID cmd)"
    and fresh: "fresh_ids rt st 6" "set (map ibr_id (db_inbox (w_db st))) \<inter> id_at rt ` {w_ids st ..< w_ids st + 6} = {}"
  shows "\<exists>r st'. SubmitWagerFromInbox rt cmd dl st = (Inr (r, False), st')
    \<and> \<not> wr_IdempotentReplay r \<and> bet_outcome w (sc_Amount cmd) r"
proof -
  let ?g = "DigestOf (rt_uuid rt) (projection cmd)"
  obtain c n where c: "correlationOrNew rt (sc_CorrelationID cmd) st = (Inr c, st\<lparr>w_ids := n\<rparr>)" "c \<noteq> ''''"
      "w_ids st \<le> n" "n \<le> Suc (w_ids st)"
    by (rule correlationOrNew_healthy [OF h u, of "sc_CorrelationID cmd" st])
  let ?st1 = "started (st\<lparr>w_ids := n\<rparr>)"
  let ?row = "\<lparr>ibr_id = id_at rt n, ibr_consumerName = dl_ConsumerName dl, ibr_messageId = dl_MessageID dl,
      ibr_digest = dl_Digest dl, ibr_receivedAt = time_UTC (dl_ReceivedAt dl), ibr_completedAt = None\<rparr>"
  let ?d = "(w_db st)\<lparr>db_inbox := db_inbox (w_db st) @ [?row]\<rparr>"
  let ?st2 = "?st1\<lparr>w_ids := Suc n, w_calls := Suc (w_calls ?st1), w_db := ?d\<rparr>"
  note F = fresh_idsD [OF fresh(1), of n]
  have new_id: "rt_NewV7 rt n = Some (id_at rt n)" using F(1) c(3,4) by simp
  have key: "(dl_ConsumerName dl, dl_MessageID dl) \<notin> set (map (\<lambda>x. (ibr_consumerName x, ibr_messageId x)) (db_inbox (w_db st)))"
    using dl(3) by (simp add: delivery_key_def inbox_keys_def message_keys_def)
  have "n \<in> {w_ids st ..< w_ids st + 6}" using c(3,4) by simp
  then have "id_at rt n \<notin> set (map ibr_id (db_inbox (w_db st)))" using fresh(2) by blast
  then have "insert_inbox ?row (w_db st) = Inr (Some (id_at rt n), ?d)"
    using key dl(1,2) by (auto simp: insert_inbox_def res_simps inbox_checks_def InboxDelivery_Validate_Inr)
  then have "db_call rt (insert_inbox ?row) (?st1\<lparr>w_ids := Suc n\<rparr>) = (Inr (Some (id_at rt n)), ?st2)"
    by (subst db_call_healthy [OF h]) (simp_all add: started_def)
  then have b: "inbox_Begin rt dl ?st1 = (Inr None, ?st2)"
    using new_id by (simp add: inbox_Begin_def tx_bind_def started_def)
  have "unused_id (rt_uuid rt) ?d i \<longleftrightarrow> unused_id (rt_uuid rt) (w_db st) i" for i by (simp add: unused_id_def)
  then have "fresh_ids rt ?st2 4 = fresh_ids rt (?st2\<lparr>w_db := w_db st\<rparr>) 4" by (simp add: fresh_ids_def)
  moreover have "fresh_ids rt (?st2\<lparr>w_db := w_db st\<rparr>) 4"
    by (rule fresh_ids_sub [OF fresh(1)]) (use c(3,4) in \<open>simp_all add: started_def\<close>)
  ultimately obtain r st3 where X: "submitWithinTx rt cmd ?g c ?st2 = (Inr r, st3)" "w_status st3 = w_status ?st2"
    "\<not> wr_IdempotentReplay r" "bet_outcome w (sc_Amount cmd) r"
    using submitWithinTx_bet [OF h u _ _ c(2) _ ok(2) DigestOf_hex64 _ w(2) v, of ?st2 "rt_uuid rt" "projection cmd"]
      inv w(1) new ok(1) by (auto simp: SubmitWagerCommand_Validate_Inr wallet_at_def)
  have "sc_IdempotencyKey cmd \<noteq> ''''" using ok(1) by (simp add: SubmitWagerCommand_Validate_Inr submit_ok_def)
  then have i3: "db_inbox (w_db st3) = db_inbox (w_db st) @ [?row]"
    using submit_spec_inbox [OF submitWithinTx_refines [OF u _ X(1)]] by simp
  let ?st4 = "st3\<lparr>w_ticks := Suc (w_ticks st3)\<rparr>"
  let ?now = "time_UTC (rt_Now rt (w_ticks st3))"
  have nk: "ibr_messageId x \<noteq> dl_MessageID dl"
    if "x \<in> set (db_inbox (w_db st))" "ibr_consumerName x = dl_ConsumerName dl" for x
    using key that by force
  have "\<exists>rows. update_rows (\<lambda>r. ibr_consumerName r = dl_ConsumerName dl \<and> ibr_messageId r = dl_MessageID dl)
      (\<lambda>r. r\<lparr>ibr_completedAt := Some ?now\<rparr>) inbox_checks (db_inbox (w_db st3)) = Inr rows"
    using nk dl(1,2) by (auto simp: update_rows_Inr i3 inbox_checks_def InboxDelivery_Validate_Inr)
  then obtain d4 where "update_inbox_completed (dl_ConsumerName dl) (dl_MessageID dl) ?now (w_db ?st4) = Inr ((), d4)"
    by (auto simp: update_inbox_completed_def res_simps)
  then have k: "tx_bind (clock_Now rt) (inbox_Complete rt (dl_ConsumerName dl) (dl_MessageID dl)) st3
      = (Inr (), ?st4\<lparr>w_calls := Suc (w_calls ?st4), w_db := d4\<rparr>)"
    unfolding tx_bind_def clock_Now_def inbox_Complete_def using X(2)
    by (simp add: db_call_healthy [OF h])
  have "inbox_attempt rt cmd dl ?g c wager_result_nil (st\<lparr>w_ids := n\<rparr>)
      = (Inr False, r, st3\<lparr>w_ticks := Suc (w_ticks st3), w_calls := Suc (Suc (w_calls st3)), w_db := d4,
          w_status := Autocommit\<rparr>)"
    using b X(1,2) k healthyD [OF h]
    by (simp add: inbox_attempt_def begin_tx_def inbox_closure_def finish_tx_def Let_def started_def)
  then have "SubmitWagerFromInbox rt cmd dl st
      = (Inr (r, False), st3\<lparr>w_ticks := Suc (w_ticks st3), w_calls := Suc (Suc (w_calls st3)), w_db := d4,
          w_status := Autocommit\<rparr>)"
    using ok(1) dl(1) c(1) by (simp add: SubmitWagerFromInbox_def tx_bind_def Let_def maxConcurrentWriteRetries_def
        numeral_3_eq_3)
  then show ?thesis using X by blast
qed

section \<open>Properties\<close>

definition sample_open :: open_command where
  "sample_open =
     \<lparr>oc_PlayerID = 2, oc_InitialBalance = \<lparr>minorUnits = 1000, currency = ''BRL''\<rparr>, oc_CorrelationID = ''c''\<rparr>"

definition sample_opened :: db where
  "sample_opened = w_db (snd (OpenWallet sample_runtime sample_open (sample_world db_empty)))"

definition later_runtime :: runtime where
  "later_runtime = sample_runtime\<lparr>rt_NewV7 := \<lambda>n. Some (word_of_nat (n + 200))\<rparr>"

definition sample_bet :: submit_command where
  "sample_bet =
     \<lparr>sc_ProviderID = ''acme'', sc_ExternalTransactionID = ''bet-1'', sc_IdempotencyKey = ''key-1'',
      sc_WalletID = 100, sc_PlayerID = 2, sc_RoundID = ''r1'', sc_GameID = ''g1'', sc_Kind = KindBet,
      sc_Amount = \<lparr>minorUnits = 300, currency = ''BRL''\<rparr>, sc_ReferenceExternalID = '''', sc_CorrelationID = ''c''\<rparr>"

lemma sample_healthy: "healthy sample_runtime" "healthy later_runtime"
  "rt_uuid sample_runtime = dec_uuid_lib" "rt_uuid later_runtime = dec_uuid_lib"
  by (simp_all add: healthy_def sample_runtime_def later_runtime_def)

lemma sample_fresh: "fresh_ids sample_runtime (sample_world db_empty) 6"
  "fresh_ids later_runtime (sample_world sample_opened) 5"
  by code_simp+

lemma sample_world_db: "w_db (sample_world d) = d"
  by (simp add: sample_world_def)

lemma sample_reach: "service_reach dec_uuid_lib db_empty" "service_reach dec_uuid_lib sample_opened"
proof -
  show "service_reach dec_uuid_lib db_empty" by (simp add: service_reach_def)
  have "service_step dec_uuid_lib db_empty sample_opened"
    using service_step [OF sample_healthy(3), of "sample_world db_empty" "Open sample_open"]
    by (simp add: sample_opened_def sample_world_def)
  then show "service_reach dec_uuid_lib sample_opened" by (simp add: service_reach_def)
qed

lemma sample_wallet:
  "wallet_at dec_uuid_lib sample_opened 100
     \<lparr>wal_id = 100, wal_playerID = 2, wal_currency = ''BRL'', wal_balance = \<lparr>minorUnits = 1000, currency = ''BRL''\<rparr>,
      wal_version = 1, wal_createdAt = 1000, wal_updatedAt = 1000\<rparr>" (is "wallet_at _ _ _ ?w")
proof -
  have "map (\<lambda>r. (wlr_id r, wlr_playerId r, wlr_currency r, wlr_balance r, wlr_version r, wlr_createdAt r,
      wlr_updatedAt r)) (db_wallets sample_opened) = [(100, 2, ''BRL'', 1000, 1, 1000, 1000)]"
    by code_simp
  then have "db_wallets sample_opened = [wallet_to_row ?w]"
    by (auto simp: wallet_to_row_def time_UTC_def)
  moreover have "wallet_db_ok ?w"
    by (simp add: wallet_db_ok_def wallet_ok_def uuid_Nil_def currencyPattern_def is_upper_def byte_of_def)
  ultimately show ?thesis
    using dec_uuid_lib_ok by (simp add: wallet_at_def wallet_rows.dec_enc) (simp add: wallet_to_row_def)
qed

text \<open>
  C13: opening a wallet completes. On every reachable database, in a runtime where no driver call
  fails and the next six identities are new, a valid command (its currency has three capitals, the
  player has no wallet in it) returns the view of a wallet with the initial balance and version 1;
  exactly that wallet is added, and one opening transaction when the balance is positive.
\<close>

theorem open_wallet_completes:
  assumes "healthy rt" and "uuid_lib_ok (rt_uuid rt)" and "service_reach (rt_uuid rt) (w_db st)"
    and "OpenWalletCommand_Validate cmd = Inr ()" and "currencyPattern (currency (oc_InitialBalance cmd))"
    and "(oc_PlayerID cmd, currency (oc_InitialBalance cmd))
      \<notin> set (map (\<lambda>x. (wlr_playerId x, wlr_currency x)) (db_wallets (w_db st)))"
    and "fresh_ids rt st 6"
  shows "\<exists>v st'. OpenWallet rt cmd st = (Inr v, st') \<and> wv_Balance v = oc_InitialBalance cmd \<and> wv_Version v = 1
    \<and> (\<exists>r. db_wallets (w_db st') = db_wallets (w_db st) @ [r] \<and> wlr_id r = wv_ID v
          \<and> wlr_playerId r = oc_PlayerID cmd \<and> wlr_currency r = currency (oc_InitialBalance cmd)
          \<and> wlr_balance r = minorUnits (oc_InitialBalance cmd) \<and> wlr_version r = 1)
    \<and> length (db_transactions (w_db st'))
        = length (db_transactions (w_db st)) + of_bool (0 < amt (oc_InitialBalance cmd))"
  by (rule OpenWallet_completes [OF assms(1,2) service_reach_inv(1) [OF assms(2,3)] assms(4-7)])

theorem open_wallet_completes_witness:
  "\<exists>v st'. OpenWallet sample_runtime sample_open (sample_world db_empty) = (Inr v, st')
     \<and> wv_Balance v = oc_InitialBalance sample_open"
proof -
  have "OpenWalletCommand_Validate sample_open = Inr ()" "currencyPattern (currency (oc_InitialBalance sample_open))"
    "db_wallets (w_db (sample_world db_empty)) = []"
    by code_simp+
  then show ?thesis
    using open_wallet_completes [of sample_runtime "sample_world db_empty" sample_open]
      sample_healthy sample_fresh(1) sample_reach(1) dec_uuid_lib_ok sample_world_db by auto
qed

text \<open>
  A new bet completes. On every reachable database, in such a runtime, a valid BET on a wallet of
  its currency, with a key and an external identity that its provider has not used, returns a fresh
  result: PROCESSED with the balance less the amount when the balance covers it, and otherwise
  REJECTED for insufficient funds with the balance untouched.
\<close>

theorem bet_completes:
  assumes "healthy rt" and "uuid_lib_ok (rt_uuid rt)" and "service_reach (rt_uuid rt) (w_db st)"
    and "SubmitWagerCommand_Validate cmd = Inr ()" and "sc_Kind cmd = KindBet"
    and "wallet_at (rt_uuid rt) (w_db st) (sc_WalletID cmd) w" and "wal_currency w = currency (sc_Amount cmd)"
    and "sint (wal_version w) < 9223372036854775807"
    and "\<forall>r \<in> set (db_transactions (w_db st)). txr_providerId r = Some (sc_ProviderID cmd) \<longrightarrow>
      txr_idempotencyKey r \<noteq> Some (sc_IdempotencyKey cmd)
      \<and> txr_externalTransactionId r \<noteq> Some (sc_ExternalTransactionID cmd)"
    and "fresh_ids rt st 5"
  shows "\<exists>r st'. SubmitWagerTransaction rt cmd st = (Inr r, st')
    \<and> \<not> wr_IdempotentReplay r \<and> bet_outcome w (sc_Amount cmd) r"
  by (rule SubmitWagerTransaction_bet [OF assms(1,2) service_reach_inv(1) [OF assms(2,3)] assms(4-10)])

theorem bet_completes_witness:
  "\<exists>r st'. SubmitWagerTransaction later_runtime sample_bet (sample_world sample_opened) = (Inr r, st')
     \<and> wr_State r = StateProcessed \<and> amt (wr_ObservedBalance r) = 700"
proof -
  have "\<forall>r \<in> set (db_transactions sample_opened). txr_providerId r = None" by code_simp
  moreover have "SubmitWagerCommand_Validate sample_bet = Inr ()" by code_simp
  ultimately show ?thesis
    using bet_completes [of later_runtime "sample_world sample_opened" sample_bet]
      sample_healthy sample_fresh(2) sample_reach(2) dec_uuid_lib_ok sample_wallet sample_world_db
    by (fastforce simp: sample_bet_def bet_outcome_def)
qed

end
