(* ===== verification/History.thy ===== *)
theory History
  imports Progress
begin

text \<open>
  A history with a reversal: a wallet is opened, a bet is taken, refunded, and rolled back once more. The digests of the
  three commands are evaluated block by block, the runs of the service with them; the witnesses of the properties of
  the whole service read this history.
\<close>

section \<open>The commands\<close>

definition bought :: submit_command where
  "bought =
     \<lparr>sc_ProviderID = ''a'', sc_ExternalTransactionID = ''b'', sc_IdempotencyKey = ''b'', sc_WalletID = 100,
      sc_PlayerID = 2, sc_RoundID = ''r'', sc_GameID = ''g'', sc_Kind = KindBet,
      sc_Amount = \<lparr>minorUnits = 300, currency = ''BRL''\<rparr>, sc_ReferenceExternalID = '''', sc_CorrelationID = ''c''\<rparr>"

definition returned :: submit_command where
  "returned = bought\<lparr>sc_ExternalTransactionID := ''c'', sc_IdempotencyKey := ''c'', sc_Kind := KindRefund,
     sc_ReferenceExternalID := ''b''\<rparr>"

definition undone :: submit_command where
  "undone = bought\<lparr>sc_ExternalTransactionID := ''d'', sc_IdempotencyKey := ''d'', sc_Kind := KindRollback,
     sc_ReferenceExternalID := ''b''\<rparr>"

section \<open>Their digests\<close>

definition bought_sum :: string where
  "bought_sum = ''c09d02fa0c6eb3c8c13907baf597493b4949668b519049255fdac38cc24197cc''"

definition returned_sum :: string where
  "returned_sum = ''15486aeb436fcb89c1b81ee7de219de9f54392c62db86984dd6c8dea3546be14''"

definition undone_sum :: string where
  "undone_sum = ''ad6e1c6fd6b16440d9b5326081d02639b6748eccbc608088151978832728c2da''"

lemma bought_digest: "DigestOf dec_uuid_lib (projection bought) = bought_sum"
proof -
  let ?json = "map byte_of (CanonicalJSON dec_uuid_lib (projection bought))"
  have c: "chunks (length (sha256_pad ?json) div 64) 64 (sha256_pad ?json) =
      [[123, 34, 97, 109, 111, 117, 110, 116, 34, 58, 34, 51, 46, 48, 48, 34, 44, 34, 99, 117, 114, 114, 101,
        110, 99, 121, 34, 58, 34, 66, 82, 76, 34, 44, 34, 101, 120, 116, 101, 114, 110, 97, 108, 84, 114, 97,
        110, 115, 97, 99, 116, 105, 111, 110, 73, 100, 34, 58, 34, 98, 34, 44, 34, 103],
       [97, 109, 101, 73, 100, 34, 58, 34, 103, 34, 44, 34, 107, 105, 110, 100, 34, 58, 34, 66, 69, 84, 34, 44,
        34, 112, 108, 97, 121, 101, 114, 73, 100, 34, 58, 34, 50, 34, 44, 34, 112, 114, 111, 118, 105, 100, 101,
        114, 73, 100, 34, 58, 34, 97, 34, 44, 34, 114, 111, 117, 110, 100, 73, 100],
       [34, 58, 34, 114, 34, 44, 34, 119, 97, 108, 108, 101, 116, 73, 100, 34, 58, 34, 49, 48, 48, 34, 125,
        128, 0, 0, 0, 0, 0, 0, 0, 0, 0, 0, 0, 0, 0, 0, 0, 0, 0, 0, 0, 0, 0, 0, 0, 0, 0, 0, 0, 0, 0, 0, 0, 0, 0,
        0, 0, 0, 0, 0, 4, 184]]"
    by code_simp
  have s1: "sha_block sha256_start
      [123, 34, 97, 109, 111, 117, 110, 116, 34, 58, 34, 51, 46, 48, 48, 34, 44, 34, 99, 117, 114, 114, 101,
      110, 99, 121, 34, 58, 34, 66, 82, 76, 34, 44, 34, 101, 120, 116, 101, 114, 110, 97, 108, 84, 114, 97, 110,
      115, 97, 99, 116, 105, 111, 110, 73, 100, 34, 58, 34, 98, 34, 44, 34, 103]
      = (3365566909, 493571040, 4234108529, 3713232145, 1746029110, 2837612600, 606411062, 3008376185)"
    by code_simp
  have s2: "sha_block (3365566909, 493571040, 4234108529, 3713232145, 1746029110, 2837612600, 606411062, 3008376185)
      [97, 109, 101, 73, 100, 34, 58, 34, 103, 34, 44, 34, 107, 105, 110, 100, 34, 58, 34, 66, 69, 84, 34, 44,
      34, 112, 108, 97, 121, 101, 114, 73, 100, 34, 58, 34, 50, 34, 44, 34, 112, 114, 111, 118, 105, 100, 101,
      114, 73, 100, 34, 58, 34, 97, 34, 44, 34, 114, 111, 117, 110, 100, 73, 100]
      = (3635849749, 466990468, 2747809405, 3804906013, 1636445816, 2350435961, 2395392930, 2928095508)"
    by code_simp
  have s3: "sha_block (3635849749, 466990468, 2747809405, 3804906013, 1636445816, 2350435961, 2395392930, 2928095508)
      [34, 58, 34, 114, 34, 44, 34, 119, 97, 108, 108, 101, 116, 73, 100, 34, 58, 34, 49, 48, 48, 34, 125, 128,
      0, 0, 0, 0, 0, 0, 0, 0, 0, 0, 0, 0, 0, 0, 0, 0, 0, 0, 0, 0, 0, 0, 0, 0, 0, 0, 0, 0, 0, 0, 0, 0, 0, 0, 0,
      0, 0, 0, 4, 184]
      = (3231515386, 208581576, 3241740218, 4120332603, 1229547147, 1368410405, 1608172428, 3259078604)"
    by code_simp
  show ?thesis
    unfolding DigestOf_def sha256_Sum256_def Let_def c foldl.simps s1 s2 s3
    by code_simp
qed

lemma returned_digest: "DigestOf dec_uuid_lib (projection returned) = returned_sum"
proof -
  let ?json = "map byte_of (CanonicalJSON dec_uuid_lib (projection returned))"
  have c: "chunks (length (sha256_pad ?json) div 64) 64 (sha256_pad ?json) =
      [[123, 34, 97, 109, 111, 117, 110, 116, 34, 58, 34, 51, 46, 48, 48, 34, 44, 34, 99, 117, 114, 114, 101,
        110, 99, 121, 34, 58, 34, 66, 82, 76, 34, 44, 34, 101, 120, 116, 101, 114, 110, 97, 108, 84, 114, 97,
        110, 115, 97, 99, 116, 105, 111, 110, 73, 100, 34, 58, 34, 99, 34, 44, 34, 103],
       [97, 109, 101, 73, 100, 34, 58, 34, 103, 34, 44, 34, 107, 105, 110, 100, 34, 58, 34, 82, 69, 70, 85, 78,
        68, 34, 44, 34, 112, 108, 97, 121, 101, 114, 73, 100, 34, 58, 34, 50, 34, 44, 34, 112, 114, 111, 118,
        105, 100, 101, 114, 73, 100, 34, 58, 34, 97, 34, 44, 34, 114, 101, 102, 101],
       [114, 101, 110, 99, 101, 69, 120, 116, 101, 114, 110, 97, 108, 84, 114, 97, 110, 115, 97, 99, 116, 105,
        111, 110, 73, 100, 34, 58, 34, 98, 34, 44, 34, 114, 111, 117, 110, 100, 73, 100, 34, 58, 34, 114, 34,
        44, 34, 119, 97, 108, 108, 101, 116, 73, 100, 34, 58, 34, 49, 48, 48, 34, 125, 128],
       [0, 0, 0, 0, 0, 0, 0, 0, 0, 0, 0, 0, 0, 0, 0, 0, 0, 0, 0, 0, 0, 0, 0, 0, 0, 0, 0, 0, 0, 0, 0, 0, 0, 0,
        0, 0, 0, 0, 0, 0, 0, 0, 0, 0, 0, 0, 0, 0, 0, 0, 0, 0, 0, 0, 0, 0, 0, 0, 0, 0, 0, 0, 5, 248]]"
    by code_simp
  have s1: "sha_block sha256_start
      [123, 34, 97, 109, 111, 117, 110, 116, 34, 58, 34, 51, 46, 48, 48, 34, 44, 34, 99, 117, 114, 114, 101,
      110, 99, 121, 34, 58, 34, 66, 82, 76, 34, 44, 34, 101, 120, 116, 101, 114, 110, 97, 108, 84, 114, 97, 110,
      115, 97, 99, 116, 105, 111, 110, 73, 100, 34, 58, 34, 99, 34, 44, 34, 103]
      = (994139918, 1703465519, 3986137170, 1714664242, 32233001, 1825673182, 1986011767, 3382962452)"
    by code_simp
  have s2: "sha_block (994139918, 1703465519, 3986137170, 1714664242, 32233001, 1825673182, 1986011767, 3382962452)
      [97, 109, 101, 73, 100, 34, 58, 34, 103, 34, 44, 34, 107, 105, 110, 100, 34, 58, 34, 82, 69, 70, 85, 78,
      68, 34, 44, 34, 112, 108, 97, 121, 101, 114, 73, 100, 34, 58, 34, 50, 34, 44, 34, 112, 114, 111, 118, 105,
      100, 101, 114, 73, 100, 34, 58, 34, 97, 34, 44, 34, 114, 101, 102, 101]
      = (3827413969, 1228371352, 3564365402, 1106481787, 2207424248, 922660835, 2371566115, 387609464)"
    by code_simp
  have s3: "sha_block (3827413969, 1228371352, 3564365402, 1106481787, 2207424248, 922660835, 2371566115, 387609464)
      [114, 101, 110, 99, 101, 69, 120, 116, 101, 114, 110, 97, 108, 84, 114, 97, 110, 115, 97, 99, 116, 105,
      111, 110, 73, 100, 34, 58, 34, 98, 34, 44, 34, 114, 111, 117, 110, 100, 73, 100, 34, 58, 34, 114, 34, 44,
      34, 119, 97, 108, 108, 101, 116, 73, 100, 34, 58, 34, 49, 48, 48, 34, 125, 128]
      = (3492225213, 2309497650, 3160970444, 655115569, 1581545016, 2506669681, 3913000400, 102768526)"
    by code_simp
  have s4: "sha_block (3492225213, 2309497650, 3160970444, 655115569, 1581545016, 2506669681, 3913000400, 102768526)
      [0, 0, 0, 0, 0, 0, 0, 0, 0, 0, 0, 0, 0, 0, 0, 0, 0, 0, 0, 0, 0, 0, 0, 0, 0, 0, 0, 0, 0, 0, 0, 0, 0, 0, 0,
      0, 0, 0, 0, 0, 0, 0, 0, 0, 0, 0, 0, 0, 0, 0, 0, 0, 0, 0, 0, 0, 0, 0, 0, 0, 0, 0, 5, 248]
      = (357067499, 1131400073, 3250069223, 3726745065, 4114846406, 767060356, 3714878954, 893828628)"
    by code_simp
  show ?thesis
    unfolding DigestOf_def sha256_Sum256_def Let_def c foldl.simps s1 s2 s3 s4
    by code_simp
qed

lemma undone_digest: "DigestOf dec_uuid_lib (projection undone) = undone_sum"
proof -
  let ?json = "map byte_of (CanonicalJSON dec_uuid_lib (projection undone))"
  have c: "chunks (length (sha256_pad ?json) div 64) 64 (sha256_pad ?json) =
      [[123, 34, 97, 109, 111, 117, 110, 116, 34, 58, 34, 51, 46, 48, 48, 34, 44, 34, 99, 117, 114, 114, 101,
        110, 99, 121, 34, 58, 34, 66, 82, 76, 34, 44, 34, 101, 120, 116, 101, 114, 110, 97, 108, 84, 114, 97,
        110, 115, 97, 99, 116, 105, 111, 110, 73, 100, 34, 58, 34, 100, 34, 44, 34, 103],
       [97, 109, 101, 73, 100, 34, 58, 34, 103, 34, 44, 34, 107, 105, 110, 100, 34, 58, 34, 82, 79, 76, 76, 66,
        65, 67, 75, 34, 44, 34, 112, 108, 97, 121, 101, 114, 73, 100, 34, 58, 34, 50, 34, 44, 34, 112, 114, 111,
        118, 105, 100, 101, 114, 73, 100, 34, 58, 34, 97, 34, 44, 34, 114, 101],
       [102, 101, 114, 101, 110, 99, 101, 69, 120, 116, 101, 114, 110, 97, 108, 84, 114, 97, 110, 115, 97, 99,
        116, 105, 111, 110, 73, 100, 34, 58, 34, 98, 34, 44, 34, 114, 111, 117, 110, 100, 73, 100, 34, 58, 34,
        114, 34, 44, 34, 119, 97, 108, 108, 101, 116, 73, 100, 34, 58, 34, 49, 48, 48, 34],
       [125, 128, 0, 0, 0, 0, 0, 0, 0, 0, 0, 0, 0, 0, 0, 0, 0, 0, 0, 0, 0, 0, 0, 0, 0, 0, 0, 0, 0, 0, 0, 0, 0,
        0, 0, 0, 0, 0, 0, 0, 0, 0, 0, 0, 0, 0, 0, 0, 0, 0, 0, 0, 0, 0, 0, 0, 0, 0, 0, 0, 0, 0, 6, 8]]"
    by code_simp
  have s1: "sha_block sha256_start
      [123, 34, 97, 109, 111, 117, 110, 116, 34, 58, 34, 51, 46, 48, 48, 34, 44, 34, 99, 117, 114, 114, 101,
      110, 99, 121, 34, 58, 34, 66, 82, 76, 34, 44, 34, 101, 120, 116, 101, 114, 110, 97, 108, 84, 114, 97, 110,
      115, 97, 99, 116, 105, 111, 110, 73, 100, 34, 58, 34, 100, 34, 44, 34, 103]
      = (848913638, 1388659988, 3431067924, 4161413575, 3085763663, 4072380318, 3935504651, 2894931755)"
    by code_simp
  have s2: "sha_block (848913638, 1388659988, 3431067924, 4161413575, 3085763663, 4072380318, 3935504651, 2894931755)
      [97, 109, 101, 73, 100, 34, 58, 34, 103, 34, 44, 34, 107, 105, 110, 100, 34, 58, 34, 82, 79, 76, 76, 66,
      65, 67, 75, 34, 44, 34, 112, 108, 97, 121, 101, 114, 73, 100, 34, 58, 34, 50, 34, 44, 34, 112, 114, 111,
      118, 105, 100, 101, 114, 73, 100, 34, 58, 34, 97, 34, 44, 34, 114, 101]
      = (2420573941, 2422130305, 3720640176, 1569114325, 88101511, 4157555011, 8161690, 1220834657)"
    by code_simp
  have s3: "sha_block (2420573941, 2422130305, 3720640176, 1569114325, 88101511, 4157555011, 8161690, 1220834657)
      [102, 101, 114, 101, 110, 99, 101, 69, 120, 116, 101, 114, 110, 97, 108, 84, 114, 97, 110, 115, 97, 99,
      116, 105, 111, 110, 73, 100, 34, 58, 34, 98, 34, 44, 34, 114, 111, 117, 110, 100, 73, 100, 34, 58, 34,
      114, 34, 44, 34, 119, 97, 108, 108, 101, 116, 73, 100, 34, 58, 34, 49, 48, 48, 34]
      = (137305569, 2113353267, 2531010562, 2160106709, 3445102101, 4057900328, 1541693140, 2944162739)"
    by code_simp
  have s4: "sha_block (137305569, 2113353267, 2531010562, 2160106709, 3445102101, 4057900328, 1541693140, 2944162739)
      [125, 128, 0, 0, 0, 0, 0, 0, 0, 0, 0, 0, 0, 0, 0, 0, 0, 0, 0, 0, 0, 0, 0, 0, 0, 0, 0, 0, 0, 0, 0, 0, 0, 0,
      0, 0, 0, 0, 0, 0, 0, 0, 0, 0, 0, 0, 0, 0, 0, 0, 0, 0, 0, 0, 0, 0, 0, 0, 0, 0, 0, 0, 6, 8]
      = (2909674607, 3601949760, 3652530784, 2177902137, 3061092044, 3160440968, 353990787, 656982746)"
    by code_simp
  show ?thesis
    unfolding DigestOf_def sha256_Sum256_def Let_def c foldl.simps s1 s2 s3 s4
    by code_simp
qed

section \<open>The runs\<close>

definition after_bought :: world where
  "after_bought = snd (SubmitWagerTransaction later_runtime bought (sample_world sample_opened))"

definition after_returned :: world where
  "after_returned = snd (SubmitWagerTransaction later_runtime returned after_bought)"

definition after_undone :: world where
  "after_undone = snd (SubmitWagerTransaction later_runtime undone after_returned)"

lemma submit_known_digest:
  assumes "DigestOf (rt_uuid rt) (projection cmd) = g" and "SubmitWagerCommand_Validate cmd = Inr ()"
  shows "SubmitWagerTransaction rt cmd st =
    tx_bind (correlationOrNew rt (sc_CorrelationID cmd)) (\<lambda>c. submit_loop rt cmd g c maxConcurrentWriteRetries None) st"
  using assms by (simp add: SubmitWagerTransaction_def tx_bind_def Let_def)

lemma history_valid:
  "SubmitWagerCommand_Validate bought = Inr ()" "SubmitWagerCommand_Validate returned = Inr ()"
  "SubmitWagerCommand_Validate undone = Inr ()"
  by code_simp+

lemma history_runs:
  "SubmitWagerTransaction later_runtime bought st =
     tx_bind (correlationOrNew later_runtime ''c'') (\<lambda>c. submit_loop later_runtime bought bought_sum c maxConcurrentWriteRetries None) st"
  "SubmitWagerTransaction later_runtime returned st =
     tx_bind (correlationOrNew later_runtime ''c'') (\<lambda>c. submit_loop later_runtime returned returned_sum c maxConcurrentWriteRetries None) st"
  "SubmitWagerTransaction later_runtime undone st =
     tx_bind (correlationOrNew later_runtime ''c'') (\<lambda>c. submit_loop later_runtime undone undone_sum c maxConcurrentWriteRetries None) st"
  using submit_known_digest [of later_runtime, unfolded sample_healthy(4)] bought_digest returned_digest undone_digest history_valid
  by (simp_all add: bought_def returned_def undone_def)

text \<open>The bet and its refund are processed; the rollback is refused, because the bet was undone.\<close>

lemma history_rows:
  "map (\<lambda>r. (txr_kind r, txr_state r, txr_id r, txr_referenceTransactionId r)) (db_transactions (w_db after_undone)) =
     [(KindOpening, StateProcessed, 101, None), (KindBet, StateProcessed, 200, None),
      (KindRefund, StateProcessed, 204, Some 200), (KindRollback, StateRejected, 209, Some 200)]"
  unfolding after_undone_def after_returned_def after_bought_def history_runs by code_simp

lemma history_reach: "service_reach dec_uuid_lib (w_db after_undone)"
proof -
  have step: "service_step dec_uuid_lib (w_db st) (w_db (snd (SubmitWagerTransaction later_runtime cmd st)))" for cmd st
    using service_step [OF sample_healthy(4), of st "Submit cmd"] by simp
  have "service_step dec_uuid_lib sample_opened (w_db after_bought)"
    using step [of "sample_world sample_opened" bought] by (simp only: after_bought_def sample_world_db)
  then have "service_reach dec_uuid_lib (w_db after_bought)"
    using service_reach_steps [OF sample_reach(2)] by blast
  moreover have "service_step dec_uuid_lib (w_db after_bought) (w_db after_returned)"
    unfolding after_returned_def by (rule step)
  ultimately have "service_reach dec_uuid_lib (w_db after_returned)" using service_reach_steps by blast
  moreover have "service_step dec_uuid_lib (w_db after_returned) (w_db after_undone)"
    unfolding after_undone_def by (rule step)
  ultimately show ?thesis using service_reach_steps by blast
qed

end
