(* ===== verification/Guarantees.thy ===== *)
theory Guarantees
  imports History
begin

text \<open>
  What the service guarantees in every reachable database, whatever the order of the use cases and
  whatever fails in between: the balance of a wallet is its ledger, a transaction posts exactly when
  it is processed, a transaction is reversed once, the events are the postings, a command commits
  once, a failed use case leaves no trace. The lemmas come first, the properties last.
\<close>

section \<open>Sums of postings\<close>

definition signed_amount :: "ledger_row \<Rightarrow> int" where
  "signed_amount e = (if lgr_direction e = DirectionCredit then sint (lgr_amount e) else - sint (lgr_amount e))"

lemma chain_sum: "chain b es b' \<Longrightarrow> b' = b + sum_list (map signed_amount es)"
proof (induction es arbitrary: b)
  case (Cons e es)
  then have "sint (lgr_balanceAfter e) = b + signed_amount e" "chain (sint (lgr_balanceAfter e)) es b'"
    unfolding chain.simps signed_amount_def by blast+
  with Cons.IH [OF this(2)] show ?case by simp
qed simp

text \<open>Every prefix of the postings of a wallet is a balance that was recorded.\<close>

lemma chain_prefix:
  "chain b es b' \<Longrightarrow> k < length es \<Longrightarrow>
     sint (lgr_balanceBefore (es ! k)) = b + sum_list (map signed_amount (take k es))
     \<and> sint (lgr_balanceAfter (es ! k)) = b + sum_list (map signed_amount (take (Suc k) es))"
proof (induction es arbitrary: b k)
  case (Cons e es)
  then show ?case by (cases k) (force simp: signed_amount_def)+
qed simp

section \<open>Stored commands\<close>

text \<open>A transaction with these identities and this digest is in the database.\<close>

definition stored :: "db \<Rightarrow> transaction_id \<Rightarrow> provider_id \<Rightarrow> idempotency_key \<Rightarrow> string \<Rightarrow> bool" where
  "stored d i p k g \<longleftrightarrow> (i, Some p, Some k, Some g) \<in> set (map ident (db_transactions d))"

lemma stored_later: "stored d i p k g \<Longrightarrow> (fin_step u)\<^sup>*\<^sup>* d d' \<Longrightarrow> stored d' i p k g"
  using fin_steps_idents unfolding stored_def by fastforce

lemma settles_id: "settles u d t t' d' \<Longrightarrow> tx_id t' = tx_id t"
  by (erule settlesE) (auto simp: MarkPendingReference_Inr_iff MarkRejected_Inr_iff MarkFailed_Inr_iff
      MarkProcessed_Inr_iff)

lemma submit_spec_stored:
  assumes u: "uuid_lib_ok u" and s: "submit_spec u cmd g d r d'"
    and ne: "sc_ProviderID cmd \<noteq> ''''" "sc_IdempotencyKey cmd \<noteq> ''''" "g \<noteq> ''''"
  shows "stored d' (wr_TransactionID r) (sc_ProviderID cmd) (sc_IdempotencyKey cmd) g"
  using s
proof cases
  case (spec_replay t)
  then obtain row where row: "row \<in> set (db_transactions d)" "rehydrateTransaction u row = Inr t"
    by (auto simp: tx_at_def)
  have deref: "derefString x = y \<Longrightarrow> y \<noteq> '''' \<Longrightarrow> x = Some y" for x y by (cases x) auto
  have "ident row = (tx_id t, Some (sc_ProviderID cmd), Some (sc_IdempotencyKey cmd), Some g)"
    using rehydrate_fields(1) [OF u row(2)] deref [OF rehydrate_fields(10) [OF u row(2)]]
      deref [OF rehydrate_fields(11) [OF u row(2)]] deref [OF rehydrate_fields(13) [OF u row(2)]] spec_replay ne
    by (simp add: ident_def same_projection_def)
  then show ?thesis
    using row(1) spec_replay(1,2) unfolding stored_def by (force simp: resultOf_def)
next
  case (spec_fresh tid now w d1 t')
  let ?t = "external_wager (params_of cmd tid DigestVersion g now)"
  have "ident (wager_to_row ?t) = (tid, Some (sc_ProviderID cmd), Some (sc_IdempotencyKey cmd), Some g)"
    using ne by (simp add: ident_def wager_to_row_def nullString_def)
  moreover have "wr_TransactionID r = tid"
    using settles_id [OF spec_fresh(6)] spec_fresh(1) by (simp add: resultOf_def)
  moreover have "map ident (db_transactions d') = map ident (db_transactions d1)"
    by (rule settles_idents [OF spec_fresh(6)])
  ultimately show ?thesis
    using insert_transaction_Inr [OF spec_fresh(5)] by (simp add: stored_def)
qed

lemma stored_unique:
  assumes "idents_inv d" and "stored d i p k g" and "stored d j p k g'" and "distinct (map txr_id (db_transactions d))"
  shows "j = i \<and> g' = g"
proof -
  obtain r r' where r: "r \<in> set (db_transactions d)" "ident r = (i, Some p, Some k, Some g)"
    "r' \<in> set (db_transactions d)" "ident r' = (j, Some p, Some k, Some g')"
    using assms(2,3) unfolding stored_def by force
  then have e: "txr_id r = i" "txr_id r' = j" "txr_digest r = Some g" "txr_digest r' = Some g'"
    "txr_providerId r = Some p" "txr_idempotencyKey r = Some k" "txr_providerId r' = Some p"
    "txr_idempotencyKey r' = Some k" by (simp_all add: ident_def)
  then have "txr_id r = txr_id r'" using idents_invD [OF assms(1) r(1,3)] by blast
  then have "r = r'" using distinct_map_eq [OF assms(4) r(1,3)] by blast
  then show ?thesis using e by simp
qed

text \<open>A command whose key is stored changes nothing and answers with what is stored, or not at all.\<close>

lemma submit_spec_repeats:
  assumes u: "uuid_lib_ok u" and r0: "fin_reach u d" and s: "submit_spec u cmd g d r d'"
    and st: "stored d i (sc_ProviderID cmd) (sc_IdempotencyKey cmd) g0"
    and ne: "sc_ProviderID cmd \<noteq> ''''" "sc_IdempotencyKey cmd \<noteq> ''''" "g \<noteq> ''''"
  shows "d' = d \<and> wr_TransactionID r = i \<and> wr_IdempotentReplay r \<and> g = g0"
proof -
  have key: "(Some (sc_ProviderID cmd), Some (sc_IdempotencyKey cmd)) \<in> set (map key_columns (db_transactions d))"
    using st unfolding stored_def by (force simp: ident_def key_columns_def)
  then have d': "d' = d" using submit_spec_key(1) [OF s] by blast
  have inv: "idents_inv d" "distinct (map txr_id (db_transactions d))"
    using fin_reach_idents [OF r0] fin_reach_inv [OF u r0] by (simp_all add: fin_inv_def keys_inv_def)
  have "wr_TransactionID r = i \<and> g = g0"
    using stored_unique [OF inv(1) st _ inv(2)] submit_spec_stored [OF u s ne] d' by metis
  moreover have "wr_IdempotentReplay r"
    using s
  proof cases
    case (spec_replay t)
    then show ?thesis by (simp add: resultOf_def)
  next
    case (spec_fresh tid now w d1 t')
    have "length (db_transactions d1) = length (db_transactions d')"
      using settles_columns(2) [OF spec_fresh(6)] by (metis length_map)
    then show ?thesis using insert_transaction_Inr [OF spec_fresh(5)] d' by simp
  qed
  ultimately show ?thesis using d' by blast
qed

lemma submit_repeats:
  assumes u: "uuid_lib_ok (rt_uuid rt)" and reach: "fin_reach (rt_uuid rt) (w_db st)"
    and run: "SubmitWagerTransaction rt cmd st = (res, st')"
    and st: "stored (w_db st) i (sc_ProviderID cmd) (sc_IdempotencyKey cmd) g0"
  shows "w_db st' = w_db st \<and> (case res of Inl e \<Rightarrow> True
     | Inr r \<Rightarrow> wr_TransactionID r = i \<and> wr_IdempotentReplay r \<and> DigestOf (rt_uuid rt) (projection cmd) = g0)"
proof (cases "SubmitWagerCommand_Validate cmd")
  case (Inl e)
  then show ?thesis using run by (auto simp: SubmitWagerTransaction_def tx_bind_def)
next
  case (Inr y)
  then have ne: "sc_ProviderID cmd \<noteq> ''''" "sc_IdempotencyKey cmd \<noteq> ''''"
    by (simp_all add: SubmitWagerCommand_Validate_Inr submit_ok_def)
  note rep = submit_spec_repeats [OF u _ _ _ ne DigestOf_nonempty]
  note S = SubmitWagerTransaction_refines [OF u run]
  have d: "w_db st' = w_db st" using S rep [OF reach _ st] by blast
  then show ?thesis using S rep [OF reach _ st] by (auto split: sum.splits)
qed

lemma submit_stores:
  assumes u: "uuid_lib_ok (rt_uuid rt)" and run: "SubmitWagerTransaction rt cmd st = (Inr r, st')"
  shows "stored (w_db st') (wr_TransactionID r) (sc_ProviderID cmd) (sc_IdempotencyKey cmd)
    (DigestOf (rt_uuid rt) (projection cmd))"
proof -
  have "is_ok (SubmitWagerCommand_Validate cmd)"
    using run by (auto simp: SubmitWagerTransaction_def tx_bind_def is_ok_iff split: sum.splits)
  then have ne: "sc_ProviderID cmd \<noteq> ''''" "sc_IdempotencyKey cmd \<noteq> ''''"
    by (auto simp: is_ok_iff SubmitWagerCommand_Validate_Inr submit_ok_def)
  show ?thesis
    using SubmitWagerTransaction_refines [OF u run] submit_spec_stored [OF u _ ne DigestOf_nonempty] by blast
qed

section \<open>What settling changes\<close>

text \<open>The columns of a wallet that a posting changes.\<close>

definition with_balance :: "wallet_id \<Rightarrow> wallet \<Rightarrow> wallet_row \<Rightarrow> wallet_row" where
  "with_balance i w x =
     (if wlr_id x = i then x\<lparr>wlr_balance := minorUnits (wal_balance w), wlr_version := wal_version w,
        wlr_updatedAt := wal_updatedAt w\<rparr> else x)"

lemma persisted_tables:
  "persisted t s d d' \<Longrightarrow> db_wallets d' = db_wallets d \<and> db_ledger d' = db_ledger d \<and> db_claims d' = db_claims d"
  by (drule persisted_eq) simp

lemma emitted_others:
  "emitted u ks i d d' \<Longrightarrow> db_wallets d' = db_wallets d \<and> db_ledger d' = db_ledger d \<and> db_claims d' = db_claims d"
  by (auto simp: emitted_def)

definition no_movement :: "db \<Rightarrow> db \<Rightarrow> bool" where
  "no_movement d d' \<longleftrightarrow> db_wallets d' = db_wallets d \<and> db_ledger d' = db_ledger d \<and> db_claims d' = db_claims d"

lemma settles_effect:
  assumes u: "uuid_lib_ok u" and s: "settles u d t t' d'"
  shows "tx_state t' = StatePendingReference \<and> no_movement d d'
    \<or> (tx_state t' = StateRejected \<or> tx_state t' = StateFailed \<or> tx_state t' = StateProcessed \<and> tx_kind t = KindLoss)
        \<and> no_movement d d'
        \<and> (\<exists>w. wallet_at u d (tx_walletID t) w \<and> tx_observedBalance t' = wal_balance w)
    \<or> (tx_state t' = StateProcessed \<and> tx_kind t \<noteq> KindLoss
        \<and> (\<exists>w w' e. wallet_at u d (tx_walletID t) w \<and> tx_observedBalance t' = wal_balance w'
            \<and> db_wallets d' = map (with_balance (tx_walletID t) w') (db_wallets d)
            \<and> db_ledger d' = db_ledger d @ [e] \<and> lgr_walletId e = tx_walletID t
            \<and> lgr_transactionId e = tx_id t \<and> lgr_amount e = minorUnits (tx_amount t)
            \<and> bal w' = bal w + signed_amount e))"
  using s
proof cases
  case (settles_wait deadline now s d1)
  then show ?thesis
    using persisted_tables [OF settles_wait(2)] emitted_others [OF settles_wait(3)]
    by (auto simp: MarkPendingReference_Inr_iff no_movement_def)
next
  case (settles_refuse w ref code now d1)
  then show ?thesis
    using persisted_tables [OF settles_refuse(3)] emitted_others [OF settles_refuse(4)]
    by (auto simp: MarkRejected_Inr_iff no_movement_def)
next
  case (settles_fail w now)
  then show ?thesis
    using persisted_tables [OF settles_fail(3)] by (auto simp: MarkFailed_Inr_iff no_movement_def)
next
  case (settles_loss w ref now d1)
  then show ?thesis
    using persisted_tables [OF settles_loss(4)] emitted_others [OF settles_loss(5)]
    by (auto simp: MarkProcessed_Inr_iff no_movement_def)
next
  case (settles_post w ro taken dir a consumed claim now w' eid e d1 d2 d3 d4)
  note D = decide_Post [OF settles_post(2,4)]
  note W = wallet_atD [OF u settles_post(1)]
  note M = moved_of_direction [OF _ D(5) settles_post(5)]
  have dirs: "(dir = DirectionCredit) \<noteq> (dir = DirectionDebit)" using D(5) by auto
  have "db_wallets d' = map (with_balance (tx_walletID t) w') (db_wallets d)"
    using update_wallet_balance_Inr [OF settles_post(8) [unfolded wallet_saved_def]] settles_post(9,10)
      persisted_tables [OF settles_post(11)] emitted_others [OF settles_post(12)] M(1) W
    by (auto simp: insert_ledger_Inr claimed_for_def insert_claim_Inr with_balance_def wallet_db_ok_def
        split: if_splits)
  moreover have "db_ledger d' = db_ledger d @ [ledger_to_row e]"
    using update_wallet_balance_Inr [OF settles_post(8) [unfolded wallet_saved_def]] settles_post(9,10)
      persisted_tables [OF settles_post(11)] emitted_others [OF settles_post(12)]
    by (auto simp: insert_ledger_Inr claimed_for_def insert_claim_Inr split: if_splits)
  moreover have "lgr_walletId (ledger_to_row e) = tx_walletID t \<and> lgr_transactionId (ledger_to_row e) = tx_id t
      \<and> lgr_amount (ledger_to_row e) = minorUnits (tx_amount t)
      \<and> bal w' = bal w + signed_amount (ledger_to_row e)"
    using settles_post(6) M(1,7) W D(1)
    by (auto simp: NewWalletLedgerEntry_Inr_iff ledger_to_row_def signed_amount_def wallet_db_ok_def)
  moreover have "tx_state t' = StateProcessed \<and> tx_observedBalance t' = wal_balance w'"
    using settles_post(7) by (auto simp: MarkProcessed_Inr_iff)
  ultimately show ?thesis using settles_post(1) D(6) by blast
qed

text \<open>A fresh result comes from an insertion.\<close>

lemma submit_fresh:
  assumes u: "uuid_lib_ok (rt_uuid rt)" and run: "SubmitWagerTransaction rt cmd st = (Inr r, st')"
    and new: "\<not> wr_IdempotentReplay r"
  obtains tid now w d1 t' where
    "external_params_ok (params_of cmd tid DigestVersion (DigestOf (rt_uuid rt) (projection cmd)) now)"
    "wallet_at (rt_uuid rt) (w_db st) (sc_WalletID cmd) w" "wal_currency w = currency (sc_Amount cmd)"
    "insert_transaction (wager_to_row (external_wager
       (params_of cmd tid DigestVersion (DigestOf (rt_uuid rt) (projection cmd)) now))) (w_db st) = Inr ((), d1)"
    "settles (rt_uuid rt) d1 (external_wager
       (params_of cmd tid DigestVersion (DigestOf (rt_uuid rt) (projection cmd)) now)) t' (w_db st')"
    "r = resultOf t' False"
proof -
  let ?g = "DigestOf (rt_uuid rt) (projection cmd)"
  have "submit_spec (rt_uuid rt) cmd ?g (w_db st) r (w_db st')
      \<or> submit_spec (rt_uuid rt) cmd ?g (w_db st') r (w_db st')"
    using SubmitWagerTransaction_refines [OF u run] by blast
  moreover have False if s: "submit_spec (rt_uuid rt) cmd ?g (w_db st') r (w_db st')"
    using s
  proof cases
    case (spec_fresh tid now w d1 t')
    have "length (db_transactions d1) = length (db_transactions (w_db st'))"
      using settles_columns(2) [OF spec_fresh(6)] by (metis length_map)
    then show False using insert_transaction_Inr [OF spec_fresh(5)] by simp
  qed (use new in \<open>simp add: resultOf_def\<close>)
  ultimately have "submit_spec (rt_uuid rt) cmd ?g (w_db st) r (w_db st')" by blast
  then show ?thesis
  proof cases
    case (spec_fresh tid now w d1 t')
    then show ?thesis using that by blast
  qed (use new in \<open>simp add: resultOf_def\<close>)
qed

definition balance_of :: "wallet_id \<Rightarrow> db \<Rightarrow> int64 option" where
  "balance_of i d = map_option wlr_balance (find (\<lambda>r. wlr_id r = i) (db_wallets d))"

lemma balance_of_wallet_at:
  "uuid_lib_ok u \<Longrightarrow> wallet_at u d i w \<Longrightarrow> balance_of i d = Some (minorUnits (wal_balance w))"
  by (auto simp: wallet_at_def balance_of_def rehydrateWallet_Inr_iff wallet_to_row_def)

lemma balance_of_with_balance:
  "balance_of i d \<noteq> None \<Longrightarrow> db_wallets d' = map (with_balance i w) (db_wallets d) \<Longrightarrow>
     balance_of i d' = Some (minorUnits (wal_balance w))
     \<and> (\<forall>j. j \<noteq> i \<longrightarrow> balance_of j d' = balance_of j d)"
proof -
  assume b: "balance_of i d \<noteq> None" and d': "db_wallets d' = map (with_balance i w) (db_wallets d)"
  have f: "find (\<lambda>r. wlr_id r = j) (map (with_balance i w) xs)
      = map_option (with_balance i w) (find (\<lambda>r. wlr_id r = j) xs)" for j xs
    by (induction xs) (auto simp: with_balance_def)
  have id: "find (\<lambda>r. wlr_id r = j) xs = Some x \<Longrightarrow> wlr_id x = j" for j xs x
    by (induction xs) (auto split: if_splits)
  obtain x where x: "find (\<lambda>r. wlr_id r = i) (db_wallets d) = Some x" using b by (auto simp: balance_of_def)
  have "balance_of j d' = balance_of j d" if "j \<noteq> i" for j
  proof (cases "find (\<lambda>r. wlr_id r = j) (db_wallets d)")
    case (Some y)
    then have "with_balance i w y = y" using id [OF Some] that by (simp add: with_balance_def)
    then show ?thesis using Some by (simp add: balance_of_def d' f)
  qed (simp add: balance_of_def d' f)
  moreover have "balance_of i d' = Some (minorUnits (wal_balance w))"
    using x id [OF x] by (simp add: balance_of_def d' f with_balance_def)
  ultimately show ?thesis by blast
qed

lemma submit_effect:
  assumes u: "uuid_lib_ok (rt_uuid rt)" and run: "SubmitWagerTransaction rt cmd st = (Inr r, st')"
    and new: "\<not> wr_IdempotentReplay r"
  shows "\<exists>es. db_ledger (w_db st') = db_ledger (w_db st) @ es
    \<and> length es = of_bool (wr_State r = StateProcessed \<and> sc_Kind cmd \<noteq> KindLoss)
    \<and> (\<forall>e \<in> set es. lgr_walletId e = sc_WalletID cmd \<and> lgr_transactionId e = wr_TransactionID r
          \<and> lgr_amount e = minorUnits (sc_Amount cmd))
    \<and> (\<forall>i. map_option sint (balance_of i (w_db st')) = map_option (\<lambda>b. sint b
          + (if i = sc_WalletID cmd then sum_list (map signed_amount es) else 0)) (balance_of i (w_db st)))
    \<and> (wr_State r = StatePendingReference
       \<or> balance_of (sc_WalletID cmd) (w_db st') = Some (minorUnits (wr_ObservedBalance r)))"
proof -
  from submit_fresh [OF assms] obtain tid now w d1 t' where
    i: "insert_transaction (wager_to_row (external_wager
       (params_of cmd tid DigestVersion (DigestOf (rt_uuid rt) (projection cmd)) now))) (w_db st) = Inr ((), d1)"
    and s: "settles (rt_uuid rt) d1 (external_wager
       (params_of cmd tid DigestVersion (DigestOf (rt_uuid rt) (projection cmd)) now)) t' (w_db st')"
    and r: "r = resultOf t' False" .
  have d1: "db_ledger d1 = db_ledger (w_db st)" "db_wallets d1 = db_wallets (w_db st)"
    using insert_transaction_Inr [OF i] by simp_all
  have b1: "balance_of j d1 = balance_of j (w_db st)" for j using d1 by (simp add: balance_of_def)
  have R: "wr_State r = tx_state t'" "wr_ObservedBalance r = tx_observedBalance t'" "wr_TransactionID r = tx_id t'"
    by (simp_all add: r resultOf_def)
  have st: "StatePendingReference \<noteq> StateProcessed" "StateRejected \<noteq> StateProcessed" "StateFailed \<noteq> StateProcessed"
    by simp_all
  consider (wait) "tx_state t' = StatePendingReference" "no_movement d1 (w_db st')"
    | (still) v where "tx_state t' = StateRejected \<or> tx_state t' = StateFailed
        \<or> tx_state t' = StateProcessed \<and> sc_Kind cmd = KindLoss" "no_movement d1 (w_db st')"
        "wallet_at (rt_uuid rt) d1 (sc_WalletID cmd) v" "tx_observedBalance t' = wal_balance v"
    | (moved) v v' e where "tx_state t' = StateProcessed" "sc_Kind cmd \<noteq> KindLoss"
        "wallet_at (rt_uuid rt) d1 (sc_WalletID cmd) v" "tx_observedBalance t' = wal_balance v'"
        "db_wallets (w_db st') = map (with_balance (sc_WalletID cmd) v') (db_wallets d1)"
        "bal v' = bal v + signed_amount e" "db_ledger (w_db st') = db_ledger d1 @ [e]"
        "lgr_walletId e = sc_WalletID cmd" "lgr_transactionId e = tid" "lgr_amount e = minorUnits (sc_Amount cmd)"
    using settles_effect [OF u s, unfolded external_wager_fields] by blast
  then show ?thesis
  proof cases
    case wait
    note a = wait
    have "balance_of j (w_db st') = balance_of j d1" for j using a(2) by (simp add: balance_of_def no_movement_def)
    then show ?thesis
      using a d1 b1 R st by (intro exI [of _ "[]"]) (simp add: no_movement_def option.map_ident)
  next
    case (still v)
    note a = still(1) and n = still(2) and v = still(3,4)
    have "balance_of j (w_db st') = balance_of j d1" for j using n by (simp add: balance_of_def no_movement_def)
    then show ?thesis
      using a n d1 b1 R st balance_of_wallet_at [OF u v(1)] v(2)
      by (intro exI [of _ "[]"]) (auto simp add: no_movement_def option.map_ident)
  next
    case (moved v v' e)
    note a = moved(1,2) and v = moved(3-6) and e = moved(7-10)
    note B = balance_of_wallet_at [OF u v(1)]
    have "balance_of (sc_WalletID cmd) (w_db st') = Some (minorUnits (wal_balance v'))
        \<and> (\<forall>j. j \<noteq> sc_WalletID cmd \<longrightarrow> balance_of j (w_db st') = balance_of j d1)"
      by (rule balance_of_with_balance [OF _ v(3)]) (simp add: B)
    then show ?thesis
      using a e v B d1 b1 R settles_id [OF s]
      by (intro exI [of _ "[e]"]) (auto simp add: option.map_ident)
  qed
qed

section \<open>Deliveries\<close>

lemma service_same_uuid: "(service_step u)\<^sup>*\<^sup>* d d' \<Longrightarrow> uuid_lib_ok u \<Longrightarrow> fin_reach u d \<Longrightarrow>
   (fin_step u)\<^sup>*\<^sup>* d d' \<and> fin_reach u d'"
  using service_steps_fin by blast

lemma delivery_repeats:
  assumes u: "uuid_lib_ok (rt_uuid rt)" and k: "delivery_key dl \<in> inbox_keys (w_db st)"
    and run: "SubmitWagerFromInbox rt cmd dl st = (res, st')"
  shows "w_db st' = w_db st \<and> (case res of Inl e \<Rightarrow> True | Inr (r, duplicate) \<Rightarrow> duplicate)"
proof -
  note S = SubmitWagerFromInbox_refines [OF u run]
  have n: "\<not> inbox_spec (rt_uuid rt) cmd dl g (w_db st) r d'" for g r d' using inbox_spec_key(1) k by blast
  then show ?thesis using S by (auto split: sum.splits prod.splits)
qed

lemma delivery_registers:
  assumes u: "uuid_lib_ok (rt_uuid rt)" and run: "SubmitWagerFromInbox rt cmd dl st = (Inr (r, dup), st')"
  shows "delivery_key dl \<in> inbox_keys (w_db st')"
  using SubmitWagerFromInbox_refines [OF u run] inbox_spec_key(2) by (cases dup) blast+

section \<open>Recoveries\<close>

lemma resolve_effect:
  assumes u: "uuid_lib_ok (rt_uuid rt)" and run: "ResolvePendingReference rt cmd st = (Inr r, st')"
  shows "wr_TransactionID r = rcm_TransactionID cmd
    \<and> (\<exists>t. tx_at (rt_uuid rt) (w_db st) t \<and> tx_id t = rcm_TransactionID cmd
        \<and> (wager_IsTerminal t \<and> w_db st' = w_db st \<and> r = resultOf t False
           \<or> tx_state t = StatePendingReference \<and> wr_State r = StatePendingReference
              \<and> no_movement (w_db st) (w_db st')
           \<or> tx_state t = StatePendingReference \<and> State_IsTerminal (wr_State r)
              \<and> (wr_State r \<noteq> StateProcessed \<or> tx_kind t = KindLoss \<longleftrightarrow> db_ledger (w_db st') = db_ledger (w_db st))
              \<and> balance_of (tx_walletID t) (w_db st') = Some (minorUnits (wr_ObservedBalance r))))"
proof -
  have "resolve_spec (rt_uuid rt) (rcm_TransactionID cmd) (w_db st) r (w_db st')"
    using ResolvePendingReference_refines [OF u run] by blast
  then show ?thesis
  proof cases
    case (resolve_final t)
    then show ?thesis by (auto simp: resultOf_def)
  next
    case (resolve_later t now n)
    have "no_movement (w_db st) (w_db st')"
      using update_transactions_Inr [OF resolve_later(6)] by (simp add: no_movement_def)
    then show ?thesis using resolve_later by (auto simp: resultOf_def)
  next
    case (resolve_settled t t')
    have R: "wr_State r = tx_state t'" "wr_ObservedBalance r = tx_observedBalance t'" "wr_TransactionID r = tx_id t"
      using settles_id [OF resolve_settled(5)] by (simp_all add: resolve_settled(1) resultOf_def)
    have bal_same: "no_movement (w_db st) (w_db st') \<Longrightarrow> balance_of j (w_db st') = balance_of j (w_db st)" for j
      by (simp add: balance_of_def no_movement_def)
    consider (wait) "tx_state t' = StatePendingReference" "no_movement (w_db st) (w_db st')"
      | (still) v where "tx_state t' = StateRejected \<or> tx_state t' = StateFailed
          \<or> tx_state t' = StateProcessed \<and> tx_kind t = KindLoss" "no_movement (w_db st) (w_db st')"
          "wallet_at (rt_uuid rt) (w_db st) (tx_walletID t) v" "tx_observedBalance t' = wal_balance v"
      | (moved) v v' e where "tx_state t' = StateProcessed" "tx_kind t \<noteq> KindLoss"
          "wallet_at (rt_uuid rt) (w_db st) (tx_walletID t) v" "tx_observedBalance t' = wal_balance v'"
          "db_wallets (w_db st') = map (with_balance (tx_walletID t) v') (db_wallets (w_db st))"
          "db_ledger (w_db st') = db_ledger (w_db st) @ [e]"
      using settles_effect [OF u resolve_settled(5)] by blast
    then show ?thesis
    proof cases
      case wait
      then show ?thesis using resolve_settled R by auto
    next
      case (still v)
      have "State_IsTerminal (wr_State r)" using still(1) R by (auto simp: State_IsTerminal_def)
      moreover have "balance_of (tx_walletID t) (w_db st') = Some (minorUnits (wr_ObservedBalance r))"
        using balance_of_wallet_at [OF u still(3)] still(4) bal_same [OF still(2)] R by simp
      moreover have "db_ledger (w_db st') = db_ledger (w_db st)" using still(2) by (simp add: no_movement_def)
      ultimately show ?thesis using resolve_settled R still(1) by auto
    next
      case (moved v v' e)
      note B = balance_of_wallet_at [OF u moved(3)]
      have "balance_of (tx_walletID t) (w_db st') = Some (minorUnits (wr_ObservedBalance r))"
        using balance_of_with_balance [OF _ moved(5)] B moved(4) R by simp
      moreover have "State_IsTerminal (wr_State r)" using moved(1) R by (auto simp: State_IsTerminal_def)
      ultimately show ?thesis using resolve_settled R moved by auto
    qed
  qed
qed

lemma count_distinct_key:
  "distinct (map f xs) \<Longrightarrow> length (filter (\<lambda>x. f x = k) xs) = of_bool (k \<in> set (map f xs))"
proof (induction xs)
  case (Cons x xs)
  then show ?case by (cases "f x = k") (auto simp: filter_empty_conv)
qed simp

section \<open>A sample history\<close>

definition after_bet :: world where
  "after_bet = snd (SubmitWagerTransaction later_runtime sample_bet (sample_world sample_opened))"

lemma sample_bet_runs:
  obtains r where "SubmitWagerTransaction later_runtime sample_bet (sample_world sample_opened) = (Inr r, after_bet)"
    "\<not> wr_IdempotentReplay r" "wr_State r = StateProcessed" "amt (wr_ObservedBalance r) = 700"
proof -
  have n: "\<forall>r \<in> set (db_transactions sample_opened). txr_providerId r = None" by code_simp
  have v: "SubmitWagerCommand_Validate sample_bet = Inr ()" by code_simp
  have i: "fin_inv sample_opened" using service_reach_inv(1) [OF dec_uuid_lib_ok sample_reach(2)] .
  have "\<exists>r st'. SubmitWagerTransaction later_runtime sample_bet (sample_world sample_opened) = (Inr r, st')
     \<and> \<not> wr_IdempotentReplay r \<and> wr_State r = StateProcessed \<and> amt (wr_ObservedBalance r) = 700"
    using SubmitWagerTransaction_bet [of later_runtime "sample_world sample_opened" sample_bet]
      sample_healthy sample_fresh(2) dec_uuid_lib_ok sample_wallet sample_world_db n v i
    by (fastforce simp: sample_bet_def bet_outcome_def)
  then obtain r st' where s: "SubmitWagerTransaction later_runtime sample_bet (sample_world sample_opened) = (Inr r, st')"
     "\<not> wr_IdempotentReplay r" "wr_State r = StateProcessed" "amt (wr_ObservedBalance r) = 700" by blast
  then show ?thesis using that by (simp add: after_bet_def)
qed

lemma after_bet_reach: "service_reach dec_uuid_lib (w_db after_bet)"
proof -
  have "service_step dec_uuid_lib sample_opened (w_db after_bet)"
    using service_step [OF sample_healthy(4), of "sample_world sample_opened" "Submit sample_bet"]
    by (simp add: after_bet_def sample_world_db)
  then show ?thesis using service_reach_steps [OF sample_reach(2)] by blast
qed

section \<open>Properties\<close>

text \<open>
  C1: the balance of a wallet is its ledger. In every reachable database the balance of each wallet is
  not negative and is the sum of its postings, credits less debits; the postings chain from zero to
  that balance without a gap (each one's balance before is the previous one's balance after); and the
  version is one more than the number of postings that are not the opening.
\<close>

theorem wallet_balance_is_its_ledger:
  assumes "uuid_lib_ok u" and "service_reach u d" and "x \<in> set (db_wallets d)"
  shows "0 \<le> sint (wlr_balance x)
    \<and> sint (wlr_balance x) = sum_list (map signed_amount (entries_of (wlr_id x) d))
    \<and> chain 0 (entries_of (wlr_id x) d) (sint (wlr_balance x))
    \<and> wlr_version x = 1 + word_of_nat (length
        (filter (\<lambda>e. lgr_transactionId e \<notin> opening_ids d) (entries_of (wlr_id x) d)))"
  using service_reach_inv(1) [OF assms(1,2)] assms(3) chain_sum [of 0]
  by (auto simp: fin_inv_def balance_inv_def)

theorem wallet_balance_is_its_ledger_witness:
  "sint (wlr_balance (hd (db_wallets sample_opened)))
     = sum_list (map signed_amount (entries_of (wlr_id (hd (db_wallets sample_opened))) sample_opened))
   \<and> length (entries_of (wlr_id (hd (db_wallets sample_opened))) sample_opened) = 1"
proof -
  have "hd (db_wallets sample_opened) \<in> set (db_wallets sample_opened)"
    "length (entries_of (wlr_id (hd (db_wallets sample_opened))) sample_opened) = 1" by code_simp+
  then show ?thesis using wallet_balance_is_its_ledger [OF dec_uuid_lib_ok sample_reach(2)] by blast
qed

text \<open>
  C4: a transaction posts exactly when it is processed. In every reachable database a transaction has
  one posting when its state is PROCESSED and its kind is not LOSS, and none otherwise; the posting is
  on its wallet, of its amount, a debit for a BET and a credit for an OPENING, a WIN and a REFUND.
\<close>

theorem transaction_posts_when_processed:
  assumes "uuid_lib_ok u" and "service_reach u d" and "r \<in> set (db_transactions d)"
  shows "length (filter (\<lambda>e. lgr_transactionId e = txr_id r) (db_ledger d))
      = of_bool (txr_state r = StateProcessed \<and> txr_kind r \<noteq> KindLoss)
    \<and> (\<forall>e \<in> set (db_ledger d). lgr_transactionId e = txr_id r \<longrightarrow>
        lgr_walletId e = txr_walletId r \<and> lgr_amount e = txr_amount r \<and> 0 < sint (lgr_amount e)
        \<and> (txr_kind r = KindBet \<longrightarrow> lgr_direction e = DirectionDebit)
        \<and> (txr_kind r \<in> {KindOpening, KindWin, KindRefund} \<longrightarrow> lgr_direction e = DirectionCredit))"
proof -
  have inv: "fin_inv d" using service_reach_inv(1) [OF assms(1,2)] .
  then have p: "set (map lgr_transactionId (db_ledger d)) = txr_id ` {r \<in> set (db_transactions d). posts r}"
    and k: "distinct (map lgr_transactionId (db_ledger d))" "distinct (map txr_id (db_transactions d))"
    by (simp_all add: fin_inv_def postings_inv_def keys_inv_def)
  have "txr_id r \<in> set (map lgr_transactionId (db_ledger d)) \<longleftrightarrow> posts r"
    unfolding p using assms(3) distinct_map_eq [OF k(2) assms(3)] by blast
  then have "length (filter (\<lambda>e. lgr_transactionId e = txr_id r) (db_ledger d)) = of_bool (posts r)"
    using count_distinct_key [OF k(1), of "txr_id r"] by simp
  then show ?thesis using inv assms(3) by (simp add: posts_def fin_inv_def postings_inv_def)
qed

theorem transaction_posts_when_processed_witness:
  "length (filter (\<lambda>e. lgr_transactionId e = txr_id (hd (db_transactions sample_opened))) (db_ledger sample_opened)) = 1"
proof -
  have "hd (db_transactions sample_opened) \<in> set (db_transactions sample_opened)"
    "txr_state (hd (db_transactions sample_opened)) = StateProcessed"
    "txr_kind (hd (db_transactions sample_opened)) \<noteq> KindLoss" by code_simp+
  then show ?thesis
    using transaction_posts_when_processed [OF dec_uuid_lib_ok sample_reach(2)] by simp
qed

definition processed_reversal :: "tx_row \<Rightarrow> bool" where
  "processed_reversal r \<longleftrightarrow> txr_state r = StateProcessed \<and> (txr_kind r = KindRefund \<or> txr_kind r = KindRollback)"

lemma reversals_claimed:
  assumes "fin_inv d" and "r \<in> set (db_transactions d)" and "processed_reversal r"
  obtains i c where "txr_referenceTransactionId r = Some i" "c \<in> set (db_claims d)"
    "clr_referenceTransactionId c = i" "clr_reversalTransactionId c = txr_id r" "compensated d i (txr_id r)"
proof -
  have cl: "claims_inv d" using assms(1) by (simp add: fin_inv_def)
  then obtain i where i: "txr_referenceTransactionId r = Some i"
    using assms(2,3) by (auto simp: claims_inv_def processed_reversal_def)
  then have "reverses r i" using assms(3) by (auto simp: reverses_def processed_reversal_def)
  then have "(i, txr_id r) \<in> set (map (\<lambda>c. (clr_referenceTransactionId c, clr_reversalTransactionId c)) (db_claims d))"
    using cl assms(2) unfolding claims_inv_def by blast
  then obtain c where "c \<in> set (db_claims d)" "clr_referenceTransactionId c = i" "clr_reversalTransactionId c = txr_id r"
    by auto
  moreover from this have "compensated d i (txr_id r)" using cl by (auto simp: claims_inv_def)
  ultimately show ?thesis using i that by blast
qed

lemma reversals_distinct:
  assumes inv: "fin_inv d"
  shows "distinct (map txr_referenceTransactionId (filter processed_reversal (db_transactions d)))"
proof -
  have k: "distinct (map clr_referenceTransactionId (db_claims d))" "distinct (map txr_id (db_transactions d))"
    using inv by (simp_all add: fin_inv_def keys_inv_def)
  have "inj_on txr_referenceTransactionId (set (filter processed_reversal (db_transactions d)))"
  proof (rule inj_onI)
    fix r r'
    assume r: "r \<in> set (filter processed_reversal (db_transactions d))"
      "r' \<in> set (filter processed_reversal (db_transactions d))"
      and e: "txr_referenceTransactionId r = txr_referenceTransactionId r'"
    from r(1) obtain i c where c: "txr_referenceTransactionId r = Some i" "c \<in> set (db_claims d)"
      "clr_referenceTransactionId c = i" "clr_reversalTransactionId c = txr_id r"
      by (auto elim: reversals_claimed [OF inv])
    from r(2) obtain i' c' where c': "txr_referenceTransactionId r' = Some i'" "c' \<in> set (db_claims d)"
      "clr_referenceTransactionId c' = i'" "clr_reversalTransactionId c' = txr_id r'"
      by (auto elim: reversals_claimed [OF inv])
    have "c = c'" using c c' e distinct_map_eq [OF k(1) c(2) c'(2)] by simp
    then have "txr_id r = txr_id r'" using c c' by simp
    then show "r = r'" using r distinct_map_eq [OF k(2)] by simp
  qed
  moreover have "distinct (filter processed_reversal (db_transactions d))"
    using k(2) by (simp add: distinct_map)
  ultimately show ?thesis by (simp add: distinct_map)
qed

text \<open>
  C3: a transaction is compensated at most once, and exactly. In every reachable database the processed
  REFUNDs and ROLLBACKs have references, all different; and each one's posting is the inverse of the
  posting of its reference: the same wallet and amount, the opposite direction.
\<close>

theorem compensated_at_most_once:
  assumes "uuid_lib_ok u" and "service_reach u d"
  shows "distinct (map txr_referenceTransactionId (filter processed_reversal (db_transactions d)))
    \<and> list_all (\<lambda>r. \<exists>i. txr_referenceTransactionId r = Some i \<and> compensated d i (txr_id r))
        (filter processed_reversal (db_transactions d))"
proof -
  have inv: "fin_inv d" using service_reach_inv(1) [OF assms] .
  then show ?thesis
    using reversals_distinct by (auto simp: list_all_iff elim: reversals_claimed [OF inv])
qed

text \<open>The history of the bet 200: the refund 204 is its one processed reversal, and its posting is the inverse.\<close>

theorem compensated_at_most_once_witness:
  "\<exists>r. filter processed_reversal (db_transactions (w_db after_undone)) = [r] \<and> txr_kind r = KindRefund
     \<and> txr_referenceTransactionId r = Some 200 \<and> compensated (w_db after_undone) 200 204"
proof -
  obtain a b r c where rows: "db_transactions (w_db after_undone) = [a, b, r, c]"
    and k: "txr_kind a = KindOpening" "txr_kind b = KindBet" "txr_kind r = KindRefund" "txr_state r = StateProcessed"
      "txr_state c = StateRejected" "txr_id r = 204" "txr_referenceTransactionId r = Some 200"
    using history_rows by (auto simp: map_eq_Cons_conv)
  have f: "filter processed_reversal (db_transactions (w_db after_undone)) = [r]"
    using k by (simp add: rows processed_reversal_def)
  then show ?thesis
    using compensated_at_most_once [OF dec_uuid_lib_ok history_reach] k by auto
qed

text \<open>
  C7: the outbox is complete. In every reachable database event identities are unique, and for every
  wallet there are as many WalletBalanceChanged events as postings, as many WagerTransactionProcessed
  events as transactions in the state PROCESSED, and as many WagerTransactionRejected events as
  transactions in the state REJECTED.
\<close>

theorem outbox_matches_books:
  assumes "uuid_lib_ok u" and "service_reach u d"
  shows "distinct (map obr_eventId (db_outbox d))
    \<and> events_of u TypeWalletBalanceChanged i d = length (entries_of i d)
    \<and> events_of u TypeWagerTransactionProcessed i d = in_state StateProcessed i d
    \<and> events_of u TypeWagerTransactionRejected i d = in_state StateRejected i d"
  using service_reach_inv(2) [OF assms] by (simp add: events_inv_def)

theorem outbox_matches_books_witness:
  "events_of dec_uuid_lib TypeWalletBalanceChanged 100 sample_opened = length (entries_of 100 sample_opened)"
  using outbox_matches_books [OF dec_uuid_lib_ok sample_reach(2)] by blast

text \<open>
  C2: a submission takes effect once. After a run of \<open>SubmitWagerTransaction\<close> that returned a result,
  and after whatever the service did since, another run with the same provider and idempotency key
  leaves the database as it is, however it ends; and a result of it names the same transaction, is
  marked as a replay and is given only for a command with the same digest (otherwise it is an error).
\<close>

theorem submission_takes_effect_once:
  assumes "uuid_lib_ok (rt_uuid rt)" and "rt_uuid rt2 = rt_uuid rt"
    and "service_reach (rt_uuid rt) (w_db st)"
    and "SubmitWagerTransaction rt cmd st = (Inr r, st1)"
    and "(service_step (rt_uuid rt))\<^sup>*\<^sup>* (w_db st1) (w_db st2)"
    and "sc_ProviderID cmd2 = sc_ProviderID cmd" and "sc_IdempotencyKey cmd2 = sc_IdempotencyKey cmd"
    and "SubmitWagerTransaction rt2 cmd2 st2 = (res, st3)"
  shows "w_db st3 = w_db st2
    \<and> (case res of Inl e \<Rightarrow> True
       | Inr r2 \<Rightarrow> wr_TransactionID r2 = wr_TransactionID r \<and> wr_IdempotentReplay r2
           \<and> DigestOf (rt_uuid rt) (projection cmd2) = DigestOf (rt_uuid rt) (projection cmd))"
proof -
  have "service_step (rt_uuid rt) (w_db st) (w_db st1)"
    using service_step [of rt "rt_uuid rt" st "Submit cmd"] assms(4) by simp
  then have r1: "service_reach (rt_uuid rt) (w_db st1)"
    using service_reach_steps [OF assms(3)] by blast
  note F = service_steps_fin [OF assms(1,5) service_fin_reach [OF assms(1) r1]]
  have "stored (w_db st2) (wr_TransactionID r) (sc_ProviderID cmd2) (sc_IdempotencyKey cmd2)
      (DigestOf (rt_uuid rt) (projection cmd))"
    using stored_later [OF submit_stores [OF assms(1,4)]] F assms(6,7) by metis
  from submit_repeats [of rt2 st2 cmd2 res st3, unfolded assms(2), OF assms(1) conjunct2 [OF F] assms(8) this]
  show ?thesis .
qed

theorem submission_takes_effect_once_witness:
  "w_db (snd (SubmitWagerTransaction later_runtime sample_bet after_bet)) = w_db after_bet"
proof -
  obtain r where r: "SubmitWagerTransaction later_runtime sample_bet (sample_world sample_opened) = (Inr r, after_bet)"
    by (rule sample_bet_runs)
  obtain res st where s: "SubmitWagerTransaction later_runtime sample_bet after_bet = (res, st)"
    by (cases "SubmitWagerTransaction later_runtime sample_bet after_bet")
  show ?thesis
    using submission_takes_effect_once [OF _ refl _ r rtranclp.rtrancl_refl refl refl s] s
      sample_healthy(4) dec_uuid_lib_ok sample_reach(2) by (simp add: sample_world_db)
qed


definition sample_delivery :: inbox_delivery where
  "sample_delivery =
     \<lparr>dl_ConsumerName = ''wagers'', dl_MessageID = ''m-1'',
      dl_Digest = concat (replicate 8 ''01234567''), dl_ReceivedAt = 9\<rparr>"

definition after_delivery :: world where
  "after_delivery = snd (SubmitWagerFromInbox later_runtime sample_bet sample_delivery (sample_world sample_opened))"

lemma sample_delivery_runs:
  obtains r where "SubmitWagerFromInbox later_runtime sample_bet sample_delivery (sample_world sample_opened)
      = (Inr (r, False), after_delivery)"
proof -
  have c: "\<forall>r \<in> set (db_transactions sample_opened). txr_providerId r = None"
    "SubmitWagerCommand_Validate sample_bet = Inr ()" "InboxDelivery_Validate sample_delivery = Inr ()"
    "hex64 (dl_Digest sample_delivery)" "db_inbox sample_opened = []"
    "fresh_ids later_runtime (sample_world sample_opened) 6" by code_simp+
  have i: "fin_inv sample_opened" using service_reach_inv(1) [OF dec_uuid_lib_ok sample_reach(2)] .
  have "\<exists>r st'. SubmitWagerFromInbox later_runtime sample_bet sample_delivery (sample_world sample_opened)
      = (Inr (r, False), st')"
    using SubmitWagerFromInbox_bet [of later_runtime "sample_world sample_opened" sample_bet sample_delivery]
      sample_healthy dec_uuid_lib_ok sample_wallet sample_world_db c i
    by (fastforce simp: sample_bet_def inbox_keys_def message_keys_def)
  then show ?thesis using that by (auto simp: after_delivery_def)
qed


text \<open>
  C5: a use case that fails leaves no trace. Unless an acknowledgement of a commit is lost, a run of
  \<open>OpenWallet\<close>, \<open>SubmitWagerTransaction\<close>, \<open>SubmitWagerFromInbox\<close> or \<open>ResolvePendingReference\<close> that returns
  an error has not changed the database, whatever failed and wherever.
\<close>

theorem failure_leaves_no_trace:
  assumes "commits_known rt"
  shows "(is_ok (fst (OpenWallet rt oc w)) \<or> w_db (snd (OpenWallet rt oc w)) = w_db w)
    \<and> (is_ok (fst (SubmitWagerTransaction rt sc w)) \<or> w_db (snd (SubmitWagerTransaction rt sc w)) = w_db w)
    \<and> (is_ok (fst (SubmitWagerFromInbox rt sc dl w)) \<or> w_db (snd (SubmitWagerFromInbox rt sc dl w)) = w_db w)
    \<and> (is_ok (fst (ResolvePendingReference rt rc w)) \<or> w_db (snd (ResolvePendingReference rt rc w)) = w_db w)"
proof -
  have f: "is_ok (fst p) \<or> w_db (snd p) = w_db w" if p: "\<And>e w'. p = (Inl e, w') \<Longrightarrow> w_db w' = w_db w"
    for p :: "(app_error + 'a) \<times> world"
  proof (cases p)
    case (Pair x v)
    show ?thesis using p [of _ v] Pair by (cases x) (simp_all add: is_ok_iff)
  qed
  have "is_ok (fst (OpenWallet rt oc w)) \<or> w_db (snd (OpenWallet rt oc w)) = w_db w"
    by (rule f) (rule OpenWallet_atomic [OF assms])
  moreover have "is_ok (fst (SubmitWagerTransaction rt sc w)) \<or> w_db (snd (SubmitWagerTransaction rt sc w)) = w_db w"
    by (rule f) (rule SubmitWagerTransaction_atomic [OF assms])
  moreover have "is_ok (fst (SubmitWagerFromInbox rt sc dl w)) \<or> w_db (snd (SubmitWagerFromInbox rt sc dl w)) = w_db w"
    by (rule f) (rule SubmitWagerFromInbox_atomic [OF assms])
  moreover have "is_ok (fst (ResolvePendingReference rt rc w)) \<or> w_db (snd (ResolvePendingReference rt rc w)) = w_db w"
    by (rule f) (rule ResolvePendingReference_atomic [OF assms])
  ultimately show ?thesis by blast
qed

text \<open>The fifth driver call of the opening fails: the postings before it are rolled back.\<close>

definition failing_runtime :: runtime where
  "failing_runtime = sample_runtime\<lparr>rt_fault := \<lambda>n. if n = 4 then Some DriverError else None\<rparr>"

theorem failure_leaves_no_trace_witness:
  "\<not> is_ok (fst (OpenWallet failing_runtime sample_open (sample_world db_empty)))
   \<and> w_db (snd (OpenWallet failing_runtime sample_open (sample_world db_empty))) = db_empty"
proof -
  have "\<not> is_ok (fst (OpenWallet failing_runtime sample_open (sample_world db_empty)))" by code_simp
  moreover have "commits_known failing_runtime"
    by (simp add: commits_known_def failing_runtime_def sample_runtime_def)
  ultimately show ?thesis
    using failure_leaves_no_trace [of failing_runtime sample_open "sample_world db_empty"]
    by (simp add: sample_world_db)
qed

text \<open>
  C8: what a fresh submission does to the books. When the result is not a replay, the ledger grows by
  one posting if the transaction is PROCESSED and not a LOSS, and by none otherwise; the posting is on
  the wallet of the command, of the amount of the command; the balance of that wallet changes by the
  posting and no other balance changes; and unless the transaction waits for its reference, the
  observed balance that is returned is the balance of the wallet afterwards.
\<close>

theorem fresh_submission_effect:
  assumes "uuid_lib_ok (rt_uuid rt)" and "SubmitWagerTransaction rt cmd st = (Inr r, st')"
    and "\<not> wr_IdempotentReplay r"
  shows "\<exists>es. db_ledger (w_db st') = db_ledger (w_db st) @ es
    \<and> length es = of_bool (wr_State r = StateProcessed \<and> sc_Kind cmd \<noteq> KindLoss)
    \<and> (\<forall>e \<in> set es. lgr_walletId e = sc_WalletID cmd \<and> lgr_transactionId e = wr_TransactionID r
          \<and> lgr_amount e = minorUnits (sc_Amount cmd))
    \<and> (\<forall>i. map_option sint (balance_of i (w_db st')) = map_option (\<lambda>b. sint b
          + (if i = sc_WalletID cmd then sum_list (map signed_amount es) else 0)) (balance_of i (w_db st)))
    \<and> (wr_State r = StatePendingReference
       \<or> balance_of (sc_WalletID cmd) (w_db st') = Some (minorUnits (wr_ObservedBalance r)))"
  by (rule submit_effect [OF assms])

theorem fresh_submission_effect_witness:
  "\<exists>e. db_ledger (w_db after_bet) = db_ledger sample_opened @ [e] \<and> lgr_walletId e = 100 \<and> lgr_amount e = 300"
proof -
  obtain r where r: "SubmitWagerTransaction later_runtime sample_bet (sample_world sample_opened) = (Inr r, after_bet)"
    "\<not> wr_IdempotentReplay r" "wr_State r = StateProcessed" by (rule sample_bet_runs)
  obtain es where es: "db_ledger (w_db after_bet) = db_ledger sample_opened @ es" "length es = 1"
    "\<forall>e \<in> set es. lgr_walletId e = 100 \<and> lgr_amount e = 300"
    using fresh_submission_effect [OF _ r(1,2)] r(3) sample_healthy(4) dec_uuid_lib_ok
    by (auto simp: sample_world_db sample_bet_def)
  then show ?thesis by (auto simp: length_Suc_conv)
qed

text \<open>
  C9: what a recovery does. A result of \<open>ResolvePendingReference\<close> is about the transaction asked for. A
  final one is returned as it is and nothing changes; otherwise it was waiting for its reference, and
  either it waits on, and no wallet, posting or claim changes, or it is now final: then a posting is
  written exactly when it is PROCESSED and not a LOSS, and the observed balance is that of its wallet.
\<close>

theorem recovery_effect:
  assumes "uuid_lib_ok (rt_uuid rt)" and "ResolvePendingReference rt cmd st = (Inr r, st')"
  shows "wr_TransactionID r = rcm_TransactionID cmd
    \<and> (\<exists>t. tx_at (rt_uuid rt) (w_db st) t \<and> tx_id t = rcm_TransactionID cmd
        \<and> (wager_IsTerminal t \<and> w_db st' = w_db st \<and> r = resultOf t False
           \<or> tx_state t = StatePendingReference \<and> wr_State r = StatePendingReference
              \<and> no_movement (w_db st) (w_db st')
           \<or> tx_state t = StatePendingReference \<and> State_IsTerminal (wr_State r)
              \<and> (wr_State r \<noteq> StateProcessed \<or> tx_kind t = KindLoss \<longleftrightarrow> db_ledger (w_db st') = db_ledger (w_db st))
              \<and> balance_of (tx_walletID t) (w_db st') = Some (minorUnits (wr_ObservedBalance r))))"
  by (rule resolve_effect [OF assms])

text \<open>A WIN that waits for its bet, with a deadline at 1500.\<close>

definition waiting_row :: tx_row where
  "waiting_row =
     \<lparr>txr_id = 150, txr_origin = OriginExternal, txr_kind = KindWin, txr_state = StatePendingReference,
      txr_providerId = Some ''acme'', txr_externalTransactionId = Some ''win-1'', txr_idempotencyKey = Some ''key-2'',
      txr_digestVersion = Some DigestVersion, txr_digest = Some (concat (replicate 8 ''01234567'')),
      txr_walletId = 100, txr_playerId = 2, txr_roundId = Some ''r1'', txr_gameId = Some ''g1'',
      txr_amount = 700, txr_currency = ''BRL'', txr_referenceExternalTransactionId = Some ''bet-9'',
      txr_referenceTransactionId = None, txr_failureCode = None, txr_observedBalance = None,
      txr_referenceDeadline = Some 1500, txr_nextAttemptAt = Some 1100, txr_referenceAttempts = 0,
      txr_claimedUntil = None, txr_createdAt = 1000, txr_updatedAt = 1000\<rparr>"

definition waiting_db :: db where
  "waiting_db = sample_opened\<lparr>db_transactions := db_transactions sample_opened @ [waiting_row]\<rparr>"

definition late_runtime :: runtime where
  "late_runtime = later_runtime\<lparr>rt_Now := \<lambda>n. 1500 + int n\<rparr>"

definition sample_recovery :: resolve_command where
  "sample_recovery = \<lparr>rcm_TransactionID = 150, rcm_CorrelationID = ''c''\<rparr>"

text \<open>At the deadline it is rejected.\<close>

lemma sample_recoveries:
  "case ResolvePendingReference late_runtime sample_recovery (sample_world waiting_db) of
     (Inl e, st) \<Rightarrow> False
   | (Inr r, st) \<Rightarrow> wr_State r = StateRejected \<and> wr_FailureCode r = FailureReferenceNotFound
       \<and> map txr_state (db_transactions (w_db st)) = [StateProcessed, StateRejected]"
  by code_simp

lemma waiting_states: "map txr_state (db_transactions waiting_db) = [StateProcessed, StatePendingReference]"
  by code_simp

theorem recovery_effect_witness:
  "\<exists>r st. ResolvePendingReference late_runtime sample_recovery (sample_world waiting_db) = (Inr r, st)
     \<and> wr_TransactionID r = 150 \<and> wr_FailureCode r = FailureReferenceNotFound
     \<and> db_ledger (w_db st) = db_ledger waiting_db
     \<and> (\<exists>i. balance_of i (w_db st) = Some (minorUnits (wr_ObservedBalance r)))"
proof -
  obtain x st where x: "ResolvePendingReference late_runtime sample_recovery (sample_world waiting_db) = (x, st)"
    by (cases "ResolvePendingReference late_runtime sample_recovery (sample_world waiting_db)")
  then obtain r where r: "x = Inr r" "wr_State r = StateRejected" "wr_FailureCode r = FailureReferenceNotFound"
    "map txr_state (db_transactions (w_db st)) = [StateProcessed, StateRejected]"
    using sample_recoveries by (cases x) auto
  have "w_db st \<noteq> waiting_db" using r(4) waiting_states by force
  have u: "rt_uuid late_runtime = dec_uuid_lib" by (simp add: late_runtime_def sample_healthy)
  have T: "wr_TransactionID r = rcm_TransactionID sample_recovery"
    "db_ledger (w_db st) = db_ledger waiting_db \<and> (\<exists>i. balance_of i (w_db st) = Some (minorUnits (wr_ObservedBalance r)))"
    using \<open>w_db st \<noteq> waiting_db\<close> recovery_effect [OF _ x [unfolded r(1)], unfolded u, OF dec_uuid_lib_ok] r(2)
    by (auto simp: sample_world_db resultOf_def)
  then show ?thesis using x r by (auto simp add: sample_recovery_def)
qed

text \<open>
  C10: the service refines its specification. Whatever sequence of use cases, worker and publisher
  passes the service performs from a reachable database, with whatever faults, the database goes
  through steps of the abstract relation \<open>fin_step\<close>: openings, submissions settled in the same step,
  recoveries of waiting transactions, and changes of schedules and deliveries only.
\<close>

theorem service_refines_fin_step:
  assumes "uuid_lib_ok u" and "service_reach u d" and "(service_step u)\<^sup>*\<^sup>* d d'"
  shows "(fin_step u)\<^sup>*\<^sup>* d d' \<and> fin_reach u d'"
  using service_steps_fin [OF assms(1,3) service_fin_reach [OF assms(1,2)]] .

theorem service_refines_fin_step_witness: "(fin_step dec_uuid_lib)\<^sup>*\<^sup>* db_empty (w_db after_bet)"
proof -
  have "(service_step dec_uuid_lib)\<^sup>*\<^sup>* db_empty (w_db after_bet)"
    using after_bet_reach by (simp add: service_reach_def)
  then show ?thesis using service_refines_fin_step [OF dec_uuid_lib_ok sample_reach(1)] by blast
qed

text \<open>
  C11: the outcome of a submission. However the attempts, the faults and the acknowledgements fall out,
  a run of \<open>SubmitWagerTransaction\<close> changes the database not at all or by one \<open>submit_spec\<close>, and what it
  returns is the result of a \<open>submit_spec\<close> on the database before or on the one after.
\<close>

theorem submission_refines_spec:
  assumes "uuid_lib_ok (rt_uuid rt)" and "SubmitWagerTransaction rt cmd st = (res, st')"
  shows "(w_db st' = w_db st
      \<or> (\<exists>r. submit_spec (rt_uuid rt) cmd (DigestOf (rt_uuid rt) (projection cmd)) (w_db st) r (w_db st')))
    \<and> (case res of Inl e \<Rightarrow> True
       | Inr r \<Rightarrow> submit_spec (rt_uuid rt) cmd (DigestOf (rt_uuid rt) (projection cmd)) (w_db st) r (w_db st')
          \<or> submit_spec (rt_uuid rt) cmd (DigestOf (rt_uuid rt) (projection cmd)) (w_db st') r (w_db st'))"
  using SubmitWagerTransaction_refines [OF assms] by (auto split: sum.splits)

theorem submission_refines_spec_witness:
  "\<exists>r. submit_spec dec_uuid_lib sample_bet (DigestOf dec_uuid_lib (projection sample_bet)) sample_opened r (w_db after_bet)
    \<or> submit_spec dec_uuid_lib sample_bet (DigestOf dec_uuid_lib (projection sample_bet)) (w_db after_bet) r (w_db after_bet)"
proof -
  obtain r where "SubmitWagerTransaction later_runtime sample_bet (sample_world sample_opened) = (Inr r, after_bet)"
    by (rule sample_bet_runs)
  from submission_refines_spec [OF _ this] show ?thesis
    using sample_healthy(4) dec_uuid_lib_ok by (auto simp: sample_world_db)
qed

end
