(* ===== verification/Completion.thy ===== *)
theory Completion
  imports Guarantees
begin

text \<open>
  Every valid submission completes when the environment works: whatever its kind and whatever the state of its
  reference, the use case returns a result unless a credit exceeds the range of an amount. The steps of
  \<open>internal/application/service.go\<close> are followed in a calculus of programs that return: \<open>completes m st Q\<close> says that
  the step returns a value, keeps the status of the transaction and establishes \<open>Q\<close>.
\<close>

section \<open>Programs that return\<close>

definition completes :: "'a tx \<Rightarrow> world \<Rightarrow> ('a \<Rightarrow> world \<Rightarrow> bool) \<Rightarrow> bool" where
  "completes m st Q \<longleftrightarrow> (\<exists>x st'. m st = (Inr x, st') \<and> w_status st' = w_status st \<and> Q x st')"

lemma completesI: "m st = (Inr x, st') \<Longrightarrow> w_status st' = w_status st \<Longrightarrow> Q x st' \<Longrightarrow> completes m st Q"
  by (auto simp: completes_def)

lemma completesE:
  assumes "completes m st Q"
  obtains x st' where "m st = (Inr x, st')" "w_status st' = w_status st" "Q x st'"
  using assms by (auto simp: completes_def)

lemma completes_bind:
  assumes "completes m st Q" "\<And>x st'. Q x st' \<Longrightarrow> w_status st' = w_status st \<Longrightarrow> completes (f x) st' R"
  shows "completes (tx_bind m f) st R"
proof -
  from assms(1) obtain x st' where m: "m st = (Inr x, st')" "w_status st' = w_status st" "Q x st'" by (rule completesE)
  from assms(2) [OF m(3,2)] obtain y st'' where "f x st' = (Inr y, st'')" "w_status st'' = w_status st'" "R y st''"
    by (rule completesE)
  then show ?thesis using m by (intro completesI [of _ _ y st'']) (simp_all add: tx_bind_def)
qed

lemma completes_then:
  assumes "completes m st (\<lambda>x st'. w_status st' = w_status st \<longrightarrow> completes (f x) st' R)"
  shows "completes (tx_bind m f) st R"
  by (rule completes_bind [OF assms]) simp

lemma completes_mono: "completes m st Q \<Longrightarrow> (\<And>x st'. Q x st' \<Longrightarrow> R x st') \<Longrightarrow> completes m st R"
  by (auto simp: completes_def)

lemma completes_return: "Q x st \<Longrightarrow> completes (tx_return x) st Q"
  by (auto simp: completes_def)

lemma completes_domain_bind: "r = Inr x \<Longrightarrow> completes (f x) st Q \<Longrightarrow> completes (tx_bind (tx_domain r) f) st Q"
  by (simp add: completes_def tx_bind_def tx_domain_def)

lemma completes_lift_bind: "r = Inr x \<Longrightarrow> completes (f x) st Q \<Longrightarrow> completes (tx_bind (tx_lift r) f) st Q"
  by (simp add: completes_def tx_bind_def)

text \<open>The identities that are left, after steps that used some of them for their rows.\<close>

definition used_ids :: "db \<Rightarrow> uuid set" where
  "used_ids d = set (map wlr_id (db_wallets d)) \<union> set (map txr_id (db_transactions d))
     \<union> set (map lgr_id (db_ledger d)) \<union> set (map clr_id (db_claims d))"

definition used_events :: "db \<Rightarrow> string set" where "used_events d = set (map obr_eventId (db_outbox d))"

definition issued :: "runtime \<Rightarrow> world \<Rightarrow> world \<Rightarrow> uuid set" where
  "issued rt st st' = id_at rt ` {w_ids st ..< w_ids st'}"

definition keys_within :: "runtime \<Rightarrow> world \<Rightarrow> world \<Rightarrow> bool" where
  "keys_within rt st st' \<longleftrightarrow> w_ids st \<le> w_ids st'
     \<and> used_ids (w_db st') \<subseteq> used_ids (w_db st) \<union> issued rt st st'
     \<and> used_events (w_db st') \<subseteq> used_events (w_db st) \<union> uuid_String (rt_uuid rt) ` issued rt st st'"

lemma unused_id_alt:
  "unused_id u d i \<longleftrightarrow> i \<noteq> uuid_Nil \<and> i \<notin> used_ids d \<and> uuid_String u i \<notin> used_events d"
  by (auto simp: unused_id_def used_ids_def used_events_def)

lemma fresh_later:
  assumes u: "uuid_lib_ok (rt_uuid rt)" and f: "fresh_ids rt st k" and w: "keys_within rt st st'"
    and k: "w_ids st' + k' \<le> w_ids st + k"
  shows "fresh_ids rt st' k'"
proof -
  have le: "w_ids st \<le> w_ids st'" using w by (simp add: keys_within_def)
  have inj: "inj_on (id_at rt) {w_ids st ..< w_ids st + k}"
    using f by (simp add: fresh_ids_def distinct_map)
  have sub: "{w_ids st' ..< w_ids st' + k'} \<subseteq> {w_ids st ..< w_ids st + k}" using le k by auto
  have "unused_id (rt_uuid rt) (w_db st') (id_at rt n)" if n: "w_ids st' \<le> n" "n < w_ids st' + k'" for n
  proof -
    have n': "w_ids st \<le> n" "n < w_ids st + k" using n le k by simp_all
    have U: "unused_id (rt_uuid rt) (w_db st) (id_at rt n)" using f n' by (simp add: fresh_ids_def list_all_iff)
    have "id_at rt n \<noteq> id_at rt m" if "m \<in> {w_ids st ..< w_ids st'}" for m
    proof -
      have "m < n" "w_ids st \<le> m" using that n by auto
      then show ?thesis using inj_onD [OF inj, of n m] n' by auto
    qed
    then have ne: "id_at rt n \<notin> issued rt st st'" unfolding issued_def by blast
    then have "uuid_String (rt_uuid rt) (id_at rt n) \<notin> uuid_String (rt_uuid rt) ` issued rt st st'"
      by (auto simp: uuid_String_inject [OF u])
    then show ?thesis using U ne w unfolding unused_id_alt keys_within_def by blast
  qed
  moreover have "inj_on (id_at rt) {w_ids st' ..< w_ids st' + k'}" by (rule inj_on_subset [OF inj sub])
  ultimately show ?thesis by (simp add: fresh_ids_def list_all_iff distinct_map)
qed

lemma keys_within_refl: "keys_within rt st st" by (simp add: keys_within_def)

lemma keys_within_trans:
  assumes "keys_within rt st st'" "keys_within rt st' st''"
  shows "keys_within rt st st''"
proof -
  have "{w_ids st ..< w_ids st''} = {w_ids st ..< w_ids st'} \<union> {w_ids st' ..< w_ids st''}"
    using assms by (simp add: keys_within_def ivl_disj_un_two)
  then have i: "issued rt st st'' = issued rt st st' \<union> issued rt st' st''" by (simp add: issued_def image_Un)
  show ?thesis using assms unfolding keys_within_def i image_Un by (intro conjI) (linarith | blast)+
qed

text \<open>An identity that was taken and has no row yet.\<close>

definition fresh_beside :: "runtime \<Rightarrow> world \<Rightarrow> nat \<Rightarrow> uuid \<Rightarrow> bool" where
  "fresh_beside rt st k i \<longleftrightarrow> fresh_ids rt st k \<and> i \<notin> id_at rt ` {w_ids st ..< w_ids st + k}"

lemma fresh_beside_later:
  assumes "uuid_lib_ok (rt_uuid rt)" "fresh_beside rt st k i" "keys_within rt st st'" "w_ids st' = w_ids st"
  shows "fresh_beside rt st' k i"
  using assms fresh_later [of rt st k st' k] by (simp add: fresh_beside_def)

lemma fresh_beside_used:
  assumes "fresh_beside rt st k i" and "w_ids st' = w_ids st"
    and "used_ids (w_db st') \<subseteq> insert i (used_ids (w_db st))" "used_events (w_db st') = used_events (w_db st)"
  shows "fresh_ids rt st' k"
proof -
  have "unused_id (rt_uuid rt) (w_db st') (id_at rt n)" if "w_ids st \<le> n" "n < w_ids st + k" for n
  proof -
    have "unused_id (rt_uuid rt) (w_db st) (id_at rt n)" "id_at rt n \<noteq> i"
      using assms(1) that by (auto simp: fresh_beside_def fresh_ids_def list_all_iff)
    then show ?thesis using assms(3,4) unfolding unused_id_alt by blast
  qed
  then show ?thesis using assms(1,2) by (simp add: fresh_beside_def fresh_ids_def list_all_iff)
qed

section \<open>The steps\<close>

lemma completes_call:
  assumes "healthy rt" "w_status st \<noteq> AbortedTransaction" "stmt (w_db st) = Inr (x, d)"
    "Q x (st\<lparr>w_calls := Suc (w_calls st), w_db := d\<rparr>)"
  shows "completes (db_call rt stmt) st Q"
  using assms by (intro completesI [OF db_call_healthy]) auto

lemma completes_new_id:
  assumes "uuid_lib_ok (rt_uuid rt)" "fresh_ids rt st (Suc k)"
    and "\<And>st'. fresh_beside rt st' k (id_at rt (w_ids st)) \<Longrightarrow> w_db st' = w_db st \<Longrightarrow> id_at rt (w_ids st) \<noteq> uuid_Nil
      \<Longrightarrow> id_at rt (w_ids st) \<notin> lgr_id ` set (db_ledger (w_db st))
      \<Longrightarrow> id_at rt (w_ids st) \<notin> clr_id ` set (db_claims (w_db st))
      \<Longrightarrow> Q (id_at rt (w_ids st)) st'"
  shows "completes (new_id rt) st Q"
proof -
  note F = fresh_idsD [OF assms(2), of "w_ids st", simplified]
  let ?st = "st\<lparr>w_ids := Suc (w_ids st)\<rparr>"
  have "inj_on (id_at rt) (set [w_ids st ..< w_ids st + Suc k])"
    using assms(2) unfolding fresh_ids_def distinct_map by blast
  then have inj: "inj_on (id_at rt) {w_ids st ..< w_ids st + Suc k}" by (simp only: set_upt)
  have "id_at rt (w_ids st) \<notin> id_at rt ` {Suc (w_ids st) ..< Suc (w_ids st) + k}"
  proof
    assume "id_at rt (w_ids st) \<in> id_at rt ` {Suc (w_ids st) ..< Suc (w_ids st) + k}"
    then obtain m where "Suc (w_ids st) \<le> m" "m < Suc (w_ids st) + k" "id_at rt (w_ids st) = id_at rt m" by auto
    then show False using inj_onD [OF inj, of "w_ids st" m] by simp
  qed
  moreover have "fresh_ids rt ?st k"
    by (rule fresh_later [OF assms(1,2)]) (auto simp: keys_within_def)
  ultimately have "fresh_beside rt ?st k (id_at rt (w_ids st))" by (simp add: fresh_beside_def)
  then have "Q (id_at rt (w_ids st)) ?st" by (rule assms(3)) (use F in simp_all)
  then show ?thesis by (simp add: completes_def new_id_healthy [OF F(2)])
qed

text \<open>Writing an event.\<close>

lemma completes_emitted:
  assumes u: "uuid_lib_ok (rt_uuid rt)" and f: "fresh_ids rt st (Suc k)"
    and e: "id_at rt (w_ids st) \<noteq> uuid_Nil \<Longrightarrow>
      uuid_String (rt_uuid rt) (id_at rt (w_ids st)) \<notin> obr_eventId ` set (db_outbox (w_db st)) \<Longrightarrow>
      \<exists>r. obr_eventId r = uuid_String (rt_uuid rt) (id_at rt (w_ids st))
        \<and> m st = (Inr (), st\<lparr>w_ids := Suc (w_ids st), w_calls := Suc (w_calls st),
          w_db := (w_db st)\<lparr>db_outbox := db_outbox (w_db st) @ [r]\<rparr>\<rparr>)"
  shows "completes m st (\<lambda>_ st'. fresh_ids rt st' k)"
proof -
  note F = fresh_idsD [OF f, of "w_ids st", simplified]
  from e [OF F(2,7)] obtain r where r: "obr_eventId r = uuid_String (rt_uuid rt) (id_at rt (w_ids st))"
    "m st = (Inr (), st\<lparr>w_ids := Suc (w_ids st), w_calls := Suc (w_calls st),
          w_db := (w_db st)\<lparr>db_outbox := db_outbox (w_db st) @ [r]\<rparr>\<rparr>)" by blast
  have "fresh_ids rt (snd (m st)) k"
    by (rule fresh_later [OF u f]) (auto simp: r keys_within_def used_ids_def used_events_def issued_def)
  then show ?thesis by (simp add: completes_def r(2))
qed

lemma emitPendingReference_healthy:
  assumes "healthy rt" and "uuid_lib_ok (rt_uuid rt)" and "w_status st \<noteq> AbortedTransaction"
    and "c \<noteq> ''''" "now \<noteq> 0" and "IsInitialized (tx_amount t)"
    and "id_at rt (w_ids st) \<noteq> uuid_Nil"
    and "uuid_String (rt_uuid rt) (id_at rt (w_ids st)) \<notin> obr_eventId ` set (db_outbox (w_db st))"
  shows "\<exists>r. obr_eventId r = uuid_String (rt_uuid rt) (id_at rt (w_ids st))
    \<and> emitPendingReference rt t now c st = (Inr (), st\<lparr>w_ids := Suc (w_ids st), w_calls := Suc (w_calls st),
          w_db := (w_db st)\<lparr>db_outbox := db_outbox (w_db st) @ [r]\<rparr>\<rparr>)"
  unfolding emitPendingReference_def Let_def NewWagerTransactionPendingReference_def
  by (rule emit_healthy) (use assms in simp_all)

text \<open>Writing the state of a transaction that has one row, as it was inserted.\<close>

definition stored_as :: "wager \<Rightarrow> db \<Rightarrow> bool" where
  "stored_as t d \<longleftrightarrow> tx_id t \<in> txr_id ` set (db_transactions d)
     \<and> (\<forall>r \<in> set (db_transactions d). txr_id r = tx_id t \<longrightarrow> r = wager_to_row t)"

lemma completes_update:
  assumes h: "healthy rt" and u: "uuid_lib_ok (rt_uuid rt)" and st: "w_status st \<noteq> AbortedTransaction"
    and f: "fresh_ids rt st k" and own: "stored_as t (w_db st)" and t': "tx_id t' = tx_id t"
    and ref: "tx_referenceTransactionID t' = uuid_Nil
      \<or> tx_referenceTransactionID t' \<in> txr_id ` set (db_transactions (w_db st))"
    and ok: "\<forall>c \<in> set (transaction_checks (apply_update t' s (wager_to_row t))). snd c"
  shows "completes (transactions_Update rt t' s) st (\<lambda>_ st'. fresh_ids rt st' k)"
proof -
  let ?hit = "\<lambda>r. txr_id r = tx_id t'" and ?f = "apply_update t' s"
  let ?rows = "map (\<lambda>r. if ?hit r then ?f r else r) (db_transactions (w_db st))"
  have rows: "update_rows ?hit ?f transaction_checks (db_transactions (w_db st)) = Inr ?rows"
    using own ok t' by (auto simp: update_rows_Inr stored_as_def)
  have "case txr_referenceTransactionId (?f r) of None \<Rightarrow> True
      | Some i \<Rightarrow> i \<in> set (map txr_id (db_transactions (w_db st)))" for r
    using ref by (auto simp: apply_update_def nullUUID_def id_IsZero_def)
  then have "update_transactions ?hit ?f (w_db st) = Inr ((), (w_db st)\<lparr>db_transactions := ?rows\<rparr>)"
    unfolding update_transactions_def rows by (simp add: res_simps)
  moreover have "map txr_id ?rows = map txr_id (db_transactions (w_db st))" by (simp add: apply_update_def)
  then have "fresh_ids rt (st\<lparr>w_calls := Suc (w_calls st), w_db := (w_db st)\<lparr>db_transactions := ?rows\<rparr>\<rparr>) k"
    by (intro fresh_later [OF u f]) (auto simp: keys_within_def used_ids_def used_events_def apply_update_def image_iff)
  ultimately show ?thesis unfolding transactions_Update_def by (intro completes_call [OF h st])
qed

section \<open>Executing a plan\<close>

text \<open>A new transaction that was inserted for a wallet that is locked.\<close>

definition prepared :: "runtime \<Rightarrow> wallet \<Rightarrow> wager \<Rightarrow> time \<Rightarrow> string \<Rightarrow> world \<Rightarrow> bool" where
  "prepared rt w t now c st \<longleftrightarrow>
     healthy rt \<and> uuid_lib_ok (rt_uuid rt) \<and> w_status st \<noteq> AbortedTransaction \<and> c \<noteq> '''' \<and> 0 < now
     \<and> wallet_ok w \<and> external_columns t \<and> wager_init t \<and> tx_state t = StatePending \<and> tx_failureCode t = ''''
     \<and> tx_observedBalance t = money_nil \<and> tx_walletID t = wal_id w \<and> currency (tx_amount t) = wal_currency w
     \<and> stored_as t (w_db st)"

lemma preparedD:
  assumes "prepared rt w t now c st"
  shows "healthy rt" "uuid_lib_ok (rt_uuid rt)" "w_status st \<noteq> AbortedTransaction" "c \<noteq> ''''" "now \<noteq> 0" "0 < now"
    "wallet_ok w" "external_columns t" "wager_init t" "tx_state t = StatePending" "tx_failureCode t = ''''"
    "tx_observedBalance t = money_nil" "tx_walletID t = wal_id w" "currency (tx_amount t) = wal_currency w"
    "stored_as t (w_db st)" "transition t s now = Inr ()" "IsInitialized (tx_amount t)" "IsInitialized (wal_balance w)"
    "0 \<le> bal w" "tx_id t \<noteq> uuid_Nil"
  using assms by (auto simp: prepared_def transition_Inr_iff wager_init_def wallet_ok_def IsInitialized_def)

definition known_id :: "transaction_id \<Rightarrow> db \<Rightarrow> bool" where
  "known_id i d \<longleftrightarrow> i = uuid_Nil \<or> i \<in> txr_id ` set (db_transactions d)"

lemma failed_row_checked:
  assumes "external_columns t" and "IsInitialized b" "0 \<le> amt b"
  shows "\<forall>k \<in> set (transaction_checks (apply_update (t\<lparr>tx_state := StateFailed, tx_failureCode := FailurePermanentInfrastructure,
    tx_observedBalance := b\<rparr>) None (wager_to_row t))). snd k"
  using assms
  by (auto simp: external_columns_def transaction_checks_def wager_to_row_def origin_metadata_def Origin_Valid_def
      terminal_snapshot_def State_Valid_def null_iffs nullString_def nullMoney_def apply_update_def FailureCode_Valid_def)

lemma waiting_row_checked:
  assumes "external_columns t" and "tx_failureCode t = ''''" "tx_observedBalance t = money_nil"
    and "tx_referenceExternalTransactionID t \<noteq> ''''" "deadline \<noteq> 0" "0 \<le> rs_Attempts s"
  shows "\<forall>k \<in> set (transaction_checks (apply_update (t\<lparr>tx_state := StatePendingReference, tx_referenceDeadline := deadline,
    tx_updatedAt := now\<rparr>) (Some s) (wager_to_row t))). snd k"
  using assms
  by (auto simp: external_columns_def transaction_checks_def wager_to_row_def origin_metadata_def Origin_Valid_def
      terminal_snapshot_def State_Valid_def null_iffs nullString_def nullMoney_def apply_update_def IsInitialized_def
      money_nil_def)

lemma completes_rejection:
  assumes p: "prepared rt w t now c st" and f: "fresh_ids rt st (Suc k)" and i: "known_id i (w_db st)"
    and code: "FailureCode_Valid code" "code \<noteq> FailurePermanentInfrastructure" "code \<noteq> ''''"
  shows "completes (persist_rejection rt w t i code now c) st (\<lambda>r _. \<not> wr_IdempotentReplay r)"
proof -
  note P = preparedD [OF p]
  let ?t' = "t\<lparr>tx_state := StateRejected, tx_referenceTransactionID := i, tx_failureCode := code,
      tx_observedBalance := wal_balance w\<rparr>"
  have m: "MarkRejected t i code (wal_balance w) now = Inr ?t'"
    using P(16,18,19) code by (simp add: MarkRejected_Inr_iff)
  have up: "completes (transactions_Update rt ?t' None) st (\<lambda>_ st'. fresh_ids rt st' (Suc k))"
    by (rule completes_update [OF P(1,2,3) f P(15)])
      (use i P settled_row_checked [OF P(8), of ?t'] code in \<open>simp_all add: known_id_def\<close>)
  show ?thesis
    unfolding persist_rejection_def
  proof (rule completes_domain_bind [OF m], rule completes_bind [OF up])
    fix st1 :: world
    assume st1: "fresh_ids rt st1 (Suc k)" "w_status st1 = w_status st"
    then have "completes (emitRejected rt w ?t' now c) st1 (\<lambda>_ st'. fresh_ids rt st' k)"
      by (intro completes_emitted [OF P(2)] emitRejected_healthy [OF P(1,2)]) (use P in simp_all)
    then show "completes (tx_bind (emitRejected rt w ?t' now c) (\<lambda>_. tx_return (resultOf ?t' False))) st1
        (\<lambda>r _. \<not> wr_IdempotentReplay r)"
      by (rule completes_bind) (simp add: completes_return resultOf_def)
  qed
qed

lemma completes_failure:
  assumes p: "prepared rt w t now c st" and f: "fresh_ids rt st k" and i: "tx_referenceTransactionID t = uuid_Nil"
  shows "completes (persist_failure rt w t now) st (\<lambda>r _. \<not> wr_IdempotentReplay r)"
proof -
  note P = preparedD [OF p]
  let ?t' = "t\<lparr>tx_state := StateFailed, tx_failureCode := FailurePermanentInfrastructure, tx_observedBalance := wal_balance w\<rparr>"
  have m: "MarkFailed t (wal_balance w) now = Inr ?t'" using P(16,18) by (simp add: MarkFailed_Inr_iff)
  have up: "completes (transactions_Update rt ?t' None) st (\<lambda>_ st'. fresh_ids rt st' k)"
    by (rule completes_update [OF P(1,2,3) f P(15)]) (use i P failed_row_checked [OF P(8,18,19)] in simp_all)
  show ?thesis
    unfolding persist_failure_def
    by (rule completes_domain_bind [OF m], rule completes_bind [OF up]) (simp add: completes_return resultOf_def)
qed

text \<open>A LOSS settles without a posting.\<close>

lemma completes_settle:
  assumes p: "prepared rt w t now c st" and f: "fresh_ids rt st (Suc k)" and i: "known_id i (w_db st)"
  shows "completes (executePlan rt w t (plan_nil\<lparr>pl_referenceID := i\<rparr>) now c) st (\<lambda>r _. \<not> wr_IdempotentReplay r)"
proof -
  note P = preparedD [OF p]
  let ?t' = "t\<lparr>tx_state := StateProcessed, tx_referenceTransactionID := i, tx_observedBalance := wal_balance w\<rparr>"
  have m: "MarkProcessed t i (wal_balance w) now = Inr ?t'" using P(16,18,19) by (simp add: MarkProcessed_Inr_iff)
  have up: "completes (transactions_Update rt ?t' None) st (\<lambda>_ st'. fresh_ids rt st' (Suc k))"
    by (rule completes_update [OF P(1,2,3) f P(15)])
      (use i P settled_row_checked [OF P(8), of ?t'] in \<open>simp_all add: known_id_def\<close>)
  have "completes (tx_bind (emitProcessed rt w ?t' (wal_balance w) now c) (\<lambda>_. tx_return (resultOf ?t' False))) st1
      (\<lambda>r _. \<not> wr_IdempotentReplay r)" if "fresh_ids rt st1 (Suc k)" "w_status st1 = w_status st" for st1
  proof -
    have "completes (emitProcessed rt w ?t' (wal_balance w) now c) st1 (\<lambda>_ st'. fresh_ids rt st' k)"
      by (intro completes_emitted [OF P(2) that(1)] emitProcessed_healthy [OF P(1,2)]) (use P that in simp_all)
    then show ?thesis by (rule completes_bind) (simp add: completes_return resultOf_def)
  qed
  note emit = this
  have "completes (tx_bind (tx_domain (MarkProcessed t i (wal_balance w) now)) (\<lambda>processed.
          tx_bind (transactions_Update rt processed None) (\<lambda>_.
          tx_bind (emitProcessed rt w processed (wal_balance w) now c) (\<lambda>_.
          tx_return (resultOf processed False))))) st (\<lambda>r _. \<not> wr_IdempotentReplay r)"
    by (rule completes_domain_bind [OF m], rule completes_bind [OF up], rule emit)
  then show ?thesis by (simp add: executePlan_def plan_nil_def)
qed

text \<open>A transaction whose reference is not there waits for it.\<close>

lemma completes_wait:
  assumes p: "prepared rt w t now c st" and f: "fresh_ids rt st (Suc k)" and i: "tx_referenceTransactionID t = uuid_Nil"
    and r: "tx_referenceExternalTransactionID t \<noteq> ''''"
  shows "completes (executePlan rt w t plan_pending now c) st (\<lambda>r _. \<not> wr_IdempotentReplay r)"
proof -
  note P = preparedD [OF p]
  let ?deadline = "time_Add now ReferenceTTL"
  let ?t' = "t\<lparr>tx_state := StatePendingReference, tx_referenceDeadline := ?deadline, tx_updatedAt := now\<rparr>"
  let ?s = "\<lparr>rs_NextAttemptAt = ReferenceNextAttemptAt 0 (uuid_String (rt_uuid rt) (tx_id t)) now, rs_Attempts = 0\<rparr>"
  have dl: "now < ?deadline" by (simp add: time_Add_def ReferenceTTL_def duration_defs)
  have m: "MarkPendingReference t ?deadline now = Inr ?t'" using P dl by (simp add: MarkPendingReference_Inr_iff)
  have "?deadline \<noteq> 0" using dl P(6) by linarith
  then have chk: "\<forall>k \<in> set (transaction_checks (apply_update ?t' (Some ?s) (wager_to_row t))). snd k"
    by (intro waiting_row_checked P(8,11,12) r) simp_all
  have up: "completes (transactions_Update rt ?t' (Some ?s)) st (\<lambda>_ st'. fresh_ids rt st' (Suc k))"
    by (rule completes_update [OF P(1,2,3) f P(15)]) (use i chk in simp_all)
  have "completes (tx_bind (emitPendingReference rt ?t' now c) (\<lambda>_. tx_return (resultOf ?t' False))) st1
      (\<lambda>r _. \<not> wr_IdempotentReplay r)" if "fresh_ids rt st1 (Suc k)" "w_status st1 = w_status st" for st1
  proof -
    have "completes (emitPendingReference rt ?t' now c) st1 (\<lambda>_ st'. fresh_ids rt st' k)"
      by (intro completes_emitted [OF P(2) that(1)] emitPendingReference_healthy [OF P(1,2)]) (use P that in simp_all)
    then show ?thesis by (rule completes_bind) (simp add: completes_return resultOf_def)
  qed
  note emit = this
  have "completes (tx_bind (tx_domain (MarkPendingReference t ?deadline now)) (\<lambda>pending.
        tx_bind (transactions_Update rt pending (Some ?s)) (\<lambda>_.
        tx_bind (emitPendingReference rt pending now c) (\<lambda>_.
        tx_return (resultOf pending False))))) st (\<lambda>r _. \<not> wr_IdempotentReplay r)"
    by (rule completes_domain_bind [OF m], rule completes_bind [OF up], rule emit)
  then show ?thesis by (simp add: executePlan_def Let_def)
qed

text \<open>A posting moves the balance of the wallet, within its range.\<close>

lemma moved_balance:
  assumes "0 \<le> bal w + x" "bal w + x \<le> 9223372036854775807"
  shows "amt (wal_balance (moved w x now)) = bal w + x"
proof -
  have "sint (word_of_int (bal w + x) :: int64) = bal w + x"
    by (rule sint_of_int64) (use assms in \<open>simp add: int64_range_def\<close>)
  moreover have "minorUnits (wal_balance (moved w x now)) = word_of_int (bal w + x)"
    unfolding moved_def by (simp del: of_int_add word_of_int_amt_add)
  ultimately show ?thesis by (simp only:)
qed

lemma completes_wallet:
  assumes h: "healthy rt" and u: "uuid_lib_ok (rt_uuid rt)" and st: "w_status st \<noteq> AbortedTransaction"
    and f: "fresh_beside rt st k i" and w: "wallet_ok w" "wallet_to_row w \<in> set (db_wallets (w_db st))"
    and dis: "distinct (map wlr_id (db_wallets (w_db st)))" and cur: "currencyPattern (wal_currency w)"
    and v: "sint (wal_version w) < 9223372036854775807"
    and w': "w' = moved w x now" "0 \<le> bal w + x" "bal w + x \<le> 9223372036854775807"
    and Q: "\<And>st'. fresh_beside rt st' k i \<Longrightarrow> db_transactions (w_db st') = db_transactions (w_db st)
      \<Longrightarrow> db_ledger (w_db st') = db_ledger (w_db st) \<Longrightarrow> db_claims (w_db st') = db_claims (w_db st)
      \<Longrightarrow> wal_id w \<in> set (map wlr_id (db_wallets (w_db st'))) \<Longrightarrow> Q () st'"
  shows "completes (wallets_SaveBalance rt w') st Q"
proof -
  let ?d = "w_db st"
  let ?upd = "\<lambda>r. r\<lparr>wlr_balance := minorUnits (wal_balance w'), wlr_version := wal_version w', wlr_updatedAt := now\<rparr>"
  let ?d1 = "?d\<lparr>db_wallets := map (\<lambda>r. if wlr_id r = wal_id w then ?upd r else r) (db_wallets ?d)\<rparr>"
  have b': "amt (wal_balance w') = bal w + x" using w' by (simp add: moved_balance)
  have "sint (wal_version w + 1) = sint (wal_version w) + 1"
    using v w(1) sint_add_int64 [of "wal_version w" 1] by (simp add: wallet_ok_def int64_range_def)
  moreover have "wlr_currency r = wal_currency w" if "r \<in> set (db_wallets ?d)" "wlr_id r = wal_id w" for r
    using distinct_map_eq [OF dis that(1) w(2)] that(2) by (simp add: wallet_to_row_def)
  ultimately have "update_wallet_balance (wal_id w) (minorUnits (wal_balance w')) (wal_version w') now ?d = Inr ((), ?d1)"
    using b' w w'(2) cur
    by (auto simp: update_wallet_balance_def res_simps update_rows_Inr wallet_checks_def w'(1) moved_def wallet_ok_def)
  then have "update_wallet_balance (wal_id w') (minorUnits (wal_balance w')) (wal_version w') (time_UTC (wal_updatedAt w')) ?d
      = Inr ((), ?d1)" by (simp add: w'(1) moved_def)
  moreover have ids: "map wlr_id (db_wallets ?d1) = map wlr_id (db_wallets ?d)" by simp
  have "Q () (st\<lparr>w_calls := Suc (w_calls st), w_db := ?d1\<rparr>)"
  proof (rule Q)
    show "fresh_beside rt (st\<lparr>w_calls := Suc (w_calls st), w_db := ?d1\<rparr>) k i"
    proof (rule fresh_beside_later [OF u f])
      have "used_ids ?d1 = used_ids ?d" unfolding used_ids_def ids by simp
      then show "keys_within rt st (st\<lparr>w_calls := Suc (w_calls st), w_db := ?d1\<rparr>)"
        by (simp add: keys_within_def used_events_def)
    qed simp
    have "wal_id w \<in> set (map wlr_id (db_wallets ?d))" using w(2) by (force simp: wallet_to_row_def)
    moreover have "map wlr_id (db_wallets (w_db (st\<lparr>w_calls := Suc (w_calls st), w_db := ?d1\<rparr>))) = map wlr_id (db_wallets ?d)"
      by simp
    ultimately show "wal_id w \<in> set (map wlr_id (db_wallets (w_db (st\<lparr>w_calls := Suc (w_calls st), w_db := ?d1\<rparr>))))"
      by (simp only:)
  qed simp_all
  ultimately show ?thesis unfolding wallets_SaveBalance_def by (intro completes_call [OF h st])
qed

lemma completes_ledger:
  assumes h: "healthy rt" and st: "w_status st \<noteq> AbortedTransaction" and f: "fresh_beside rt st k (le_id e)"
    and e: "ledger_entry_ok e" "le_id e \<notin> lgr_id ` set (db_ledger (w_db st))"
    and t: "le_transactionID e \<in> txr_id ` set (db_transactions (w_db st))"
      "le_transactionID e \<notin> lgr_transactionId ` set (db_ledger (w_db st))"
    and w: "le_walletID e \<in> set (map wlr_id (db_wallets (w_db st)))"
    and Q: "\<And>st'. fresh_ids rt st' k \<Longrightarrow> db_transactions (w_db st') = db_transactions (w_db st)
      \<Longrightarrow> db_claims (w_db st') = db_claims (w_db st) \<Longrightarrow> Q () st'"
  shows "completes (ledger_Insert rt e) st Q"
proof -
  let ?d = "(w_db st)\<lparr>db_ledger := db_ledger (w_db st) @ [ledger_to_row e]\<rparr>"
  have "insert_ledger (ledger_to_row e) (w_db st) = Inr ((), ?d)"
    using e t w by (auto simp: insert_ledger_Inr ledger_to_row_def ledger_checks_def ledger_entry_ok_def le_effect_def
        Direction_Valid_def split: if_splits)
  moreover have "Q () (st\<lparr>w_calls := Suc (w_calls st), w_db := ?d\<rparr>)"
    by (rule Q [OF fresh_beside_used [OF f]]) (auto simp: used_ids_def used_events_def ledger_to_row_def)
  ultimately show ?thesis unfolding ledger_Insert_def by (intro completes_call [OF h st])
qed

lemma completes_claim:
  assumes h: "healthy rt" and st: "w_status st \<noteq> AbortedTransaction" and f: "fresh_beside rt st k (rc_id c)"
    and c: "reversal_claim_ok c" "rc_id c \<notin> clr_id ` set (db_claims (w_db st))"
      "rc_referenceTransactionID c \<notin> clr_referenceTransactionId ` set (db_claims (w_db st))"
      "rc_reversalTransactionID c \<notin> clr_reversalTransactionId ` set (db_claims (w_db st))"
      "rc_referenceTransactionID c \<in> txr_id ` set (db_transactions (w_db st))"
      "rc_reversalTransactionID c \<in> txr_id ` set (db_transactions (w_db st))"
    and Q: "\<And>st'. fresh_ids rt st' k \<Longrightarrow> db_transactions (w_db st') = db_transactions (w_db st) \<Longrightarrow> Q () st'"
  shows "completes (claims_Insert rt c) st Q"
proof -
  let ?d = "(w_db st)\<lparr>db_claims := db_claims (w_db st) @ [claim_to_row c]\<rparr>"
  have "insert_claim (claim_to_row c) (w_db st) = Inr ((), ?d)"
    using c by (simp add: insert_claim_Inr claim_to_row_def reversal_claim_ok_def)
  moreover have "Q () (st\<lparr>w_calls := Suc (w_calls st), w_db := ?d\<rparr>)"
    by (rule Q [OF fresh_beside_used [OF f]]) (auto simp: used_ids_def used_events_def claim_to_row_def)
  ultimately show ?thesis unfolding claims_Insert_def by (intro completes_call [OF h st])
qed

text \<open>The end of a posting: the state of the transaction and two events.\<close>

lemma completes_posted:
  assumes p: "prepared rt w t now c st0" and st: "w_status st = w_status st0" and own: "stored_as t (w_db st)"
    and f: "fresh_ids rt st (Suc (Suc k))" and i: "known_id i (w_db st)"
    and w': "IsInitialized b" "IsInitialized b0" "0 \<le> amt b" "IsInitialized (mv_amount mv)"
  defines "processed \<equiv> t\<lparr>tx_state := StateProcessed, tx_referenceTransactionID := i, tx_observedBalance := b\<rparr>"
  shows "completes (tx_bind (transactions_Update rt processed None) (\<lambda>_.
      tx_bind (emitProcessed rt w' processed b now c) (\<lambda>_.
      tx_bind (emitBalanceChanged rt w' processed mv b0 b now c) (\<lambda>_.
      tx_return (resultOf processed False))))) st (\<lambda>r _. \<not> wr_IdempotentReplay r)"
proof -
  note P = preparedD [OF p]
  let ?t' = "t\<lparr>tx_state := StateProcessed, tx_referenceTransactionID := i, tx_observedBalance := b\<rparr>"
  have up: "completes (transactions_Update rt ?t' None) st (\<lambda>_ st'. fresh_ids rt st' (Suc (Suc k)))"
    by (rule completes_update [OF P(1,2) _ f own])
      (use i P st w' settled_row_checked [OF P(8), of ?t'] in \<open>simp_all add: known_id_def\<close>)
  show ?thesis
    unfolding processed_def
  proof (rule completes_bind [OF up])
    fix st1 :: world
    assume s1: "fresh_ids rt st1 (Suc (Suc k))" "w_status st1 = w_status st"
    have e1: "completes (emitProcessed rt w' ?t' b now c) st1 (\<lambda>_ st'. fresh_ids rt st' (Suc k))"
      by (intro completes_emitted [OF P(2) s1(1)] emitProcessed_healthy [OF P(1,2)]) (use P st s1 w' in simp_all)
    show "completes (tx_bind (emitProcessed rt w' ?t' b now c) (\<lambda>_.
      tx_bind (emitBalanceChanged rt w' ?t' mv b0 b now c) (\<lambda>_. tx_return (resultOf ?t' False)))) st1
      (\<lambda>r _. \<not> wr_IdempotentReplay r)"
    proof (rule completes_bind [OF e1])
      fix st2 :: world
      assume s2: "fresh_ids rt st2 (Suc k)" "w_status st2 = w_status st1"
      have e2: "completes (emitBalanceChanged rt w' ?t' mv b0 b now c) st2 (\<lambda>_ st'. fresh_ids rt st' k)"
        by (intro completes_emitted [OF P(2) s2(1)] emitBalanceChanged_healthy [OF P(1,2)]) (use P st s1 s2 w' in simp_all)
      show "completes (tx_bind (emitBalanceChanged rt w' ?t' mv b0 b now c) (\<lambda>_. tx_return (resultOf ?t' False))) st2
        (\<lambda>r _. \<not> wr_IdempotentReplay r)"
        by (rule completes_bind [OF e2]) (simp add: completes_return resultOf_def)
    qed
  qed
qed

text \<open>A posting: four identities at most, for the entry, the claim and two events.\<close>

lemma completes_posting:
  assumes p: "prepared rt w t now c st" and f: "fresh_ids rt st (Suc (Suc (Suc (Suc k))))"
    and W: "wallet_to_row w \<in> set (db_wallets (w_db st))" "distinct (map wlr_id (db_wallets (w_db st)))"
      "currencyPattern (wal_currency w)" "sint (wal_version w) < 9223372036854775807" "wal_id w \<noteq> uuid_Nil"
    and dir: "Direction_Valid dir" and a: "currency a = wal_currency w" "0 < amt a"
    and x: "x = (if dir = DirectionCredit then amt a else - amt a)" "0 \<le> bal w + x" "bal w + x \<le> 9223372036854775807"
    and i: "known_id (pl_referenceID plan) (w_db st)"
    and new: "tx_id t \<notin> lgr_transactionId ` set (db_ledger (w_db st))"
    and claim: "pl_claim plan \<Longrightarrow> pl_referenceID plan \<noteq> uuid_Nil \<and> pl_referenceID plan \<noteq> tx_id t
      \<and> pl_referenceID plan \<notin> clr_referenceTransactionId ` set (db_claims (w_db st))
      \<and> tx_id t \<notin> clr_reversalTransactionId ` set (db_claims (w_db st))"
  shows "completes (post_movement rt w (moved w x now) t plan \<lparr>mv_direction = dir, mv_amount = a\<rparr> now c) st
    (\<lambda>r _. \<not> wr_IdempotentReplay r)"
proof -
  note P = preparedD [OF p]
  let ?w' = "moved w x now" and ?i = "pl_referenceID plan"
  have b: "amt (wal_balance ?w') = bal w + x" using x by (simp add: moved_balance)
  have B: "IsInitialized (wal_balance ?w')" "currency (wal_balance ?w') = wal_currency w" "wal_id ?w' = wal_id w"
    using P(7) by (simp_all add: moved_def IsInitialized_def wallet_ok_def)
  have wc: "wal_currency w \<noteq> ''''" "currency (wal_balance w) = wal_currency w" using P(7) by (simp_all add: wallet_ok_def)
  let ?e = "\<lambda>eid. \<lparr>le_id = eid, le_walletID = wal_id w, le_transactionID = tx_id t, le_direction = dir,
        le_amount = a, le_balanceBefore = wal_balance w, le_balanceAfter = wal_balance ?w', le_createdAt = now\<rparr>"
  have le: "ledger_entry_ok (?e eid)" if "eid \<noteq> uuid_Nil" for eid
    using P that dir a x b B W(5) wc by (simp add: ledger_entry_ok_def le_effect_def)
  have NE: "NewWalletLedgerEntry eid (wal_id ?w') (tx_id t) dir a (wal_balance w) (wal_balance ?w') now = Inr (?e eid)"
    if "eid \<noteq> uuid_Nil" for eid using le [OF that] B(3) by (simp add: NewWalletLedgerEntry_Inr_iff)
  have m: "MarkProcessed t ?i (wal_balance ?w') now
      = Inr (t\<lparr>tx_state := StateProcessed, tx_referenceTransactionID := ?i, tx_observedBalance := wal_balance ?w'\<rparr>)"
    using P(16) b B x(2) by (simp add: MarkProcessed_Inr_iff)
  have fin: "completes (tx_bind (transactions_Update rt t' None) (\<lambda>_.
      tx_bind (emitProcessed rt ?w' t' (wal_balance ?w') now c) (\<lambda>_.
      tx_bind (emitBalanceChanged rt ?w' t' \<lparr>mv_direction = dir, mv_amount = a\<rparr> (wal_balance w) (wal_balance ?w') now c) (\<lambda>_.
      tx_return (resultOf t' False))))) st' (\<lambda>r _. \<not> wr_IdempotentReplay r)"
    if "w_status st' = w_status st" "db_transactions (w_db st') = db_transactions (w_db st)" "fresh_ids rt st' (Suc (Suc k))"
      "t' = t\<lparr>tx_state := StateProcessed, tx_referenceTransactionID := ?i, tx_observedBalance := wal_balance ?w'\<rparr>" for st' t'
    unfolding that(4)
    by (rule completes_posted [OF p that(1) _ that(3)])
      (use P(15,18) i that(2) b B x(2) a wc in \<open>simp_all add: stored_as_def known_id_def IsInitialized_def\<close>)
  have claimed: "completes (if pl_claim plan then
         tx_bind (new_id rt) (\<lambda>cid. tx_bind (tx_domain (NewReversalClaim cid ?i (tx_id t) now)) (\<lambda>claim. claims_Insert rt claim))
       else tx_return ()) st3 (\<lambda>_ st4. fresh_ids rt st4 (Suc (Suc k)) \<and> db_transactions (w_db st4) = db_transactions (w_db st))"
    if "fresh_ids rt st3 (Suc (Suc (Suc k)))" "db_transactions (w_db st3) = db_transactions (w_db st)"
      "db_claims (w_db st3) = db_claims (w_db st)" "w_status st3 = w_status st" for st3
  proof (cases "pl_claim plan")
    case False
    have "fresh_ids rt st3 (Suc (Suc k))" by (rule fresh_later [OF P(2) that(1) keys_within_refl]) simp
    then show ?thesis using False that by (simp add: completes_return)
  next
    case True
    note C = claim [OF True]
    have known: "?i \<in> txr_id ` set (db_transactions (w_db st3))" "tx_id t \<in> txr_id ` set (db_transactions (w_db st3))"
      using C i P(15) that(2) by (auto simp: known_id_def stored_as_def)
    have rc: "NewReversalClaim cid ?i (tx_id t) now = Inr \<lparr>rc_id = cid, rc_referenceTransactionID = ?i,
        rc_reversalTransactionID = tx_id t, rc_createdAt = now\<rparr>" if "cid \<noteq> uuid_Nil" for cid
      using that C P(5,20) by (simp add: NewReversalClaim_Inr_iff reversal_claim_ok_def)
    have "completes (tx_bind (new_id rt) (\<lambda>cid. tx_bind (tx_domain (NewReversalClaim cid ?i (tx_id t) now))
        (\<lambda>claim. claims_Insert rt claim))) st3
        (\<lambda>_ st4. fresh_ids rt st4 (Suc (Suc k)) \<and> db_transactions (w_db st4) = db_transactions (w_db st))"
      apply (rule completes_then, rule completes_new_id [OF P(2) that(1)], rule impI)
      subgoal premises s4 for st4
        by (rule completes_domain_bind [OF rc [OF s4(3)]], rule completes_claim [OF P(1)])
          (use s4 that C known P in \<open>simp_all add: reversal_claim_ok_def\<close>)
      done
    then show ?thesis using True by simp
  qed
  show ?thesis
    unfolding post_movement_def movement.select_convs
    apply (rule completes_then, rule completes_new_id [OF P(2) f], rule impI)
    subgoal premises s1 for st1
      apply (rule completes_domain_bind [OF NE [OF s1(3)]], rule completes_domain_bind [OF m])
      apply (rule completes_then, rule completes_wallet [OF P(1,2) _ s1(1) P(7) _ _ W(3,4) refl x(2,3)])
         apply (use s1 W P(3) in simp_all)[3]
      apply (rule impI)
      subgoal premises s2 for st2
        apply (rule completes_then, rule completes_ledger [OF P(1)])
        apply (use s1 s2 P(3,15) le [OF s1(3)] new in \<open>simp_all add: stored_as_def\<close>)[7]
        apply (rule impI)
        subgoal premises s3 for st3
          apply (rule completes_bind [OF claimed])
          apply (use s1 s2 s3 in simp_all)[4]
          apply (rule fin)
          apply (use s1 s2 s3 in simp_all)
          done
        done
      done
    done
qed

text \<open>Every plan that the decision table gives is carried out, if its credit fits.\<close>

lemma Refuse_code:
  assumes "Kind_IsExternal (tx_kind t)" and "decide t ro taken = Refuse code"
  shows "FailureCode_Valid code" "code \<noteq> FailurePermanentInfrastructure" "code \<noteq> ''''"
  using assms by (auto simp: decide_def Kind_IsExternal_def by_state_def FailureCode_Valid_def failure_defs
      split: option.splits if_splits)

lemma Post_claim_free:
  assumes "Kind_IsExternal (tx_kind t)" and "decide t ro taken = Post dir a consumed True"
  shows "\<not> taken"
proof -
  from decide_Post(4,7) [OF assms] obtain ref where "ro = Some ref" "tx_kind t = KindRefund \<or> tx_kind t = KindRollback" by auto
  then show ?thesis
    using assms(2) by (auto simp: decide_reversal reversal_decision_def by_state_def split: if_splits)
qed

lemma completes_plan:
  assumes p: "prepared rt w t now c st" and f: "fresh_ids rt st (Suc (Suc (Suc (Suc k))))"
    and W: "wallet_to_row w \<in> set (db_wallets (w_db st))" "distinct (map wlr_id (db_wallets (w_db st)))"
      "currencyPattern (wal_currency w)" "sint (wal_version w) < 9223372036854775807" "wal_id w \<noteq> uuid_Nil"
    and fits: "bal w + amt (tx_amount t) \<le> 9223372036854775807" "tx_kind t \<noteq> KindLoss \<Longrightarrow> 0 < amt (tx_amount t)"
    and none: "tx_referenceTransactionID t = uuid_Nil" "ro \<noteq> None \<Longrightarrow> tx_referenceExternalTransactionID t \<noteq> ''''"
    and ro: "known_id (reference_id ro) (w_db st)" "\<And>ref. ro = Some ref \<Longrightarrow> tx_id ref \<noteq> uuid_Nil"
      "\<And>ref. ro = Some ref \<Longrightarrow> tx_id ref = tx_id t \<Longrightarrow> tx_state ref = StatePending"
    and new: "tx_id t \<notin> lgr_transactionId ` set (db_ledger (w_db st))"
      "tx_id t \<notin> clr_reversalTransactionId ` set (db_claims (w_db st))"
    and taken: "\<And>ref. ro = Some ref \<Longrightarrow> tx_kind t = KindRefund \<or> tx_kind t = KindRollback \<Longrightarrow> tx_state ref = StateProcessed
      \<Longrightarrow> \<not> taken \<Longrightarrow> tx_id ref \<notin> clr_referenceTransactionId ` set (db_claims (w_db st))"
  shows "completes (executePlan rt w t (with_reference ro (plan_of (decide t ro taken))) now c) st (\<lambda>r _. \<not> wr_IdempotentReplay r)"
proof -
  note P = preparedD [OF p]
  have k: "Kind_IsExternal (tx_kind t)" using P(8) by (simp add: external_columns_def)
  have less: "fresh_ids rt st (Suc 0)" by (rule fresh_later [OF P(2) f keys_within_refl]) simp
  show ?thesis
  proof (cases "decide t ro taken")
    case Settle
    then show ?thesis
      using completes_settle [OF p less ro(1)] by (simp add: with_reference_def plan_nil_def)
  next
    case (Refuse code)
    note code = Refuse_code [OF k Refuse]
    show ?thesis
      using completes_rejection [OF p less ro(1) code] code(3) Refuse
      by (simp add: executePlan_def with_reference_def plan_nil_def)
  next
    case Await
    have "tx_referenceExternalTransactionID t \<noteq> ''''"
    proof (cases ro)
      case None
      then show ?thesis
        using Await k P(8) by (auto simp: decide_def Kind_IsExternal_def external_columns_def split: if_splits)
    qed (use none(2) in simp)
    then show ?thesis using completes_wait [OF p less none(1)] Await by (simp add: with_reference_def)
  next
    case (Post dir a consumed claim)
    note D = decide_Post [OF k Post]
    let ?plan = "with_reference ro (plan_of (Post dir a consumed claim))" and ?mv = "\<lparr>mv_direction = dir, mv_amount = a\<rparr>"
    have pl: "pl_referenceID ?plan = reference_id ro" "pl_claim ?plan = claim"
      by (simp_all add: with_reference_def plan_nil_def)
    have ex: "executePlan rt w t (with_reference ro (plan_of (decide t ro taken))) now c = applyMovement rt w t ?plan ?mv now c"
      using Post by (simp add: executePlan_def with_reference_def plan_nil_def)
    have a: "currency a = wal_currency w" "0 < amt a" "bal w + amt a \<le> 9223372036854775807"
      using fits P(14) D(1,6) by simp_all
    have wc: "wal_currency w \<noteq> ''''" using P(7) by (simp add: wallet_ok_def)
    have g: "movement_guard w a now = None" using a wc P(5) by (simp add: movement_guard_def)
    have claimed: "pl_referenceID ?plan \<noteq> uuid_Nil \<and> pl_referenceID ?plan \<noteq> tx_id t
      \<and> pl_referenceID ?plan \<notin> clr_referenceTransactionId ` set (db_claims (w_db st))
      \<and> tx_id t \<notin> clr_reversalTransactionId ` set (db_claims (w_db st))" if "pl_claim ?plan"
    proof -
      have c: "claim" using that pl(2) by simp
      then obtain ref where ref: "ro = Some ref" "tx_state ref = StateProcessed" using D(7) by blast
      have "\<not> taken" by (rule Post_claim_free [OF k]) (use Post c in simp)
      then have "tx_id ref \<notin> clr_referenceTransactionId ` set (db_claims (w_db st))"
        using taken [OF ref(1) _ ref(2)] D(4) c by simp
      moreover have "tx_id ref \<noteq> tx_id t" using ro(3) [OF ref(1)] ref(2) by (auto simp: state_defs)
      ultimately show ?thesis using ro(2) [OF ref(1)] ref(1) new(2) pl(1) by (simp add: reference_id_def)
    qed
    have post: "completes (post_movement rt w (moved w x now) t ?plan ?mv now c) st (\<lambda>r _. \<not> wr_IdempotentReplay r)"
      if "x = (if dir = DirectionCredit then amt a else - amt a)" "0 \<le> bal w + x" for x
      by (rule completes_posting [OF p f W _ a(1,2) that _ _ new(1) claimed])
        (use that a D(5) ro(1) pl in \<open>auto simp: Direction_Valid_def\<close>)
    show ?thesis
    proof (cases "dir = DirectionCredit")
      case True
      then have mw: "move_wallet ?mv w now = Inr (Inr (moved w (amt a) now))"
        using g a by (simp add: Credit_eq [OF P(7)] move_wallet_def)
      show ?thesis
        unfolding ex applyMovement_def
        by (rule completes_lift_bind [OF mw], unfold sum.case, rule post) (use True P(19) a in simp_all)
    next
      case False
      then have dd: "dir = DirectionDebit" using D(5) by simp
      show ?thesis
      proof (cases "bal w < amt a")
        case True
        have code: "FailureCode_Valid code \<and> code \<noteq> FailurePermanentInfrastructure \<and> code \<noteq> ''''"
          if "code = (if tx_kind t \<noteq> KindBet then FailureReversalInsufficientFunds else FailureInsufficientFunds)" for code
          using that by (auto simp: FailureCode_Valid_def failure_defs)
        have mw: "move_wallet ?mv w now = Inr (Inl FErrInsufficientFunds)"
          using g True dd by (simp add: Debit_eq [OF P(7)] move_wallet_def)
        show ?thesis
          unfolding ex applyMovement_def
          by (rule completes_lift_bind [OF mw], unfold sum.case if_P [OF refl] Let_def pl(1),
              rule completes_rejection [OF p less ro(1)]) (use code in blast)+
      next
        case False
        then have mw: "move_wallet ?mv w now = Inr (Inr (moved w (- amt a) now))"
          using g dd by (simp add: Debit_eq [OF P(7)] move_wallet_def)
        show ?thesis
          unfolding ex applyMovement_def
          by (rule completes_lift_bind [OF mw], unfold sum.case, rule post) (use dd False in simp_all)
      qed
    qed
  qed
qed

end
