(* ===== verification/Submission.thy ===== *)
theory Submission
  imports Completion
begin

text \<open>
  A valid submission of any kind completes when the environment works: the lookup of the reference and of its claim,
  the decision and its execution, then \<open>submitNew\<close>, \<open>submitWithinTx\<close> and \<open>SubmitWagerTransaction\<close> of
  \<open>internal/application/service.go\<close>, in the calculus of \<open>Completion\<close>.
\<close>

section \<open>The plan of an operation\<close>

text \<open>Every claim of a reachable database can be read.\<close>

definition claims_readable :: "db \<Rightarrow> bool" where
  "claims_readable d \<longleftrightarrow> (\<forall>r \<in> set (db_claims d). \<exists>c. reversal_claim_ok c \<and> r = claim_to_row c)"

lemma settles_claims:
  assumes "settles u d t t' d'" "claims_readable d"
  shows "claims_readable d'"
  using assms(1)
proof cases
  case (settles_post w ro taken dir a consumed claim now w' eid e d1 d2 d3 d4)
  have "claims_readable d3"
    using settles_post(9,10) assms(2) update_wallet_balance_Inr [OF settles_post(8) [unfolded wallet_saved_def]]
    by (auto simp: claims_readable_def insert_ledger_Inr claimed_for_def insert_claim_Inr NewReversalClaim_Inr_iff
        split: if_splits)
  then show ?thesis
    using persisted_tables [OF settles_post(11)] emitted_others [OF settles_post(12)] by (simp add: claims_readable_def)
qed (use assms(2) persisted_tables emitted_others in \<open>fastforce simp: claims_readable_def\<close>)+

lemma fin_step_claims:
  assumes "fin_step u d d'" "claims_readable d"
  shows "claims_readable d'"
  using assms(1)
proof cases
  case (step_open_positive i p c b now w d1 tid t0 t d2 zero eid e d3)
  then show ?thesis
    using assms(2) emitted_others [OF step_open_positive(10)] insert_transaction_Inr [OF step_open_positive(6)]
    by (auto simp: claims_readable_def insert_wallet_def insert_ledger_Inr res_simps)
next
  case (step_submit p w d1 t')
  have "claims_readable d1"
    using assms(2) insert_transaction_Inr [OF step_submit(4)] by (simp add: claims_readable_def)
  then show ?thesis using settles_claims [OF step_submit(5)] by simp
next
  case (step_recover t t')
  then show ?thesis using settles_claims assms(2) by blast
qed (use assms(2) in \<open>auto simp: claims_readable_def insert_wallet_def res_simps\<close>)

lemma reach_claims: "uuid_lib_ok u \<Longrightarrow> service_reach u d \<Longrightarrow> claims_readable d"
proof -
  assume "uuid_lib_ok u" "service_reach u d"
  then have "fin_reach u d" by (rule service_fin_reach)
  then show "claims_readable d"
    by induction (auto simp: claims_readable_def [of db_empty] intro: fin_step_claims, simp add: db_empty_def)
qed

lemma plan_referenced:
  assumes "Kind_IsExternal (tx_kind t)"
  shows "(case ro of
       Some ref \<Rightarrow> (if \<not> pl_pending (plan_of (decide t ro taken)) \<and> id_IsZero (pl_referenceID (plan_of (decide t ro taken)))
          then tx_return ((plan_of (decide t ro taken))\<lparr>pl_referenceID := tx_id ref\<rparr>)
          else tx_return (plan_of (decide t ro taken)))
     | None \<Rightarrow> tx_return (plan_of (decide t ro taken))) = tx_return (with_reference ro (plan_of (decide t ro taken)))"
proof -
  let ?plan = "plan_of (decide t ro taken)"
  note pr = plan_of_reference [OF assms refl, of ro taken]
  show ?thesis
  proof (cases ro)
    case None
    then have "\<not> pl_pending ?plan \<Longrightarrow> pl_referenceID ?plan = uuid_Nil" using pr by (auto simp: reference_id_def)
    then show ?thesis using None by (auto simp: with_reference_def reference_id_def plan_eta)
  next
    case (Some ref)
    then have "\<not> pl_pending ?plan \<Longrightarrow> pl_referenceID ?plan \<noteq> uuid_Nil \<Longrightarrow> pl_referenceID ?plan = tx_id ref"
      using pr by (auto simp: reference_id_def)
    then show ?thesis using Some by (auto simp: with_reference_def reference_id_def id_IsZero_def plan_eta)
  qed
qed

text \<open>The state of the world but for the number of calls.\<close>

definition same_but_calls :: "world \<Rightarrow> world \<Rightarrow> bool" where
  "same_but_calls st st' \<longleftrightarrow> (\<exists>n. st' = st\<lparr>w_calls := n\<rparr>)"

lemma same_but_calls_refl: "same_but_calls st st"
  unfolding same_but_calls_def by (rule exI [of _ "w_calls st"]) simp

lemma same_but_callsD:
  "same_but_calls st st' \<Longrightarrow> w_db st' = w_db st \<and> w_ids st' = w_ids st \<and> w_status st' = w_status st"
  by (auto simp: same_but_calls_def)

lemma completes_claimed:
  assumes h: "healthy rt" and u: "uuid_lib_ok (rt_uuid rt)" and st: "w_status st \<noteq> AbortedTransaction"
    and r: "claims_readable (w_db st)"
  shows "completes (claims_ByReference rt i) st (\<lambda>co st'. same_but_calls st st'
    \<and> (co = None \<longrightarrow> i \<notin> clr_referenceTransactionId ` set (db_claims (w_db st))))"
proof -
  let ?f = "find (\<lambda>r. clr_referenceTransactionId r = i) (db_claims (w_db st))"
  have call: "db_call rt (select_claim i) st = (Inr ?f, st\<lparr>w_calls := Suc (w_calls st), w_db := w_db st\<rparr>)"
    by (rule db_call_healthy [OF h st]) (simp add: select_claim_def)
  show ?thesis
  proof (cases ?f)
    case None
    then have "i \<notin> clr_referenceTransactionId ` set (db_claims (w_db st))" by (auto simp: find_None_iff)
    then show ?thesis
      using call unfolding None
      by (auto simp: completes_def claims_ByReference_def tx_bind_def scan_row_def same_but_calls_def)
  next
    case (Some row)
    then have "row \<in> set (db_claims (w_db st))" by (simp add: find_Some_in)
    then obtain c where "rehydrateClaim (rt_uuid rt) row = Inr c"
      using r by (auto simp: claims_readable_def rehydrateClaim_Inr_iff [OF u])
    then show ?thesis
      using call unfolding Some
      by (auto simp: completes_def claims_ByReference_def tx_bind_def scan_row_def same_but_calls_def)
  qed
qed

lemma completes_planned:
  assumes h: "healthy rt" and u: "uuid_lib_ok (rt_uuid rt)" and st: "w_status st \<noteq> AbortedTransaction"
    and r: "claims_readable (w_db st)" and k: "Kind_IsExternal (tx_kind t)" and a: "IsInitialized (tx_amount t)"
    and ro: "reference_at (rt_uuid rt) (w_db st) ro"
  shows "completes (planOperation rt t ro) st (\<lambda>plan st'. same_but_calls st st' \<and>
    (\<exists>taken. plan = with_reference ro (plan_of (decide t ro taken)) \<and>
      (\<forall>ref. ro = Some ref \<longrightarrow> tx_kind t = KindRefund \<or> tx_kind t = KindRollback \<longrightarrow> tx_state ref = StateProcessed \<longrightarrow>
        \<not> taken \<longrightarrow> tx_id ref \<notin> clr_referenceTransactionId ` set (db_claims (w_db st)))))"
proof -
  let ?look = "case ro of
         None \<Rightarrow> tx_return False
       | Some ref \<Rightarrow>
           if isClaimingKind (tx_kind t) \<and> tx_state ref = StateProcessed
           then tx_bind (claims_ByReference rt (tx_id ref)) (\<lambda>c. tx_return (c \<noteq> None))
           else tx_return False"
  have look: "completes ?look st (\<lambda>taken st'. same_but_calls st st' \<and>
      (\<forall>ref. ro = Some ref \<longrightarrow> tx_kind t = KindRefund \<or> tx_kind t = KindRollback \<longrightarrow> tx_state ref = StateProcessed \<longrightarrow>
        \<not> taken \<longrightarrow> tx_id ref \<notin> clr_referenceTransactionId ` set (db_claims (w_db st))))"
  proof (cases ro)
    case None
    show ?thesis unfolding None option.case by (rule completes_return) (simp add: same_but_calls_refl)
  next
    case (Some ref)
    show ?thesis
    proof (cases "isClaimingKind (tx_kind t) \<and> tx_state ref = StateProcessed")
      case True
      show ?thesis
        unfolding Some option.case if_P [OF True]
        by (rule completes_bind [OF completes_claimed [OF h u st r]], rule completes_return) auto
    next
      case False
      show ?thesis
        unfolding Some option.case if_not_P [OF False]
        by (rule completes_return) (use False in \<open>auto simp: same_but_calls_refl isClaimingKind_def\<close>)
    qed
  qed
  note c = classify_eq [OF k reference_at_valid(1) [OF u ro] a]
  show ?thesis
    unfolding planOperation_def c map_err_simps
    apply (rule completes_bind [OF look], rule completes_lift_bind [OF refl])
    unfolding plan_referenced [OF k]
    apply (rule completes_return)
    subgoal premises t for taken st' using t by (intro conjI exI [of _ taken] refl) simp_all
    done
qed

text \<open>Loading the reference gives it, or reports a row that cannot be read.\<close>

lemma rehydrate_corrupt:
  "rehydrateTransaction u r = Inl e \<Longrightarrow> errors_Is e ErrCorruptPersistedRecord"
proof -
  have i: "corrupt_id u i = Inl e \<Longrightarrow> errors_Is e ErrCorruptPersistedRecord" for i
    by (auto simp: corrupt_id_def res_simps)
  have m: "corrupt_money b c = Inl e \<Longrightarrow> errors_Is e ErrCorruptPersistedRecord" for b c
    by (auto simp: corrupt_money_def res_simps)
  have b: "(\<And>x. f x = Inl e \<Longrightarrow> errors_Is e ErrCorruptPersistedRecord) \<Longrightarrow> (a = Inl e \<Longrightarrow> errors_Is e ErrCorruptPersistedRecord)
      \<Longrightarrow> res_bind a f = Inl e \<Longrightarrow> errors_Is e ErrCorruptPersistedRecord" for a :: "app_error + 'x" and f :: "'x \<Rightarrow> app_error + 'y"
    by (auto simp: res_simps)
  assume "rehydrateTransaction u r = Inl e"
  then show ?thesis
    unfolding rehydrateTransaction_def
    by (elim b [rotated 2]; (elim i m)?) (auto simp: res_simps dest: i m split: option.splits)
qed

lemma loadReference_healthy:
  assumes h: "healthy rt" and u: "uuid_lib_ok (rt_uuid rt)" and st: "w_status st \<noteq> AbortedTransaction"
    and n: "needsReference t"
  obtains ro st' where "loadReference rt t st = (Inr ro, st')" "same_but_calls st st'"
  | e st' where "loadReference rt t st = (Inl e, st')" "same_but_calls st st'" "errors_Is e ErrCorruptPersistedRecord"
proof -
  let ?P = "\<lambda>r. txr_providerId r = Some (tx_providerID t) \<and> txr_externalTransactionId r = Some (tx_referenceExternalTransactionID t)"
  let ?f = "find ?P (db_transactions (w_db st))"
  have call: "db_call rt (select_transaction ?P) st = (Inr ?f, st\<lparr>w_calls := Suc (w_calls st), w_db := w_db st\<rparr>)"
    by (rule db_call_healthy [OF h st]) (simp add: select_transaction_def)
  have s: "same_but_calls st (st\<lparr>w_calls := Suc (w_calls st), w_db := w_db st\<rparr>)"
    by (auto simp: same_but_calls_def)
  have l: "loadReference rt t st = (scanTransaction (rt_uuid rt) ?f, st\<lparr>w_calls := Suc (w_calls st), w_db := w_db st\<rparr>)"
    using n call by (simp add: loadReference_def transactions_ByProviderAndExternalID_def tx_bind_def)
  show ?thesis
  proof (cases "scanTransaction (rt_uuid rt) ?f")
    case (Inl e)
    then have "errors_Is e ErrCorruptPersistedRecord"
      by (auto simp: scanTransaction_def scanTransactionWithAttempts_def scan_row_def res_simps rehydrate_corrupt split: option.splits)
    then show ?thesis using that(2) l s Inl by simp
  next
    case (Inr ro)
    then show ?thesis using that(1) l s by simp
  qed
qed

section \<open>Executing a new transaction\<close>

lemma prepared_same: "same_but_calls st st' \<Longrightarrow> prepared rt w t now c st \<Longrightarrow> prepared rt w t now c st'"
  by (auto simp: same_but_calls_def prepared_def)

lemma fresh_ids_same: "same_but_calls st st' \<Longrightarrow> fresh_ids rt st k \<Longrightarrow> fresh_ids rt st' k"
  by (auto simp: same_but_calls_def fresh_ids_def)

text \<open>The wallet of a transaction as it is locked, with the room that its credit needs.\<close>

definition locked_for :: "wallet \<Rightarrow> wager \<Rightarrow> db \<Rightarrow> bool" where
  "locked_for w t d \<longleftrightarrow>
     wallet_to_row w \<in> set (db_wallets d) \<and> distinct (map wlr_id (db_wallets d)) \<and> currencyPattern (wal_currency w)
     \<and> sint (wal_version w) < 9223372036854775807 \<and> wal_id w \<noteq> uuid_Nil
     \<and> bal w + amt (tx_amount t) \<le> 9223372036854775807 \<and> (tx_kind t \<noteq> KindLoss \<longrightarrow> 0 < amt (tx_amount t))
     \<and> tx_referenceTransactionID t = uuid_Nil \<and> claims_readable d
     \<and> tx_id t \<notin> lgr_transactionId ` set (db_ledger d) \<and> tx_id t \<notin> clr_reversalTransactionId ` set (db_claims d)"

lemma reference_facts:
  assumes u: "uuid_lib_ok u" and ro: "reference_at u d ro" and own: "stored_as t d" and t: "tx_state t = StatePending"
  shows "known_id (reference_id ro) d" "\<And>ref. ro = Some ref \<Longrightarrow> tx_id ref = tx_id t \<Longrightarrow> tx_state ref = StatePending"
proof -
  have row: "\<exists>r \<in> set (db_transactions d). txr_id r = tx_id ref \<and> txr_state r = tx_state ref" if "ro = Some ref" for ref
    using ro that rehydrate_fields(1,3) [OF u] by (fastforce simp: reference_at_def tx_at_def)
  show "known_id (reference_id ro) d"
  proof (cases ro)
    case (Some ref)
    with row [OF Some] have "tx_id ref \<in> txr_id ` set (db_transactions d)" by (metis imageI)
    then show ?thesis using Some by (simp add: known_id_def reference_id_def)
  qed (simp add: known_id_def reference_id_def)
  show "tx_state ref = StatePending" if "ro = Some ref" "tx_id ref = tx_id t" for ref
  proof -
    from row [OF that(1)] obtain r where r: "r \<in> set (db_transactions d)" "txr_id r = tx_id ref" "txr_state r = tx_state ref"
      by blast
    then have "r = wager_to_row t" using own that(2) by (simp add: stored_as_def)
    then show ?thesis using r(3) t by (simp add: wager_to_row_def)
  qed
qed

lemma completes_executed:
  assumes p: "prepared rt w t now c st" and f: "fresh_ids rt st (Suc (Suc (Suc (Suc k))))" and L: "locked_for w t (w_db st)"
    and ro: "reference_at (rt_uuid rt) (w_db st) ro" "ro \<noteq> None \<Longrightarrow> needsReference t"
  shows "completes (executeWithReference rt w t ro now c) st (\<lambda>r _. \<not> wr_IdempotentReplay r)"
proof -
  note P = preparedD [OF p] and R = reference_facts [OF preparedD(2) [OF p] ro(1) preparedD(15) [OF p] preparedD(10) [OF p]]
  have k: "Kind_IsExternal (tx_kind t)" using P(8) by (simp add: external_columns_def)
  have cr: "claims_readable (w_db st)" using L by (simp add: locked_for_def)
  have none: "ro \<noteq> None \<Longrightarrow> tx_referenceExternalTransactionID t \<noteq> ''''"
    using ro(2) by (simp add: needsReference_def text_IsZero_def)
  show ?thesis
    unfolding executeWithReference_def
  proof (rule completes_bind [OF completes_planned [OF P(1,2,3) cr k P(17) ro(1)]], elim conjE exE)
    fix plan st' taken
    assume s: "same_but_calls st st'" and pl: "plan = with_reference ro (plan_of (decide t ro taken))"
      and taken: "\<forall>ref. ro = Some ref \<longrightarrow> tx_kind t = KindRefund \<or> tx_kind t = KindRollback \<longrightarrow>
        tx_state ref = StateProcessed \<longrightarrow> \<not> taken \<longrightarrow> tx_id ref \<notin> clr_referenceTransactionId ` set (db_claims (w_db st))"
    have d: "w_db st' = w_db st" using same_but_callsD [OF s] by simp
    show "completes (executePlan rt w t plan now c) st' (\<lambda>r _. \<not> wr_IdempotentReplay r)"
      unfolding pl
      by (rule completes_plan [OF prepared_same [OF s p] fresh_ids_same [OF s f]])
        (use L R reference_at_valid(2) [OF P(2) ro(1)] taken none in \<open>simp_all add: d locked_for_def\<close>)
  qed
qed

lemma completes_resolved:
  assumes p: "prepared rt w t now c st" and f: "fresh_ids rt st (Suc (Suc (Suc (Suc k))))" and L: "locked_for w t (w_db st)"
  shows "completes (resolveAndExecute rt w t now c) st (\<lambda>r _. \<not> wr_IdempotentReplay r)"
proof (cases "needsReference t")
  case False
  then have "resolveAndExecute rt w t now c = executeWithReference rt w t None now c" by (simp add: resolveAndExecute_def)
  then show ?thesis using completes_executed [OF p f L, of None] by (simp add: reference_at_def)
next
  case True
  note P = preparedD [OF p]
  show ?thesis
  proof (rule loadReference_healthy [OF P(1,2,3) True])
    fix ro st'
    assume l: "loadReference rt t st = (Inr ro, st')" and s: "same_but_calls st st'"
    note S = same_but_callsD [OF s]
    have "completes (executeWithReference rt w t ro now c) st' (\<lambda>r _. \<not> wr_IdempotentReplay r)"
      by (rule completes_executed [OF prepared_same [OF s p] fresh_ids_same [OF s f]])
        (use L True S loadReference_Inr [OF l] in simp_all)
    then show ?thesis using l True S by (auto simp: completes_def resolveAndExecute_def)
  next
    fix e st'
    assume l: "loadReference rt t st = (Inl e, st')" and s: "same_but_calls st st'"
      and e: "errors_Is e ErrCorruptPersistedRecord"
    note S = same_but_callsD [OF s]
    have "completes (persist_failure rt w t now) st' (\<lambda>r _. \<not> wr_IdempotentReplay r)"
      by (rule completes_failure [OF prepared_same [OF s p] fresh_ids_same [OF s f]]) (use L in \<open>simp add: locked_for_def\<close>)
    then show ?thesis using l e True S by (auto simp: completes_def resolveAndExecute_def)
  qed
qed

section \<open>Submitting\<close>

text \<open>A command whose key and external identity its provider has not used.\<close>

definition unseen :: "submit_command \<Rightarrow> db \<Rightarrow> bool" where
  "unseen cmd d \<longleftrightarrow> (\<forall>r \<in> set (db_transactions d). txr_providerId r = Some (sc_ProviderID cmd) \<longrightarrow>
      txr_idempotencyKey r \<noteq> Some (sc_IdempotencyKey cmd)
      \<and> txr_externalTransactionId r \<noteq> Some (sc_ExternalTransactionID cmd))"

text \<open>The environment of a submission: a valid command for a wallet that has room for it.\<close>

definition admissible :: "runtime \<Rightarrow> submit_command \<Rightarrow> wallet \<Rightarrow> world \<Rightarrow> bool" where
  "admissible rt cmd w st \<longleftrightarrow>
     healthy rt \<and> uuid_lib_ok (rt_uuid rt) \<and> (\<forall>n. 0 < rt_Now rt n) \<and> w_status st \<noteq> AbortedTransaction
     \<and> fin_inv (w_db st) \<and> claims_readable (w_db st) \<and> submit_ok cmd \<and> unseen cmd (w_db st)
     \<and> wallet_at (rt_uuid rt) (w_db st) (sc_WalletID cmd) w \<and> wal_currency w = currency (sc_Amount cmd)
     \<and> sint (wal_version w) < 9223372036854775807 \<and> bal w + amt (sc_Amount cmd) \<le> 9223372036854775807"

lemma inserted_transaction:
  assumes a: "admissible rt cmd w st" and f: "unused_id (rt_uuid rt) (w_db st) i" and g: "hex64 g" and now: "0 < now"
  defines "t \<equiv> external_wager (params_of cmd i DigestVersion g now)"
  shows "NewExternalTransaction (params_of cmd i DigestVersion g now) = Inr t"
    and "insert_transaction (wager_to_row t) (w_db st)
      = Inr ((), (w_db st)\<lparr>db_transactions := db_transactions (w_db st) @ [wager_to_row t]\<rparr>)"
    and "w_db st' = (w_db st)\<lparr>db_transactions := db_transactions (w_db st) @ [wager_to_row t]\<rparr> \<Longrightarrow>
      w_status st' \<noteq> AbortedTransaction \<Longrightarrow> c \<noteq> '''' \<Longrightarrow> prepared rt w t now c st' \<and> locked_for w t (w_db st')"
proof -
  have A: "healthy rt" "uuid_lib_ok (rt_uuid rt)" "fin_inv (w_db st)" "claims_readable (w_db st)" "submit_ok cmd"
    "unseen cmd (w_db st)" "wallet_at (rt_uuid rt) (w_db st) (sc_WalletID cmd) w" "wal_currency w = currency (sc_Amount cmd)"
    "sint (wal_version w) < 9223372036854775807" "bal w + amt (sc_Amount cmd) \<le> 9223372036854775807"
    using a by (simp_all add: admissible_def)
  note W = wallet_atD [OF A(2,7)]
  have i: "i \<noteq> uuid_Nil" "i \<notin> txr_id ` set (db_transactions (w_db st))"
    using f by (auto simp: unused_id_def)
  have p: "external_params_ok (params_of cmd i DigestVersion g now)"
    using A(5) i(1) now hex64_nonempty [OF g] by (simp add: params_of_ok DigestVersion_def)
  then show "NewExternalTransaction (params_of cmd i DigestVersion g now) = Inr t"
    by (simp add: NewExternalTransaction_Inr_iff t_def)
  have W2: "wallet_ok w" "currencyPattern (wal_currency w)" using W(3) by (simp_all add: wallet_db_ok_def)
  have cols: "external_columns t" unfolding t_def using external_wager_columns [OF A(5) _ g i(1)] W2 A(8) by simp
  have T: "tx_state t = StatePending" "tx_failureCode t = ''''" "tx_observedBalance t = money_nil"
    "tx_referenceTransactionID t = uuid_Nil" "wager_init t" "tx_id t = i" "tx_amount t = sc_Amount cmd"
    "tx_walletID t = sc_WalletID cmd" "tx_kind t = sc_Kind cmd" "sc_Kind cmd \<noteq> KindLoss \<longrightarrow> 0 < amt (sc_Amount cmd)"
    using A(5) i(1) by (auto simp: external_wager_def params_of_def submit_ok_def amount_rule_def
        wager_init_def State_Valid_def Kind_IsExternal_def Kind_Valid_def t_def)
  have R: "txr_id (wager_to_row t) = i" "txr_providerId (wager_to_row t) = Some (sc_ProviderID cmd)"
    "txr_idempotencyKey (wager_to_row t) = Some (sc_IdempotencyKey cmd)"
    "txr_externalTransactionId (wager_to_row t) = Some (sc_ExternalTransactionID cmd)"
    "txr_kind (wager_to_row t) \<noteq> KindOpening" "txr_walletId (wager_to_row t) = sc_WalletID cmd"
    "txr_referenceTransactionId (wager_to_row t) = None"
    using A(5) T(4) by (auto simp: wager_to_row_def submit_ok_def nullString_def nullUUID_def id_IsZero_def t_def
        external_wager_def params_of_def Kind_IsExternal_def)
  have "sc_WalletID cmd \<in> set (map wlr_id (db_wallets (w_db st)))"
    using W(1,2) by (force simp: wallet_to_row_def)
  then show "insert_transaction (wager_to_row t) (w_db st)
      = Inr ((), (w_db st)\<lparr>db_transactions := db_transactions (w_db st) @ [wager_to_row t]\<rparr>)"
    unfolding insert_transaction_def res_simps R
    using pending_row_checked [OF cols T(1,2,3)] A(6) i(2) R(5) by (auto simp: unseen_def)
  assume d: "w_db st' = (w_db st)\<lparr>db_transactions := db_transactions (w_db st) @ [wager_to_row t]\<rparr>"
    and s: "w_status st' \<noteq> AbortedTransaction" "c \<noteq> ''''"
  have own: "stored_as t (w_db st')" using i(2) by (auto simp: stored_as_def d T(6) R(1))
  have "set (map lgr_transactionId (db_ledger (w_db st))) = txr_id ` {r \<in> set (db_transactions (w_db st)). posts r}"
    using A(3) by (simp add: fin_inv_def postings_inv_def)
  then have nl: "i \<notin> lgr_transactionId ` set (db_ledger (w_db st))" using i(2) by auto
  have cl: "i \<notin> clr_reversalTransactionId ` set (db_claims (w_db st))"
  proof
    assume "i \<in> clr_reversalTransactionId ` set (db_claims (w_db st))"
    then obtain k where "k \<in> set (db_claims (w_db st))" "clr_reversalTransactionId k = i" by blast
    then have "(clr_referenceTransactionId k, i)
        \<in> set (map (\<lambda>c. (clr_referenceTransactionId c, clr_reversalTransactionId c)) (db_claims (w_db st)))" by force
    then have "\<exists>r \<in> set (db_transactions (w_db st)). txr_id r = i \<and> reverses r (clr_referenceTransactionId k)"
      using A(3) by (simp only: fin_inv_def claims_inv_def)
    then show False using i(2) by blast
  qed
  have "sc_WalletID cmd \<noteq> uuid_Nil" using A(5) by (simp add: submit_ok_def)
  then show "prepared rt w t now c st' \<and> locked_for w t (w_db st')"
    using A W W2 T cols own nl cl s now
    by (simp add: prepared_def locked_for_def d fin_inv_def keys_inv_def claims_readable_def)
qed

lemma fresh_first: "fresh_ids rt st (Suc k) \<Longrightarrow> unused_id (rt_uuid rt) (w_db st) (id_at rt (w_ids st))"
  unfolding fresh_ids_def list_all_iff by (elim conjE, erule bspec) auto

lemma completes_submit_new:
  assumes a: "admissible rt cmd w st" and c: "c \<noteq> ''''" and g: "hex64 g"
    and fresh: "fresh_ids rt st (Suc (Suc (Suc (Suc (Suc k)))))"
  shows "completes (submit_new rt cmd g c) st (\<lambda>r _. \<not> wr_IdempotentReplay r)"
proof -
  let ?i = "id_at rt (w_ids st)" and ?now = "rt_Now rt (w_ticks st)"
  let ?t = "external_wager (params_of cmd ?i DigestVersion g ?now)"
  let ?st1 = "st\<lparr>w_calls := Suc (w_calls st), w_ticks := Suc (w_ticks st), w_ids := Suc (w_ids st)\<rparr>"
  let ?d = "(w_db st)\<lparr>db_transactions := db_transactions (w_db st) @ [wager_to_row ?t]\<rparr>"
  let ?st2 = "?st1\<lparr>w_calls := Suc (w_calls ?st1), w_db := ?d\<rparr>"
  have A: "healthy rt" "uuid_lib_ok (rt_uuid rt)" "w_status st \<noteq> AbortedTransaction" "0 < ?now"
    "wallet_at (rt_uuid rt) (w_db st) (sc_WalletID cmd) w" "wal_currency w = currency (sc_Amount cmd)"
    using a by (simp_all add: admissible_def)
  note F = fresh_idsD [OF fresh, of "w_ids st", simplified]
  note I = inserted_transaction [OF a fresh_first [OF fresh] g A(4)]
  have ins: "transactions_Insert rt ?t ?st1 = (Inr (), ?st2)"
    unfolding transactions_Insert_def using A(3) I(2) by (intro db_call_healthy [OF A(1)]) simp_all
  have p: "prepared rt w ?t ?now c ?st2" "locked_for w ?t (w_db ?st2)"
    using I(3) [of ?st2 c] A(3) c by simp_all
  have "txr_id (wager_to_row ?t) = ?i" by (simp add: wager_to_row_def external_wager_def params_of_def)
  then have "keys_within rt st ?st2" by (auto simp: keys_within_def used_ids_def used_events_def issued_def)
  then have "fresh_ids rt ?st2 (Suc (Suc (Suc (Suc k))))" by (rule fresh_later [OF A(2) fresh]) simp
  from completes_resolved [OF p(1) this p(2)] obtain r st' where
    X: "resolveAndExecute rt w ?t ?now c ?st2 = (Inr r, st')" "w_status st' = w_status ?st2" "\<not> wr_IdempotentReplay r"
    by (rule completesE)
  have "submit_new rt cmd g c st = (Inr r, st')"
    using X(1) wallets_LockByID_healthy [OF A(1,3,5)] A(6) I(1) ins F(2)
    by (simp add: submit_new_def tx_bind_def clock_Now_def new_id_healthy)
  then show ?thesis using X(2,3) by (auto simp: completes_def)
qed

lemma completes_submitWithinTx:
  assumes a: "admissible rt cmd w st" and c: "c \<noteq> ''''" and g: "hex64 g"
    and fresh: "fresh_ids rt st (Suc (Suc (Suc (Suc (Suc k)))))"
  shows "completes (submitWithinTx rt cmd g c) st (\<lambda>r _. \<not> wr_IdempotentReplay r)"
proof -
  let ?st2 = "st\<lparr>w_calls := Suc (Suc (w_calls st))\<rparr>"
  have A: "healthy rt" "w_status st \<noteq> AbortedTransaction" "unseen cmd (w_db st)" using a by (simp_all add: admissible_def)
  have "admissible rt cmd w ?st2" using a by (simp add: admissible_def)
  moreover have "fresh_ids rt ?st2 (Suc (Suc (Suc (Suc (Suc k)))))" by (rule fresh_ids_sub [OF fresh]) simp_all
  ultimately obtain r st' where X: "submit_new rt cmd g c ?st2 = (Inr r, st')" "w_status st' = w_status ?st2"
    "\<not> wr_IdempotentReplay r" by (rule completesE [OF completes_submit_new [OF _ c g]])
  have "find (\<lambda>r. txr_providerId r = Some (sc_ProviderID cmd) \<and> txr_idempotencyKey r = Some (sc_IdempotencyKey cmd))
      (db_transactions (w_db st)) = None"
    "find (\<lambda>r. txr_providerId r = Some (sc_ProviderID cmd)
      \<and> txr_externalTransactionId r = Some (sc_ExternalTransactionID cmd)) (db_transactions (w_db st)) = None"
    using A(3) by (auto simp: find_None_iff unseen_def)
  then have "submitWithinTx rt cmd g c st = (Inr r, st')"
    using X(1) A(2) by (simp add: submitWithinTx_def transactions_ByProviderAndKey_def
        transactions_ByProviderAndExternalID_def tx_bind_def [of "tx_bind _ _"] lookup_healthy [OF A(1)])
  then show ?thesis using X(2,3) by (auto simp: completes_def)
qed

lemma SubmitWagerTransaction_completes:
  assumes a: "admissible rt cmd w (started st)" and fresh: "fresh_ids rt st 6"
  shows "\<exists>r st'. SubmitWagerTransaction rt cmd st = (Inr r, st') \<and> \<not> wr_IdempotentReplay r"
proof -
  let ?g = "DigestOf (rt_uuid rt) (projection cmd)"
  have A: "healthy rt" "uuid_lib_ok (rt_uuid rt)" "SubmitWagerCommand_Validate cmd = Inr ()"
    using a by (simp_all add: admissible_def SubmitWagerCommand_Validate_Inr)
  obtain c n where c: "correlationOrNew rt (sc_CorrelationID cmd) st = (Inr c, st\<lparr>w_ids := n\<rparr>)" "c \<noteq> ''''"
      "w_ids st \<le> n" "n \<le> Suc (w_ids st)"
    by (rule correlationOrNew_healthy [OF A(1,2), of "sc_CorrelationID cmd" st])
  let ?st1 = "started (st\<lparr>w_ids := n\<rparr>)"
  have "admissible rt cmd w ?st1" using a by (simp add: admissible_def started_def)
  moreover have "fresh_ids rt ?st1 (Suc (Suc (Suc (Suc (Suc 0)))))"
    by (rule fresh_ids_sub [OF fresh]) (use c(3,4) in \<open>simp_all add: started_def\<close>)
  ultimately obtain r st' where X: "submitWithinTx rt cmd ?g c ?st1 = (Inr r, st')" "w_status st' = w_status ?st1"
    "\<not> wr_IdempotentReplay r" by (rule completesE [OF completes_submitWithinTx [OF _ c(2) DigestOf_hex64]])
  then have "submit_attempt rt cmd ?g c (st\<lparr>w_ids := n\<rparr>) = (Inr r, st'\<lparr>w_calls := Suc (w_calls st'), w_status := Autocommit\<rparr>)"
    unfolding submit_attempt_def
    by (intro InTx_healthy [OF A(1)]) (use healthyD(3) [OF A(1)] in \<open>simp_all add: tx_bind_def hitFailpoint_def\<close>)
  then have "SubmitWagerTransaction rt cmd st = (Inr r, st'\<lparr>w_calls := Suc (w_calls st'), w_status := Autocommit\<rparr>)"
    using A(3) c(1) by (simp add: SubmitWagerTransaction_def tx_bind_def Let_def maxConcurrentWriteRetries_def numeral_3_eq_3)
  then show ?thesis using X(3) by blast
qed

text \<open>
  C12: every new submission completes. On every reachable database, in a working environment, a valid command of any
  kind on a wallet of its currency, with a key and an external identity that its provider has not used, returns a fresh
  result, whatever the state of the transaction it references: missing, unsettled, rejected, of another wallet, undone
  before or unreadable. Only a credit that exceeds the range of a balance is left out; a bet needs no such bound, and
  its result is PROCESSED with the balance less the amount when the balance covers it, and otherwise REJECTED for
  insufficient funds with the balance untouched.
\<close>

theorem submission_completes:
  assumes "healthy rt" and "uuid_lib_ok (rt_uuid rt)" and "service_reach (rt_uuid rt) (w_db st)" and "\<forall>n. 0 < rt_Now rt n"
    and "SubmitWagerCommand_Validate cmd = Inr ()"
    and "wallet_at (rt_uuid rt) (w_db st) (sc_WalletID cmd) w" and "wal_currency w = currency (sc_Amount cmd)"
    and "sint (wal_version w) < 9223372036854775807"
    and "sc_Kind cmd = KindBet \<or> bal w + amt (sc_Amount cmd) \<le> 9223372036854775807"
    and "\<forall>r \<in> set (db_transactions (w_db st)). txr_providerId r = Some (sc_ProviderID cmd) \<longrightarrow>
      txr_idempotencyKey r \<noteq> Some (sc_IdempotencyKey cmd)
      \<and> txr_externalTransactionId r \<noteq> Some (sc_ExternalTransactionID cmd)"
    and "fresh_ids rt st 6"
  shows "\<exists>r st'. SubmitWagerTransaction rt cmd st = (Inr r, st')
    \<and> \<not> wr_IdempotentReplay r \<and> (sc_Kind cmd = KindBet \<longrightarrow> bet_outcome w (sc_Amount cmd) r)"
proof (cases "sc_Kind cmd = KindBet")
  case True
  have "fresh_ids rt st 5" by (rule fresh_ids_sub [OF assms(11)]) simp_all
  from SubmitWagerTransaction_bet [OF assms(1,2) service_reach_inv(1) [OF assms(2,3)] assms(5) True assms(6,7,8,10) this]
  show ?thesis by blast
next
  case False
  have "admissible rt cmd w (started st)"
    using assms False service_reach_inv(1) [OF assms(2,3)] reach_claims [OF assms(2,3)]
    by (simp add: admissible_def unseen_def SubmitWagerCommand_Validate_Inr)
  from SubmitWagerTransaction_completes [OF this assms(11)] show ?thesis using False by blast
qed

text \<open>A refund whose reference was never seen.\<close>

definition sample_refund :: submit_command where
  "sample_refund = sample_bet\<lparr>sc_Kind := KindRefund, sc_ReferenceExternalID := ''bet-0''\<rparr>"

theorem submission_completes_witness:
  "(\<exists>r st'. SubmitWagerTransaction later_runtime sample_refund (sample_world sample_opened) = (Inr r, st')
     \<and> \<not> wr_IdempotentReplay r)
   \<and> (\<exists>r st'. SubmitWagerTransaction later_runtime sample_bet (sample_world sample_opened) = (Inr r, st')
     \<and> wr_State r = StateProcessed \<and> amt (wr_ObservedBalance r) = 700)"
proof -
  have none: "\<forall>r \<in> set (db_transactions sample_opened). txr_providerId r = None" by code_simp
  have ok: "SubmitWagerCommand_Validate sample_refund = Inr ()" "SubmitWagerCommand_Validate sample_bet = Inr ()"
    by code_simp+
  have env: "fresh_ids later_runtime (sample_world sample_opened) 6" by code_simp
  have now: "\<forall>n. 0 < rt_Now later_runtime n" by (simp add: later_runtime_def sample_runtime_def)
  note sample = none ok env now sample_healthy sample_reach(2) dec_uuid_lib_ok sample_wallet sample_world_db
  show ?thesis
  proof
    show "\<exists>r st'. SubmitWagerTransaction later_runtime sample_refund (sample_world sample_opened) = (Inr r, st')
        \<and> \<not> wr_IdempotentReplay r"
      using submission_completes [of later_runtime "sample_world sample_opened" sample_refund] sample
      by (fastforce simp: sample_refund_def sample_bet_def)
    show "\<exists>r st'. SubmitWagerTransaction later_runtime sample_bet (sample_world sample_opened) = (Inr r, st')
        \<and> wr_State r = StateProcessed \<and> amt (wr_ObservedBalance r) = 700"
      using submission_completes [of later_runtime "sample_world sample_opened" sample_bet] sample
      by (fastforce simp: sample_bet_def bet_outcome_def)
  qed
qed

end
