(* ===== verification/Reads.thy ===== *)
theory Reads
  imports Guarantees
begin

text \<open>
  The read side: \<open>internal/application/pagination.go\<close>, \<open>reconciliation.go\<close>, the read use cases of
  \<open>service.go\<close> and \<open>internal/adapters/postgres/reconciliation.go\<close>. The JSON text of a cursor payload
  (\<open>encoding/json\<close> of a struct with a \<open>time.Time\<close>) is a parameter of which \<open>cursor_json_ok\<close> states the
  round trip; the base64 alphabet without padding is written out. The properties: following the
  cursors from the first page yields the ledger of a wallet, every entry once and in order; and a
  reconciliation of a reachable database reports no difference.
\<close>

section \<open>Cursors\<close>

definition LedgerDefaultLimit :: int where "LedgerDefaultLimit = 50"
definition LedgerMaxLimit :: int where "LedgerMaxLimit = 100"
definition ledgerCursorVersion :: int where "ledgerCursorVersion = 1"

type_synonym ledger_cursor = "time \<times> ledger_entry_id"

record cursor_payload =
  cp_Version :: int
  cp_CreatedAt :: time
  cp_ID :: string

text \<open>
  \<open>json.Marshal\<close> and \<open>json.Unmarshal\<close> at the payload type. Marshalling fails for an instant outside
  the years 0 to 9999.
\<close>

record cursor_json =
  cj_Marshal :: "cursor_payload \<Rightarrow> string option"
  cj_Unmarshal :: "string \<Rightarrow> cursor_payload option"

definition cursor_json_ok :: "cursor_json \<Rightarrow> bool" where
  "cursor_json_ok j \<longleftrightarrow>
     (\<forall>p s. cj_Marshal j p = Some s \<longrightarrow> s \<noteq> '''' \<and> cj_Unmarshal j s = Some p)"

text \<open>\<open>base64.RawURLEncoding\<close> on the bytes of a string.\<close>

definition b64_alphabet :: string where
  "b64_alphabet = ''ABCDEFGHIJKLMNOPQRSTUVWXYZabcdefghijklmnopqrstuvwxyz0123456789-_''"

definition b64_char :: "nat \<Rightarrow> char" where "b64_char n = b64_alphabet ! n"

fun index_of :: "'a \<Rightarrow> 'a list \<Rightarrow> nat option" where
  "index_of x [] = None"
| "index_of x (y # ys) = (if x = y then Some 0 else map_option Suc (index_of x ys))"

fun b64_encode :: "nat list \<Rightarrow> string" where
  "b64_encode [] = ''''"
| "b64_encode [a] = [b64_char (a div 4), b64_char (a mod 4 * 16)]"
| "b64_encode [a, b] = [b64_char (a div 4), b64_char (a mod 4 * 16 + b div 16), b64_char (b mod 16 * 4)]"
| "b64_encode (a # b # c # bs) =
     [b64_char (a div 4), b64_char (a mod 4 * 16 + b div 16), b64_char (b mod 16 * 4 + c div 64),
      b64_char (c mod 64)] @ b64_encode bs"

text \<open>Decoding skips carriage returns and line feeds and does not look at the spare bits of the end.\<close>

fun b64_decode_values :: "nat list \<Rightarrow> nat list option" where
  "b64_decode_values [] = Some []"
| "b64_decode_values [v] = None"
| "b64_decode_values [v, w] = Some [v * 4 + w div 16]"
| "b64_decode_values [v, w, x] = Some [v * 4 + w div 16, w mod 16 * 16 + x div 4]"
| "b64_decode_values (v # w # x # y # vs) =
     map_option (\<lambda>bs. [v * 4 + w div 16, w mod 16 * 16 + x div 4, x mod 4 * 64 + y] @ bs) (b64_decode_values vs)"

fun b64_values :: "string \<Rightarrow> nat list option" where
  "b64_values [] = Some []"
| "b64_values (c # cs) =
     (if byte_of c = 10 \<or> byte_of c = 13 then b64_values cs
      else case index_of c b64_alphabet of
        None \<Rightarrow> None
      | Some v \<Rightarrow> map_option (Cons v) (b64_values cs))"

definition RawURL_EncodeToString :: "string \<Rightarrow> string" where
  "RawURL_EncodeToString s = b64_encode (map byte_of s)"

definition RawURL_DecodeString :: "string \<Rightarrow> string option" where
  "RawURL_DecodeString s =
     map_option (map char_of) (Option.bind (b64_values s) b64_decode_values)"

text \<open>A payload that cannot be marshalled panics.\<close>

definition EncodeLedgerCursor :: "uuid_lib \<Rightarrow> cursor_json \<Rightarrow> ledger_cursor \<Rightarrow> app_error + string" where
  "EncodeLedgerCursor u j cursor =
     (case cj_Marshal j \<lparr>cp_Version = ledgerCursorVersion, cp_CreatedAt = time_UTC (fst cursor),
         cp_ID = uuid_String u (snd cursor)\<rparr> of
        None \<Rightarrow> Inl Panicked
      | Some payload \<Rightarrow> Inr (RawURL_EncodeToString payload))"

datatype cursor_error = CursorNotBase64 | CursorNotJSON | CursorVersion | CursorNoTime | CursorNoID

definition DecodeLedgerCursor :: "uuid_lib \<Rightarrow> cursor_json \<Rightarrow> string \<Rightarrow> cursor_error + ledger_cursor" where
  "DecodeLedgerCursor u j raw =
     (case RawURL_DecodeString raw of
        None \<Rightarrow> Inl CursorNotBase64
      | Some decoded \<Rightarrow>
          (case cj_Unmarshal j decoded of
             None \<Rightarrow> Inl CursorNotJSON
           | Some payload \<Rightarrow>
               if cp_Version payload \<noteq> ledgerCursorVersion then Inl CursorVersion
               else if time_IsZero (cp_CreatedAt payload) then Inl CursorNoTime
               else res_bind (ParseLedgerEntryID u (cp_ID payload) CursorNoID) (\<lambda>i.
                 Inr (time_UTC (cp_CreatedAt payload), i))))"

section \<open>Read use cases\<close>

definition WalletByID :: "runtime \<Rightarrow> wallet_id \<Rightarrow> wallet_view tx" where
  "WalletByID rt i =
     (if id_IsZero i then tx_fail (contractError CodeInvalidRequest)
      else tx_bind (wallets_ByID rt i) (\<lambda>found.
        case found of None \<Rightarrow> tx_fail notFoundError | Some w \<Rightarrow> tx_return (walletView w)))"

definition TransactionByID :: "runtime \<Rightarrow> transaction_id \<Rightarrow> wager_result tx" where
  "TransactionByID rt i =
     (if id_IsZero i then tx_fail (contractError CodeInvalidRequest)
      else tx_bind (transactions_ByID rt i) (\<lambda>found.
        case found of None \<Rightarrow> tx_fail notFoundError | Some t \<Rightarrow> tx_return (resultOf t False)))"

definition TransactionByProviderAndExternalID ::
  "runtime \<Rightarrow> provider_id \<Rightarrow> external_id \<Rightarrow> wager_result tx" where
  "TransactionByProviderAndExternalID rt providerID externalID =
     (if text_IsZero providerID then tx_fail (contractError CodeInvalidRequest)
      else if text_IsZero externalID then tx_fail (contractError CodeInvalidRequest)
      else tx_bind (transactions_ByProviderAndExternalID rt providerID externalID) (\<lambda>found.
        case found of None \<Rightarrow> tx_fail notFoundError | Some t \<Rightarrow> tx_return (resultOf t False)))"

record ledger_page =
  lp_Items :: "ledger_entry list"
  lp_NextCursor :: string

definition page_of :: "uuid_lib \<Rightarrow> cursor_json \<Rightarrow> ledger_entry list \<Rightarrow> bool \<Rightarrow> app_error + ledger_page" where
  "page_of u j entries hasMore =
     (if hasMore \<and> 0 < length entries then
        let e = entries ! (length entries - 1) in
        res_bind (EncodeLedgerCursor u j (le_createdAt e, le_id e)) (\<lambda>next.
        Inr \<lparr>lp_Items = entries, lp_NextCursor = next\<rparr>)
      else Inr \<lparr>lp_Items = entries, lp_NextCursor = ''''\<rparr>)"

definition LedgerPage :: "runtime \<Rightarrow> cursor_json \<Rightarrow> wallet_id \<Rightarrow> string \<Rightarrow> int \<Rightarrow> ledger_page tx" where
  "LedgerPage rt j i rawCursor limit =
     (if id_IsZero i then tx_fail (contractError CodeInvalidRequest)
      else if limit < 1 \<or> limit > LedgerMaxLimit then tx_fail (contractError CodeInvalidLimit)
      else
        tx_bind (if rawCursor = '''' then tx_return None
                 else case DecodeLedgerCursor (rt_uuid rt) j rawCursor of
                   Inl _ \<Rightarrow> tx_fail (contractError CodeInvalidCursor)
                 | Inr cursor \<Rightarrow> tx_return (Some cursor)) (\<lambda>after.
        tx_bind (wallets_ByID rt i) (\<lambda>found.
        case found of
          None \<Rightarrow> tx_fail notFoundError
        | Some w \<Rightarrow>
            tx_bind (ledger_ListPage rt i (wal_currency w) after (nat limit)) (\<lambda>(entries, hasMore).
            tx_lift (page_of (rt_uuid rt) j entries hasMore)))))"

section \<open>Reconciliation\<close>

record reconciliation_entry =
  re_Direction :: direction
  re_Amount :: money

record reconciliation_snapshot =
  rn_Balance :: money
  rn_Entries :: "reconciliation_entry list"

definition select_reconciliation ::
  "wallet_id \<Rightarrow> db \<Rightarrow> pg_failure + ((direction \<times> int64) list \<times> db)" where
  "select_reconciliation i d = Inr (map (\<lambda>r. (lgr_direction r, lgr_amount r)) (ledger_rows_of i d), d)"

definition reconcile_body :: "runtime \<Rightarrow> wallet_id \<Rightarrow> reconciliation_snapshot option tx" where
  "reconcile_body rt i =
     tx_bind (db_call rt (select_wallet i)) (\<lambda>found.
     case found of
       None \<Rightarrow> tx_return None
     | Some row \<Rightarrow>
         tx_bind (tx_lift (corrupt_money (wlr_balance row) (wlr_currency row))) (\<lambda>balance.
         tx_bind (db_call rt (select_reconciliation i)) (\<lambda>rows.
         tx_bind (tx_lift (decode_all (\<lambda>(dir, units).
             res_bind (corrupt_money units (wlr_currency row)) (\<lambda>a.
             Inr \<lparr>re_Direction = dir, re_Amount = a\<rparr>)) rows)) (\<lambda>entries.
         tx_return (Some \<lparr>rn_Balance = balance, rn_Entries = entries\<rparr>)))))"

text \<open>A snapshot that is found ends with a commit, anything else with a rollback.\<close>

definition ReconcileRead :: "runtime \<Rightarrow> wallet_id \<Rightarrow> reconciliation_snapshot option tx" where
  "ReconcileRead rt i w =
     (case begin_tx rt w of
        (Inl e, w1) \<Rightarrow> (Inl e, w1)
      | (Inr _, w1) \<Rightarrow>
          (case reconcile_body rt i w1 of
             (Inr None, w2) \<Rightarrow> (Inr None, w2\<lparr>w_db := w_db w, w_status := Autocommit\<rparr>)
           | rw \<Rightarrow> finish_tx rt (w_db w) rw))"

record reconciliation_report =
  rr_WalletID :: wallet_id
  rr_StoredBalance :: money
  rr_CalculatedBalance :: money
  rr_Difference :: money
  rr_Consistent :: bool
  rr_CheckedEntries :: nat

fun reconcile_sum :: "money \<Rightarrow> reconciliation_entry list \<Rightarrow> app_error + money" where
  "reconcile_sum calculated [] = Inr calculated"
| "reconcile_sum calculated (e # es) =
     (if re_Direction e = DirectionCredit then
        res_bind (map_err (\<lambda>m. wrapInvariant (Some (FromFin (FErrMoney m)))) (Add calculated (re_Amount e)))
          (\<lambda>c. reconcile_sum c es)
      else if re_Direction e = DirectionDebit then
        res_bind (map_err (\<lambda>m. wrapInvariant (Some (FromFin (FErrMoney m)))) (Sub calculated (re_Amount e)))
          (\<lambda>c. reconcile_sum c es)
      else Inl (wrapInvariant None))"

definition reconcile_report :: "wallet_id \<Rightarrow> reconciliation_snapshot \<Rightarrow> app_error + reconciliation_report" where
  "reconcile_report i snapshot =
     res_bind (map_err (\<lambda>m. wrapInvariant (Some (FromFin (FErrMoney m)))) (Zero (currency (rn_Balance snapshot)))) (\<lambda>zero.
     res_bind (reconcile_sum zero (rn_Entries snapshot)) (\<lambda>calculated.
     res_bind (map_err (\<lambda>m. wrapInvariant (Some (FromFin (FErrMoney m)))) (Sub (rn_Balance snapshot) calculated)) (\<lambda>difference.
     Inr \<lparr>rr_WalletID = i, rr_StoredBalance = rn_Balance snapshot, rr_CalculatedBalance = calculated,
          rr_Difference = difference, rr_Consistent = IsZero difference,
          rr_CheckedEntries = length (rn_Entries snapshot)\<rparr>)))"

text \<open>\<open>reconciler\<close> is whether the service was built with one.\<close>

definition ReconcileWallet :: "runtime \<Rightarrow> bool \<Rightarrow> wallet_id \<Rightarrow> reconciliation_report tx" where
  "ReconcileWallet rt reconciler i =
     (if id_IsZero i then tx_fail (contractError CodeInvalidRequest)
      else if \<not> reconciler then tx_fail (transientError None)
      else tx_bind (ReconcileRead rt i) (\<lambda>found.
        case found of
          None \<Rightarrow> tx_fail notFoundError
        | Some snapshot \<Rightarrow> tx_lift (reconcile_report i snapshot)))"

section \<open>Base64\<close>

lemma b64_index:
  assumes "v < 64"
  shows "index_of (b64_char v) b64_alphabet = Some v" "byte_of (b64_char v) \<noteq> 10" "byte_of (b64_char v) \<noteq> 13"
proof -
  have "list_all (\<lambda>v. index_of (b64_char v) b64_alphabet = Some v \<and> byte_of (b64_char v) \<noteq> 10
      \<and> byte_of (b64_char v) \<noteq> 13) [0..<64]" by code_simp
  then show "index_of (b64_char v) b64_alphabet = Some v" "byte_of (b64_char v) \<noteq> 10" "byte_of (b64_char v) \<noteq> 13"
    using assms by (simp_all add: list_all_iff)
qed

lemma b64_values_chars: "list_all (\<lambda>v. v < 64) vs \<Longrightarrow> b64_values (map b64_char vs) = Some vs"
  by (induction vs) (simp_all add: b64_index)

fun b64_groups :: "nat list \<Rightarrow> nat list" where
  "b64_groups [] = []"
| "b64_groups [a] = [a div 4, a mod 4 * 16]"
| "b64_groups [a, b] = [a div 4, a mod 4 * 16 + b div 16, b mod 16 * 4]"
| "b64_groups (a # b # c # bs) =
     [a div 4, a mod 4 * 16 + b div 16, b mod 16 * 4 + c div 64, c mod 64] @ b64_groups bs"

lemma b64_encode_groups: "b64_encode bs = map b64_char (b64_groups bs)"
  by (induction bs rule: b64_encode.induct) simp_all

lemma b64_div: "(b :: nat) < 256 \<Longrightarrow> b div 4 < 64" "b < 256 \<Longrightarrow> b div 16 < 16" "b < 256 \<Longrightarrow> b div 64 < 4"
  using less_mult_imp_div_less [of b 64 4] less_mult_imp_div_less [of b 16 16] less_mult_imp_div_less [of b 4 64]
  by simp_all

lemma b64_bounds:
  fixes a b :: nat
  shows "b < 256 \<Longrightarrow> a mod 4 * 16 + b div 16 < 64" "b < 256 \<Longrightarrow> a mod 16 * 4 + b div 64 < 64"
    "a mod 4 * 16 < 64" "a mod 16 * 4 < 64" "a mod 64 < 64"
  using b64_div [of b] mod_less_divisor [of 4 a] mod_less_divisor [of 16 a] by linarith+

lemma digit_pair: "y < n \<Longrightarrow> (x * n + y) div n = (x :: nat)" "y < n \<Longrightarrow> (x * n + y) mod n = y"
  by simp_all

lemma b64_joins:
  fixes a b :: nat
  shows "a div 4 * 4 + a mod 4 * 16 div 16 = a" "b div 16 * 16 + b mod 16 * 4 div 4 = b"
    "b < 256 \<Longrightarrow> (a mod 4 * 16 + b div 16) div 16 = a mod 4"
    "b < 256 \<Longrightarrow> (a mod 4 * 16 + b div 16) mod 16 = b div 16"
    "c < 256 \<Longrightarrow> (b mod 16 * 4 + c div 64) div 4 = b mod 16"
    "c < 256 \<Longrightarrow> (b mod 16 * 4 + c div 64) mod 4 = c div 64"
  using b64_div [of b] b64_div [of c] by (simp_all add: digit_pair)

lemma b64_groups_ok:
  "list_all (\<lambda>b. b < 256) bs \<Longrightarrow> list_all (\<lambda>v. v < 64) (b64_groups bs) \<and> b64_decode_values (b64_groups bs) = Some bs"
  by (induction bs rule: b64_groups.induct) (simp_all add: b64_div b64_bounds b64_joins)

lemma RawURL_roundtrip: "RawURL_DecodeString (RawURL_EncodeToString s) = Some s"
proof -
  have "list_all (\<lambda>b. b < 256) (map byte_of s)" by (auto simp: list_all_iff byte_of_def)
  note g = b64_groups_ok [OF this]
  have "map (char_of \<circ> byte_of) s = s" by (induction s) (simp_all add: byte_of_def)
  then show ?thesis
    using g b64_values_chars [of "b64_groups (map byte_of s)"]
    by (simp add: RawURL_DecodeString_def RawURL_EncodeToString_def b64_encode_groups)
qed

lemma RawURL_nonempty: "s \<noteq> '''' \<Longrightarrow> RawURL_EncodeToString s \<noteq> ''''"
  using RawURL_roundtrip [of s] by (auto simp: RawURL_DecodeString_def)

lemma cursor_roundtrip:
  assumes "uuid_lib_ok u" and "cursor_json_ok j" and "EncodeLedgerCursor u j c = Inr raw" and "fst c \<noteq> 0"
  shows "DecodeLedgerCursor u j raw = Inr c" "raw \<noteq> ''''"
proof -
  obtain s where s: "cj_Marshal j \<lparr>cp_Version = ledgerCursorVersion, cp_CreatedAt = fst c,
      cp_ID = uuid_String u (snd c)\<rparr> = Some s" "raw = RawURL_EncodeToString s"
    using assms(3) by (auto simp: EncodeLedgerCursor_def split: option.splits)
  then have "s \<noteq> ''''" "cj_Unmarshal j s = Some \<lparr>cp_Version = ledgerCursorVersion, cp_CreatedAt = fst c,
      cp_ID = uuid_String u (snd c)\<rparr>"
    using assms(2) unfolding cursor_json_ok_def by blast+
  then show "DecodeLedgerCursor u j raw = Inr c" "raw \<noteq> ''''"
    using assms(1,4) s(2) by (simp_all add: DecodeLedgerCursor_def RawURL_roundtrip RawURL_nonempty time_defs)
qed

section \<open>The ledger can be read\<close>

text \<open>The identity and the currency of a wallet never change.\<close>

definition wallet_names :: "db \<Rightarrow> (uuid \<times> string) list" where
  "wallet_names d = map (\<lambda>x. (wlr_id x, wlr_currency x)) (db_wallets d)"

definition readable :: "uuid_lib \<Rightarrow> (uuid \<times> string) list \<Rightarrow> ledger_row \<Rightarrow> bool" where
  "readable u names row \<longleftrightarrow>
     (\<exists>cur. (lgr_walletId row, cur) \<in> set names \<and> is_ok (rehydrateLedgerEntry u cur row))"

definition ledger_books :: "uuid_lib \<Rightarrow> db \<Rightarrow> bool" where
  "ledger_books u d \<longleftrightarrow>
     distinct (map lgr_id (db_ledger d)) \<and> list_all (readable u (wallet_names d)) (db_ledger d)"

lemma readable_mono: "readable u ns row \<Longrightarrow> set ns \<subseteq> set ns' \<Longrightarrow> readable u ns' row"
  unfolding readable_def by blast

lemma ledger_books_same:
  assumes "ledger_books u d" and "db_ledger d' = db_ledger d" and "set (wallet_names d) \<subseteq> set (wallet_names d')"
  shows "ledger_books u d'"
  using assms readable_mono [OF _ assms(3)] by (simp add: ledger_books_def list_all_iff)

lemma ledger_books_insert:
  assumes "uuid_lib_ok u" and "ledger_books u d" and "insert_ledger (ledger_to_row e) d0 = Inr ((), d1)"
    and "db_ledger d0 = db_ledger d" and "db_ledger d' = db_ledger d1"
    and "set (wallet_names d) \<subseteq> set (wallet_names d')"
    and "ledger_db_ok cur e" and "(le_walletID e, cur) \<in> set (wallet_names d')"
  shows "ledger_books u d'"
proof -
  have l: "db_ledger d' = db_ledger d @ [ledger_to_row e]" "le_id e \<notin> set (map lgr_id (db_ledger d))"
    using assms(3-5) by (auto simp: insert_ledger_Inr ledger_to_row_def)
  have e: "is_ok (rehydrateLedgerEntry u cur (ledger_to_row e))" "lgr_walletId (ledger_to_row e) = le_walletID e"
    "lgr_id (ledger_to_row e) = le_id e"
    using ledger_rows.dec_enc [OF assms(1,7)] by (simp_all add: ledger_to_row_def)
  then have "readable u (wallet_names d') (ledger_to_row e)" using assms(8) unfolding readable_def by metis
  then show ?thesis
    using l e assms(2) readable_mono [OF _ assms(6)] by (simp add: ledger_books_def list_all_iff)
qed

lemma wallet_saved_names: "wallet_saved w d d' \<Longrightarrow> wallet_names d' = wallet_names d"
  unfolding wallet_saved_def by (drule update_wallet_balance_Inr) (simp add: wallet_names_def)

lemma settles_books:
  assumes u: "uuid_lib_ok u" and b: "ledger_books u d" and s: "settles u d t t' d'"
  shows "ledger_books u d'"
  using s
proof cases
  case (settles_post w ro taken dir a consumed claim now w' eid e d1 d2 d3 d4)
  note W = wallet_atD [OF u settles_post(1)]
  have n: "wallet_names d' = wallet_names d"
  proof -
    have "db_wallets d' = db_wallets d1"
      using settles_post(9,10) persisted_tables [OF settles_post(11)] emitted_others [OF settles_post(12)]
      by (auto simp: insert_ledger_Inr claimed_for_def insert_claim_Inr split: if_splits)
    then show ?thesis using wallet_saved_names [OF settles_post(8)] by (simp add: wallet_names_def)
  qed
  have "wal_id w' = wal_id w"
    using moved_of_direction(1) [OF _ decide_Post(5) [OF settles_post(2,4)] settles_post(5)] W(3)
    by (simp add: wallet_db_ok_def)
  then have e: "ledger_db_ok (wal_currency w) e" "le_walletID e = wal_id w"
    using settles_post(6) W(3)
    by (auto simp: NewWalletLedgerEntry_Inr_iff ledger_db_ok_def wallet_db_ok_def ledger_entry_ok_def wallet_ok_def)
  have "(le_walletID e, wal_currency w) \<in> set (wallet_names d')"
    unfolding n e(2) using W(1) by (force simp: wallet_names_def wallet_to_row_def)
  moreover have "db_ledger d1 = db_ledger d"
    using update_wallet_balance_Inr [OF settles_post(8) [unfolded wallet_saved_def]] by simp
  moreover have "db_ledger d' = db_ledger d2"
    using settles_post(10) persisted_tables [OF settles_post(11)] emitted_others [OF settles_post(12)]
    by (auto simp: claimed_for_def insert_claim_Inr split: if_splits)
  ultimately show ?thesis using ledger_books_insert [OF u b settles_post(9) _ _ _ e(1)] n by simp
next
  case (settles_wait deadline now s d1)
  then show ?thesis
    using persisted_tables [OF settles_wait(2)] emitted_others [OF settles_wait(3)] ledger_books_same [OF b]
    by (simp add: wallet_names_def)
next
  case (settles_refuse w ref code now d1)
  then show ?thesis
    using persisted_tables [OF settles_refuse(3)] emitted_others [OF settles_refuse(4)] ledger_books_same [OF b]
    by (simp add: wallet_names_def)
next
  case (settles_fail w now)
  then show ?thesis
    using persisted_tables [OF settles_fail(3)] ledger_books_same [OF b] by (simp add: wallet_names_def)
next
  case (settles_loss w ref now d1)
  then show ?thesis
    using persisted_tables [OF settles_loss(4)] emitted_others [OF settles_loss(5)] ledger_books_same [OF b]
    by (simp add: wallet_names_def)
qed

lemma fin_step_books:
  assumes u: "uuid_lib_ok u" and b: "ledger_books u d" and s: "fin_step u d d'"
  shows "ledger_books u d'"
  using s
proof cases
  case (step_open_zero i p c bl now w)
  then show ?thesis by (intro ledger_books_same [OF b]) (auto simp: insert_wallet_Inr wallet_names_def)
next
  case (step_open_positive i p c bl now w d1 tid op0 t d2 zero eid e d3)
  have d1: "db_ledger d1 = db_ledger d" "wallet_names d1 = wallet_names d @ [(wal_id w, wal_currency w)]"
    "currencyPattern (wal_currency w)"
    using step_open_positive(3) by (auto simp: insert_wallet_Inr wallet_names_def wallet_to_row_def wallet_checks_def)
  have d2: "db_ledger d2 = db_ledger d1" "wallet_names d2 = wallet_names d1"
    using insert_transaction_Inr [OF step_open_positive(6)] by (simp_all add: wallet_names_def)
  have "wallet_names d3 = wallet_names d2" using step_open_positive(9) by (auto simp: insert_ledger_Inr wallet_names_def)
  then have n: "wallet_names d' = wallet_names d1" "db_ledger d' = db_ledger d3"
    using emitted_others [OF step_open_positive(10)] d2 by (simp_all add: wallet_names_def)
  have "ledger_db_ok (wal_currency w) e" "le_walletID e = wal_id w"
    using step_open_positive(1,8) d1(3)
    by (auto simp: NewWalletLedgerEntry_Inr_iff ledger_db_ok_def NewWallet_Inr_iff ledger_entry_ok_def wallet_ok_def)
  then show ?thesis
    by (intro ledger_books_insert [OF u b step_open_positive(9), of d' "wal_currency w"]) (use d1 d2 n in auto)
next
  case (step_submit p w d1 t')
  have "ledger_books u d1"
    using ledger_books_same [OF b] insert_transaction_Inr [OF step_submit(4)] by (simp add: wallet_names_def)
  then show ?thesis using settles_books [OF u _ step_submit(5)] by blast
next
  case (step_recover t t')
  then show ?thesis using settles_books [OF u b] by blast
qed (use ledger_books_same [OF b] in \<open>simp_all add: wallet_names_def\<close>)

lemma fin_reach_books:
  assumes "uuid_lib_ok u" and "fin_reach u d"
  shows "ledger_books u d"
  using assms(2)
proof (induction rule: fin_reach.induct)
  case reach_empty
  show ?case by (simp add: ledger_books_def db_empty_def)
qed (rule fin_step_books [OF assms(1)])

section \<open>Walking the pages\<close>

definition ledger_key :: "ledger_row \<Rightarrow> time \<times> uuid" where
  "ledger_key r = (lgr_createdAt r, lgr_id r)"

lemma keys_of_entries: "ledger_key (ledger_to_row e) = (le_createdAt e, le_id e)"
  by (simp add: ledger_key_def ledger_to_row_def)

text \<open>What follows a key in a list with ascending keys.\<close>

lemma after_key:
  assumes "sorted (map f (xs @ ys))" and "distinct (map f (xs @ ys))" and "xs \<noteq> []"
  shows "filter (\<lambda>r. f (xs ! (length xs - 1)) < (f r :: 'a :: linorder)) (xs @ ys) = ys"
proof -
  have n: "length xs - 1 < length xs" using assms(3) by simp
  have "\<not> f (xs ! (length xs - 1)) < f x" if x: "x \<in> set xs" for x
  proof -
    obtain k where k: "k < length xs" "x = xs ! k" using x by (auto simp: in_set_conv_nth)
    have "sorted (map f xs)" using assms(1) by (simp add: sorted_append)
    from sorted_nth_mono [OF this, of k "length xs - 1"] k n show ?thesis by (simp add: not_less)
  qed
  moreover have "f (xs ! (length xs - 1)) < f y" if y: "y \<in> set ys" for y
  proof -
    have m: "xs ! (length xs - 1) \<in> set xs" using n by simp
    have "f (xs ! (length xs - 1)) \<le> f y" using assms(1) m y by (auto simp: sorted_append)
    moreover have "f (xs ! (length xs - 1)) \<noteq> f y" using assms(2) m y by (auto dest: inj_onD)
    ultimately show ?thesis by simp
  qed
  ultimately show ?thesis by (simp add: filter_empty_conv)
qed

lemma ledger_rows_sorted:
  assumes "distinct (map lgr_id (db_ledger d))"
  shows "sorted (map ledger_key (ledger_rows_of i d))" "distinct (map ledger_key (ledger_rows_of i d))"
proof -
  show "sorted (map ledger_key (ledger_rows_of i d))"
    using sorted_sort_key [of ledger_key] by (simp add: ledger_rows_of_def ledger_key_def [abs_def])
  have "distinct (map lgr_id (filter (\<lambda>r. lgr_walletId r = i) (db_ledger d)))" by (rule distinct_map_filter [OF assms])
  then have "inj_on lgr_id (set (ledger_rows_of i d))" "distinct (ledger_rows_of i d)"
    by (simp_all add: ledger_rows_of_def distinct_map)
  moreover from this(1) have "inj_on ledger_key (set (ledger_rows_of i d))"
    by (auto simp: inj_on_def ledger_key_def)
  ultimately show "distinct (map ledger_key (ledger_rows_of i d))" by (simp add: distinct_map)
qed

text \<open>The client of the paginated route: it asks for pages until there is no next cursor.\<close>

fun walk_pages ::
  "runtime \<Rightarrow> cursor_json \<Rightarrow> wallet_id \<Rightarrow> int \<Rightarrow> nat \<Rightarrow> string \<Rightarrow> world \<Rightarrow> ledger_entry list option" where
  "walk_pages rt j i limit 0 cursor w = None"
| "walk_pages rt j i limit (Suc n) cursor w =
     (case LedgerPage rt j i cursor limit w of
        (Inl e, w') \<Rightarrow> None
      | (Inr page, w') \<Rightarrow>
          if lp_NextCursor page = '''' then Some (lp_Items page)
          else map_option ((@) (lp_Items page)) (walk_pages rt j i limit n (lp_NextCursor page) w'))"

text \<open>A cursor that stands for the entries already read.\<close>

definition cursor_after :: "uuid_lib \<Rightarrow> cursor_json \<Rightarrow> ledger_entry list \<Rightarrow> string \<Rightarrow> bool" where
  "cursor_after u j xs raw \<longleftrightarrow>
     (if xs = [] then raw = ''''
      else EncodeLedgerCursor u j (le_createdAt (xs ! (length xs - 1)), le_id (xs ! (length xs - 1))) = Inr raw)"

lemma LedgerPage_step:
  assumes h: "healthy rt" and u: "uuid_lib_ok (rt_uuid rt)" and j: "cursor_json_ok j"
    and st: "w_status st \<noteq> AbortedTransaction" and i: "i \<noteq> uuid_Nil" and lim: "1 \<le> limit" "limit \<le> LedgerMaxLimit"
    and w: "wallet_at (rt_uuid rt) (w_db st) i w"
    and es: "map ledger_to_row (xs @ ys) = ledger_rows_of i (w_db st)"
      "list_all (ledger_db_ok (wal_currency w)) (xs @ ys)"
    and dis: "distinct (map lgr_id (db_ledger (w_db st)))"
    and enc: "\<forall>e \<in> set (xs @ ys). is_ok (EncodeLedgerCursor (rt_uuid rt) j (le_createdAt e, le_id e))"
    and c: "cursor_after (rt_uuid rt) j xs raw"
  shows "\<exists>next st'. LedgerPage rt j i raw limit st
      = (Inr \<lparr>lp_Items = take (nat limit) ys, lp_NextCursor = next\<rparr>, st')
    \<and> w_db st' = w_db st \<and> w_status st' = w_status st
    \<and> (if nat limit < length ys then cursor_after (rt_uuid rt) j (xs @ take (nat limit) ys) next \<and> next \<noteq> ''''
       else next = '''')"
proof -
  let ?u = "rt_uuid rt" and ?n = "nat limit"
  let ?after = "if xs = [] then None else Some (le_createdAt (xs ! (length xs - 1)), le_id (xs ! (length xs - 1)))"
  have n: "0 < ?n" using lim(1) by simp
  have created: "le_createdAt e \<noteq> 0" if "e \<in> set (xs @ ys)" for e
    using es(2) that by (auto simp: list_all_iff ledger_db_ok_def ledger_entry_ok_def)
  have after: "(if raw = '''' then tx_return None else case DecodeLedgerCursor ?u j raw of
        Inl _ \<Rightarrow> tx_fail (contractError CodeInvalidCursor) | Inr cursor \<Rightarrow> tx_return (Some cursor)) st = (Inr ?after, st)"
  proof (cases "xs = []")
    case True
    then show ?thesis using c by (simp add: cursor_after_def)
  next
    case False
    let ?e = "xs ! (length xs - 1)"
    have "?e \<in> set (xs @ ys)" using False by simp
    then show ?thesis
      using False c cursor_roundtrip [OF u j, of "(le_createdAt ?e, le_id ?e)" raw] created
      by (simp add: cursor_after_def)
  qed
  let ?st1 = "st\<lparr>w_calls := Suc (w_calls st)\<rparr>"
  have wal: "wallets_ByID rt i st = (Inr (Some w), ?st1)"
    using wallets_LockByID_healthy [OF h st w] by (simp add: wallets_ByID_def wallets_LockByID_def)
  have sel: "filter (\<lambda>r. case ?after of None \<Rightarrow> True | Some (t, k) \<Rightarrow> (t, k) < (lgr_createdAt r, lgr_id r))
      (ledger_rows_of i (w_db st)) = map ledger_to_row ys"
  proof (cases "xs = []")
    case True
    then show ?thesis using es(1) by simp
  next
    case False
    let ?l = "map ledger_to_row xs"
    have "filter (\<lambda>r. ledger_key (?l ! (length ?l - 1)) < ledger_key r) (?l @ map ledger_to_row ys) = map ledger_to_row ys"
      using ledger_rows_sorted [OF dis, of i] False unfolding es(1) [symmetric] by (intro after_key) simp_all
    moreover have "ledger_key (?l ! (length ?l - 1)) = (le_createdAt (xs ! (length xs - 1)), le_id (xs ! (length xs - 1)))"
      using False by (simp add: keys_of_entries)
    moreover have "?l @ map ledger_to_row ys = ledger_rows_of i (w_db st)" using es(1) by simp
    ultimately show ?thesis using False by (simp only: ledger_key_def) simp
  qed
  let ?st2 = "?st1\<lparr>w_calls := Suc (w_calls ?st1)\<rparr>"
  have "db_call rt (select_ledger_page i ?after (?n + 1)) ?st1
      = (Inr (take (?n + 1) (map ledger_to_row ys)), ?st1\<lparr>w_calls := Suc (w_calls ?st1), w_db := w_db ?st1\<rparr>)"
    using st sel by (intro db_call_healthy [OF h]) (simp_all add: select_ledger_page_def)
  moreover have "decode_all (rehydrateLedgerEntry ?u (wal_currency w)) (take (?n + 1) (map ledger_to_row ys))
      = Inr (take (?n + 1) ys)"
    unfolding take_map
    using ledger_rows.decode_all_enc [OF u] es(2) by (metis list_all_append append_take_drop_id)
  ultimately have page: "ledger_ListPage rt i (wal_currency w) ?after ?n ?st1
      = (Inr (take ?n ys, ?n < length ys), ?st2)"
    by (simp add: ledger_ListPage_def tx_bind_def Let_def min_def not_le)
  have lim': "\<not> (limit < 1 \<or> LedgerMaxLimit < limit)" using lim by simp
  have run: "LedgerPage rt j i raw limit st = (page_of ?u j (take ?n ys) (?n < length ys), ?st2)"
    using i lim' after wal page unfolding LedgerPage_def
    by (simp add: tx_bind_def id_IsZero_def)
  show ?thesis
  proof (cases "?n < length ys")
    case False
    then show ?thesis using run by (simp add: page_of_def)
  next
    case True
    let ?e = "take ?n ys ! (?n - 1)"
    have e: "?e \<in> set (xs @ ys)" using True n by (simp add: nth_mem)
    then obtain nx where nxe: "EncodeLedgerCursor ?u j (le_createdAt ?e, le_id ?e) = Inr nx"
      using enc by (auto simp: is_ok_iff)
    moreover have "nx \<noteq> ''''" using cursor_roundtrip(2) [OF u j nxe] created [OF e] by simp
    moreover have "(xs @ take ?n ys) ! (length (xs @ take ?n ys) - 1) = ?e" using True n by (simp add: nth_append)
    ultimately show ?thesis using run True n by (auto simp: page_of_def cursor_after_def)
  qed
qed

lemma walk_pages_all:
  assumes h: "healthy rt" and u: "uuid_lib_ok (rt_uuid rt)" and j: "cursor_json_ok j"
    and i: "i \<noteq> uuid_Nil" and lim: "1 \<le> limit" "limit \<le> LedgerMaxLimit"
    and w: "wallet_at (rt_uuid rt) d i w"
    and dis: "distinct (map lgr_id (db_ledger d))"
  shows "map ledger_to_row (xs @ ys) = ledger_rows_of i d \<Longrightarrow> list_all (ledger_db_ok (wal_currency w)) (xs @ ys) \<Longrightarrow>
     \<forall>e \<in> set (xs @ ys). is_ok (EncodeLedgerCursor (rt_uuid rt) j (le_createdAt e, le_id e)) \<Longrightarrow>
     w_db st = d \<Longrightarrow> w_status st \<noteq> AbortedTransaction \<Longrightarrow> cursor_after (rt_uuid rt) j xs raw \<Longrightarrow>
     length ys < n \<Longrightarrow> walk_pages rt j i limit n raw st = Some ys"
proof (induction n arbitrary: xs ys raw st)
  case (Suc n)
  from LedgerPage_step [OF h u j Suc.prems(5) i lim, unfolded Suc.prems(4), OF w Suc.prems(1,2) dis Suc.prems(3,6)]
  obtain nx st' where p: "LedgerPage rt j i raw limit st
      = (Inr \<lparr>lp_Items = take (nat limit) ys, lp_NextCursor = nx\<rparr>, st')" "w_db st' = d" "w_status st' = w_status st"
    "if nat limit < length ys then cursor_after (rt_uuid rt) j (xs @ take (nat limit) ys) nx \<and> nx \<noteq> ''''
     else nx = ''''" by blast
  show ?case
  proof (cases "nat limit < length ys")
    case False
    then show ?thesis using p by simp
  next
    case True
    have "walk_pages rt j i limit n nx st' = Some (drop (nat limit) ys)"
      by (rule Suc.IH [of "xs @ take (nat limit) ys"]) (use Suc.prems p True lim in simp_all)
    then show ?thesis using p True by simp
  qed
qed simp


lemma ledger_entries_exist:
  assumes u: "uuid_lib_ok u" and r: "fin_reach u d" and w: "wallet_at u d i w"
  obtains es where "map ledger_to_row es = ledger_rows_of i d" "list_all (ledger_db_ok (wal_currency w)) es"
    "distinct (map lgr_id (db_ledger d))"
proof -
  note B = fin_reach_books [OF u r]
  have dis: "distinct (map wlr_id (db_wallets d))" using fin_reach_inv [OF u r] by (simp add: fin_inv_def keys_inv_def)
  note W = wallet_atD [OF u w]
  have "\<exists>e. ledger_db_ok (wal_currency w) e \<and> ledger_to_row e = row" if row: "row \<in> set (ledger_rows_of i d)" for row
  proof -
    have row': "row \<in> set (db_ledger d)" "lgr_walletId row = i" using row by (auto simp: ledger_rows_of_def)
    then obtain x e where x: "x \<in> set (db_wallets d)" "wlr_id x = i" "rehydrateLedgerEntry u (wlr_currency x) row = Inr e"
      using B by (auto simp: ledger_books_def list_all_iff readable_def wallet_names_def is_ok_iff)
    have "x = wallet_to_row w"
      by (rule distinct_map_eq [OF dis x(1) W(1)]) (use x(2) W(2) in \<open>simp add: wallet_to_row_def\<close>)
    then show ?thesis using x(3) by (auto simp: rehydrateLedgerEntry_Inr_iff [OF u] wallet_to_row_def)
  qed
  then obtain f where f: "ledger_db_ok (wal_currency w) (f row)" "ledger_to_row (f row) = row"
    if "row \<in> set (ledger_rows_of i d)" for row by metis
  show ?thesis
  proof (rule that)
    show "map ledger_to_row (map f (ledger_rows_of i d)) = ledger_rows_of i d"
      using f(2) by (simp add: map_idI)
    show "list_all (ledger_db_ok (wal_currency w)) (map f (ledger_rows_of i d))"
      using f(1) by (simp add: list_all_iff)
    show "distinct (map lgr_id (db_ledger d))" using B by (simp add: ledger_books_def)
  qed
qed

section \<open>Sums of a snapshot\<close>

definition signed_entry :: "reconciliation_entry \<Rightarrow> int" where
  "signed_entry e = (if re_Direction e = DirectionCredit then amt (re_Amount e) else - amt (re_Amount e))"

definition snapshot_entry_ok :: "string \<Rightarrow> reconciliation_entry \<Rightarrow> bool" where
  "snapshot_entry_ok cur e \<longleftrightarrow>
     Direction_Valid (re_Direction e) \<and> currency (re_Amount e) = cur \<and> 0 < amt (re_Amount e)"

text \<open>The sum in \<open>int64\<close> is exact or the overflow is reported.\<close>

lemma reconcile_sum_exact:
  "currencyPattern cur \<Longrightarrow> list_all (snapshot_entry_ok cur) es \<Longrightarrow> currency c = cur \<Longrightarrow>
     (case reconcile_sum c es of
        Inr s \<Rightarrow> currency s = cur \<and> amt s = amt c + sum_list (map signed_entry es)
      | Inl e \<Rightarrow> e = wrapInvariant (Some (FromFin (FErrMoney MErrOverflow))))
     \<and> (\<bar>amt c\<bar> + sum_list (map (\<lambda>e. amt (re_Amount e)) es) \<le> 9223372036854775807 \<longrightarrow> is_ok (reconcile_sum c es))"
proof (induction es arbitrary: c)
  case Nil
  then show ?case by simp
next
  case (Cons e es)
  let ?s = "amt c + signed_entry e"
  have e: "snapshot_entry_ok cur e" and es: "list_all (snapshot_entry_ok cur) es" using Cons.prems(2) by simp_all
  have pos: "0 \<le> sum_list (map (\<lambda>e. amt (re_Amount e)) es)"
    using es by (intro sum_list_nonneg) (auto simp: list_all_iff snapshot_entry_ok_def)
  have init: "IsInitialized c" "IsInitialized (re_Amount e)"
    using e Cons.prems(1,3) currencyPattern_nonempty by (auto simp: IsInitialized_def snapshot_entry_ok_def)
  have step: "reconcile_sum c (e # es) =
      (if int64_range ?s then reconcile_sum \<lparr>minorUnits = word_of_int ?s, currency = cur\<rparr> es
       else Inl (wrapInvariant (Some (FromFin (FErrMoney MErrOverflow)))))"
    using e init Cons.prems(3)
    by (auto simp: signed_entry_def snapshot_entry_ok_def Add_eq Sub_eq Direction_Valid_def)
  show ?case
  proof (cases "int64_range ?s")
    case False
    have "\<not> \<bar>amt c\<bar> + sum_list (map (\<lambda>e. amt (re_Amount e)) (e # es)) \<le> 9223372036854775807"
      using False pos e by (auto simp: int64_range_def signed_entry_def snapshot_entry_ok_def split: if_splits)
    then show ?thesis using False step by simp
  next
    case True
    let ?c = "\<lparr>minorUnits = word_of_int ?s, currency = cur\<rparr> :: money"
    have s: "amt ?c = ?s" using sint_of_int64 [OF True] by simp
    have le: "\<bar>?s\<bar> \<le> \<bar>amt c\<bar> + amt (re_Amount e)" using e by (auto simp: signed_entry_def snapshot_entry_ok_def)
    show ?thesis using Cons.IH [OF Cons.prems(1) es, of ?c] step True s le by (auto split: sum.splits)
  qed
qed

lemma reconcile_sum_zero:
  assumes "currencyPattern cur" and "list_all (snapshot_entry_ok cur) es"
  shows "reconcile_sum \<lparr>minorUnits = 0, currency = cur\<rparr> es =
      Inl (wrapInvariant (Some (FromFin (FErrMoney MErrOverflow))))
    \<or> (\<exists>s. reconcile_sum \<lparr>minorUnits = 0, currency = cur\<rparr> es = Inr s \<and> currency s = cur
        \<and> amt s = sum_list (map signed_entry es))"
  using reconcile_sum_exact [OF assms, of "\<lparr>minorUnits = 0, currency = cur\<rparr>"] by (auto split: sum.splits)


definition snapshot_of :: "string \<Rightarrow> ledger_row \<Rightarrow> reconciliation_entry" where
  "snapshot_of cur r = \<lparr>re_Direction = lgr_direction r, re_Amount = \<lparr>minorUnits = lgr_amount r, currency = cur\<rparr>\<rparr>"

lemma decode_snapshot:
  "currencyPattern cur \<Longrightarrow> decode_all (\<lambda>(dir, units). res_bind (corrupt_money units cur) (\<lambda>a.
       Inr \<lparr>re_Direction = dir, re_Amount = a\<rparr>)) (map (\<lambda>r. (lgr_direction r, lgr_amount r)) rows)
     = Inr (map (snapshot_of cur) rows)"
  by (induction rows) (simp_all add: corrupt_money_def FromMinorUnits_def snapshot_of_def)

lemma ReconcileRead_healthy:
  assumes h: "healthy rt" and u: "uuid_lib_ok (rt_uuid rt)" and w: "wallet_at (rt_uuid rt) (w_db st) i w"
  shows "\<exists>st'. ReconcileRead rt i st
      = (Inr (Some \<lparr>rn_Balance = wal_balance w,
          rn_Entries = map (snapshot_of (wal_currency w)) (ledger_rows_of i (w_db st))\<rparr>), st')
    \<and> w_db st' = w_db st"
proof -
  let ?c = "wal_currency w" and ?rows = "ledger_rows_of i (w_db st)"
  let ?st1 = "st\<lparr>w_calls := Suc (w_calls st), w_status := InTransaction\<rparr>"
  have W: "wallet_db_ok w" "find (\<lambda>r. wlr_id r = i) (db_wallets (w_db st)) = Some (wallet_to_row w)"
    using w by (auto simp: wallet_at_def rehydrateWallet_Inr_iff [OF u])
  then have c: "currencyPattern ?c" "currency (wal_balance w) = ?c" by (auto simp: wallet_db_ok_def wallet_ok_def)
  have "db_call rt (select_wallet i) ?st1
      = (Inr (Some (wallet_to_row w)), ?st1\<lparr>w_calls := Suc (w_calls ?st1), w_db := w_db ?st1\<rparr>)"
    using W(2) by (intro db_call_healthy [OF h]) (simp_all add: select_wallet_def)
  moreover have "db_call rt (select_reconciliation i) (?st1\<lparr>w_calls := Suc (w_calls ?st1)\<rparr>)
      = (Inr (map (\<lambda>r. (lgr_direction r, lgr_amount r)) ?rows),
         ?st1\<lparr>w_calls := Suc (Suc (w_calls ?st1)), w_db := w_db ?st1\<rparr>)"
    using db_call_healthy [OF h, of "?st1\<lparr>w_calls := Suc (w_calls ?st1)\<rparr>" "select_reconciliation i"]
    by (simp add: select_reconciliation_def)
  ultimately have "reconcile_body rt i ?st1
      = (Inr (Some \<lparr>rn_Balance = wal_balance w, rn_Entries = map (snapshot_of ?c) ?rows\<rparr>),
         ?st1\<lparr>w_calls := Suc (Suc (w_calls ?st1))\<rparr>)"
    using c decode_snapshot [OF c(1), of ?rows] unfolding reconcile_body_def
    by (simp add: tx_bind_def wallet_to_row_def corrupt_money_def FromMinorUnits_def)
  then show ?thesis
    by (simp add: ReconcileRead_def begin_tx_def healthyD [OF h] finish_tx_def Let_def)
qed

lemma sum_list_insort: "sum_list (map f (insort_key g x xs)) = f x + sum_list (map (f :: 'a \<Rightarrow> int) xs)"
  by (induction xs) simp_all

lemma sum_list_sorted: "sum_list (map f (sort_key g xs)) = sum_list (map (f :: 'a \<Rightarrow> int) xs)"
  by (induction xs) (simp_all add: sort_key_def sum_list_insort)

lemma ledger_sums:
  "sum_list (map f (ledger_rows_of i d)) = sum_list (map (f :: ledger_row \<Rightarrow> int) (entries_of i d))"
  "length (ledger_rows_of i d) = length (entries_of i d)"
  by (simp_all add: ledger_rows_of_def entries_of_def sum_list_sorted)

lemma reconcile_reached:
  assumes u: "uuid_lib_ok u" and r: "fin_reach u d" and w: "wallet_at u d i w"
  shows "list_all (snapshot_entry_ok (wal_currency w)) (map (snapshot_of (wal_currency w)) (ledger_rows_of i d))"
    "sum_list (map (signed_entry \<circ> snapshot_of (wal_currency w)) (ledger_rows_of i d)) = amt (wal_balance w)"
proof -
  note inv = fin_reach_inv [OF u r]
  note W = wallet_atD [OF u w]
  have row: "wlr_id (wallet_to_row w) = i" "wlr_balance (wallet_to_row w) = minorUnits (wal_balance w)"
    using W(2) by (simp_all add: wallet_to_row_def)
  have "chain 0 (entries_of i d) (amt (wal_balance w))"
    using inv W(1) row unfolding fin_inv_def balance_inv_def by metis
  then have "sum_list (map signed_amount (entries_of i d)) = amt (wal_balance w)" using chain_sum by fastforce
  moreover have "signed_entry \<circ> snapshot_of (wal_currency w) = signed_amount"
    by (auto simp: signed_entry_def snapshot_of_def signed_amount_def)
  ultimately show "sum_list (map (signed_entry \<circ> snapshot_of (wal_currency w)) (ledger_rows_of i d))
      = amt (wal_balance w)" by (simp add: ledger_sums)
  show "list_all (snapshot_entry_ok (wal_currency w)) (map (snapshot_of (wal_currency w)) (ledger_rows_of i d))"
    using inv by (auto simp: list_all_iff snapshot_entry_ok_def snapshot_of_def ledger_rows_of_def fin_inv_def postings_inv_def)
qed

text \<open>The total of the postings of a wallet, whatever their direction.\<close>

definition turnover :: "wallet_id \<Rightarrow> db \<Rightarrow> int" where
  "turnover i d = sum_list (map (\<lambda>r. sint (lgr_amount r)) (entries_of i d))"


lemma ReconcileWallet_outcome:
  assumes h: "healthy rt" and u: "uuid_lib_ok (rt_uuid rt)" and r: "fin_reach (rt_uuid rt) (w_db st)"
    and w: "wallet_at (rt_uuid rt) (w_db st) i w"
  shows "\<exists>st'. w_db st' = w_db st
    \<and> (ReconcileWallet rt True i st = (Inl (wrapInvariant (Some (FromFin (FErrMoney MErrOverflow)))), st')
         \<and> 9223372036854775807 < turnover i (w_db st)
       \<or> ReconcileWallet rt True i st = (Inr \<lparr>rr_WalletID = i, rr_StoredBalance = wal_balance w,
           rr_CalculatedBalance = wal_balance w, rr_Difference = \<lparr>minorUnits = 0, currency = wal_currency w\<rparr>,
           rr_Consistent = True, rr_CheckedEntries = length (entries_of i (w_db st))\<rparr>, st'))"
proof -
  let ?c = "wal_currency w" and ?es = "map (snapshot_of (wal_currency w)) (ledger_rows_of i (w_db st))"
  note W = wallet_atD [OF u w]
  then have c: "currencyPattern ?c" "currency (wal_balance w) = ?c" and i: "i \<noteq> uuid_Nil"
    by (auto simp: wallet_db_ok_def wallet_ok_def)
  note R = reconcile_reached [OF u r w]
  have tot: "sum_list (map (\<lambda>e. amt (re_Amount e)) ?es) = turnover i (w_db st)"
    by (simp add: turnover_def ledger_sums(1) [symmetric] snapshot_of_def comp_def)
  obtain st' where rd: "ReconcileRead rt i st
      = (Inr (Some \<lparr>rn_Balance = wal_balance w, rn_Entries = ?es\<rparr>), st')" "w_db st' = w_db st"
    using ReconcileRead_healthy [OF h u w] by blast
  have run: "ReconcileWallet rt True i st
      = (reconcile_report i \<lparr>rn_Balance = wal_balance w, rn_Entries = ?es\<rparr>, st')"
    using rd i by (simp add: ReconcileWallet_def id_IsZero_def tx_bind_def)
  let ?z = "\<lparr>minorUnits = 0, currency = ?c\<rparr> :: money"
  note S = reconcile_sum_exact [OF c(1) R(1), of ?z]
  show ?thesis
  proof (cases "reconcile_sum ?z ?es")
    case (Inl e)
    then have "e = wrapInvariant (Some (FromFin (FErrMoney MErrOverflow)))" "9223372036854775807 < turnover i (w_db st)"
      using S tot by (simp_all add: not_le)
    then show ?thesis using Inl c run rd(2) by (simp add: reconcile_report_def Zero_def)
  next
    case (Inr s)
    then have "currency s = ?c" "amt s = amt (wal_balance w)" using S R(2) by simp_all
    then have s: "s = wal_balance w" using c(2) by (intro money.equality) (simp_all add: sint_inject_int64)
    have "IsInitialized (wal_balance w)" using c currencyPattern_nonempty by (auto simp: IsInitialized_def)
    moreover have "amt (wal_balance w) \<noteq> - 9223372036854775808"
      using W(3) by (auto simp: wallet_db_ok_def wallet_ok_def)
    ultimately have "Sub (wal_balance w) (wal_balance w) = Inr \<lparr>minorUnits = 0, currency = ?c\<rparr>"
      using c(2) by (simp add: Sub_eq int64_range_def)
    then show ?thesis
      using Inr c run rd(2) s by (simp add: reconcile_report_def Zero_def IsZero_def ledger_sums(2))
  qed
qed


text \<open>
  A JSON text of the payload for the concrete runs: the instant in decimal, a comma and the identity.
\<close>

definition sample_cursor_json :: cursor_json where
  "sample_cursor_json = \<lparr>
     cj_Marshal = (\<lambda>p. if cp_Version p = 1 \<and> 0 \<le> cp_CreatedAt p
       then Some (format_nat (nat (cp_CreatedAt p)) @ '','' @ cp_ID p) else None),
     cj_Unmarshal = (\<lambda>s. case dropWhile is_digit s of
       [] \<Rightarrow> None
     | c # rest \<Rightarrow> if c = CHR '','' then Some \<lparr>cp_Version = 1, cp_CreatedAt = int (dec_value (takeWhile is_digit s)),
         cp_ID = rest\<rparr> else None)\<rparr>"

lemma sample_cursor_json_ok: "cursor_json_ok sample_cursor_json"
proof -
  have c: "\<not> is_digit (CHR '','')" by (simp add: is_digit_def byte_of_def)
  have "dropWhile is_digit (format_nat n @ '','' @ s) = '','' @ s"
    "takeWhile is_digit (format_nat n @ '','' @ s) = format_nat n" for n s
    using format_nat_digits [of n] c by (simp_all add: list_all_iff dropWhile_append2 takeWhile_append2)
  then show ?thesis
    by (auto simp: cursor_json_ok_def sample_cursor_json_def intro!: cursor_payload.equality)
qed

section \<open>Properties\<close>

text \<open>
  C26: following the cursors reads the whole ledger. On a reachable database, in a runtime where no driver
  call fails, a client that asks for the first page of a wallet and then follows the next cursors, with
  any admissible limit, gets every entry of the wallet exactly once, in the order of creation, in at most
  as many calls as there are entries plus one.
\<close>

theorem ledger_pages_complete:
  assumes "healthy rt" and "uuid_lib_ok (rt_uuid rt)" and "cursor_json_ok j"
    and "service_reach (rt_uuid rt) (w_db st)" and "w_status st \<noteq> AbortedTransaction"
    and "wallet_at (rt_uuid rt) (w_db st) i w" and "1 \<le> limit" and "limit \<le> LedgerMaxLimit"
    and "\<forall>r \<in> set (ledger_rows_of i (w_db st)). is_ok (EncodeLedgerCursor (rt_uuid rt) j (lgr_createdAt r, lgr_id r))"
  shows "\<exists>es. walk_pages rt j i limit (Suc (length (ledger_rows_of i (w_db st)))) '''' st = Some es
    \<and> map ledger_to_row es = ledger_rows_of i (w_db st)"
proof -
  obtain es where es: "map ledger_to_row es = ledger_rows_of i (w_db st)"
    "list_all (ledger_db_ok (wal_currency w)) es" and dis: "distinct (map lgr_id (db_ledger (w_db st)))"
    using ledger_entries_exist [OF assms(2) service_fin_reach [OF assms(2,4)] assms(6)] .
  have i: "i \<noteq> uuid_Nil" using wallet_atD [OF assms(2,6)] by (auto simp: wallet_db_ok_def wallet_ok_def)
  have enc: "is_ok (EncodeLedgerCursor (rt_uuid rt) j (le_createdAt e, le_id e))" if e: "e \<in> set es" for e
    using assms(9) e unfolding es(1) [symmetric] by (force simp: ledger_to_row_def)
  have "length es = length (ledger_rows_of i (w_db st))" by (metis es(1) length_map)
  then have "walk_pages rt j i limit (Suc (length (ledger_rows_of i (w_db st)))) '''' st = Some es"
    using es enc by (intro walk_pages_all [OF assms(1-3) i assms(7,8,6) dis, of "[]"])
      (simp_all add: assms(5) cursor_after_def)
  then show ?thesis using es(1) by blast
qed

theorem ledger_pages_complete_witness:
  "\<exists>es. walk_pages sample_runtime sample_cursor_json 100 1 2 '''' (sample_world sample_opened) = Some es
     \<and> map ledger_to_row es = ledger_rows_of 100 sample_opened \<and> length es = 1"
proof -
  have l: "map lgr_createdAt (ledger_rows_of 100 sample_opened) = [1000]" by code_simp
  then have n: "length (ledger_rows_of 100 sample_opened) = 1" by (metis One_nat_def length_Cons length_map list.size(3))
  have "is_ok (EncodeLedgerCursor dec_uuid_lib sample_cursor_json (1000, k))" for k
    by (simp add: EncodeLedgerCursor_def sample_cursor_json_def ledgerCursorVersion_def)
  then have "\<forall>r \<in> set (ledger_rows_of 100 sample_opened).
      is_ok (EncodeLedgerCursor dec_uuid_lib sample_cursor_json (lgr_createdAt r, lgr_id r))"
    using l by (auto simp: map_eq_Cons_conv)
  then obtain es where "walk_pages sample_runtime sample_cursor_json 100 1
      (Suc (length (ledger_rows_of 100 sample_opened))) '''' (sample_world sample_opened) = Some es"
    "map ledger_to_row es = ledger_rows_of 100 sample_opened"
    using ledger_pages_complete [of sample_runtime sample_cursor_json "sample_world sample_opened" 100 _ 1]
      sample_healthy sample_cursor_json_ok sample_reach(2) dec_uuid_lib_ok sample_wallet
    by (auto simp: sample_world_def LedgerMaxLimit_def)
  moreover from this(2) have "length es = 1" using n by (metis length_map)
  ultimately show ?thesis using n by (simp add: numeral_2_eq_2)
qed

text \<open>
  A cursor decodes to the position it was made of. Decoding the text of a cursor, base64 without
  padding of the payload's JSON, gives back the instant and the identity, and that text is not empty, so
  it never reads as the first page; the zero instant, which no entry has, is the one exception.
\<close>

theorem ledger_cursor_roundtrip:
  assumes "uuid_lib_ok u" and "cursor_json_ok j" and "EncodeLedgerCursor u j c = Inr raw"
  shows "DecodeLedgerCursor u j raw = (if fst c = 0 then Inl CursorNoTime else Inr c) \<and> raw \<noteq> ''''"
proof -
  obtain s where s: "cj_Marshal j \<lparr>cp_Version = ledgerCursorVersion, cp_CreatedAt = fst c,
      cp_ID = uuid_String u (snd c)\<rparr> = Some s" "raw = RawURL_EncodeToString s"
    using assms(3) by (auto simp: EncodeLedgerCursor_def split: option.splits)
  then have "s \<noteq> ''''" "cj_Unmarshal j s = Some \<lparr>cp_Version = ledgerCursorVersion, cp_CreatedAt = fst c,
      cp_ID = uuid_String u (snd c)\<rparr>"
    using assms(2) unfolding cursor_json_ok_def by blast+
  then show ?thesis
    using cursor_roundtrip(1) [OF assms] s(2)
    by (simp add: DecodeLedgerCursor_def RawURL_roundtrip RawURL_nonempty time_defs)
qed

theorem ledger_cursor_roundtrip_witness:
  "DecodeLedgerCursor dec_uuid_lib sample_cursor_json ''MTAwMCw3'' = Inr (1000, 7)
   \<and> EncodeLedgerCursor dec_uuid_lib sample_cursor_json (1000, 7) = Inr ''MTAwMCw3''"
proof -
  have e: "EncodeLedgerCursor dec_uuid_lib sample_cursor_json (1000, 7) = Inr ''MTAwMCw3''" by code_simp
  then show ?thesis using ledger_cursor_roundtrip [OF dec_uuid_lib_ok sample_cursor_json_ok e] by simp
qed

text \<open>
  C27: a reconciliation finds no difference. On a reachable database, in a runtime where no driver call
  fails, reconciling a wallet changes nothing and reports that the calculated balance is the stored one,
  having checked every entry. The one other outcome is the report of an overflow of the running sum,
  which needs a turnover (credits plus debits) above the largest \<open>int64\<close>; it never reports a
  difference.
\<close>

theorem reconciliation_consistent:
  assumes "healthy rt" and "uuid_lib_ok (rt_uuid rt)" and "service_reach (rt_uuid rt) (w_db st)"
    and "wallet_at (rt_uuid rt) (w_db st) i w"
  shows "w_db (snd (ReconcileWallet rt True i st)) = w_db st
    \<and> (case fst (ReconcileWallet rt True i st) of
         Inr r \<Rightarrow> rr_Consistent r \<and> rr_StoredBalance r = wal_balance w \<and> rr_CalculatedBalance r = wal_balance w
           \<and> amt (rr_Difference r) = 0 \<and> rr_CheckedEntries r = length (entries_of i (w_db st))
       | Inl e \<Rightarrow> e = wrapInvariant (Some (FromFin (FErrMoney MErrOverflow))))
    \<and> (turnover i (w_db st) \<le> 9223372036854775807 \<longrightarrow> is_ok (fst (ReconcileWallet rt True i st)))"
  using ReconcileWallet_outcome [OF assms(1,2) service_fin_reach [OF assms(2,3)] assms(4)] by fastforce

theorem reconciliation_consistent_witness:
  "\<exists>r. fst (ReconcileWallet sample_runtime True 100 (sample_world sample_opened)) = Inr r
     \<and> rr_Consistent r \<and> amt (rr_CalculatedBalance r) = 1000 \<and> rr_CheckedEntries r = 1"
proof -
  have t: "turnover 100 sample_opened = 1000 \<and> length (entries_of 100 sample_opened) = 1" by code_simp
  show ?thesis
    using reconciliation_consistent [of sample_runtime "sample_world sample_opened" 100] t
      sample_healthy sample_reach(2) dec_uuid_lib_ok sample_wallet sample_world_db
    by (fastforce simp: is_ok_iff)
qed

end
