(* ===== verification/Access.thy ===== *)
theory Access
  imports Reads
begin

text \<open>
  The HTTP boundary: \<open>internal/adapters/http/middleware\<close> and \<open>internal/adapters/http/auth/auth.go\<close>.
  A request is what \<open>net/http\<close> hands over; a handler takes it and a world to a response or a panic, and
  a middleware is a function on handlers, as in the source. Verifying a token's signature, issuer,
  audience and expiry is the JWT library's, a parameter; the claims of a verified token are read here.
\<close>

section \<open>Requests and responses\<close>

text \<open>What a \<open>json.Decoder\<close> does with a body: the first value, then what follows it.\<close>

datatype decode_error = MaxBytesError | BodyError

datatype after_value = AtEOF | AnotherValue | AfterError decode_error

record 'a json_body =
  jb_First :: "decode_error + 'a"
  jb_Second :: after_value

text \<open>An error message is dropped; the envelope keeps its code and the correlation identity.\<close>

datatype 'b http_body = ErrorBody string string | Body 'b

record 'b http_response =
  rs_Status :: nat
  rs_RetryAfter :: "nat option"
  rs_Body :: "'b http_body"

datatype 'b answer = Answered "'b http_response" | PanickedHandler

record principal =
  pr_Subject :: string
  pr_ProviderID :: string
  pr_Scopes :: "string list"

definition HasScope :: "principal \<Rightarrow> string \<Rightarrow> bool" where
  "HasScope p scope \<longleftrightarrow> list_ex (\<lambda>granted. granted = scope) (pr_Scopes p)"

datatype auth_error = ErrUnauthenticated | ErrForbidden | OtherAuthError

text \<open>
  The part of a request the policies look at: the method, the media type that \<open>mime.ParseMediaType\<close>
  finds in \<open>Content-Type\<close>, the headers, and the two values the middleware stores in its context. The
  number of requests that hold a slot of the route's limiter on arrival is \<open>hr_InFlight\<close>.
\<close>

record http_head =
  hr_Method :: string
  hr_MediaType :: "string option"
  hr_Authorization :: string
  hr_CorrelationID :: string
  hr_IdempotencyKey :: string
  hr_InFlight :: nat
  hr_Principal :: "principal option"
  hr_Correlation :: string

type_synonym ('r, 'b) handler = "'r http_head_scheme \<Rightarrow> world \<Rightarrow> 'b answer \<times> world"

definition WriteError :: "'r http_head_scheme \<Rightarrow> nat \<Rightarrow> string \<Rightarrow> 'b answer" where
  "WriteError r status code =
     Answered \<lparr>rs_Status = status, rs_RetryAfter = None, rs_Body = ErrorBody code (hr_Correlation r)\<rparr>"

definition WriteJSON :: "nat \<Rightarrow> 'b \<Rightarrow> 'b answer" where
  "WriteJSON status body = Answered \<lparr>rs_Status = status, rs_RetryAfter = None, rs_Body = Body body\<rparr>"

section \<open>White space\<close>

text \<open>
  \<open>strings.TrimSpace\<close> and \<open>strings.Fields\<close> on the bytes of UTF-8: the runes of \<open>unicode.IsSpace\<close>.
\<close>

definition space_runes :: "string list" where
  "space_runes =
     [[CHR 0x09], [CHR 0x0A], [CHR 0x0B], [CHR 0x0C], [CHR 0x0D], [CHR 0x20], [CHR 0xC2, CHR 0x85],
      [CHR 0xC2, CHR 0xA0], [CHR 0xE1, CHR 0x9A, CHR 0x80], [CHR 0xE2, CHR 0x80, CHR 0x80],
      [CHR 0xE2, CHR 0x80, CHR 0x81], [CHR 0xE2, CHR 0x80, CHR 0x82], [CHR 0xE2, CHR 0x80, CHR 0x83],
      [CHR 0xE2, CHR 0x80, CHR 0x84], [CHR 0xE2, CHR 0x80, CHR 0x85], [CHR 0xE2, CHR 0x80, CHR 0x86],
      [CHR 0xE2, CHR 0x80, CHR 0x87], [CHR 0xE2, CHR 0x80, CHR 0x88], [CHR 0xE2, CHR 0x80, CHR 0x89],
      [CHR 0xE2, CHR 0x80, CHR 0x8A], [CHR 0xE2, CHR 0x80, CHR 0xA8], [CHR 0xE2, CHR 0x80, CHR 0xA9],
      [CHR 0xE2, CHR 0x80, CHR 0xAF], [CHR 0xE2, CHR 0x81, CHR 0x9F], [CHR 0xE3, CHR 0x80, CHR 0x80]]"

text \<open>How many bytes at the head of a string are one space; 0 when its first rune is none.\<close>

definition space_at :: "string list \<Rightarrow> string \<Rightarrow> nat" where
  "space_at runes s = (case find (\<lambda>p. take (length p) s = p) runes of None \<Rightarrow> 0 | Some p \<Rightarrow> length p)"

function trim_left :: "string list \<Rightarrow> string \<Rightarrow> string" where
  "trim_left runes s =
     (if space_at runes s = 0 \<or> s = [] then s else trim_left runes (drop (space_at runes s) s))"
  by pat_completeness auto

termination by (relation "measure (\<lambda>(runes, s). length s)") auto

declare trim_left.simps [simp del]

definition TrimSpace :: "string \<Rightarrow> string" where
  "TrimSpace s = List.rev (trim_left (map List.rev space_runes) (List.rev (trim_left space_runes s)))"

function fields_from :: "string \<Rightarrow> string \<Rightarrow> string list" where
  "fields_from acc s =
     (if s = [] then (if acc = [] then [] else [acc])
      else if space_at space_runes s = 0 then fields_from (acc @ [hd s]) (tl s)
      else (if acc = [] then [] else [acc]) @ fields_from [] (drop (space_at space_runes s) s))"
  by pat_completeness auto

termination by (relation "measure (\<lambda>(acc, s). length s)") auto

declare fields_from.simps [simp del]

definition Fields :: "string \<Rightarrow> string list" where "Fields s = fields_from [] s"

section \<open>Authentication\<close>

definition bearerToken :: "string \<Rightarrow> string option" where
  "bearerToken header =
     (if length header \<le> 7 \<or> ToLower (take 7 header) \<noteq> ''bearer '' then None
      else let token = TrimSpace (drop 7 header) in if token = '''' then None else Some token)"

text \<open>
  \<open>jwt_Parse\<close> stands for \<open>jwt.Parse\<close> with the configured key set, issuer, audience and a required
  expiry: the claims of a valid token. A claim is read as a string, \<open>None\<close> when it is not one.
\<close>

definition claimString :: "(string \<Rightarrow> string option) \<Rightarrow> string \<Rightarrow> string" where
  "claimString claims name = (case claims name of None \<Rightarrow> '''' | Some value \<Rightarrow> value)"

definition OIDC_Authenticate ::
  "(string \<Rightarrow> (string \<Rightarrow> string option) option) \<Rightarrow> 'r http_head_scheme \<Rightarrow> auth_error + principal" where
  "OIDC_Authenticate jwt_Parse r =
     (case bearerToken (hr_Authorization r) of
        None \<Rightarrow> Inl ErrUnauthenticated
      | Some raw \<Rightarrow>
          (case jwt_Parse raw of
             None \<Rightarrow> Inl ErrUnauthenticated
           | Some claims \<Rightarrow>
               let providerID = claimString claims ''provider_id'' in
               if providerID \<noteq> '''' \<and> \<not> providerIDPattern providerID then Inl ErrUnauthenticated
               else Inr \<lparr>pr_Subject = claimString claims ''sub'', pr_ProviderID = providerID,
                         pr_Scopes = Fields (claimString claims ''scope'')\<rparr>))"

section \<open>Middleware\<close>

definition Correlation :: "runtime \<Rightarrow> ('r, 'b) handler \<Rightarrow> ('r, 'b) handler" where
  "Correlation rt handler r w =
     (case correlationOrNew rt (if length (hr_CorrelationID r) > 128 then '''' else hr_CorrelationID r) w of
        (Inr correlation, w') \<Rightarrow> handler (r\<lparr>hr_Correlation := correlation\<rparr>) w'
      | (Inl e, w') \<Rightarrow> (PanickedHandler, w'))"

definition Recover :: "('r, 'b) handler \<Rightarrow> ('r, 'b) handler" where
  "Recover handler r w =
     (case handler r w of
        (PanickedHandler, w') \<Rightarrow> (WriteError r 503 ''SERVICE_UNAVAILABLE'', w')
      | answer \<Rightarrow> answer)"

definition Authenticate ::
  "('r http_head_scheme \<Rightarrow> auth_error + principal) \<Rightarrow> ('r, 'b) handler \<Rightarrow> ('r, 'b) handler" where
  "Authenticate authenticator handler r w =
     (case authenticator r of
        Inl e \<Rightarrow> (if e = ErrForbidden then WriteError r 403 ''FORBIDDEN'' else WriteError r 401 ''UNAUTHORIZED'', w)
      | Inr p \<Rightarrow> handler (r\<lparr>hr_Principal := Some p\<rparr>) w)"

definition RequireInternal :: "('r, 'b) handler \<Rightarrow> ('r, 'b) handler" where
  "RequireInternal handler r w =
     (case hr_Principal r of
        None \<Rightarrow> (WriteError r 401 ''UNAUTHORIZED'', w)
      | Some p \<Rightarrow> if pr_ProviderID p \<noteq> '''' then (WriteError r 403 ''FORBIDDEN'', w) else handler r w)"

definition RequireProvider :: "('r, 'b) handler \<Rightarrow> ('r, 'b) handler" where
  "RequireProvider handler r w =
     (case hr_Principal r of
        None \<Rightarrow> (WriteError r 401 ''UNAUTHORIZED'', w)
      | Some p \<Rightarrow> if pr_ProviderID p = '''' then (WriteError r 403 ''FORBIDDEN'', w) else handler r w)"

definition RequireScope :: "string \<Rightarrow> ('r, 'b) handler \<Rightarrow> ('r, 'b) handler" where
  "RequireScope scope handler r w =
     (case hr_Principal r of
        None \<Rightarrow> (WriteError r 403 ''FORBIDDEN'', w)
      | Some p \<Rightarrow> if \<not> HasScope p scope then (WriteError r 403 ''FORBIDDEN'', w) else handler r w)"

definition RateLimit :: "nat \<Rightarrow> ('r, 'b) handler \<Rightarrow> ('r, 'b) handler" where
  "RateLimit limit handler r w =
     (if hr_InFlight r < limit then handler r w
      else (Answered \<lparr>rs_Status = 503, rs_RetryAfter = Some 1,
                      rs_Body = ErrorBody ''SERVICE_UNAVAILABLE'' (hr_Correlation r)\<rparr>, w))"

definition RequireJSON :: "('r, 'b) handler \<Rightarrow> ('r, 'b) handler" where
  "RequireJSON handler r w =
     (if hr_Method r \<in> {''POST'', ''PUT'', ''PATCH''} \<and> hr_MediaType r \<noteq> Some ''application/json''
      then (WriteError r 415 ''UNSUPPORTED_MEDIA_TYPE'', w)
      else handler r w)"

section \<open>Scopes\<close>

definition ScopeWalletsWrite :: string where "ScopeWalletsWrite = ''wallets:write''"
definition ScopeWalletsRead :: string where "ScopeWalletsRead = ''wallets:read''"
definition ScopeReconciliationExecute :: string where "ScopeReconciliationExecute = ''reconciliation:execute''"
definition ScopeMetricsRead :: string where "ScopeMetricsRead = ''metrics:read''"
definition ScopeWageringWrite :: string where "ScopeWageringWrite = ''wagering:write''"
definition ScopeWageringRead :: string where "ScopeWageringRead = ''wagering:read''"

definition RouteScopes :: "(string \<times> string) list" where
  "RouteScopes =
     [(''POST /wallets'', ScopeWalletsWrite),
      (''GET /wallets/{walletId}'', ScopeWalletsRead),
      (''GET /wallets/{walletId}/ledger'', ScopeWalletsRead),
      (''POST /wallets/{walletId}/reconciliation'', ScopeReconciliationExecute),
      (''GET /metrics'', ScopeMetricsRead),
      (''POST /wagering/transactions'', ScopeWageringWrite),
      (''GET /wagering/transactions/{transactionId}'', ScopeWageringRead),
      (''GET /providers/{providerId}/wagering/transactions/{externalTransactionId}'', ScopeWageringRead)]"

section \<open>What passes a policy\<close>

text \<open>
  Every middleware either answers with an error and leaves the world alone, or runs the handler on the
  request with a context. \<open>refusal r a\<close> is the first case.
\<close>

definition refusal_answer :: "'b answer \<Rightarrow> bool" where
  "refusal_answer a \<longleftrightarrow> (\<exists>s code c ra. 401 \<le> s \<and> a = Answered \<lparr>rs_Status = s, rs_RetryAfter = ra, rs_Body = ErrorBody code c\<rparr>)"

lemma refusal_WriteError: "401 \<le> s \<Longrightarrow> refusal_answer (WriteError r s code)"
  by (simp add: refusal_answer_def WriteError_def)

lemma Authenticate_cases:
  assumes "Authenticate authn handler r w = (a, w')"
  obtains (refused) "refusal_answer a" "w' = w"
  | (passed) p where "authn r = Inr p" "handler (r\<lparr>hr_Principal := Some p\<rparr>) w = (a, w')"
  using assms by (cases "authn r") (auto simp: Authenticate_def refusal_WriteError split: if_splits)

lemma RequireScope_cases:
  assumes "RequireScope scope handler r w = (a, w')"
  obtains (refused) "refusal_answer a" "w' = w"
  | (passed) p where "hr_Principal r = Some p" "HasScope p scope" "handler r w = (a, w')"
  using assms by (auto simp: RequireScope_def refusal_WriteError split: option.splits if_splits)

lemma RequireInternal_cases:
  assumes "RequireInternal handler r w = (a, w')"
  obtains (refused) "refusal_answer a" "w' = w"
  | (passed) p where "hr_Principal r = Some p" "pr_ProviderID p = ''''" "handler r w = (a, w')"
  using assms by (auto simp: RequireInternal_def refusal_WriteError split: option.splits if_splits)

lemma RequireProvider_cases:
  assumes "RequireProvider handler r w = (a, w')"
  obtains (refused) "refusal_answer a" "w' = w"
  | (passed) p where "hr_Principal r = Some p" "pr_ProviderID p \<noteq> ''''" "handler r w = (a, w')"
  using assms by (auto simp: RequireProvider_def refusal_WriteError split: option.splits if_splits)

lemma RateLimit_cases:
  assumes "RateLimit limit handler r w = (a, w')"
  obtains (refused) "refusal_answer a" "w' = w" | (passed) "hr_InFlight r < limit" "handler r w = (a, w')"
  using assms by (auto simp: RateLimit_def refusal_answer_def split: if_splits)

lemma RequireJSON_cases:
  assumes "RequireJSON handler r w = (a, w')"
  obtains (refused) "refusal_answer a" "w' = w" | (passed) "handler r w = (a, w')"
  using assms by (auto simp: RequireJSON_def refusal_WriteError split: if_splits)

end
