(* ===== verification/Config.thy ===== *)
theory Config
  imports Access "HOL-Library.AList" "HOL-Library.Sublist"
begin

text \<open>
  What the process is started with: \<open>internal/adapters/config/config.go\<close>, the failpoints of
  \<open>internal/adapters/failpoint/failpoint.go\<close> and the readiness checker of
  \<open>internal/adapters/health/health.go\<close>. The environment is a function from names to values, as
  \<open>os.Getenv\<close> is: a variable that is not set reads as the empty string. The registration of providers is
  an association list, the map it builds.
\<close>

section \<open>Strings\<close>

text \<open>\<open>strings.Split\<close> at one character and \<open>strings.Cut\<close> at the first one.\<close>

fun split_at_char :: "char \<Rightarrow> string \<Rightarrow> string list" where
  "split_at_char c [] = [[]]"
| "split_at_char c (x # xs) =
     (if x = c then [] # split_at_char c xs
      else case split_at_char c xs of [] \<Rightarrow> [[x]] | p # ps \<Rightarrow> (x # p) # ps)"

fun cut_at_char :: "char \<Rightarrow> string \<Rightarrow> (string \<times> string) option" where
  "cut_at_char c [] = None"
| "cut_at_char c (x # xs) =
     (if x = c then Some ([], xs)
      else case cut_at_char c xs of None \<Rightarrow> None | Some (before, after) \<Rightarrow> Some (x # before, after))"

fun join_char :: "char \<Rightarrow> string list \<Rightarrow> string" where
  "join_char c [] = []"
| "join_char c [p] = p"
| "join_char c (p # ps) = p @ c # join_char c ps"

text \<open>
  \<open>fmt.Sscanf\<close> with the verb \<open>%d\<close>: white space is skipped, a line feed in it is an error, then an optional
  sign and the longest run of digits are read. What follows is not looked at.
\<close>

function skip_space :: "string \<Rightarrow> string option" where
  "skip_space s =
     (if s = [] then Some []
      else if space_at space_runes s = 0 then Some s
      else if hd s = CHR 0x0A then None
      else skip_space (drop (space_at space_runes s) s))"
  by pat_completeness auto

termination by (relation "measure length") auto

declare skip_space.simps [simp del]

definition scan_signed :: "bool \<Rightarrow> string \<Rightarrow> int64 option" where
  "scan_signed negative s =
     (let ds = takeWhile is_digit s in
      if ds = [] then None
      else if \<not> negative then parse_int64 ds
      else if dec_value ds \<le> 9223372036854775808 then Some (- word_of_nat (dec_value ds)) else None)"

definition Sscanf_d :: "string \<Rightarrow> int64 option" where
  "Sscanf_d value =
     (case skip_space value of
        None \<Rightarrow> None
      | Some s \<Rightarrow>
          if s \<noteq> [] \<and> hd s = CHR ''-'' then scan_signed True (tl s)
          else if s \<noteq> [] \<and> hd s = CHR ''+'' then scan_signed False (tl s)
          else scan_signed False s)"

section \<open>The configuration\<close>

record http_config =
  ht_Addr :: string
  ht_ConcurrencyLimit :: int64
  ht_MaxBodyBytes :: int64

record sqs_config =
  sq_Region :: string
  sq_Endpoint :: string
  sq_IngressQueueURL :: string
  sq_EventQueueURL :: string
  sq_ConsumerName :: string

record oidc_config =
  oi_IssuerURL :: string
  oi_Audience :: string

record config =
  cf_Environment :: string
  cf_ServiceName :: string
  cf_InstanceID :: string
  cf_LogLevel :: string
  cf_DatabaseURL :: string
  cf_HTTP :: http_config
  cf_SQS :: sqs_config
  cf_OIDC :: oidc_config
  cf_Providers :: "(string \<times> string) list"
  cf_Failpoints :: "string list"

definition EnvironmentProduction :: string where "EnvironmentProduction = ''production''"
definition EnvironmentIntegration :: string where "EnvironmentIntegration = ''integration''"
definition DefaultConcurrencyLimit :: int64 where "DefaultConcurrencyLimit = 256"
definition DefaultMaxBodyBytes :: int64 where "DefaultMaxBodyBytes = push_bit 20 1"

definition envOr :: "(string \<Rightarrow> string) \<Rightarrow> string \<Rightarrow> string \<Rightarrow> string" where
  "envOr getenv key fallback = (if getenv key \<noteq> '''' then getenv key else fallback)"

definition envIntOr :: "(string \<Rightarrow> string) \<Rightarrow> string \<Rightarrow> int64 \<Rightarrow> int64" where
  "envIntOr getenv key fallback =
     (let value = getenv key in
      if value = '''' then fallback
      else case Sscanf_d value of None \<Rightarrow> fallback | Some parsed \<Rightarrow> parsed)"

definition defaultInstanceID :: "string option \<Rightarrow> string" where
  "defaultInstanceID hostname =
     (case hostname of None \<Rightarrow> ''instance-unknown''
      | Some host \<Rightarrow> if host = '''' then ''instance-unknown'' else host)"

text \<open>The body of the loop of \<open>parseProviders\<close>: an entry is skipped or registered.\<close>

definition provider_entry :: "string \<Rightarrow> (string \<times> string) option" where
  "provider_entry entry =
     (let entry = TrimSpace entry in
      if entry = '''' then None
      else case cut_at_char (CHR ''='') entry of
        None \<Rightarrow> None
      | Some (sender, provider) \<Rightarrow>
          if sender = '''' \<or> provider = '''' then None else Some (TrimSpace sender, TrimSpace provider))"

definition register_entry :: "string \<Rightarrow> (string \<times> string) list \<Rightarrow> (string \<times> string) list" where
  "register_entry entry providers =
     (case provider_entry entry of
        None \<Rightarrow> providers
      | Some (sender, provider) \<Rightarrow> AList.update sender provider providers)"

definition parseProviders :: "string \<Rightarrow> (string \<times> string) list" where
  "parseProviders value = fold register_entry (split_at_char (CHR '','') value) []"

definition parseList :: "string \<Rightarrow> string list" where
  "parseList value = filter (\<lambda>trimmed. trimmed \<noteq> '''') (map TrimSpace (split_at_char (CHR '','') value))"

definition Load :: "(string \<Rightarrow> string) \<Rightarrow> string option \<Rightarrow> config" where
  "Load getenv hostname =
     \<lparr>cf_Environment = envOr getenv ''APP_ENV'' EnvironmentProduction,
      cf_ServiceName = envOr getenv ''SERVICE_NAME'' ''distributed-wager-processing'',
      cf_InstanceID = envOr getenv ''INSTANCE_ID'' (defaultInstanceID hostname),
      cf_LogLevel = envOr getenv ''LOG_LEVEL'' ''info'',
      cf_DatabaseURL = getenv ''DATABASE_URL'',
      cf_HTTP = \<lparr>ht_Addr = envOr getenv ''HTTP_ADDR'' '':8080'',
                 ht_ConcurrencyLimit = envIntOr getenv ''HTTP_CONCURRENCY_LIMIT'' DefaultConcurrencyLimit,
                 ht_MaxBodyBytes = envIntOr getenv ''HTTP_MAX_BODY_BYTES'' DefaultMaxBodyBytes\<rparr>,
      cf_SQS = \<lparr>sq_Region = envOr getenv ''AWS_REGION'' ''us-east-1'',
                sq_Endpoint = envOr getenv ''SQS_ENDPOINT'' ''http://localhost:4566'',
                sq_IngressQueueURL = envOr getenv ''SQS_INGRESS_QUEUE_URL'' '''',
                sq_EventQueueURL = envOr getenv ''SQS_EVENT_QUEUE_URL'' '''',
                sq_ConsumerName = envOr getenv ''SQS_CONSUMER_NAME'' ''wager-transactions''\<rparr>,
      cf_OIDC = \<lparr>oi_IssuerURL = getenv ''OIDC_ISSUER_URL'', oi_Audience = getenv ''OIDC_AUDIENCE''\<rparr>,
      cf_Providers = parseProviders (envOr getenv ''SQS_PROVIDER_SENDER_IDS'' ''provider-a=provider-a''),
      cf_Failpoints = parseList (getenv ''FAILPOINTS'')\<rparr>"

text \<open>The first error of \<open>Validate\<close>; the text of an error is its constructor.\<close>

datatype config_error =
    DatabaseURLRequired
  | IngressQueueURLRequired
  | EventQueueURLRequired
  | ConcurrencyLimitNotPositive
  | MaxBodyBytesNotPositive
  | FailpointsNotAllowed "string list" string
  | ProviderRequired
  | IssuerURLRequired
  | AudienceRequired

definition Validate_config :: "config \<Rightarrow> config_error + unit" where
  "Validate_config c =
     (if cf_DatabaseURL c = '''' then Inl DatabaseURLRequired
      else if sq_IngressQueueURL (cf_SQS c) = '''' then Inl IngressQueueURLRequired
      else if sq_EventQueueURL (cf_SQS c) = '''' then Inl EventQueueURLRequired
      else if \<not> i64_less 0 (ht_ConcurrencyLimit (cf_HTTP c)) then Inl ConcurrencyLimitNotPositive
      else if \<not> i64_less 0 (ht_MaxBodyBytes (cf_HTTP c)) then Inl MaxBodyBytesNotPositive
      else if 0 < length (cf_Failpoints c) \<and> cf_Environment c \<noteq> EnvironmentIntegration
        then Inl (FailpointsNotAllowed (cf_Failpoints c) (cf_Environment c))
      else if length (cf_Providers c) = 0 then Inl ProviderRequired
      else if oi_IssuerURL (cf_OIDC c) = '''' then Inl IssuerURLRequired
      else if oi_Audience (cf_OIDC c) = '''' then Inl AudienceRequired
      else Inr ())"

definition FailpointsEnabled :: "config \<Rightarrow> bool" where
  "FailpointsEnabled c \<longleftrightarrow> cf_Environment c = EnvironmentIntegration \<and> 0 < length (cf_Failpoints c)"

definition ProviderForSender :: "config \<Rightarrow> string \<Rightarrow> string option" where
  "ProviderForSender c senderID = map_of (cf_Providers c) senderID"

section \<open>Failpoints and readiness\<close>

text \<open>A set, and the nil set; hitting an active failpoint panics.\<close>

type_synonym failpoint_set = "string list option"

definition failpoint_New :: "string list \<Rightarrow> failpoint_set" where
  "failpoint_New names = Some (fold List.insert names [])"

definition failpoint_Enabled :: "failpoint_set \<Rightarrow> string \<Rightarrow> bool" where
  "failpoint_Enabled s name = (case s of None \<Rightarrow> False | Some enabled \<Rightarrow> List.member enabled name)"

definition SQSAfterCommit :: string where "SQSAfterCommit = ''sqs.after_commit''"
definition SQSAfterDelete :: string where "SQSAfterDelete = ''sqs.after_delete''"

datatype hit = Passed | HitPanic string

definition failpoint_Hit :: "failpoint_set \<Rightarrow> string \<Rightarrow> hit" where
  "failpoint_Hit s name = (if \<not> failpoint_Enabled s name then Passed else HitPanic (''failpoint hit: '' @ name))"

text \<open>A probe is what it answers to the shared deadline, \<open>None\<close> its success.\<close>

fun Ready :: "('ctx \<Rightarrow> 'e option) list \<Rightarrow> 'ctx \<Rightarrow> 'e option" where
  "Ready [] ctx = None"
| "Ready (ping # pings) ctx = (case ping ctx of Some err \<Rightarrow> Some err | None \<Rightarrow> Ready pings ctx)"

section \<open>White space\<close>

definition trimmed :: "string \<Rightarrow> bool" where
  "trimmed s \<longleftrightarrow> list_all (\<lambda>p. \<not> prefix p s \<and> \<not> suffix p s) space_runes"

lemma space_runes_nonempty: "[] \<notin> set space_runes"
  by (simp add: space_runes_def)

lemma equals_no_space: "p \<in> set space_runes \<Longrightarrow> CHR ''='' \<notin> set p"
  by (auto simp: space_runes_def)

lemma prefix_take: "take (length p) s = p \<longleftrightarrow> prefix p s"
  by (metis append_eq_conv_conj prefix_def take_is_prefix)

lemma space_at_0_iff:
  "[] \<notin> set runes \<Longrightarrow> space_at runes s = 0 \<longleftrightarrow> (\<forall>p\<in>set runes. \<not> prefix p s)"
proof (cases "find (\<lambda>p. prefix p s) runes")
  case None
  then have "\<forall>p\<in>set runes. \<not> prefix p s" by (auto simp: find_None_iff)
  then show ?thesis using None by (simp add: space_at_def prefix_take)
next
  case (Some p)
  then have "p \<in> set runes" "prefix p s" by (auto simp: find_Some_iff)
  moreover assume "[] \<notin> set runes"
  ultimately show ?thesis using Some by (auto simp: space_at_def prefix_take)
qed

lemma space_at_rune:
  assumes "space_at runes s \<noteq> 0"
  obtains p where "p \<in> set runes" "s = p @ drop (space_at runes s) s"
proof -
  obtain p where f: "find (\<lambda>p. prefix p s) runes = Some p"
    using assms by (auto simp: space_at_def prefix_take split: option.splits)
  then have "p \<in> set runes" "prefix p s" by (auto simp: find_Some_iff)
  moreover have "space_at runes s = length p" using f by (simp add: space_at_def prefix_take)
  ultimately show ?thesis using that by (auto simp: prefix_def)
qed

lemma trim_left_parts: "\<exists>ps. set ps \<subseteq> set runes \<and> s = concat ps @ trim_left runes s"
proof (induction runes s rule: trim_left.induct)
  case (1 runes s)
  show ?case
  proof (cases "space_at runes s = 0 \<or> s = []")
    case True
    then have "trim_left runes s = s" by (simp add: trim_left.simps)
    then show ?thesis by (intro exI [of _ "[]"]) simp
  next
    case False
    then obtain p where p: "p \<in> set runes" "s = p @ drop (space_at runes s) s" using space_at_rune by blast
    obtain ps where "set ps \<subseteq> set runes"
      "drop (space_at runes s) s = concat ps @ trim_left runes (drop (space_at runes s) s)"
      using 1 False by blast
    moreover have "trim_left runes s = trim_left runes (drop (space_at runes s) s)"
      using False by (subst trim_left.simps) simp
    ultimately show ?thesis using p by (intro exI [of _ "p # ps"]) simp
  qed
qed

lemma trim_left_no_prefix: "[] \<notin> set runes \<Longrightarrow> p \<in> set runes \<Longrightarrow> \<not> prefix p (trim_left runes s)"
proof (induction runes s rule: trim_left.induct)
  case (1 runes s)
  show ?case
  proof (cases "space_at runes s = 0 \<or> s = []")
    case True
    then have "trim_left runes s = s" by (simp add: trim_left.simps)
    moreover have "\<not> prefix p s"
      using True 1(2,3) by (elim disjE) (simp_all add: space_at_0_iff, metis)
    ultimately show ?thesis by simp
  next
    case False
    then have "trim_left runes s = trim_left runes (drop (space_at runes s) s)"
      by (subst trim_left.simps) simp
    then show ?thesis using 1 False by metis
  qed
qed

lemma trim_left_id: "\<forall>p\<in>set runes. \<not> prefix p s \<Longrightarrow> trim_left runes s = s"
  by (metis Nil_prefix space_at_0_iff trim_left.simps)

lemma rev_runes_nonempty: "[] \<notin> set (map List.rev space_runes)"
  using space_runes_nonempty by auto

lemma rev_concat_runes:
  "set ps \<subseteq> set (map List.rev space_runes) \<Longrightarrow> \<exists>qs. set qs \<subseteq> set space_runes \<and> List.rev (concat ps) = concat qs"
  by (rule exI [of _ "map List.rev (List.rev ps)"]) (auto simp: rev_concat rev_map)

lemma TrimSpace_parts:
  obtains ps qs where "set ps \<subseteq> set space_runes" "set qs \<subseteq> set space_runes"
    "s = concat ps @ TrimSpace s @ concat qs" "trim_left space_runes s = TrimSpace s @ concat qs"
proof -
  let ?t = "trim_left space_runes s"
  obtain ps where ps: "set ps \<subseteq> set space_runes" "s = concat ps @ ?t" using trim_left_parts by blast
  obtain rs where rs: "set rs \<subseteq> set (map List.rev space_runes)"
    "List.rev ?t = concat rs @ trim_left (map List.rev space_runes) (List.rev ?t)" using trim_left_parts by blast
  obtain qs where qs: "set qs \<subseteq> set space_runes" "List.rev (concat rs) = concat qs"
    using rev_concat_runes [OF rs(1)] by blast
  have "?t = TrimSpace s @ concat qs"
    using arg_cong [OF rs(2), of List.rev] qs(2) by (simp add: TrimSpace_def)
  then show ?thesis using that ps qs(1) by simp
qed

lemma trimmed_TrimSpace: "trimmed (TrimSpace s)"
proof -
  obtain qs where t: "trim_left space_runes s = TrimSpace s @ concat qs" by (rule TrimSpace_parts)
  have "\<not> prefix p (TrimSpace s)" if "p \<in> set space_runes" for p
    using trim_left_no_prefix [OF space_runes_nonempty that, of s] t by (auto simp: prefix_def)
  moreover have "\<not> suffix p (TrimSpace s)" if "p \<in> set space_runes" for p
  proof -
    have "\<not> prefix (List.rev p) (List.rev (TrimSpace s))"
      using trim_left_no_prefix [OF rev_runes_nonempty, of "List.rev p"] that by (simp add: TrimSpace_def)
    then show ?thesis by (simp add: suffix_to_prefix)
  qed
  ultimately show ?thesis by (simp add: trimmed_def list_all_iff)
qed

lemma TrimSpace_trimmed: "trimmed s \<Longrightarrow> TrimSpace s = s"
proof -
  assume t: "trimmed s"
  have "trim_left space_runes s = s" using t by (intro trim_left_id) (simp add: trimmed_def list_all_iff)
  moreover have "trim_left (map List.rev space_runes) (List.rev s) = List.rev s"
    using t by (intro trim_left_id) (auto simp: trimmed_def list_all_iff suffix_to_prefix)
  ultimately show ?thesis by (simp add: TrimSpace_def)
qed

text \<open>What trims to nothing begins and ends with a space.\<close>

lemma TrimSpace_Nil:
  assumes "TrimSpace s = []" "s \<noteq> []"
  shows "\<exists>p\<in>set space_runes. prefix p s" "\<exists>p\<in>set space_runes. suffix p s"
proof -
  obtain ps qs where q: "set ps \<subseteq> set space_runes" "set qs \<subseteq> set space_runes" "s = concat ps @ TrimSpace s @ concat qs"
    by (rule TrimSpace_parts)
  define rs where "rs = ps @ qs"
  have rs: "set rs \<subseteq> set space_runes" "s = concat rs" using q assms by (auto simp: rs_def)
  then have "rs \<noteq> []" using assms by auto
  then obtain p ps' where "rs = p # ps'" by (cases rs) auto
  then show "\<exists>p\<in>set space_runes. prefix p s" using rs by (intro bexI [of _ p]) auto
  obtain qs' q where "rs = qs' @ [q]" using \<open>rs \<noteq> []\<close> by (cases rs rule: rev_cases) auto
  then show "\<exists>p\<in>set space_runes. suffix p s" using rs by (intro bexI [of _ q]) (auto simp: suffix_def)
qed


section \<open>Providers\<close>

lemma cut_at_char_Some_iff: "cut_at_char c s = Some (b, a) \<longleftrightarrow> s = b @ c # a \<and> c \<notin> set b"
proof
  show "cut_at_char c s = Some (b, a) \<Longrightarrow> s = b @ c # a \<and> c \<notin> set b"
    by (induction s arbitrary: b) (auto split: if_splits option.splits)
  have "c \<notin> set b \<Longrightarrow> cut_at_char c (b @ c # a) = Some (b, a)"
    by (induction b) auto
  then show "s = b @ c # a \<and> c \<notin> set b \<Longrightarrow> cut_at_char c s = Some (b, a)" by simp
qed

lemma split_at_char_not_Nil [simp]: "split_at_char c s \<noteq> []"
  by (cases s) (auto split: list.splits)

lemma split_join:
  assumes "list_all (\<lambda>p. c \<notin> set p) ps" "ps \<noteq> []"
  shows "split_at_char c (join_char c ps) = ps"
proof -
  have one: "split_at_char c p = [p]" if "c \<notin> set p" for p
    using that by (induction p) auto
  have cons: "split_at_char c (p @ c # s) = p # split_at_char c s" if "c \<notin> set p" for p s
    using that by (induction p) auto
  show ?thesis using assms
    by (induction ps rule: induct_list012) (auto simp: one cons)
qed

text \<open>A sender and a provider that can be written into the registration.\<close>

definition registrable :: "string \<times> string \<Rightarrow> bool" where
  "registrable sp \<longleftrightarrow> (case sp of (s, p) \<Rightarrow>
     s \<noteq> [] \<and> p \<noteq> [] \<and> trimmed s \<and> trimmed p \<and> CHR '','' \<notin> set (s @ p) \<and> CHR ''='' \<notin> set s)"

definition provider_line :: "string \<times> string \<Rightarrow> string" where
  "provider_line sp = fst sp @ CHR ''='' # snd sp"

lemma prefix_append_char:
  "prefix p (s @ c # t) \<Longrightarrow> c \<notin> set p \<Longrightarrow> prefix p s"
  by (auto simp: prefix_append Cons_eq_append_conv prefix_Cons)

lemma suffix_append_char:
  "suffix p (s @ c # t) \<Longrightarrow> c \<notin> set p \<Longrightarrow> suffix p t"
  using prefix_append_char [of "List.rev p" "List.rev t" c "List.rev s"] by (simp add: suffix_to_prefix)

lemma provider_entry_line:
  assumes "registrable sp"
  shows "provider_entry (provider_line sp) = Some sp"
proof -
  obtain s p where sp: "sp = (s, p)" by (cases sp)
  have r: "s \<noteq> []" "p \<noteq> []" "trimmed s" "trimmed p" "CHR ''='' \<notin> set s"
    using assms by (auto simp: sp registrable_def)
  have "trimmed (provider_line sp)"
    using r(3,4) equals_no_space prefix_append_char suffix_append_char
    unfolding trimmed_def list_all_iff sp provider_line_def fst_conv snd_conv by meson
  moreover have "cut_at_char (CHR ''='') (provider_line sp) = Some (s, p)"
    using r by (simp add: cut_at_char_Some_iff sp provider_line_def)
  ultimately show ?thesis
    using r by (simp add: provider_entry_def TrimSpace_trimmed sp) (simp add: provider_line_def TrimSpace_trimmed)
qed

definition named :: "string \<times> string \<Rightarrow> bool" where
  "named sp \<longleftrightarrow> fst sp \<noteq> [] \<and> snd sp \<noteq> [] \<and> trimmed (fst sp) \<and> trimmed (snd sp)"

lemma provider_entry_named:
  assumes "provider_entry entry = Some (s, p)"
  shows "named (s, p)"
proof -
  let ?e = "TrimSpace entry"
  obtain b a where c: "?e = b @ CHR ''='' # a" "b \<noteq> []" "a \<noteq> []" "s = TrimSpace b" "p = TrimSpace a"
    using assms by (auto simp: provider_entry_def Let_def cut_at_char_Some_iff split: option.splits if_splits)
  have t: "\<not> prefix q ?e" "\<not> suffix q ?e" if "q \<in> set space_runes" for q
    using trimmed_TrimSpace [of entry] that by (auto simp: trimmed_def list_all_iff)
  have "s \<noteq> []"
  proof
    assume "s = []"
    then obtain q where "q \<in> set space_runes" "prefix q b" using TrimSpace_Nil(1) [of b] c by auto
    then show False using t(1) [of q] c(1) by (metis prefix_order.trans prefix_prefix)
  qed
  moreover have "p \<noteq> []"
  proof
    assume "p = []"
    then obtain q where "q \<in> set space_runes" "suffix q a" using TrimSpace_Nil(2) [of a] c by auto
    then show False using t(2) [of q] c(1) by (metis suffix_ConsI suffix_appendI)
  qed
  ultimately show ?thesis using c by (simp add: named_def trimmed_TrimSpace)
qed

lemma update_new: "k \<notin> set (map fst al) \<Longrightarrow> AList.update k v al = al @ [(k, v)]"
  by (induction al) auto

lemma register_fold:
  "list_all registrable sps \<Longrightarrow> distinct (map fst (acc @ sps)) \<Longrightarrow>
     fold register_entry (map provider_line sps) acc = acc @ sps"
proof (induction sps arbitrary: acc)
  case (Cons sp sps)
  have "AList.update (fst sp) (snd sp) acc = acc @ [sp]"
    using Cons.prems(2) update_new [of "fst sp" acc "snd sp"] by auto
  then have "register_entry (provider_line sp) acc = acc @ [sp]"
    using Cons.prems(1) by (simp add: register_entry_def provider_entry_line split_beta)
  then show ?case using Cons by simp
qed simp

lemma parseProviders_lines:
  assumes "list_all registrable sps" "distinct (map fst sps)" "sps \<noteq> []"
  shows "parseProviders (join_char (CHR '','') (map provider_line sps)) = sps"
proof -
  have "CHR '','' \<notin> set (provider_line sp)" if "registrable sp" for sp
    using that by (cases sp) (auto simp: registrable_def provider_line_def)
  then have "list_all (\<lambda>p. CHR '','' \<notin> set p) (map provider_line sps)"
    using assms(1) by (auto simp: list_all_iff)
  then show ?thesis using assms by (simp add: parseProviders_def split_join register_fold)
qed

lemma set_update_subset: "set (AList.update k v al) \<subseteq> insert (k, v) (set al)"
  by (induction al) auto

lemma register_entry_named: "list_all named acc \<Longrightarrow> list_all named (register_entry e acc)"
proof (cases "provider_entry e")
  case (Some sp)
  assume a: "list_all named acc"
  obtain s p where sp: "sp = (s, p)" by (cases sp)
  have "set (AList.update s p acc) \<subseteq> insert (s, p) (set acc)" by (rule set_update_subset)
  then have "list_all named (AList.update s p acc)"
    using a provider_entry_named [of e s p] Some sp unfolding list_all_iff by blast
  then show ?thesis using Some sp by (simp add: register_entry_def)
qed (simp add: register_entry_def)

lemma parseProviders_named: "list_all named (parseProviders value)"
proof -
  have "list_all named acc \<Longrightarrow> list_all named (fold register_entry es acc)" for es acc
    by (induction es arbitrary: acc) (simp_all add: register_entry_named)
  then show ?thesis by (simp add: parseProviders_def)
qed

section \<open>What a start accepts\<close>

lemma Validate_config_Inr_iff:
  "Validate_config c = Inr () \<longleftrightarrow>
     cf_DatabaseURL c \<noteq> [] \<and> sq_IngressQueueURL (cf_SQS c) \<noteq> [] \<and> sq_EventQueueURL (cf_SQS c) \<noteq> []
     \<and> 0 < sint (ht_ConcurrencyLimit (cf_HTTP c)) \<and> 0 < sint (ht_MaxBodyBytes (cf_HTTP c))
     \<and> (cf_Failpoints c = [] \<or> cf_Environment c = EnvironmentIntegration)
     \<and> cf_Providers c \<noteq> [] \<and> oi_IssuerURL (cf_OIDC c) \<noteq> [] \<and> oi_Audience (cf_OIDC c) \<noteq> []"
  by (simp add: Validate_config_def i64_less_def)

lemma failpoint_Enabled_New: "failpoint_Enabled (failpoint_New names) name \<longleftrightarrow> name \<in> set names"
proof -
  have "set (fold List.insert names acc) = set names \<union> set acc" for acc
    by (induction names arbitrary: acc) auto
  then show ?thesis by (simp add: failpoint_Enabled_def failpoint_New_def)
qed

lemma parseList_trimmed: "f \<in> set (parseList value) \<Longrightarrow> f \<noteq> [] \<and> trimmed f"
  by (auto simp: parseList_def trimmed_TrimSpace)

definition sample_env :: "string \<Rightarrow> string" where
  "sample_env key =
     (if key = ''SQS_PROVIDER_SENDER_IDS'' then ''sender-a=provider-a,sender-b=provider-b''
      else if key = ''HTTP_MAX_BODY_BYTES'' then ''64KB''
      else if key = ''DATABASE_URL'' \<or> key = ''SQS_INGRESS_QUEUE_URL'' \<or> key = ''SQS_EVENT_QUEUE_URL''
        \<or> key = ''OIDC_ISSUER_URL'' \<or> key = ''OIDC_AUDIENCE'' then ''x''
      else '''')"

text \<open>
  C22: a configuration that was read from the environment and passes \<open>Validate\<close> is safe to start with. No
  failpoint of the set built from it ever panics unless the environment says \<open>integration\<close>; the limits of
  the HTTP server are positive; some sender is registered; and every sender it attributes a message to has
  a name and a provider that are not empty and carry no white space around them.
\<close>

theorem validated_configuration_is_safe:
  assumes "Validate_config (Load getenv hostname) = Inr ()"
  shows "(getenv ''APP_ENV'' = EnvironmentIntegration
           \<or> (\<forall>name. failpoint_Hit (failpoint_New (cf_Failpoints (Load getenv hostname))) name = Passed))
    \<and> 0 < sint (ht_ConcurrencyLimit (cf_HTTP (Load getenv hostname)))
    \<and> 0 < sint (ht_MaxBodyBytes (cf_HTTP (Load getenv hostname)))
    \<and> (\<exists>sender. ProviderForSender (Load getenv hostname) sender \<noteq> None)
    \<and> (\<forall>sender name. ProviderForSender (Load getenv hostname) sender = Some name \<longrightarrow> named (sender, name))"
proof (intro conjI allI impI)
  let ?c = "Load getenv hostname"
  have v: "0 < sint (ht_ConcurrencyLimit (cf_HTTP ?c))" "0 < sint (ht_MaxBodyBytes (cf_HTTP ?c))"
    "cf_Failpoints ?c = [] \<or> cf_Environment ?c = EnvironmentIntegration" "cf_Providers ?c \<noteq> []"
    using assms unfolding Validate_config_Inr_iff by blast+
  show "0 < sint (ht_ConcurrencyLimit (cf_HTTP ?c))" "0 < sint (ht_MaxBodyBytes (cf_HTTP ?c))" by (rule v)+
  have "cf_Environment ?c = EnvironmentIntegration \<Longrightarrow> getenv ''APP_ENV'' = EnvironmentIntegration"
    by (simp add: Load_def envOr_def EnvironmentProduction_def EnvironmentIntegration_def split: if_splits)
  then show "getenv ''APP_ENV'' = EnvironmentIntegration
      \<or> (\<forall>name. failpoint_Hit (failpoint_New (cf_Failpoints ?c)) name = Passed)"
    using v(3) by (auto simp: failpoint_Hit_def failpoint_Enabled_New)
  show "\<exists>sender. ProviderForSender ?c sender \<noteq> None"
    using v(4) by (cases "cf_Providers ?c") (auto simp: ProviderForSender_def)
  fix sender name
  assume "ProviderForSender ?c sender = Some name"
  then show "named (sender, name)"
    using map_of_SomeD [of "cf_Providers ?c" sender name] parseProviders_named
    by (auto simp: ProviderForSender_def Load_def list_all_iff)
qed

text \<open>
  C25: the registration of providers is read back as it is written: entries \<open>sender=provider\<close> joined by
  commas give exactly that assignment of providers to senders, and no other sender is known.
\<close>

theorem provider_registration_roundtrip:
  assumes "list_all registrable sps" "distinct (map fst sps)" "sps \<noteq> []"
    and "getenv ''SQS_PROVIDER_SENDER_IDS'' = join_char (CHR '','') (map provider_line sps)"
  shows "ProviderForSender (Load getenv hostname) = map_of sps"
proof -
  have "join_char (CHR '','') (map provider_line sps) \<noteq> []"
    using assms(3) by (cases sps; cases "tl sps") (auto simp: provider_line_def)
  then have "cf_Providers (Load getenv hostname) = sps"
    using parseProviders_lines [OF assms(1-3)] assms(4) by (simp add: Load_def envOr_def)
  then show ?thesis by (simp add: ProviderForSender_def fun_eq_iff)
qed

lemma sample_registration:
  "sample_env ''SQS_PROVIDER_SENDER_IDS'' =
     join_char (CHR '','') (map provider_line [(''sender-a'', ''provider-a''), (''sender-b'', ''provider-b'')])"
  by (simp add: sample_env_def provider_line_def)

lemma sample_registrable: "list_all registrable [(''sender-a'', ''provider-a''), (''sender-b'', ''provider-b'')]"
  by (simp add: registrable_def trimmed_def space_runes_def suffix_to_prefix)

lemma provider_registration_roundtrip_witness:
  "ProviderForSender (Load sample_env None) ''sender-b'' = Some ''provider-b''
     \<and> ProviderForSender (Load sample_env None) ''sender-c'' = None"
  using provider_registration_roundtrip [where getenv = sample_env and hostname = None, OF sample_registrable]
    sample_registration by simp

text \<open>
  A limit is read up to the first character that is no digit, and what cannot be read at all gives way to
  the default, so \<open>Validate\<close> sees neither: 64KB is accepted as 64 bytes, and a word as the default.
\<close>

lemma Sscanf_d_ignores_rest:
  assumes "list_all is_digit ds" "ds \<noteq> []" "rest = [] \<or> \<not> is_digit (hd rest)"
  shows "Sscanf_d (ds @ rest) = parse_int64 ds"
proof -
  obtain d es where d: "ds = d # es" "is_digit d" using assms by (cases ds) auto
  have "\<forall>p\<in>set space_runes. \<not> prefix p (ds @ rest)"
    using d by (auto simp: space_runes_def is_digit_def byte_of_def)
  then have "space_at space_runes (ds @ rest) = 0" using space_at_0_iff [OF space_runes_nonempty] by simp
  then have "skip_space (ds @ rest) = Some (ds @ rest)" by (subst skip_space.simps) simp
  moreover have "d \<noteq> CHR ''-''" "d \<noteq> CHR ''+''" using d(2) by (auto simp: is_digit_def byte_of_def)
  moreover have "takeWhile is_digit (ds @ rest) = ds"
    using assms(1,3) by (cases rest) (auto simp: takeWhile_append list_all_iff)
  ultimately show ?thesis using d(1) by (auto simp: Sscanf_d_def scan_signed_def)
qed

lemma malformed_limit_accepted:
  "ht_MaxBodyBytes (cf_HTTP (Load sample_env None)) = 64 \<and> Validate_config (Load sample_env None) = Inr ()"
proof -
  have "Sscanf_d (''64'' @ ''KB'') = parse_int64 ''64''"
    by (rule Sscanf_d_ignores_rest) (simp_all add: is_digit_def byte_of_def)
  then have m: "ht_MaxBodyBytes (cf_HTTP (Load sample_env None)) = 64"
    by (simp add: Load_def envIntOr_def sample_env_def parse_int64_def dec_value_def digit_val_def byte_of_def)
  have "ht_ConcurrencyLimit (cf_HTTP (Load sample_env None)) = 256"
    by (simp add: Load_def envIntOr_def sample_env_def DefaultConcurrencyLimit_def)
  moreover have "cf_Providers (Load sample_env None) \<noteq> []"
    using parseProviders_lines [OF sample_registrable] sample_registration by (simp add: Load_def envOr_def)
  moreover have "cf_Failpoints (Load sample_env None) = []"
    by (simp add: Load_def sample_env_def parseList_def TrimSpace_def trim_left.simps)
  ultimately show ?thesis unfolding Validate_config_Inr_iff using m
    by (simp add: Load_def envOr_def sample_env_def)
qed

lemma validated_configuration_is_safe_witness:
  "failpoint_Hit (failpoint_New (cf_Failpoints (Load sample_env None))) ''sqs.after_commit'' = Passed"
proof -
  have "sample_env ''APP_ENV'' \<noteq> EnvironmentIntegration" by (simp add: sample_env_def EnvironmentIntegration_def)
  then show ?thesis
    using validated_configuration_is_safe [OF malformed_limit_accepted [THEN conjunct2]] by blast
qed

end
