(* ===== verification/Metrics.thy ===== *)
theory Metrics
  imports Config "HOL-Library.Log_Nat"
begin

text \<open>
  The registry of \<open>internal/adapters/metrics/metrics.go\<close>: its families, the samples of a family, the text
  it renders, and the eight families the service registers. A map is an association list, a handle (a
  \<open>*Counter\<close>, \<open>*Gauge\<close> or \<open>*Histogram\<close>) is the name of its family. A \<open>float64\<close> is the rational number it
  stands for: \<open>f64\<close> rounds to 53 significant bits, half to even, so that every addition is rounded as the
  machine rounds it. Infinities, NaN and the sign of zero do not occur. The writer of \<open>Render\<close> is a
  buffer; \<open>None\<close> is the panic of an index out of range.
\<close>

section \<open>Numbers\<close>

definition round_half_even :: "rat \<Rightarrow> int" where
  "round_half_even x =
     (let n = \<lfloor>x\<rfloor>; r = x - of_int n in
      if r < 1 / 2 then n else if 1 / 2 < r then n + 1 else if even n then n else n + 1)"

text \<open>The exponent of the leading bit of a positive number.\<close>

definition binary_exponent :: "rat \<Rightarrow> int" where
  "binary_exponent x =
     (case quotient_of x of (a, b) \<Rightarrow>
        let k = bitlen a - bitlen b in if 2 powi k \<le> x then k else k - 1)"

definition f64 :: "rat \<Rightarrow> rat" where
  "f64 x =
     (if x = 0 then 0
      else let e = max (binary_exponent \<bar>x\<bar> - 52) (- 1074) in of_int (round_half_even (x / 2 powi e)) * 2 powi e)"

text \<open>\<open>time.Duration.Seconds\<close>; \<open>div\<close> and \<open>mod\<close> of Go truncate.\<close>

definition duration_Seconds :: "duration \<Rightarrow> rat" where
  "duration_Seconds d =
     f64 (f64 (of_int (d sdiv Second)) + f64 (f64 (of_int (d smod Second)) / 1000000000))"

text \<open>\<open>fmt.Sprintf("%.10f", x)\<close>: ten digits after the point, rounded half to even.\<close>

definition pad_left :: "nat \<Rightarrow> string \<Rightarrow> string" where
  "pad_left n s = replicate (n - length s) (CHR ''0'') @ s"

definition Sprintf_10f :: "rat \<Rightarrow> string" where
  "Sprintf_10f x =
     (let n = nat (round_half_even (\<bar>x\<bar> * 10 ^ 10)) in
      (if x < 0 then ''-'' else []) @ format_nat (n div 10 ^ 10) @ ''.'' @ pad_left 10 (format_nat (n mod 10 ^ 10)))"

definition TrimSuffix :: "string \<Rightarrow> string \<Rightarrow> string" where
  "TrimSuffix s suf = (if suffix suf s then take (length s - length suf) s else s)"

definition formatFloat :: "rat \<Rightarrow> string" where
  "formatFloat number = TrimSuffix (TrimSuffix (Sprintf_10f number) ''0'') ''.''"

section \<open>Families and samples\<close>

definition DefaultBuckets :: "rat list" where
  "DefaultBuckets =
     map f64 [5/1000, 1/100, 25/1000, 5/100, 1/10, 25/100, 5/10, 1, 25/10, 5, 10]"

record sample =
  vl_labels :: "string list"
  vl_number :: rat
  vl_histogram :: "64 word list"
  vl_sum :: rat
  vl_count :: "64 word"
  vl_hasHistory :: bool

record family =
  fm_name :: string
  fm_help :: string
  fm_metricType :: string
  fm_labelNames :: "string list"
  fm_values :: "(string \<times> sample) list"
  fm_buckets :: "rat list option"

type_synonym registry = "(string \<times> family) list"

definition NewRegistry :: registry where "NewRegistry = []"

definition register_family :: "string \<Rightarrow> string \<Rightarrow> string \<Rightarrow> string list \<Rightarrow> registry \<Rightarrow> registry" where
  "register_family name help metricType labelNames r =
     (case map_of r name of
        Some existing \<Rightarrow> r
      | None \<Rightarrow> AList.update name
          \<lparr>fm_name = name, fm_help = help, fm_metricType = metricType, fm_labelNames = labelNames,
           fm_values = [], fm_buckets = None\<rparr> r)"

definition Registry_Counter :: "string \<Rightarrow> string \<Rightarrow> string list \<Rightarrow> registry \<Rightarrow> registry" where
  "Registry_Counter name help labelNames r = register_family name help ''counter'' labelNames r"

definition Registry_Gauge :: "string \<Rightarrow> string \<Rightarrow> string list \<Rightarrow> registry \<Rightarrow> registry" where
  "Registry_Gauge name help labelNames r = register_family name help ''gauge'' labelNames r"

definition Registry_Histogram :: "string \<Rightarrow> string \<Rightarrow> string list \<Rightarrow> registry \<Rightarrow> registry" where
  "Registry_Histogram name help labelNames r =
     AList.map_entry name
       (\<lambda>f. if fm_buckets f = None then f\<lparr>fm_buckets := Some DefaultBuckets\<rparr> else f)
       (register_family name help ''histogram'' labelNames r)"

text \<open>\<open>sample\<close> finds or creates the sample of some label values; the caller updates it in place.\<close>

definition labels_key :: "string list \<Rightarrow> string" where
  "labels_key labelValues = join_char (CHR 0x00) labelValues"

definition fresh_sample :: "string list \<Rightarrow> sample" where
  "fresh_sample labelValues =
     \<lparr>vl_labels = labelValues, vl_number = 0, vl_histogram = [], vl_sum = 0, vl_count = 0, vl_hasHistory = False\<rparr>"

definition on_sample :: "string list \<Rightarrow> (sample \<Rightarrow> sample) \<Rightarrow> family \<Rightarrow> family" where
  "on_sample labelValues g f =
     (let key = labels_key labelValues;
          s = (case map_of (fm_values f) key of Some existing \<Rightarrow> existing | None \<Rightarrow> fresh_sample labelValues)
      in f\<lparr>fm_values := AList.update key (g s) (fm_values f)\<rparr>)"

definition Counter_Add :: "string \<Rightarrow> rat \<Rightarrow> string list \<Rightarrow> registry \<Rightarrow> registry" where
  "Counter_Add name delta labelValues =
     AList.map_entry name (on_sample labelValues (\<lambda>s. s\<lparr>vl_number := f64 (vl_number s + delta)\<rparr>))"

definition Counter_Inc :: "string \<Rightarrow> string list \<Rightarrow> registry \<Rightarrow> registry" where
  "Counter_Inc name labelValues = Counter_Add name 1 labelValues"

definition Gauge_Set :: "string \<Rightarrow> rat \<Rightarrow> string list \<Rightarrow> registry \<Rightarrow> registry" where
  "Gauge_Set name number labelValues =
     AList.map_entry name (on_sample labelValues (\<lambda>s. s\<lparr>vl_number := number\<rparr>))"

text \<open>The buckets of a family and the counts of a sample have the same length whenever both exist.\<close>

definition bump :: "rat \<Rightarrow> rat list \<Rightarrow> 64 word list \<Rightarrow> 64 word list" where
  "bump seconds buckets histogram =
     map (\<lambda>(bound, n). if seconds \<le> bound then n + 1 else n) (zip buckets histogram)"

definition Histogram_Observe :: "string \<Rightarrow> rat \<Rightarrow> string list \<Rightarrow> registry \<Rightarrow> registry" where
  "Histogram_Observe name seconds labelValues =
     AList.map_entry name (\<lambda>f.
       let buckets = (case fm_buckets f of None \<Rightarrow> [] | Some bs \<Rightarrow> bs) in
       on_sample labelValues (\<lambda>s.
         let s = (if vl_hasHistory s then s
                  else s\<lparr>vl_histogram := replicate (length buckets) 0, vl_hasHistory := True\<rparr>)
         in s\<lparr>vl_histogram := bump seconds buckets (vl_histogram s), vl_sum := f64 (vl_sum s + seconds),
              vl_count := vl_count s + 1\<rparr>) f)"

section \<open>Rendering\<close>

definition ReplaceAll :: "char \<Rightarrow> string \<Rightarrow> string \<Rightarrow> string" where
  "ReplaceAll c new s = concat (map (\<lambda>x. if x = c then new else [x]) s)"

definition escapeLabel :: "string \<Rightarrow> string" where
  "escapeLabel v =
     ReplaceAll (CHR 0x0A) [CHR 0x5C, CHR ''n'']
       (ReplaceAll (CHR 0x22) [CHR 0x5C, CHR 0x22]
         (ReplaceAll (CHR 0x5C) [CHR 0x5C, CHR 0x5C] v))"

definition renderLabels :: "string list \<Rightarrow> string list \<Rightarrow> string" where
  "renderLabels names values =
     (if names = [] then []
      else ''{'' @ join_char (CHR '','')
        (map (\<lambda>(i, name). name @ ''='' @ [CHR 0x22] @ escapeLabel (if i < length values then values ! i else []) @ [CHR 0x22])
          (enumerate 0 names)) @ ''}'')"

definition family_labels :: "family \<Rightarrow> string list \<Rightarrow> string" where
  "family_labels f labelValues = renderLabels (fm_labelNames f) labelValues"

definition labelsWithExtra :: "family \<Rightarrow> string list \<Rightarrow> string \<Rightarrow> string" where
  "labelsWithExtra f labelValues extraName = renderLabels (fm_labelNames f @ [extraName]) labelValues"

definition metric_line :: "string \<Rightarrow> string \<Rightarrow> string \<Rightarrow> string" where
  "metric_line name labels value = name @ labels @ '' '' @ value @ [CHR 0x0A]"

definition format_uint64 :: "64 word \<Rightarrow> string" where "format_uint64 n = format_nat (unat n)"

fun bucket_lines :: "family \<Rightarrow> sample \<Rightarrow> nat \<Rightarrow> rat list \<Rightarrow> string option" where
  "bucket_lines f s i [] = Some []"
| "bucket_lines f s i (bound # bounds) =
     (if length (vl_histogram s) \<le> i then None
      else map_option (\<lambda>rest.
        metric_line (fm_name f @ ''_bucket'') (labelsWithExtra f (vl_labels s @ [formatFloat bound]) ''le'')
          (format_uint64 (vl_histogram s ! i)) @ rest) (bucket_lines f s (Suc i) bounds))"

definition renderHistogram :: "family \<Rightarrow> sample \<Rightarrow> string option" where
  "renderHistogram f s =
     map_option (\<lambda>lines. lines
       @ metric_line (fm_name f @ ''_bucket'') (labelsWithExtra f (vl_labels s @ [''+Inf'']) ''le'') (format_uint64 (vl_count s))
       @ metric_line (fm_name f @ ''_sum'') (family_labels f (vl_labels s)) (formatFloat (vl_sum s))
       @ metric_line (fm_name f @ ''_count'') (family_labels f (vl_labels s)) (format_uint64 (vl_count s)))
     (bucket_lines f s 0 (case fm_buckets f of None \<Rightarrow> [] | Some bs \<Rightarrow> bs))"

definition render_sample :: "family \<Rightarrow> sample \<Rightarrow> string option" where
  "render_sample f s =
     (if fm_metricType f = ''histogram'' then renderHistogram f s
      else Some (metric_line (fm_name f) (family_labels f (vl_labels s)) (formatFloat (vl_number s))))"

fun append_all :: "string option list \<Rightarrow> string option" where
  "append_all [] = Some []"
| "append_all (x # xs) =
     (case x of None \<Rightarrow> None | Some a \<Rightarrow> map_option (\<lambda>rest. a @ rest) (append_all xs))"

text \<open>\<open>sort.Strings\<close> orders by bytes, which is the order of \<open>List_Lexorder\<close>.\<close>

definition render_family :: "family \<Rightarrow> string option" where
  "render_family f =
     map_option (\<lambda>lines.
       ''# HELP '' @ fm_name f @ '' '' @ fm_help f @ [CHR 0x0A]
       @ ''# TYPE '' @ fm_name f @ '' '' @ fm_metricType f @ [CHR 0x0A] @ lines)
     (append_all (map (\<lambda>(key, s). render_sample f s) (sort_key fst (fm_values f))))"

definition Render :: "registry \<Rightarrow> string option" where
  "Render r = append_all (map render_family (sort_key fm_name (map snd r)))"

section \<open>The families of the service\<close>

definition metrics_New :: "registry \<Rightarrow> registry" where
  "metrics_New registry =
     (Registry_Counter ''wallet_reconciliation_divergences_total''
        ''Wallet reconciliations that detected a nonzero difference.'' []
      \<circ> Registry_Histogram ''wager_processing_duration_seconds''
        ''Wager processing duration in seconds.'' [''ingress'', ''kind'', ''status'']
      \<circ> Registry_Gauge ''outbox_oldest_pending_seconds''
        ''Age in seconds of the oldest unpublished outbox event.'' []
      \<circ> Registry_Counter ''wallet_concurrency_conflicts_total''
        ''Concurrent write conflicts observed on wallet operations.'' []
      \<circ> Registry_Counter ''wager_dlq_total'' ''Messages abandoned to the dead-letter queue.'' [''reason'']
      \<circ> Registry_Counter ''wager_retries_total'' ''Recoverable worker retries.'' [''worker'', ''reason'']
      \<circ> Registry_Counter ''wager_idempotency_duplicates_total'' ''Idempotent replays served.'' [''ingress'']
      \<circ> Registry_Counter ''wager_transactions_total''
        ''Durable wager transaction outcomes.'' [''kind'', ''status'', ''ingress'']) registry"

text \<open>
  The calls the adapters make, with the label values as strings. Nothing increments
  \<open>WalletConcurrencyConflictsTotal\<close>.
\<close>

datatype metric_call =
    WagerTransactionsTotal string string string
  | WagerIdempotencyDuplicatesTotal string
  | WagerRetriesTotal string string
  | WagerDLQTotal string
  | WalletReconciliationDivergencesTotal
  | OutboxOldestPendingSeconds duration
  | WagerProcessingDurationSeconds duration string string string

fun metric_update :: "metric_call \<Rightarrow> registry \<Rightarrow> registry" where
  "metric_update (WagerTransactionsTotal kind status ingress) = Counter_Inc ''wager_transactions_total'' [kind, status, ingress]"
| "metric_update (WagerIdempotencyDuplicatesTotal ingress) = Counter_Inc ''wager_idempotency_duplicates_total'' [ingress]"
| "metric_update (WagerRetriesTotal wrk reason) = Counter_Inc ''wager_retries_total'' [wrk, reason]"
| "metric_update (WagerDLQTotal reason) = Counter_Inc ''wager_dlq_total'' [reason]"
| "metric_update WalletReconciliationDivergencesTotal = Counter_Inc ''wallet_reconciliation_divergences_total'' []"
| "metric_update (OutboxOldestPendingSeconds age) = Gauge_Set ''outbox_oldest_pending_seconds'' (duration_Seconds age) []"
| "metric_update (WagerProcessingDurationSeconds elapsed ingress kind status) =
     Histogram_Observe ''wager_processing_duration_seconds'' (duration_Seconds elapsed) [ingress, kind, status]"

text \<open>The registry of a process after the calls it made, in the order it made them.\<close>

definition metrics_after :: "metric_call list \<Rightarrow> registry" where
  "metrics_after calls = fold metric_update calls (metrics_New NewRegistry)"

definition sample_at :: "registry \<Rightarrow> string \<Rightarrow> string list \<Rightarrow> sample option" where
  "sample_at r name labelValues =
     (case map_of r name of None \<Rightarrow> None | Some f \<Rightarrow> map_of (fm_values f) (labels_key labelValues))"

section \<open>Arithmetic\<close>

lemma round_half_even_int [simp]: "round_half_even (of_int n) = n"
  by (simp add: round_half_even_def)

lemma binary_exponent_bound:
  assumes "0 < n" "n < 2 ^ 53"
  shows "binary_exponent (of_int n) \<le> 52"
proof -
  have "bitlen 1 = 1" using compute_bitlen [of 1] by simp
  moreover have "bitlen n \<le> 53" using assms bitlen_le_iff_power [of n 53] by simp
  ultimately show ?thesis by (simp add: binary_exponent_def Let_def)
qed

lemma f64_int:
  assumes "0 \<le> n" "n < 2 ^ 53"
  shows "f64 (of_int n) = of_int n"
proof (cases "n = 0")
  case False
  define e where "e = max (binary_exponent (of_int n) - 52) (- 1074)"
  then have e: "e \<le> 0" using binary_exponent_bound [of n] False assms by simp
  define k where "k = nat (- e)"
  have p: "2 powi e = (1 / 2 :: rat) ^ k"
    using e by (cases "e = 0") (simp_all add: power_int_def k_def field_simps)
  have "(of_int n :: rat) / (1 / 2) ^ k = of_int (n * 2 ^ k)" by (simp add: power_one_over)
  moreover have "of_int (n * 2 ^ k) * (1 / 2 :: rat) ^ k = of_int n" by (simp add: power_one_over)
  moreover have "f64 (of_int n) = of_int (round_half_even (of_int n / 2 powi e)) * 2 powi e"
    using False assms(1) by (simp add: f64_def e_def Let_def)
  ultimately show ?thesis by (simp only: p round_half_even_int)
qed (simp add: f64_def)

lemma f64_Suc:
  assumes "n < 2 ^ 53 - 1"
  shows "f64 (of_nat n + 1) = of_nat (Suc n)"
  using f64_int [of "int (Suc n)"] assms by (simp add: add.commute)

section \<open>Calls and samples\<close>

lemma metrics_New_eq:
  "metrics_New NewRegistry =
     map (\<lambda>(n, h, t, ls, bs). (n, \<lparr>fm_name = n, fm_help = h, fm_metricType = t, fm_labelNames = ls, fm_values = [], fm_buckets = bs\<rparr>))
      [(''wager_transactions_total'', ''Durable wager transaction outcomes.'', ''counter'', [''kind'', ''status'', ''ingress''], None),
       (''wager_idempotency_duplicates_total'', ''Idempotent replays served.'', ''counter'', [''ingress''], None),
       (''wager_retries_total'', ''Recoverable worker retries.'', ''counter'', [''worker'', ''reason''], None),
       (''wager_dlq_total'', ''Messages abandoned to the dead-letter queue.'', ''counter'', [''reason''], None),
       (''wallet_concurrency_conflicts_total'', ''Concurrent write conflicts observed on wallet operations.'', ''counter'', [], None),
       (''outbox_oldest_pending_seconds'', ''Age in seconds of the oldest unpublished outbox event.'', ''gauge'', [], None),
       (''wager_processing_duration_seconds'', ''Wager processing duration in seconds.'', ''histogram'', [''ingress'', ''kind'', ''status''], Some DefaultBuckets),
       (''wallet_reconciliation_divergences_total'', ''Wallet reconciliations that detected a nonzero difference.'', ''counter'', [], None)]"
  by (simp add: metrics_New_def NewRegistry_def Registry_Counter_def Registry_Gauge_def Registry_Histogram_def
      register_family_def)

fun call_target :: "metric_call \<Rightarrow> string \<times> string list" where
  "call_target (WagerTransactionsTotal kind status ingress) = (''wager_transactions_total'', [kind, status, ingress])"
| "call_target (WagerIdempotencyDuplicatesTotal ingress) = (''wager_idempotency_duplicates_total'', [ingress])"
| "call_target (WagerRetriesTotal wrk reason) = (''wager_retries_total'', [wrk, reason])"
| "call_target (WagerDLQTotal reason) = (''wager_dlq_total'', [reason])"
| "call_target WalletReconciliationDivergencesTotal = (''wallet_reconciliation_divergences_total'', [])"
| "call_target (OutboxOldestPendingSeconds age) = (''outbox_oldest_pending_seconds'', [])"
| "call_target (WagerProcessingDurationSeconds elapsed ingress kind status) =
     (''wager_processing_duration_seconds'', [ingress, kind, status])"

fun call_sample :: "metric_call \<Rightarrow> rat list \<Rightarrow> sample \<Rightarrow> sample" where
  "call_sample (OutboxOldestPendingSeconds age) buckets s = s\<lparr>vl_number := duration_Seconds age\<rparr>"
| "call_sample (WagerProcessingDurationSeconds elapsed ingress kind status) buckets s =
     (let s = (if vl_hasHistory s then s
               else s\<lparr>vl_histogram := replicate (length buckets) 0, vl_hasHistory := True\<rparr>)
      in s\<lparr>vl_histogram := bump (duration_Seconds elapsed) buckets (vl_histogram s),
           vl_sum := f64 (vl_sum s + duration_Seconds elapsed), vl_count := vl_count s + 1\<rparr>)"
| "call_sample _ buckets s = s\<lparr>vl_number := f64 (vl_number s + 1)\<rparr>"

definition buckets_of :: "family \<Rightarrow> rat list" where
  "buckets_of f = (case fm_buckets f of None \<Rightarrow> [] | Some bs \<Rightarrow> bs)"

lemma call_sample_eta:
  "call_sample (OutboxOldestPendingSeconds age) bs = (\<lambda>s. s\<lparr>vl_number := duration_Seconds age\<rparr>)"
  "call_sample (WagerTransactionsTotal x y z) bs = (\<lambda>s. s\<lparr>vl_number := f64 (vl_number s + 1)\<rparr>)"
  "call_sample (WagerIdempotencyDuplicatesTotal x) bs = (\<lambda>s. s\<lparr>vl_number := f64 (vl_number s + 1)\<rparr>)"
  "call_sample (WagerRetriesTotal x y) bs = (\<lambda>s. s\<lparr>vl_number := f64 (vl_number s + 1)\<rparr>)"
  "call_sample (WagerDLQTotal x) bs = (\<lambda>s. s\<lparr>vl_number := f64 (vl_number s + 1)\<rparr>)"
  "call_sample WalletReconciliationDivergencesTotal bs = (\<lambda>s. s\<lparr>vl_number := f64 (vl_number s + 1)\<rparr>)"
  by (rule ext, simp)+

lemma metric_update_eq:
  "metric_update c =
     AList.map_entry (fst (call_target c))
       (\<lambda>f. on_sample (snd (call_target c)) (call_sample c (buckets_of f)) f)"
proof (cases c)
  case (WagerProcessingDurationSeconds d i k s)
  have e: "call_sample (WagerProcessingDurationSeconds d i k s) bs = (\<lambda>s. let s = (if vl_hasHistory s then s
                   else s\<lparr>vl_histogram := replicate (length bs) 0, vl_hasHistory := True\<rparr>)
          in s\<lparr>vl_histogram := bump (duration_Seconds d) bs (vl_histogram s),
               vl_sum := f64 (vl_sum s + duration_Seconds d), vl_count := vl_count s + 1\<rparr>)" for bs
    by (rule ext) simp
  show ?thesis
    unfolding e WagerProcessingDurationSeconds buckets_of_def
    by (simp only: call_target.simps metric_update.simps fst_conv snd_conv Histogram_Observe_def Let_def)
qed (simp_all add: Counter_Inc_def Counter_Add_def Gauge_Set_def call_sample_eta)

lemma on_sample_simps [simp]:
  "fm_name (on_sample vs g f) = fm_name f" "fm_metricType (on_sample vs g f) = fm_metricType f"
  "fm_buckets (on_sample vs g f) = fm_buckets f" "fm_labelNames (on_sample vs g f) = fm_labelNames f"
  by (simp_all add: on_sample_def Let_def)

lemma on_sample_map_of:
  "map_of (fm_values (on_sample vs g f)) =
     (map_of (fm_values f))(labels_key vs \<mapsto>
       g (case map_of (fm_values f) (labels_key vs) of Some s \<Rightarrow> s | None \<Rightarrow> fresh_sample vs))"
  by (simp add: on_sample_def Let_def AList.update_conv')

text \<open>What a call leaves of the registry: the names, the types and the buckets of the families.\<close>

definition shape :: "registry \<Rightarrow> (string \<times> string \<times> string \<times> rat list option) list" where
  "shape r = map (\<lambda>(n, f). (n, fm_name f, fm_metricType f, fm_buckets f)) r"

lemma shape_map_entry:
  "(\<And>f. fm_name (g f) = fm_name f \<and> fm_metricType (g f) = fm_metricType f \<and> fm_buckets (g f) = fm_buckets f) \<Longrightarrow>
     shape (AList.map_entry n g r) = shape r"
  unfolding shape_def by (induction r) (auto simp: split_beta)

lemma shape_metric_update [simp]: "shape (metric_update c r) = shape r"
  unfolding metric_update_eq by (rule shape_map_entry) simp

lemma shape_metrics_after: "shape (metrics_after calls) = shape (metrics_New NewRegistry)"
proof -
  have "shape (fold metric_update calls r) = shape r" for r
    by (induction calls arbitrary: r) simp_all
  then show ?thesis by (simp add: metrics_after_def)
qed

lemma map_of_shape:
  "map_of (shape r) n = map_option (\<lambda>f. (fm_name f, fm_metricType f, fm_buckets f)) (map_of r n)"
  unfolding shape_def by (induction r) auto

lemma metrics_after_snoc: "metrics_after (calls @ [c]) = metric_update c (metrics_after calls)"
  by (simp add: metrics_after_def)

lemma metrics_after_Nil_sample: "sample_at (metrics_after []) n ls = None"
  by (auto simp: sample_at_def metrics_after_def metrics_New_eq split: option.splits dest!: map_of_SomeD)

lemma target_registered:
  obtains f where "map_of (metrics_after calls) (fst (call_target c)) = Some f"
proof -
  have "map_of (shape (metrics_New NewRegistry)) (fst (call_target c)) \<noteq> None"
    by (cases c) (simp_all add: metrics_New_eq shape_def)
  then show ?thesis
    using that map_of_shape [of "metrics_after calls" "fst (call_target c)"]
    by (auto simp: shape_metrics_after)
qed

text \<open>Label values without a NUL byte, which the key of a sample separates its values with.\<close>

definition call_clean :: "metric_call \<Rightarrow> bool" where
  "call_clean c \<longleftrightarrow> list_all (\<lambda>v. CHR 0x00 \<notin> set v) (snd (call_target c))"

lemma labels_key_inject:
  assumes "length vs = length ws" "list_all (\<lambda>v. CHR 0x00 \<notin> set v) vs" "list_all (\<lambda>v. CHR 0x00 \<notin> set v) ws"
  shows "labels_key vs = labels_key ws \<longleftrightarrow> vs = ws"
  using assms split_join [of "CHR 0x00" vs] split_join [of "CHR 0x00" ws]
  unfolding labels_key_def by (metis length_0_conv)

lemma same_family_arity:
  "fst (call_target c) = fst (call_target d) \<Longrightarrow> length (snd (call_target c)) = length (snd (call_target d))"
  by (cases c; cases d) simp_all

definition call_value :: "registry \<Rightarrow> metric_call \<Rightarrow> sample option" where
  "call_value r c = sample_at r (fst (call_target c)) (snd (call_target c))"

text \<open>A call changes the sample it names and no other.\<close>

lemma call_value_step:
  assumes "call_clean c" "call_clean d" "map_of r (fst (call_target d)) = Some f"
  shows "call_value (metric_update d r) c =
    (if call_target d = call_target c
     then Some (call_sample d (buckets_of f)
       (case call_value r c of Some s \<Rightarrow> s | None \<Rightarrow> fresh_sample (snd (call_target c))))
     else call_value r c)"
proof (cases "fst (call_target d) = fst (call_target c)")
  case True
  have key: "labels_key (snd (call_target d)) = labels_key (snd (call_target c)) \<longleftrightarrow> call_target d = call_target c"
    using labels_key_inject [OF same_family_arity [OF True]] assms(1,2) True
    by (simp add: call_clean_def prod_eq_iff)
  have r: "map_of (metric_update d r) (fst (call_target c))
      = Some (on_sample (snd (call_target d)) (call_sample d (buckets_of f)) f)"
    using assms(3) True by (simp add: metric_update_eq AList.map_of_map_entry)
  show ?thesis
  proof (cases "call_target d = call_target c")
    case same: True
    then show ?thesis using r assms(3) by (simp add: call_value_def sample_at_def on_sample_map_of)
  next
    case False
    then have "labels_key (snd (call_target c)) \<noteq> labels_key (snd (call_target d))" using key by metis
    then show ?thesis
      using r assms(3) True False by (simp add: call_value_def sample_at_def on_sample_map_of)
  qed
next
  case False
  then have "map_of (metric_update d r) (fst (call_target c)) = map_of r (fst (call_target c))"
    by (simp add: metric_update_eq AList.map_of_map_entry)
  then show ?thesis using False by (auto simp: call_value_def sample_at_def)
qed

fun counted :: "metric_call \<Rightarrow> bool" where
  "counted (OutboxOldestPendingSeconds age) = False"
| "counted (WagerProcessingDurationSeconds elapsed ingress kind status) = False"
| "counted _ = True"

lemma counted_target: "counted c \<Longrightarrow> call_target d = call_target c \<longleftrightarrow> d = c"
  by (cases c; cases d) auto

lemma counted_sample: "counted c \<Longrightarrow> vl_number (call_sample c bs s) = f64 (vl_number s + 1)"
  by (cases c) simp_all

lemma counter_number:
  assumes "counted c" "call_clean c" "list_all call_clean calls" "length calls < 2 ^ 53"
  shows "(case call_value (metrics_after calls) c of None \<Rightarrow> 0 | Some s \<Rightarrow> vl_number s) = of_nat (count_list calls c)"
  using assms(3,4)
proof (induction calls rule: rev_induct)
  case Nil
  then show ?case by (simp add: call_value_def metrics_after_Nil_sample)
next
  case (snoc d calls)
  obtain f where f: "map_of (metrics_after calls) (fst (call_target d)) = Some f" by (rule target_registered)
  have step: "call_value (metrics_after (calls @ [d])) c =
    (if d = c then Some (call_sample d (buckets_of f)
       (case call_value (metrics_after calls) c of Some s \<Rightarrow> s | None \<Rightarrow> fresh_sample (snd (call_target c))))
     else call_value (metrics_after calls) c)"
    using call_value_step [OF assms(2) _ f] snoc.prems counted_target [OF assms(1)]
    by (simp add: metrics_after_snoc)
  have IH: "(case call_value (metrics_after calls) c of None \<Rightarrow> 0 | Some s \<Rightarrow> vl_number s) = of_nat (count_list calls c)"
    using snoc by simp
  show ?case
  proof (cases "d = c")
    case True
    have "count_list calls c \<le> length calls" by (rule count_le_length)
    then have "count_list calls c < 2 ^ 53 - 1" using snoc.prems by simp
    then have "f64 (of_nat (count_list calls c) + 1) = of_nat (Suc (count_list calls c))" by (rule f64_Suc)
    then show ?thesis
      using True IH step assms(1)
      by (cases "call_value (metrics_after calls) c") (simp_all add: counted_sample fresh_sample_def)
  next
    case False
    then show ?thesis using IH step by simp
  qed
qed

text \<open>The durations observed under some labels, in order.\<close>

fun durations_of :: "string \<Rightarrow> string \<Rightarrow> string \<Rightarrow> metric_call list \<Rightarrow> duration list" where
  "durations_of ingress kind status [] = []"
| "durations_of ingress kind status (c # cs) =
     (case c of
        WagerProcessingDurationSeconds d i k s \<Rightarrow>
          (if i = ingress \<and> k = kind \<and> s = status then [d] else []) @ durations_of ingress kind status cs
      | _ \<Rightarrow> durations_of ingress kind status cs)"

lemma durations_of_append:
  "durations_of i k s (cs @ ds) = durations_of i k s cs @ durations_of i k s ds"
  by (induction cs) (auto split: metric_call.splits)

definition duration_sample :: "string list \<Rightarrow> duration list \<Rightarrow> sample" where
  "duration_sample labelValues ds =
     \<lparr>vl_labels = labelValues, vl_number = 0,
      vl_histogram = map (\<lambda>bound. of_nat (length (filter (\<lambda>d. duration_Seconds d \<le> bound) ds))) DefaultBuckets,
      vl_sum = foldl (\<lambda>total d. f64 (total + duration_Seconds d)) 0 ds, vl_count = of_nat (length ds),
      vl_hasHistory = True\<rparr>"

lemma duration_sample_snoc:
  "call_sample (WagerProcessingDurationSeconds d i k s) DefaultBuckets (duration_sample ls ds) = duration_sample ls (ds @ [d])"
  by (simp add: duration_sample_def bump_def zip_map2 zip_same_conv_map split_beta)

lemma duration_sample_first:
  "call_sample (WagerProcessingDurationSeconds d i k s) DefaultBuckets (fresh_sample ls) = duration_sample ls [d]"
  by (simp add: duration_sample_def fresh_sample_def bump_def map_replicate_const [symmetric] zip_map2 zip_same_conv_map split_beta)

lemma histogram_buckets:
  "map_of (metrics_after calls) ''wager_processing_duration_seconds'' = Some f \<Longrightarrow> buckets_of f = DefaultBuckets"
  using map_of_shape [of "metrics_after calls" "''wager_processing_duration_seconds''"]
  by (simp add: shape_metrics_after) (auto simp: metrics_New_eq shape_def buckets_of_def split: option.splits)

lemma histogram_sample:
  assumes "list_all call_clean calls" "call_clean (WagerProcessingDurationSeconds t i k s)"
  shows "call_value (metrics_after calls) (WagerProcessingDurationSeconds t i k s) =
    (if durations_of i k s calls = [] then None
     else Some (duration_sample [i, k, s] (durations_of i k s calls)))"
  using assms(1)
proof (induction calls rule: rev_induct)
  case Nil
  then show ?case by (simp add: call_value_def metrics_after_Nil_sample)
next
  case (snoc c calls)
  let ?q = "WagerProcessingDurationSeconds t i k s"
  obtain f where f: "map_of (metrics_after calls) (fst (call_target c)) = Some f" by (rule target_registered)
  note step = call_value_step [OF assms(2) _ f]
  show ?case
  proof (cases "call_target c = call_target ?q")
    case True
    then obtain d where d: "c = WagerProcessingDurationSeconds d i k s" by (cases c) auto
    then have "buckets_of f = DefaultBuckets" using f histogram_buckets by simp
    then show ?thesis
      using step snoc d by (simp add: metrics_after_snoc durations_of_append duration_sample_snoc duration_sample_first
        del: call_sample.simps)
  next
    case False
    then have "durations_of i k s [c] = []" by (cases c) auto
    then show ?thesis using step snoc False by (simp add: metrics_after_snoc durations_of_append)
  qed
qed

section \<open>Rendering never fails\<close>

definition family_ok :: "string \<times> family \<Rightarrow> bool" where
  "family_ok nf \<longleftrightarrow>
     (fm_metricType (snd nf) = ''histogram'' \<longrightarrow>
        fst nf = ''wager_processing_duration_seconds''
        \<and> list_all (\<lambda>(k, s). length (vl_histogram s) = length (buckets_of (snd nf))) (fm_values (snd nf)))"

lemma bucket_lines_total: "i + length bounds \<le> length (vl_histogram s) \<Longrightarrow> bucket_lines f s i bounds \<noteq> None"
  by (induction bounds arbitrary: i) auto

lemma append_all_total: "\<forall>x\<in>set xs. x \<noteq> None \<Longrightarrow> append_all xs \<noteq> None"
  by (induction xs) (auto split: option.splits)

lemma render_family_total: "family_ok (n, f) \<Longrightarrow> render_family f \<noteq> None"
proof -
  assume ok: "family_ok (n, f)"
  have "render_sample f s \<noteq> None" if "(k, s) \<in> set (fm_values f)" for k s
  proof (cases "fm_metricType f = ''histogram''")
    case True
    then have "length (vl_histogram s) = length (buckets_of f)" using ok that by (auto simp: family_ok_def list_all_iff)
    then show ?thesis
      using bucket_lines_total [of 0 "buckets_of f" s f] True
      by (simp add: render_sample_def renderHistogram_def buckets_of_def)
  qed (simp add: render_sample_def)
  then have "append_all (map (\<lambda>(key, s). render_sample f s) (sort_key fst (fm_values f))) \<noteq> None"
    by (intro append_all_total) auto
  then show ?thesis by (simp add: render_family_def)
qed

lemma Render_total:
  assumes "list_all family_ok r"
  shows "Render r \<noteq> None"
  unfolding Render_def
proof (rule append_all_total)
  show "\<forall>x\<in>set (map render_family (sort_key fm_name (map snd r))). x \<noteq> None"
    using assms render_family_total by (fastforce simp: list_all_iff)
qed

lemma list_all_update: "P (k, v) \<Longrightarrow> list_all P al \<Longrightarrow> list_all P (AList.update k v al)"
  by (induction al) auto

lemma list_all_map_entry:
  "list_all P r \<Longrightarrow> (\<And>f. P (n, f) \<Longrightarrow> P (n, g f)) \<Longrightarrow> list_all P (AList.map_entry n g r)"
  by (induction r) auto

lemma on_sample_ok:
  assumes "family_ok (n, f)" "n = fst (call_target c)"
  shows "family_ok (n, on_sample (snd (call_target c)) (call_sample c (buckets_of f)) f)"
proof (cases "fm_metricType f = ''histogram''")
  case True
  then have n: "n = ''wager_processing_duration_seconds''" using assms(1) by (simp add: family_ok_def)
  then obtain d i k s where c: "c = WagerProcessingDurationSeconds d i k s" using assms(2) by (cases c) auto
  let ?len = "\<lambda>s. length (vl_histogram s) = length (buckets_of f)"
  have all: "list_all (\<lambda>(k, s). ?len s) (fm_values f)" using assms(1) True by (simp add: family_ok_def)
  let ?key = "labels_key (snd (call_target c))"
  let ?old = "case map_of (fm_values f) ?key of Some s \<Rightarrow> s | None \<Rightarrow> fresh_sample (snd (call_target c))"
  have "?len (call_sample c (buckets_of f) ?old)"
  proof (cases "map_of (fm_values f) ?key")
    case (Some s0)
    then have "?len s0" using all by (auto simp: list_all_iff dest!: map_of_SomeD)
    then show ?thesis using Some c by (simp add: bump_def Let_def)
  qed (simp add: c bump_def Let_def fresh_sample_def)
  then have "list_all (\<lambda>(k, s). ?len s) (AList.update ?key (call_sample c (buckets_of f) ?old) (fm_values f))"
    using all by (intro list_all_update) simp_all
  then show ?thesis using n by (simp add: family_ok_def on_sample_def Let_def buckets_of_def)
qed (simp add: family_ok_def)

lemma metrics_after_ok: "list_all family_ok (metrics_after calls)"
proof (induction calls rule: rev_induct)
  case Nil
  then show ?case by (simp add: metrics_after_def metrics_New_eq family_ok_def)
next
  case (snoc c calls)
  then show ?case
    unfolding metrics_after_snoc metric_update_eq by (intro list_all_map_entry on_sample_ok) simp_all
qed

section \<open>Label values and numbers in the text\<close>

fun unescape :: "string \<Rightarrow> string" where
  "unescape [] = []"
| "unescape [c] = [c]"
| "unescape (c # d # cs) =
     (if c = CHR 0x5C then (if d = CHR ''n'' then CHR 0x0A else d) # unescape cs else c # unescape (d # cs))"

definition escape_char :: "char \<Rightarrow> string" where
  "escape_char c =
     (if c = CHR 0x5C then [CHR 0x5C, CHR 0x5C] else if c = CHR 0x22 then [CHR 0x5C, CHR 0x22]
      else if c = CHR 0x0A then [CHR 0x5C, CHR ''n''] else [c])"

lemma ReplaceAll_simps [simp]:
  "ReplaceAll c new [] = []" "ReplaceAll c new (x # xs) = (if x = c then new else [x]) @ ReplaceAll c new xs"
  by (simp_all add: ReplaceAll_def)

lemma escapeLabel_Cons: "escapeLabel (c # v) = escape_char c @ escapeLabel v"
  by (auto simp: escapeLabel_def escape_char_def)

lemma escapeLabel_Nil [simp]: "escapeLabel [] = []"
  by (simp add: escapeLabel_def)

lemma unescape_plain: "c \<noteq> CHR 0x5C \<Longrightarrow> unescape (c # cs) = c # unescape cs"
  by (cases cs) simp_all

lemma unescape_escapeLabel: "unescape (escapeLabel v) = v"
  by (induction v) (auto simp: escapeLabel_Cons escape_char_def unescape_plain)

lemma escapeLabel_one_line: "CHR 0x0A \<notin> set (escapeLabel v)"
  by (induction v) (auto simp: escapeLabel_Cons escape_char_def)

text \<open>
  One zero at most is cut from a number, and the point never: the second \<open>TrimSuffix\<close> has no effect.
\<close>

lemma pad_left_length: "length s \<le> n \<Longrightarrow> length (pad_left n s) = n"
  by (simp add: pad_left_def)

lemma format_nat_length: "n < 10 ^ k \<Longrightarrow> 0 < k \<Longrightarrow> length (format_nat n) \<le> k"
proof (induction n arbitrary: k rule: format_nat.induct)
  case (1 n)
  show ?case
  proof (cases "n < 10")
    case True
    then show ?thesis using 1(3) by (simp add: format_nat.simps)
  next
    case False
    then obtain k' where k: "k = Suc k'" "0 < k'"
      using 1(2,3) by (cases k; cases "k - 1") auto
    then have "length (format_nat (n div 10)) \<le> k'"
      using 1 False by (intro 1(1)) (simp_all add: div_less_iff_less_mult mult.commute)
    then show ?thesis using False k by (simp add: format_nat.simps [of n])
  qed
qed

lemma suffix_snoc_char: "suffix [c] (xs @ [d]) \<longleftrightarrow> c = d"
  by (auto simp: suffix_def)

lemma TrimSuffix_absent: "\<not> suffix suf s \<Longrightarrow> TrimSuffix s suf = s"
  by (simp add: TrimSuffix_def)

lemma formatFloat_keeps_point:
  "\<exists>whole digits. formatFloat x = whole @ ''.'' @ digits \<and> length digits \<in> {9, 10} \<and> list_all is_digit digits"
proof -
  define n where "n = nat (round_half_even (\<bar>x\<bar> * 10 ^ 10))"
  define ds where "ds = pad_left 10 (format_nat (n mod 10 ^ 10))"
  define whole where "whole = (if x < 0 then ''-'' else []) @ format_nat (n div 10 ^ 10)"
  have s: "Sprintf_10f x = whole @ ''.'' @ ds"
    by (simp add: Sprintf_10f_def n_def ds_def whole_def Let_def)
  have "length (format_nat (n mod 10 ^ 10)) \<le> 10" by (rule format_nat_length) simp_all
  then have len: "length ds = 10" by (simp add: ds_def pad_left_length)
  have dig: "list_all is_digit ds"
    using format_nat_digits by (auto simp: ds_def pad_left_def list_all_iff is_digit_def byte_of_def)
  obtain es e where es: "ds = es @ [e]" "length es = 9" using len by (cases ds rule: rev_cases) auto
  then have e: "list_all is_digit es" "is_digit e" using dig by simp_all
  have one: "TrimSuffix (Sprintf_10f x) ''0'' = whole @ ''.'' @ (if e = CHR ''0'' then es else ds)"
    using suffix_snoc_char [of "CHR ''0''" "whole @ ''.'' @ es" e] by (auto simp: TrimSuffix_def s es)
  have nd: "\<not> is_digit (CHR ''.'')" by (simp add: is_digit_def byte_of_def)
  have "\<not> suffix ''.'' (whole @ ''.'' @ (if e = CHR ''0'' then es else ds))"
    using es e nd by (cases es rule: rev_cases) (auto simp: suffix_def)
  then have "formatFloat x = whole @ ''.'' @ (if e = CHR ''0'' then es else ds)"
    unfolding formatFloat_def one by (rule TrimSuffix_absent)
  moreover have "length (if e = CHR ''0'' then es else ds) \<in> {9, 10}
      \<and> list_all is_digit (if e = CHR ''0'' then es else ds)"
    using es(2) len dig e(1) by simp
  ultimately show ?thesis by blast
qed

lemma DefaultBuckets_sorted: "sorted DefaultBuckets"
  by code_simp

lemma formatFloat_one: "formatFloat 1 = ''1.000000000''"
proof -
  have "round_half_even (\<bar>1\<bar> * 10 ^ 10) = 10 ^ 10" using round_half_even_int [of "10 ^ 10"] by simp
  moreover have "pad_left 10 ''0'' = ''0000000000''" by (simp add: pad_left_def eval_nat_numeral)
  moreover have "format_nat 1 = ''1''" "format_nat 0 = ''0''"
    by (simp_all add: format_nat.simps)
  ultimately have "Sprintf_10f 1 = ''1.0000000000''" by (simp add: Sprintf_10f_def nat_power_eq)
  then show ?thesis by (simp add: formatFloat_def TrimSuffix_def suffix_to_prefix)
qed

section \<open>What the registry shows\<close>

text \<open>
  C23: the registry shows what happened. After any calls of the service, fewer than \<open>2 ^ 53\<close> and with label
  values free of NUL bytes, every counter holds exactly the number of its calls; the histogram of the
  durations holds, for the labels of every observation, the number of observations up to each bound, their
  rounded sum and their count; and the registry renders without failing.
\<close>

theorem metrics_show_the_calls:
  assumes "list_all call_clean calls" "length calls < 2 ^ 53"
  shows "(\<forall>c. counted c \<and> call_clean c \<longrightarrow>
      (case call_value (metrics_after calls) c of None \<Rightarrow> 0 | Some s \<Rightarrow> vl_number s) = of_nat (count_list calls c))
    \<and> (\<forall>d i k s. WagerProcessingDurationSeconds d i k s \<in> set calls \<longrightarrow>
      call_value (metrics_after calls) (WagerProcessingDurationSeconds d i k s)
        = Some (duration_sample [i, k, s] (durations_of i k s calls)))
    \<and> Render (metrics_after calls) \<noteq> None"
proof (intro conjI allI impI)
  fix c
  assume "counted c \<and> call_clean c"
  then show "(case call_value (metrics_after calls) c of None \<Rightarrow> 0 | Some s \<Rightarrow> vl_number s) = of_nat (count_list calls c)"
    using counter_number assms by blast
next
  fix d i k s
  assume m: "WagerProcessingDurationSeconds d i k s \<in> set calls"
  then have "call_clean (WagerProcessingDurationSeconds d i k s)" using assms(1) by (simp add: list_all_iff)
  moreover have "durations_of i k s calls \<noteq> []" using m by (induction calls) (auto split: metric_call.splits)
  ultimately show "call_value (metrics_after calls) (WagerProcessingDurationSeconds d i k s)
      = Some (duration_sample [i, k, s] (durations_of i k s calls))"
    using histogram_sample [OF assms(1)] by simp
next
  show "Render (metrics_after calls) \<noteq> None" by (rule Render_total [OF metrics_after_ok])
qed

definition sample_calls :: "metric_call list" where
  "sample_calls =
     [WagerTransactionsTotal ''BET'' ''PROCESSED'' ''http'', WagerDLQTotal ''redrive'',
      WagerTransactionsTotal ''BET'' ''PROCESSED'' ''http'']"

lemma metrics_show_the_calls_witness:
  "(case call_value (metrics_after sample_calls) (WagerTransactionsTotal ''BET'' ''PROCESSED'' ''http'') of
      None \<Rightarrow> 0 | Some s \<Rightarrow> vl_number s) = 2"
proof -
  have "list_all call_clean sample_calls" by (simp add: sample_calls_def call_clean_def)
  moreover have "length sample_calls < 2 ^ 53" by (simp add: sample_calls_def)
  moreover have "counted (WagerTransactionsTotal ''BET'' ''PROCESSED'' ''http'')"
    "call_clean (WagerTransactionsTotal ''BET'' ''PROCESSED'' ''http'')"
    by (simp_all add: call_clean_def)
  moreover have "count_list sample_calls (WagerTransactionsTotal ''BET'' ''PROCESSED'' ''http'') = 2"
    by (simp add: sample_calls_def)
  ultimately show ?thesis using metrics_show_the_calls [of sample_calls] by (metis of_nat_numeral)
qed

text \<open>The counts of a histogram are cumulative and bounded by its count, as its text format requires.\<close>

lemma duration_sample_cumulative:
  assumes "i \<le> j" "j < length DefaultBuckets" "length ds < 2 ^ 64"
  shows "unat (vl_histogram (duration_sample ls ds) ! i) \<le> unat (vl_histogram (duration_sample ls ds) ! j)"
    and "unat (vl_histogram (duration_sample ls ds) ! j) \<le> unat (vl_count (duration_sample ls ds))"
proof -
  let ?n = "\<lambda>b. length (filter (\<lambda>d. duration_Seconds d \<le> b) ds)"
  have small: "unat (of_nat (?n b) :: 64 word) = ?n b" for b
    using le_less_trans [OF length_filter_le assms(3)] by (simp add: unsigned_of_nat take_bit_nat_eq_self)
  have "DefaultBuckets ! i \<le> DefaultBuckets ! j"
    using DefaultBuckets_sorted assms(1,2) by (simp add: sorted_iff_nth_mono)
  then have "?n (DefaultBuckets ! i) \<le> ?n (DefaultBuckets ! j)"
    by (induction ds) auto
  then show "unat (vl_histogram (duration_sample ls ds) ! i) \<le> unat (vl_histogram (duration_sample ls ds) ! j)"
    using assms small by (simp add: duration_sample_def)
  have "unat (of_nat (length ds) :: 64 word) = length ds" using assms(3) by (simp add: unsigned_of_nat take_bit_nat_eq_self)
  then show "unat (vl_histogram (duration_sample ls ds) ! j) \<le> unat (vl_count (duration_sample ls ds))"
    using assms small by (simp add: duration_sample_def)
qed

text \<open>The family of the write conflicts never gets a sample.\<close>

lemma conflicts_never_counted: "sample_at (metrics_after calls) ''wallet_concurrency_conflicts_total'' ls = None"
proof (induction calls rule: rev_induct)
  case (snoc c calls)
  have "fst (call_target c) \<noteq> ''wallet_concurrency_conflicts_total''" by (cases c) simp_all
  then show ?case
    using snoc by (simp add: sample_at_def metrics_after_snoc metric_update_eq AList.map_of_map_entry)
qed (rule metrics_after_Nil_sample)

end
