(* ===== verification/Queues.thy ===== *)
theory Queues
  imports Config Outbox
begin

text \<open>
  The queue adapters beside the consumer: the readiness probe of \<open>internal/adapters/sqs/client.go\<close>, the
  senders of \<open>producer.go\<close> and the provisioning of \<open>provision.go\<close>. The client of the queue service is a
  parameter, a record of the calls the code makes, each a function of the state of the service; a pointer
  that may be nil is an option, as \<open>aws.ToString\<close> reads it.
\<close>

section \<open>The client\<close>

type_synonym attributes = "(string \<times> string) list"

record 'b send_input =
  si_QueueUrl :: string
  si_MessageBody :: 'b
  si_MessageGroupId :: string
  si_MessageDeduplicationId :: string

record ('e, 's) queue_api =
  qa_GetQueueUrl :: "string \<Rightarrow> 's \<Rightarrow> ('e + string option) \<times> 's"
  qa_CreateQueue :: "string \<Rightarrow> attributes \<Rightarrow> 's \<Rightarrow> ('e + string option) \<times> 's"
  qa_GetQueueAttributes :: "string \<Rightarrow> string list \<Rightarrow> 's \<Rightarrow> ('e + attributes) \<times> 's"

definition aws_ToString :: "string option \<Rightarrow> string" where
  "aws_ToString p = (case p of None \<Rightarrow> [] | Some s \<Rightarrow> s)"

definition queue_bind ::
  "('s \<Rightarrow> ('e + 'a) \<times> 's) \<Rightarrow> ('a \<Rightarrow> 's \<Rightarrow> ('e + 'b) \<times> 's) \<Rightarrow> 's \<Rightarrow> ('e + 'b) \<times> 's" where
  "queue_bind m k s = (case m s of (Inl e, s') \<Rightarrow> (Inl e, s') | (Inr x, s') \<Rightarrow> k x s')"

definition Ping :: "('e, 's) queue_api \<Rightarrow> string \<Rightarrow> 's \<Rightarrow> ('e + unit) \<times> 's" where
  "Ping client queueURL =
     queue_bind (qa_GetQueueAttributes client queueURL [''QueueArn'']) (\<lambda>_ s. (Inr (), s))"

section \<open>Senders\<close>

text \<open>Both senders fail exactly as the client does; what they send is a function of their arguments.\<close>

definition EventSender_input :: "string \<Rightarrow> outbox_record \<Rightarrow> envelope send_input" where
  "EventSender_input queueURL r =
     \<lparr>si_QueueUrl = queueURL, si_MessageBody = or_Payload r, si_MessageGroupId = or_AggregateID r,
      si_MessageDeduplicationId = or_EventID r\<rparr>"

definition EventSender_Publish ::
  "(envelope send_input \<Rightarrow> 's \<Rightarrow> ('e + unit) \<times> 's) \<Rightarrow> string \<Rightarrow> outbox_record \<Rightarrow> 's \<Rightarrow> ('e + unit) \<times> 's" where
  "EventSender_Publish sendMessage queueURL r = sendMessage (EventSender_input queueURL r)"

definition SendWagerRequest ::
  "(string send_input \<Rightarrow> 's \<Rightarrow> ('e + unit) \<times> 's) \<Rightarrow> string \<Rightarrow> string \<Rightarrow> string \<Rightarrow> string \<Rightarrow> 's \<Rightarrow> ('e + unit) \<times> 's" where
  "SendWagerRequest sendMessage queueURL messageID walletID body =
     sendMessage \<lparr>si_QueueUrl = queueURL, si_MessageBody = body, si_MessageGroupId = walletID,
                  si_MessageDeduplicationId = messageID\<rparr>"

section \<open>Provisioning\<close>

definition IngressQueueName :: string where "IngressQueueName = ''wager-transactions.fifo''"
definition DLQName :: string where "DLQName = ''wager-transactions-dlq.fifo''"
definition EventQueueName :: string where "EventQueueName = ''wager-events.fifo''"

record queue_urls =
  qs_IngressURL :: string
  qs_DLQURL :: string
  qs_EventURL :: string

text \<open>\<open>Provisioning name err\<close> is the wrapped error; marshalling a map of strings does not fail.\<close>

datatype 'e provision_error = Provisioning string 'e

definition queueARN :: "('e, 's) queue_api \<Rightarrow> string \<Rightarrow> 's \<Rightarrow> ('e + string) \<times> 's" where
  "queueARN client queueURL =
     queue_bind (qa_GetQueueAttributes client queueURL [''QueueArn'']) (\<lambda>attributes s.
     (Inr (aws_ToString (map_of attributes ''QueueArn'')), s))"

definition ensureQueue :: "('e, 's) queue_api \<Rightarrow> string \<Rightarrow> attributes \<Rightarrow> 's \<Rightarrow> ('e + (string \<times> string)) \<times> 's" where
  "ensureQueue client name attributes s =
     (case qa_GetQueueUrl client name s of
        (Inr output, s1) \<Rightarrow>
          (let url = aws_ToString output in
           queue_bind (queueARN client url) (\<lambda>arn s2. (Inr (url, arn), s2)) s1)
      | (Inl _, s1) \<Rightarrow>
          queue_bind (qa_CreateQueue client name attributes) (\<lambda>created s2.
            let url = aws_ToString created in
            queue_bind (queueARN client url) (\<lambda>arn s3. (Inr (url, arn), s3)) s2) s1)"

definition dlq_attributes :: attributes where
  "dlq_attributes = [(''FifoQueue'', ''true''), (''MessageRetentionPeriod'', ''1209600'')]"

definition redrive_policy :: "string \<Rightarrow> string" where
  "redrive_policy dlqARN = json_marshal_map [(''deadLetterTargetArn'', dlqARN), (''maxReceiveCount'', ''5'')]"

definition ingress_attributes :: "string \<Rightarrow> attributes" where
  "ingress_attributes redrive =
     [(''FifoQueue'', ''true''), (''ContentBasedDeduplication'', ''false''), (''VisibilityTimeout'', ''60''),
      (''ReceiveMessageWaitTimeSeconds'', ''20''), (''RedrivePolicy'', redrive)]"

definition event_attributes :: attributes where
  "event_attributes = [(''FifoQueue'', ''true''), (''ContentBasedDeduplication'', ''false''), (''VisibilityTimeout'', ''60'')]"

definition provisioning :: "string \<Rightarrow> ('s \<Rightarrow> ('e + 'a) \<times> 's) \<Rightarrow> 's \<Rightarrow> ('e provision_error + 'a) \<times> 's" where
  "provisioning name m s = (case m s of (r, s') \<Rightarrow> (map_err (Provisioning name) r, s'))"

definition ProvisionNamed ::
  "('e, 's) queue_api \<Rightarrow> string \<Rightarrow> string \<Rightarrow> string \<Rightarrow> 's \<Rightarrow> ('e provision_error + queue_urls) \<times> 's" where
  "ProvisionNamed client ingressName dlqName eventName =
     queue_bind (provisioning dlqName (ensureQueue client dlqName dlq_attributes)) (\<lambda>(dlqURL, dlqARN).
     let redrive = redrive_policy dlqARN in
     queue_bind (provisioning ingressName (ensureQueue client ingressName (ingress_attributes redrive))) (\<lambda>(ingressURL, _).
     queue_bind (provisioning eventName (ensureQueue client eventName event_attributes)) (\<lambda>(eventURL, _) s.
     (Inr \<lparr>qs_IngressURL = ingressURL, qs_DLQURL = dlqURL, qs_EventURL = eventURL\<rparr>, s))))"

definition Provision :: "('e, 's) queue_api \<Rightarrow> 's \<Rightarrow> ('e provision_error + queue_urls) \<times> 's" where
  "Provision client = ProvisionNamed client IngressQueueName DLQName EventQueueName"

section \<open>The queue service\<close>

text \<open>
  What the provisioning relies on, as the service documents it: the queues have names, a name has one URL,
  a URL one identity (\<open>arn\<close>); \<open>GetQueueUrl\<close> answers for the queues that exist, \<open>CreateQueue\<close> adds the queue
  with its attributes, \<open>GetQueueAttributes\<close> tells the identity, and asking changes nothing. An outage is
  not described here: the theorems below are about a service that answers.
\<close>

definition queue_service ::
  "('e, 's) queue_api \<Rightarrow> ('s \<Rightarrow> string \<Rightarrow> attributes option) \<Rightarrow> (string \<Rightarrow> string) \<Rightarrow> (string \<Rightarrow> string) \<Rightarrow> bool" where
  "queue_service client queues url arn \<longleftrightarrow>
     (\<forall>name s. queues s name \<noteq> None \<longrightarrow> qa_GetQueueUrl client name s = (Inr (Some (url name)), s))
     \<and> (\<forall>name s. queues s name = None \<longrightarrow> (\<exists>e. qa_GetQueueUrl client name s = (Inl e, s)))
     \<and> (\<forall>name attrs s. queues s name = None \<longrightarrow>
          (\<exists>s'. qa_CreateQueue client name attrs s = (Inr (Some (url name)), s') \<and> queues s' = (queues s)(name \<mapsto> attrs)))
     \<and> (\<forall>name s. queues s name \<noteq> None \<longrightarrow>
          qa_GetQueueAttributes client (url name) [''QueueArn''] s = (Inr [(''QueueArn'', arn name)], s))"

definition provisioned_urls :: "(string \<Rightarrow> string) \<Rightarrow> string \<Rightarrow> string \<Rightarrow> string \<Rightarrow> queue_urls" where
  "provisioned_urls url ingressName dlqName eventName =
     \<lparr>qs_IngressURL = url ingressName, qs_DLQURL = url dlqName, qs_EventURL = url eventName\<rparr>"

text \<open>Ensuring a queue keeps the one that is there and creates the missing one with the attributes asked for.\<close>

definition ensured :: "(string \<Rightarrow> attributes option) \<Rightarrow> string \<Rightarrow> attributes \<Rightarrow> string \<Rightarrow> attributes option" where
  "ensured qs name attrs = (if qs name = None then qs(name \<mapsto> attrs) else qs)"

lemma ensured_simps [simp]:
  "ensured qs name attrs name \<noteq> None" "qs n \<noteq> None \<Longrightarrow> ensured qs name attrs n = qs n"
  "n \<noteq> name \<Longrightarrow> ensured qs name attrs n = qs n"
  by (auto simp: ensured_def)

lemma queueARN_service:
  "queue_service client queues url arn \<Longrightarrow> queues s name \<noteq> None \<Longrightarrow> queueARN client (url name) s = (Inr (arn name), s)"
  by (auto simp: queueARN_def queue_bind_def aws_ToString_def queue_service_def)

lemma ensureQueue_service:
  assumes "queue_service client queues url arn"
  shows "\<exists>s'. ensureQueue client name attrs s = (Inr (url name, arn name), s')
     \<and> queues s' = ensured (queues s) name attrs \<and> (queues s name \<noteq> None \<longrightarrow> s' = s)"
proof (cases "queues s name = None")
  case True
  obtain e where g: "qa_GetQueueUrl client name s = (Inl e, s)"
    using assms True unfolding queue_service_def by meson
  obtain s' where c: "qa_CreateQueue client name attrs s = (Inr (Some (url name)), s')"
    "queues s' = (queues s)(name \<mapsto> attrs)"
    using assms True unfolding queue_service_def by meson
  then have "queueARN client (url name) s' = (Inr (arn name), s')"
    by (intro queueARN_service [OF assms]) simp
  then show ?thesis using g c True by (simp add: ensureQueue_def queue_bind_def aws_ToString_def ensured_def)
next
  case False
  then have "qa_GetQueueUrl client name s = (Inr (Some (url name)), s)"
    using assms unfolding queue_service_def by meson
  then show ?thesis
    using False queueARN_service [OF assms False]
    by (auto simp: ensureQueue_def queue_bind_def aws_ToString_def ensured_def)
qed

text \<open>The queues a provisioning leaves: the dead-letter queue first, then the ingress that names it.\<close>

definition provisioned ::
  "(string \<Rightarrow> string) \<Rightarrow> string \<Rightarrow> string \<Rightarrow> string \<Rightarrow> (string \<Rightarrow> attributes option) \<Rightarrow> string \<Rightarrow> attributes option" where
  "provisioned arn ingressName dlqName eventName qs =
     ensured (ensured (ensured qs dlqName dlq_attributes) ingressName (ingress_attributes (redrive_policy (arn dlqName))))
       eventName event_attributes"

lemma ProvisionNamed_service:
  assumes "queue_service client queues url arn"
  shows "\<exists>s'. ProvisionNamed client ingressName dlqName eventName s
        = (Inr (provisioned_urls url ingressName dlqName eventName), s')
     \<and> queues s' = provisioned arn ingressName dlqName eventName (queues s)
     \<and> (queues s dlqName \<noteq> None \<and> queues s ingressName \<noteq> None \<and> queues s eventName \<noteq> None \<longrightarrow> s' = s)"
proof -
  obtain s1 where 1: "ensureQueue client dlqName dlq_attributes s = (Inr (url dlqName, arn dlqName), s1)"
    "queues s1 = ensured (queues s) dlqName dlq_attributes" "queues s dlqName \<noteq> None \<longrightarrow> s1 = s"
    using ensureQueue_service [OF assms] by blast
  let ?i = "ingress_attributes (redrive_policy (arn dlqName))"
  obtain s2 where 2: "ensureQueue client ingressName ?i s1 = (Inr (url ingressName, arn ingressName), s2)"
    "queues s2 = ensured (queues s1) ingressName ?i" "queues s1 ingressName \<noteq> None \<longrightarrow> s2 = s1"
    using ensureQueue_service [OF assms] by blast
  obtain s3 where 3: "ensureQueue client eventName event_attributes s2 = (Inr (url eventName, arn eventName), s3)"
    "queues s3 = ensured (queues s2) eventName event_attributes" "queues s2 eventName \<noteq> None \<longrightarrow> s3 = s2"
    using ensureQueue_service [OF assms] by blast
  have "ProvisionNamed client ingressName dlqName eventName s
      = (Inr (provisioned_urls url ingressName dlqName eventName), s3)"
    using 1(1) 2(1) 3(1) by (simp add: ProvisionNamed_def queue_bind_def provisioning_def Let_def provisioned_urls_def)
  moreover have "queues s3 = provisioned arn ingressName dlqName eventName (queues s)"
    using 1(2) 2(2) 3(2) by (simp add: provisioned_def)
  moreover have "queues s dlqName \<noteq> None \<and> queues s ingressName \<noteq> None \<and> queues s eventName \<noteq> None \<longrightarrow> s3 = s"
    using 1(3) 2(3) 3(3) by auto
  ultimately show ?thesis by blast
qed

lemma provisioned_keeps: "qs n \<noteq> None \<Longrightarrow> provisioned arn i d e qs n = qs n"
  by (simp add: provisioned_def)

lemma provisioned_exist:
  "provisioned arn i d e qs d \<noteq> None" "provisioned arn i d e qs i \<noteq> None" "provisioned arn i d e qs e \<noteq> None"
  by (simp_all add: provisioned_def del: not_None_eq)

lemma provisioned_ingress:
  "i \<noteq> d \<Longrightarrow> qs i = None \<Longrightarrow> provisioned arn i d e qs i = Some (ingress_attributes (redrive_policy (arn d)))"
  by (simp add: provisioned_def ensured_def)

lemma provisioned_dlq:
  "qs d = None \<Longrightarrow> provisioned arn i d e qs d = Some dlq_attributes"
  by (simp add: provisioned_def ensured_def)

lemma redrive_policy_text:
  "redrive_policy a = ''{'' @ json_member (''deadLetterTargetArn'', a) @ '','' @ json_member (''maxReceiveCount'', ''5'') @ ''}''"
  by (simp add: redrive_policy_def json_marshal_map_def)

lemma provision_names: "IngressQueueName \<noteq> DLQName"
  by (simp add: IngressQueueName_def DLQName_def)

text \<open>
  C24: provisioning is safe to run again. With a queue service that answers, it returns the addresses of the
  three queues, which then exist, and leaves every queue that was there as it was. An ingress queue it creates is
  ordered, hides a message for a minute and has the redrive policy that moves a message to the dead-letter queue
  after five receives; a dead-letter queue it creates is ordered and keeps its messages for fourteen days (1209600 seconds). A second
  run returns the same addresses and changes nothing.
\<close>

theorem provision_is_idempotent:
  assumes "queue_service client queues url arn"
  shows "\<exists>s'. Provision client s = (Inr (provisioned_urls url IngressQueueName DLQName EventQueueName), s')
     \<and> Provision client s' = (Inr (provisioned_urls url IngressQueueName DLQName EventQueueName), s')
     \<and> (\<forall>n. queues s n \<noteq> None \<longrightarrow> queues s' n = queues s n)
     \<and> queues s' DLQName \<noteq> None \<and> queues s' EventQueueName \<noteq> None \<and> queues s' IngressQueueName \<noteq> None
     \<and> (queues s IngressQueueName = None \<longrightarrow> (\<exists>a. queues s' IngressQueueName = Some a
          \<and> map_of a ''FifoQueue'' = Some ''true'' \<and> map_of a ''VisibilityTimeout'' = Some ''60''
          \<and> map_of a ''RedrivePolicy'' = Some (''{'' @ json_member (''deadLetterTargetArn'', arn DLQName) @ '',''
               @ json_member (''maxReceiveCount'', ''5'') @ ''}'')))
     \<and> (queues s DLQName = None \<longrightarrow> (\<exists>a. queues s' DLQName = Some a \<and> map_of a ''FifoQueue'' = Some ''true''
          \<and> map_of a ''MessageRetentionPeriod'' = Some ''1209600''))"
proof -
  obtain s' where 1: "Provision client s = (Inr (provisioned_urls url IngressQueueName DLQName EventQueueName), s')"
    "queues s' = provisioned arn IngressQueueName DLQName EventQueueName (queues s)"
    using ProvisionNamed_service [OF assms] unfolding Provision_def by blast
  have ex: "queues s' DLQName \<noteq> None" "queues s' IngressQueueName \<noteq> None" "queues s' EventQueueName \<noteq> None"
    unfolding 1(2) by (rule provisioned_exist)+
  have "Provision client s' = (Inr (provisioned_urls url IngressQueueName DLQName EventQueueName), s')"
    using ProvisionNamed_service [OF assms, of IngressQueueName DLQName EventQueueName s'] ex
    unfolding Provision_def by auto
  moreover have "queues s IngressQueueName = None \<longrightarrow>
      queues s' IngressQueueName = Some (ingress_attributes (redrive_policy (arn DLQName)))"
    unfolding 1(2) using provisioned_ingress [OF provision_names] by blast
  note ingress = this [unfolded ingress_attributes_def redrive_policy_text]
  have dlq: "queues s DLQName = None \<longrightarrow> queues s' DLQName = Some dlq_attributes"
    unfolding 1(2) using provisioned_dlq by blast
  moreover have "\<forall>n. queues s n \<noteq> None \<longrightarrow> queues s' n = queues s n"
    unfolding 1(2) using provisioned_keeps by blast
  ultimately show ?thesis using 1(1) ex ingress dlq
    by (intro exI [of _ s'] conjI) (auto simp: dlq_attributes_def)
qed

definition sample_service :: "(string, (string \<times> attributes) list) queue_api" where
  "sample_service =
     \<lparr>qa_GetQueueUrl = (\<lambda>name s. (case map_of s name of None \<Rightarrow> Inl ''NonExistentQueue'' | Some _ \<Rightarrow> Inr (Some (''q/'' @ name)), s)),
      qa_CreateQueue = (\<lambda>name attrs s. (Inr (Some (''q/'' @ name)), (name, attrs) # s)),
      qa_GetQueueAttributes = (\<lambda>u names s.
        (if map_of s (drop 2 u) = None then Inl ''NonExistentQueue'' else Inr [(''QueueArn'', ''arn:'' @ drop 2 u)], s))\<rparr>"

lemma sample_service_documented: "queue_service sample_service map_of (\<lambda>name. ''q/'' @ name) (\<lambda>name. ''arn:'' @ name)"
  by (auto simp: queue_service_def sample_service_def)

lemma provision_is_idempotent_witness:
  "\<exists>s'. Provision sample_service [] = (Inr (provisioned_urls (\<lambda>name. ''q/'' @ name) IngressQueueName DLQName EventQueueName), s')
     \<and> Provision sample_service s' = (Inr (provisioned_urls (\<lambda>name. ''q/'' @ name) IngressQueueName DLQName EventQueueName), s')
     \<and> (\<exists>a. map_of s' IngressQueueName = Some a \<and> map_of a ''RedrivePolicy'' = Some (''{''
          @ json_member (''deadLetterTargetArn'', ''arn:wager-transactions-dlq.fifo'') @ '',''
          @ json_member (''maxReceiveCount'', ''5'') @ ''}''))"
  using provision_is_idempotent [OF sample_service_documented, of "[]"] by (auto simp: DLQName_def)

end
