(* ===== verification/Consumer.thy ===== *)
theory Consumer
  imports Guarantees Ingress Config
begin

text \<open>
  \<open>internal/adapters/sqs/consumer/consumer.go\<close>: one pass over a received batch. What the queue client
  answers, whether the context was canceled and whether the shutdown grace ran out are given per message
  (\<open>delivery_fate\<close>); the calls of the client and the counters the pass increments are its log. A
  failpoint that is hit ends the process. The renewal of the visibility while the use case runs is left out: it extends a lease of the queue and
  touches nothing else. The properties: a message is deleted only when no later delivery of it can change
  anything, and what becomes of a message for every outcome.
\<close>

section \<open>Messages\<close>

record sqs_message =
  sm_ReceiptHandle :: string
  sm_Body :: string
  sm_SenderId :: string
  sm_ApproximateReceiveCount :: string

definition VisibilityTimeout :: duration where "VisibilityTimeout = 60 * Second"
definition TransientBackoffBase :: duration where "TransientBackoffBase = 5 * Second"
definition MaxReceiveCount :: int64 where "MaxReceiveCount = 5"

text \<open>The attribute is read in \<open>int\<close> arithmetic, which wraps; a missing attribute is the empty string.\<close>

fun receive_digits :: "int64 \<Rightarrow> string \<Rightarrow> int64 option" where
  "receive_digits count [] = Some count"
| "receive_digits count (c # cs) =
     (if \<not> is_digit c then None else receive_digits (count * 10 + word_of_nat (digit_val c)) cs)"

definition ReceiveCount :: "sqs_message \<Rightarrow> int64" where
  "ReceiveCount m =
     (case receive_digits 0 (sm_ApproximateReceiveCount m) of
        None \<Rightarrow> 1
      | Some count \<Rightarrow> if i64_less count 1 then 1 else count)"

definition TransientVisibility :: "int64 \<Rightarrow> duration option" where
  "TransientVisibility receiveCount =
     (let n = (if i64_less receiveCount 1 then 1 else receiveCount) in
      if \<not> i64_less n MaxReceiveCount then None
      else Some (TransientBackoffBase * sint (push_bit (unat (n - 1)) (1 :: int64))))"

section \<open>Processing a message\<close>

datatype consumer_event =
    DeleteMessage string
  | ChangeMessageVisibility string int
  | WagerDLQ string
  | WagerRetry
  | WagerDuplicate
  | WagerCounted kind tstate

text \<open>
  The configuration; \<open>cc_Unmarshal\<close> is \<open>json.Unmarshal\<close> at the envelope type.
\<close>

record consumer_config =
  cc_ConsumerName :: string
  cc_ProviderForSender :: "string \<Rightarrow> string option"
  cc_Unmarshal :: "string \<Rightarrow> sqs_envelope option"
  cc_Failpoints :: failpoint_set

record delivery_fate =
  df_Now :: time
  df_TimedOut :: bool
  df_Canceled :: bool
  df_DeleteOk :: bool

definition release :: "string \<Rightarrow> consumer_event list" where
  "release handle = [ChangeMessageVisibility handle 0]"

definition abandon :: "string \<Rightarrow> string \<Rightarrow> consumer_event list" where
  "abandon handle reason = [WagerDLQ reason, ChangeMessageVisibility handle 0]"

definition backoff :: "string \<Rightarrow> int64 \<Rightarrow> consumer_event list" where
  "backoff handle receiveCount =
     (case TransientVisibility receiveCount of
        None \<Rightarrow> [WagerDLQ ''redrive'']
      | Some delay \<Rightarrow> [ChangeMessageVisibility handle (delay div Second)])"

text \<open>
  The end of \<open>process\<close>, once the use case has returned or the grace has run out: the calls, and whether the
  process survives the two failpoints on the way.
\<close>

definition conclude ::
  "failpoint_set \<Rightarrow> delivery_fate \<Rightarrow> string \<Rightarrow> int64 \<Rightarrow> app_error + (wager_result \<times> bool) \<Rightarrow> consumer_event list \<times> bool"
where
  "conclude failpoints fate handle receiveCount outcome =
     (if df_TimedOut fate then (release handle, True)
      else case outcome of
        Inl e \<Rightarrow>
          (if df_Canceled fate then release handle
           else if IsTransient e then WagerRetry # backoff handle receiveCount
           else if ErrorCodeOf e = Some CodeInboxPayloadConflict then abandon handle ''inbox_payload_conflict''
           else abandon handle ''invalid_message'', True)
      | Inr (result, duplicate) \<Rightarrow>
          if failpoint_Hit failpoints SQSAfterCommit \<noteq> Passed then ([], False)
          else if \<not> df_DeleteOk fate then ([DeleteMessage handle], True)
          else if failpoint_Hit failpoints SQSAfterDelete \<noteq> Passed then ([DeleteMessage handle], False)
          else (DeleteMessage handle #
            (if duplicate then [WagerDuplicate] else [WagerCounted (wr_Kind result) (wr_State result)]), True))"

text \<open>
  The result says whether the process is still running: a panic of the use case, which runs on a
  goroutine of its own, and a failpoint end it before anything else is done with the message.
\<close>

definition process_message ::
  "runtime \<Rightarrow> consumer_config \<Rightarrow> delivery_fate \<Rightarrow> sqs_message \<Rightarrow> world \<Rightarrow> (consumer_event list \<times> bool) \<times> world"
where
  "process_message rt cfg fate m w =
     (let handle = sm_ReceiptHandle m in
      case cc_Unmarshal cfg (sm_Body m) of
        None \<Rightarrow> ((abandon handle ''invalid_message'', True), w)
      | Some envelope \<Rightarrow>
          if cc_ProviderForSender cfg (sm_SenderId m) \<noteq> Some (sd_ProviderID (se_Data envelope))
          then ((abandon handle ''unauthorized_sender'', True), w)
          else (case Envelope_Command (rt_uuid rt) envelope of
              Inl _ \<Rightarrow> ((abandon handle ''invalid_message'', True), w)
            | Inr command \<Rightarrow>
                let delivery = \<lparr>dl_ConsumerName = cc_ConsumerName cfg, dl_MessageID = se_MessageID envelope,
                  dl_Digest = hex_EncodeToString (sha256_Sum256 (map byte_of (sm_Body m))),
                  dl_ReceivedAt = time_UTC (df_Now fate)\<rparr> in
                (case SubmitWagerFromInbox rt command delivery w of (outcome, w') \<Rightarrow>
                  if outcome = Inl Panicked then (([], False), w')
                  else (conclude (cc_Failpoints cfg) fate handle (ReceiveCount m) outcome, w'))))"

section \<open>A pass\<close>

fun process_batch ::
  "runtime \<Rightarrow> consumer_config \<Rightarrow> (nat \<Rightarrow> bool) \<Rightarrow> (nat \<Rightarrow> delivery_fate) \<Rightarrow> nat \<Rightarrow> sqs_message list \<Rightarrow> world
     \<Rightarrow> consumer_event list \<times> world" where
  "process_batch rt cfg stop fates i [] w = ([], w)"
| "process_batch rt cfg stop fates i (m # ms) w =
     (if stop i then ([], w)
      else case process_message rt cfg (fates i) m w of
        ((log, alive), w1) \<Rightarrow>
          if \<not> alive then (log, w1)
          else (case process_batch rt cfg stop fates (Suc i) ms w1 of (log', w2) \<Rightarrow> (log @ log', w2)))"

text \<open>\<open>received\<close> is what the queue client returned, \<open>None\<close> its failure.\<close>

definition PollOnce ::
  "runtime \<Rightarrow> consumer_config \<Rightarrow> (nat \<Rightarrow> bool) \<Rightarrow> (nat \<Rightarrow> delivery_fate) \<Rightarrow> sqs_message list option \<Rightarrow> world
     \<Rightarrow> (unit option \<times> consumer_event list) \<times> world" where
  "PollOnce rt cfg stop fates received w =
     (case received of
        None \<Rightarrow> ((None, []), w)
      | Some messages \<Rightarrow> (case process_batch rt cfg stop fates 0 messages w of (log, w') \<Rightarrow> ((Some (), log), w')))"

section \<open>Counts and delays\<close>

lemma receive_digits_foldl:
  "list_all is_digit s \<Longrightarrow>
     receive_digits (word_of_nat k) s = Some (word_of_nat (foldl (\<lambda>n c. 10 * n + digit_val c) k s))"
proof (induction s arbitrary: k)
  case (Cons d s)
  have "(word_of_nat k * 10 + word_of_nat (digit_val d) :: int64) = word_of_nat (10 * k + digit_val d)"
    by (simp add: mult.commute)
  then show ?case using Cons by (simp del: of_nat_add of_nat_mult)
qed simp

lemma receive_digits_value: "list_all is_digit s \<Longrightarrow> receive_digits 0 s = Some (word_of_nat (dec_value s))"
  using receive_digits_foldl [of s 0] by (simp add: dec_value_def)

lemma receive_digits_None: "receive_digits c s = None \<longleftrightarrow> \<not> list_all is_digit s"
  by (induction s arbitrary: c) simp_all

lemma TransientVisibility_eq:
  "TransientVisibility n =
     (if 5 \<le> sint n then None else Some (5 * 2 ^ nat (max 1 (sint n) - 1) * Second))"
proof -
  let ?n = "if i64_less n 1 then 1 else n :: int64"
  have s: "sint ?n = max 1 (sint n)" by (auto simp: i64_less_def)
  have five: "sint MaxReceiveCount = 5" by (simp add: MaxReceiveCount_def)
  show ?thesis
  proof (cases "5 \<le> sint n")
    case True
    then show ?thesis using s five by (simp add: TransientVisibility_def Let_def i64_less_def)
  next
    case False
    then consider "sint ?n = 1" | "sint ?n = 2" | "sint ?n = 3" | "sint ?n = 4" using s by linarith
    then have "?n = 1 \<and> max 1 (sint n) = 1 \<or> ?n = 2 \<and> max 1 (sint n) = 2 \<or> ?n = 3 \<and> max 1 (sint n) = 3
        \<or> ?n = 4 \<and> max 1 (sint n) = 4"
      unfolding s by (cases; (simp only: sint_inject_int64 [symmetric] s)) simp_all
    then show ?thesis
      using False five
      by (elim disjE conjE)
        (simp_all add: TransientVisibility_def Let_def i64_less_def TransientBackoffBase_def MaxReceiveCount_def)
  qed
qed


section \<open>What a pass does\<close>

text \<open>
  Every way through \<open>process_message\<close>: the message is refused before the use case, the use case panics,
  or the use case runs and its outcome is concluded.
\<close>

definition delivery_of :: "consumer_config \<Rightarrow> delivery_fate \<Rightarrow> sqs_message \<Rightarrow> sqs_envelope \<Rightarrow> inbox_delivery" where
  "delivery_of cfg fate m envelope =
     \<lparr>dl_ConsumerName = cc_ConsumerName cfg, dl_MessageID = se_MessageID envelope,
      dl_Digest = hex_EncodeToString (sha256_Sum256 (map byte_of (sm_Body m))), dl_ReceivedAt = df_Now fate\<rparr>"

text \<open>The command of a message that is accepted: it decodes, its sender is mapped to its provider and it is valid.\<close>

definition accepted :: "runtime \<Rightarrow> consumer_config \<Rightarrow> sqs_message \<Rightarrow> (sqs_envelope \<times> submit_command) option" where
  "accepted rt cfg m =
     (case cc_Unmarshal cfg (sm_Body m) of
        None \<Rightarrow> None
      | Some envelope \<Rightarrow>
          (case Envelope_Command (rt_uuid rt) envelope of
             Inl _ \<Rightarrow> None
           | Inr command \<Rightarrow>
               if cc_ProviderForSender cfg (sm_SenderId m) = Some (sc_ProviderID command)
               then Some (envelope, command) else None))"

lemma process_message_cases:
  assumes "process_message rt cfg fate m w = ((log, alive), w')"
  obtains (refused) reason where "w' = w" "alive" "log = abandon (sm_ReceiptHandle m) reason" "accepted rt cfg m = None"
      "reason \<in> {''invalid_message'', ''unauthorized_sender''}"
  | (panicked) envelope command where
      "cc_Unmarshal cfg (sm_Body m) = Some envelope" "Envelope_Command (rt_uuid rt) envelope = Inr command"
      "cc_ProviderForSender cfg (sm_SenderId m) = Some (sc_ProviderID command)"
      "SubmitWagerFromInbox rt command (delivery_of cfg fate m envelope) w = (Inl Panicked, w')" "\<not> alive" "log = []"
  | (ran) envelope command outcome where
      "cc_Unmarshal cfg (sm_Body m) = Some envelope" "Envelope_Command (rt_uuid rt) envelope = Inr command"
      "cc_ProviderForSender cfg (sm_SenderId m) = Some (sc_ProviderID command)"
      "SubmitWagerFromInbox rt command (delivery_of cfg fate m envelope) w = (outcome, w')" "outcome \<noteq> Inl Panicked"
      "alive = snd (conclude (cc_Failpoints cfg) fate (sm_ReceiptHandle m) (ReceiveCount m) outcome)"
      "log = fst (conclude (cc_Failpoints cfg) fate (sm_ReceiptHandle m) (ReceiveCount m) outcome)"
proof (cases "cc_Unmarshal cfg (sm_Body m)")
  case None
  then show ?thesis using assms by (intro refused) (auto simp: process_message_def accepted_def)
next
  case (Some envelope)
  show ?thesis
  proof (cases "cc_ProviderForSender cfg (sm_SenderId m) = Some (sd_ProviderID (se_Data envelope))")
    case False
    then have "accepted rt cfg m = None"
      using Some by (auto simp: accepted_def Envelope_Command_Inr_iff command_from_def split: sum.splits)
    then show ?thesis using assms Some False by (intro refused) (auto simp: process_message_def Let_def)
  next
    case p: True
    show ?thesis
    proof (cases "Envelope_Command (rt_uuid rt) envelope")
      case (Inl e)
      then have "accepted rt cfg m = None" using Some by (simp add: accepted_def)
      then show ?thesis using assms Some p Inl by (intro refused) (auto simp: process_message_def Let_def)
    next
      case (Inr command)
      then have c: "sc_ProviderID command = sd_ProviderID (se_Data envelope)"
        by (simp add: Envelope_Command_Inr_iff command_from_def)
      obtain outcome v where s: "SubmitWagerFromInbox rt command (delivery_of cfg fate m envelope) w = (outcome, v)"
        by (cases "SubmitWagerFromInbox rt command (delivery_of cfg fate m envelope) w")
      show ?thesis
      proof (cases "outcome = Inl Panicked")
        case True
        then show ?thesis
          using assms Some p Inr s c by (intro panicked) (auto simp: process_message_def delivery_of_def)
      next
        case False
        then show ?thesis
          using assms Some p Inr s c by (intro ran) (auto simp: process_message_def delivery_of_def)
      qed
    qed
  qed
qed

lemma process_message_step:
  assumes "process_message rt cfg fate m w = ((log, alive), w')"
  shows "w_db w' = w_db w \<or> service_step (rt_uuid rt) (w_db w) (w_db w')"
  using assms
proof (cases rule: process_message_cases)
  case (panicked envelope command)
  then show ?thesis using service_step [of rt "rt_uuid rt" w "Deliver command (delivery_of cfg fate m envelope)"] by simp
next
  case (ran envelope command outcome)
  then show ?thesis using service_step [of rt "rt_uuid rt" w "Deliver command (delivery_of cfg fate m envelope)"] by simp
qed simp

lemma process_batch_steps:
  "process_batch rt cfg stop fates i ms w = (log, w') \<Longrightarrow> (service_step (rt_uuid rt))\<^sup>*\<^sup>* (w_db w) (w_db w')"
proof (induction ms arbitrary: i w log w')
  case (Cons m ms)
  obtain l a w1 where p: "process_message rt cfg (fates i) m w = ((l, a), w1)"
    by (metis prod.exhaust)
  have s: "(service_step (rt_uuid rt))\<^sup>*\<^sup>* (w_db w) (w_db w1)"
    using process_message_step [OF p] by auto
  obtain l2 w2 where b: "process_batch rt cfg stop fates (Suc i) ms w1 = (l2, w2)"
    by (cases "process_batch rt cfg stop fates (Suc i) ms w1")
  show ?case
  proof (cases "stop i")
    case True
    then show ?thesis using Cons.prems by simp
  next
    case False
    then have "w' = w1 \<or> w' = w2" using Cons.prems p b by (auto split: if_splits)
    then show ?thesis using s Cons.IH [OF b] by (auto intro: rtranclp_trans)
  qed
qed simp

lemma PollOnce_steps:
  "PollOnce rt cfg stop fates received w = (res, w') \<Longrightarrow> (service_step (rt_uuid rt))\<^sup>*\<^sup>* (w_db w) (w_db w')"
  using process_batch_steps [of rt cfg stop fates 0 _ w _ w']
  by (auto simp: PollOnce_def split: option.splits prod.splits)

text \<open>The events that acknowledge or reschedule the message at the queue.\<close>

fun queue_call :: "consumer_event \<Rightarrow> bool" where
  "queue_call (DeleteMessage h) = True"
| "queue_call (ChangeMessageVisibility h n) = True"
| "queue_call _ = False"

lemma conclude_delete:
  "DeleteMessage h \<in> set (fst (conclude fps fate handle n outcome)) \<longleftrightarrow>
     h = handle \<and> \<not> df_TimedOut fate \<and> is_ok outcome \<and> failpoint_Hit fps SQSAfterCommit = Passed"
  by (cases outcome)
    (auto simp: conclude_def release_def abandon_def backoff_def is_ok_iff split: option.splits if_splits)

lemma conclude_calls:
  "filter queue_call (fst (conclude fps fate handle n outcome)) =
     (if \<not> df_TimedOut fate \<and> is_ok outcome
      then (if failpoint_Hit fps SQSAfterCommit = Passed then [DeleteMessage handle] else [])
      else if \<not> df_TimedOut fate \<and> \<not> df_Canceled fate \<and> (case outcome of Inl e \<Rightarrow> IsTransient e | Inr _ \<Rightarrow> False)
      then (case TransientVisibility n of None \<Rightarrow> [] | Some delay \<Rightarrow> [ChangeMessageVisibility handle (delay div Second)])
      else [ChangeMessageVisibility handle 0])"
  by (cases outcome)
    (auto simp: conclude_def release_def abandon_def backoff_def is_ok_iff split: option.splits)

lemma conclude_counts:
  "WagerCounted a b \<in> set (fst (conclude fps fate handle n outcome)) \<Longrightarrow>
     \<exists>r. outcome = Inr (r, False) \<and> a = wr_Kind r \<and> b = wr_State r"
  by (cases outcome)
    (auto simp: conclude_def release_def abandon_def backoff_def split: option.splits if_splits)

lemma process_registers:
  assumes u: "uuid_lib_ok (rt_uuid rt)" and p: "process_message rt cfg fate m w = ((log, alive), w')"
    and h: "DeleteMessage h \<in> set log"
  obtains envelope where "cc_Unmarshal cfg (sm_Body m) = Some envelope" "h = sm_ReceiptHandle m"
    "(cc_ConsumerName cfg, se_MessageID envelope) \<in> inbox_keys (w_db w')"
  using p
proof (cases rule: process_message_cases)
  case (ran envelope command outcome)
  then have o: "is_ok outcome" "h = sm_ReceiptHandle m" using h by (simp_all add: conclude_delete)
  then obtain r dup where "outcome = Inr (r, dup)" by (auto simp: is_ok_iff)
  with ran(4) have "delivery_key (delivery_of cfg fate m envelope) \<in> inbox_keys (w_db w')"
    using delivery_registers [OF u] by blast
  then show ?thesis using that ran(1) o(2) by (simp add: delivery_key_def delivery_of_def)
qed (use h in \<open>simp_all add: abandon_def\<close>)

text \<open>A message whose key is in the inbox changes nothing and is not counted again.\<close>

lemma process_repeats:
  assumes u: "uuid_lib_ok (rt_uuid rt)" and e: "cc_Unmarshal cfg (sm_Body m) = Some envelope"
    and k: "(cc_ConsumerName cfg, se_MessageID envelope) \<in> inbox_keys (w_db w)"
    and p: "process_message rt cfg fate m w = ((log, alive), w')"
  shows "w_db w' = w_db w \<and> (\<forall>a b. WagerCounted a b \<notin> set log)"
proof -
  have d: "delivery_key (delivery_of cfg fate m envelope) \<in> inbox_keys (w_db w)"
    using k by (simp add: delivery_key_def delivery_of_def)
  show ?thesis
    using p
  proof (cases rule: process_message_cases)
    case refused
    then show ?thesis by (simp add: abandon_def)
  next
    case panicked
    then show ?thesis using delivery_repeats [OF u d] e by auto
  next
    case (ran envelope' command outcome)
    then have "w_db w' = w_db w \<and> (case outcome of Inl e \<Rightarrow> True | Inr (r, duplicate) \<Rightarrow> duplicate)"
      using delivery_repeats [OF u d] e by auto
    then show ?thesis
      using ran(7) by (cases outcome)
        (auto simp: conclude_def release_def abandon_def backoff_def split: if_splits option.splits)
  qed
qed

section \<open>Properties\<close>

definition bet_envelope :: sqs_envelope where
  "bet_envelope =
     \<lparr>se_MessageID = ''m-1'', se_Type = ''WagerTransactionRequested'', se_OccurredAt = ''2024-01-01T00:00:00Z'',
      se_CorrelationID = ''c'', se_Data = \<lparr>sd_ProviderID = ''acme'', sd_ExternalTransactionID = ''bet-1'',
        sd_IdempotencyKey = ''key-1'', sd_PlayerID = ''2'', sd_WalletID = ''100'', sd_RoundID = ''r1'', sd_GameID = ''g1'',
        sd_Kind = ''BET'', sd_Money = \<lparr>mp_Amount = ''3.00'', mp_Currency = ''BRL''\<rparr>,
        sd_ReferenceExternalTransactionID = ''''\<rparr>\<rparr>"

definition sample_consumer :: consumer_config where
  "sample_consumer =
     \<lparr>cc_ConsumerName = ''wagers'',
      cc_ProviderForSender = (\<lambda>s. if s = ''AIDA'' then Some ''acme'' else None),
      cc_Unmarshal = (\<lambda>b. if b = ''bet'' then Some bet_envelope else None),
      cc_Failpoints = failpoint_New []\<rparr>"

definition sample_message :: sqs_message where
  "sample_message =
     \<lparr>sm_ReceiptHandle = ''h'', sm_Body = ''bet'', sm_SenderId = ''AIDA'', sm_ApproximateReceiveCount = ''1''\<rparr>"

definition sample_fate :: delivery_fate where
  "sample_fate = \<lparr>df_Now = 9, df_TimedOut = False, df_Canceled = False, df_DeleteOk = True\<rparr>"

lemma sha256_hex64: "hex64 (hex_EncodeToString (sha256_Sum256 bs))"
proof -
  obtain s where s: "sha256_Sum256 bs = sha_output s" by (simp add: sha256_Sum256_def Let_def)
  show ?thesis using hex_EncodeToString_ok sha_output_ok [of s] by (auto simp: s hex64_def)
qed

lemma bet_envelope_command: "Envelope_Command dec_uuid_lib bet_envelope = Inr sample_bet"
proof -
  have d: "se_Data bet_envelope = data_of dec_uuid_lib sample_bet" by code_simp
  have "command_texts_ok sample_bet" "SubmitWagerCommand_Validate sample_bet = Inr ()" "envelope_head_ok bet_envelope"
    "se_CorrelationID bet_envelope = ''c'' \<and> sc_CorrelationID sample_bet = ''c''" by code_simp+
  then show ?thesis
    using command_from_data [OF dec_uuid_lib_ok, of sample_bet] d by (simp add: Envelope_Command_Inr_iff)
qed

lemma sample_passes: "failpoint_Hit (cc_Failpoints sample_consumer) name = Passed"
  by (simp add: sample_consumer_def failpoint_Hit_def failpoint_Enabled_New)

lemma sample_message_runs:
  obtains w' k s where "process_message later_runtime sample_consumer sample_fate sample_message (sample_world sample_opened)
      = (([DeleteMessage ''h'', WagerCounted k s], True), w')"
proof -
  let ?dl = "delivery_of sample_consumer sample_fate sample_message bet_envelope"
  have c: "\<forall>r \<in> set (db_transactions sample_opened). txr_providerId r = None"
    "SubmitWagerCommand_Validate sample_bet = Inr ()" "db_inbox sample_opened = []"
    "fresh_ids later_runtime (sample_world sample_opened) 6" by code_simp+
  have e: "Envelope_Command dec_uuid_lib bet_envelope = Inr sample_bet" by (rule bet_envelope_command)
  have e': "cc_ProviderForSender sample_consumer (sm_SenderId sample_message) = Some (sd_ProviderID (se_Data bet_envelope))"
    "cc_Unmarshal sample_consumer (sm_Body sample_message) = Some bet_envelope"
    by (simp_all add: sample_consumer_def sample_message_def bet_envelope_def)
  have d: "hex64 (dl_Digest ?dl)" by (simp add: delivery_of_def sha256_hex64)
  have v: "InboxDelivery_Validate ?dl = Inr ()"
    using d by (simp add: InboxDelivery_Validate_Inr hex64_def)
      (simp add: delivery_of_def sample_consumer_def bet_envelope_def sample_fate_def)
  have i: "fin_inv sample_opened" using service_reach_inv(1) [OF dec_uuid_lib_ok sample_reach(2)] .
  have "\<exists>r st'. SubmitWagerFromInbox later_runtime sample_bet ?dl (sample_world sample_opened) = (Inr (r, False), st')"
    using SubmitWagerFromInbox_bet [of later_runtime "sample_world sample_opened" sample_bet ?dl]
      sample_healthy dec_uuid_lib_ok sample_wallet sample_world_db c i d v
    by (fastforce simp: sample_bet_def inbox_keys_def message_keys_def)
  then obtain r st' where "SubmitWagerFromInbox later_runtime sample_bet ?dl (sample_world sample_opened)
      = (Inr (r, False), st')" by blast
  then show ?thesis
    using that e e' sample_healthy(4)
    by (simp add: process_message_def Let_def delivery_of_def conclude_def sample_passes)
      (simp add: sample_fate_def sample_message_def sample_passes)
qed

text \<open>
  C14: a deleted message is settled. When the consumer deletes a message from the queue, the message is in
  the durable inbox: whatever the service did since, a later delivery of the same body to a consumer of
  that name leaves the database as it is, however it ends, and is not counted as a transaction again. So
  deleting a message never loses a submission, and a crash before the deletion never doubles one.
\<close>

theorem deleted_message_is_settled:
  assumes "uuid_lib_ok (rt_uuid rt)" and "rt_uuid rt2 = rt_uuid rt" and "service_reach (rt_uuid rt) (w_db st)"
    and "process_message rt cfg fate m st = ((log, alive), st1)" and "DeleteMessage h \<in> set log"
    and "(service_step (rt_uuid rt))\<^sup>*\<^sup>* (w_db st1) (w_db st2)"
    and "cc_ConsumerName cfg2 = cc_ConsumerName cfg" and "cc_Unmarshal cfg2 = cc_Unmarshal cfg"
    and "sm_Body m2 = sm_Body m" and "process_message rt2 cfg2 fate2 m2 st2 = ((log2, alive2), st3)"
  shows "h = sm_ReceiptHandle m \<and> w_db st3 = w_db st2 \<and> (\<forall>a b. WagerCounted a b \<notin> set log2)"
proof -
  obtain envelope where e: "cc_Unmarshal cfg (sm_Body m) = Some envelope" "h = sm_ReceiptHandle m"
    "(cc_ConsumerName cfg, se_MessageID envelope) \<in> inbox_keys (w_db st1)"
    by (rule process_registers [OF assms(1,4,5)])
  have "service_reach (rt_uuid rt) (w_db st1)"
    using process_message_step [OF assms(4)] service_reach_steps [OF assms(3)] by (metis assms(3) r_into_rtranclp)
  then have "(fin_step (rt_uuid rt))\<^sup>*\<^sup>* (w_db st1) (w_db st2)"
    using service_steps_fin [OF assms(1,6)] service_fin_reach [OF assms(1)] by blast
  then have k: "(cc_ConsumerName cfg2, se_MessageID envelope) \<in> inbox_keys (w_db st2)"
    using fin_steps_messages e(3) assms(7) by fastforce
  have "cc_Unmarshal cfg2 (sm_Body m2) = Some envelope" using e(1) assms(8,9) by simp
  from process_repeats [of rt2, unfolded assms(2), OF assms(1) this k assms(10)] show ?thesis using e(2) by blast
qed

theorem deleted_message_is_settled_witness:
  "\<exists>st1. w_db st1 = w_db (snd (process_message later_runtime sample_consumer sample_fate sample_message (sample_world sample_opened)))
     \<and> w_db (snd (process_message later_runtime sample_consumer sample_fate sample_message st1)) = w_db st1"
proof -
  obtain w' k s where p: "process_message later_runtime sample_consumer sample_fate sample_message
      (sample_world sample_opened) = (([DeleteMessage ''h'', WagerCounted k s], True), w')"
    by (rule sample_message_runs)
  obtain l a st where q: "process_message later_runtime sample_consumer sample_fate sample_message w' = ((l, a), st)"
    by (metis prod.exhaust)
  have "w_db st = w_db w'"
    using deleted_message_is_settled [OF _ refl _ p _ rtranclp.rtrancl_refl refl refl refl q, of "''h''"]
      sample_healthy(4) dec_uuid_lib_ok sample_reach(2) by (simp add: sample_world_db)
  then show ?thesis using p q by auto
qed



text \<open>
  The delay of a redelivery. A message that the queue reports as received \<open>n\<close> times and that failed for a
  transient reason becomes visible again after 5, 10, 20 and 40 seconds for \<open>n\<close> up to 1, 2, 3 and 4; from
  the fifth receive on it is left to the redrive policy of the queue. The count is read exactly as long as
  it is an \<open>int64\<close>; anything but digits counts as the first receive.
\<close>

theorem redelivery_delay:
  assumes "n \<le> 9223372036854775807" and "sm_ApproximateReceiveCount m = format_nat n"
  shows "backoff h (ReceiveCount m) =
      (if 5 \<le> n then [WagerDLQ ''redrive''] else [ChangeMessageVisibility h (5 * 2 ^ (max 1 n - 1))])
    \<and> (\<forall>m'. list_all is_digit (sm_ApproximateReceiveCount m')
         \<or> backoff h (ReceiveCount m') = [ChangeMessageVisibility h 5])"
proof -
  have "sint (ReceiveCount m) = max 1 (int n)"
    using assms receive_digits_value [OF format_nat_digits [of n]]
    by (simp add: ReceiveCount_def i64_less_def sint_word_of_nat)
  moreover have "nat (max 1 (int n) - 1) = max 1 n - 1" by linarith
  moreover have "5 \<le> max 1 (int n) \<longleftrightarrow> 5 \<le> n" by linarith
  ultimately have "backoff h (ReceiveCount m) =
      (if 5 \<le> n then [WagerDLQ ''redrive''] else [ChangeMessageVisibility h (5 * 2 ^ (max 1 n - 1))])"
    by (simp add: backoff_def TransientVisibility_eq Second_def)
  moreover have "list_all is_digit (sm_ApproximateReceiveCount m')
      \<or> backoff h (ReceiveCount m') = [ChangeMessageVisibility h 5]" for m'
  proof (cases "list_all is_digit (sm_ApproximateReceiveCount m')")
    case False
    then have "ReceiveCount m' = 1" by (simp add: ReceiveCount_def receive_digits_None [THEN iffD2])
    then show ?thesis by (simp add: backoff_def TransientVisibility_eq Second_def)
  qed simp
  ultimately show ?thesis by blast
qed

theorem redelivery_delay_witness:
  "backoff ''h'' (ReceiveCount (sample_message\<lparr>sm_ApproximateReceiveCount := ''4''\<rparr>)) = [ChangeMessageVisibility ''h'' 40]"
proof -
  have "sm_ApproximateReceiveCount (sample_message\<lparr>sm_ApproximateReceiveCount := ''4''\<rparr>) = format_nat 4"
    by code_simp
  from redelivery_delay [OF _ this, of "''h''"] show ?thesis by simp
qed

end
