(* ===== verification/Http.thy ===== *)
theory Http
  imports Reads Ingress Access
begin

text \<open>
  \<open>internal/adapters/http/handler.go\<close> and \<open>dto.go\<close>: the handlers, the documents they write and the
  routing table. A body is what the JSON decoder makes of it; the pattern matching of \<open>http.ServeMux\<close>
  on a clean path, \<open>strconv.Atoi\<close> and the translation of errors into a status are written out. Counters,
  logs and the size limit of a body, which acts through the decoder, are left out.
\<close>

section \<open>Documents\<close>

record money_view =
  vw_Amount :: string
  vw_Currency :: string

definition newMoneyView :: "money \<Rightarrow> money_view option" where
  "newMoneyView value =
     (if \<not> IsInitialized value then None
      else Some \<lparr>vw_Amount = money_String value, vw_Currency = currency value\<rparr>)"

record open_wallet_request =
  oq_PlayerID :: string
  oq_InitialBalance :: money_payload

record wallet_response =
  ws_ID :: string
  ws_PlayerID :: string
  ws_Balance :: "money_view option"
  ws_Version :: int64
  ws_CreatedAt :: time
  ws_UpdatedAt :: time

definition newWalletResponse :: "uuid_lib \<Rightarrow> wallet_view \<Rightarrow> wallet_response" where
  "newWalletResponse u v =
     \<lparr>ws_ID = uuid_String u (wv_ID v), ws_PlayerID = uuid_String u (wv_PlayerID v),
      ws_Balance = newMoneyView (wv_Balance v), ws_Version = wv_Version v,
      ws_CreatedAt = time_UTC (wv_CreatedAt v), ws_UpdatedAt = time_UTC (wv_UpdatedAt v)\<rparr>"

record transaction_response =
  ts_TransactionID :: string
  ts_Origin :: string
  ts_ProviderID :: string
  ts_ExternalTransactionID :: string
  ts_WalletID :: string
  ts_PlayerID :: string
  ts_RoundID :: string
  ts_GameID :: string
  ts_Kind :: string
  ts_Money :: "money_view option"
  ts_Status :: string
  ts_Balance :: "money_view option"
  ts_FailureCode :: string
  ts_ReferenceExternalTransactionID :: string
  ts_ReferenceDeadline :: "time option"
  ts_CreatedAt :: "time option"
  ts_UpdatedAt :: "time option"
  ts_IdempotentReplay :: bool

definition optional_time :: "time \<Rightarrow> time option" where
  "optional_time t = (if \<not> time_IsZero t then Some (time_UTC t) else None)"

definition newTransactionResponse :: "uuid_lib \<Rightarrow> wager_result \<Rightarrow> transaction_response" where
  "newTransactionResponse u r =
     \<lparr>ts_TransactionID = uuid_String u (wr_TransactionID r), ts_Origin = wr_Origin r, ts_ProviderID = wr_ProviderID r,
      ts_ExternalTransactionID = (if \<not> text_IsZero (wr_ExternalID r) then wr_ExternalID r else ''''),
      ts_WalletID = uuid_String u (wr_WalletID r), ts_PlayerID = uuid_String u (wr_PlayerID r),
      ts_RoundID = wr_RoundID r, ts_GameID = wr_GameID r, ts_Kind = wr_Kind r,
      ts_Money = newMoneyView (wr_Amount r), ts_Status = wr_State r,
      ts_Balance = newMoneyView (wr_ObservedBalance r),
      ts_FailureCode = (if wr_FailureCode r \<noteq> '''' then wr_FailureCode r else ''''),
      ts_ReferenceExternalTransactionID =
        (if \<not> text_IsZero (wr_ReferenceExternal r) then wr_ReferenceExternal r else ''''),
      ts_ReferenceDeadline = optional_time (wr_ReferenceDeadline r), ts_CreatedAt = optional_time (wr_CreatedAt r),
      ts_UpdatedAt = optional_time (wr_UpdatedAt r), ts_IdempotentReplay = wr_IdempotentReplay r\<rparr>"

record ledger_entry_response =
  ls_ID :: string
  ls_WalletID :: string
  ls_TransactionID :: string
  ls_Direction :: string
  ls_Money :: "money_view option"
  ls_BalanceBefore :: "money_view option"
  ls_BalanceAfter :: "money_view option"
  ls_CreatedAt :: time

record ledger_page_response =
  lps_Items :: "ledger_entry_response list"
  lps_NextCursor :: string

definition newLedgerPageResponse :: "uuid_lib \<Rightarrow> ledger_page \<Rightarrow> ledger_page_response" where
  "newLedgerPageResponse u page =
     \<lparr>lps_Items = map (\<lambda>e. \<lparr>ls_ID = uuid_String u (le_id e), ls_WalletID = uuid_String u (le_walletID e),
        ls_TransactionID = uuid_String u (le_transactionID e), ls_Direction = le_direction e,
        ls_Money = newMoneyView (le_amount e), ls_BalanceBefore = newMoneyView (le_balanceBefore e),
        ls_BalanceAfter = newMoneyView (le_balanceAfter e), ls_CreatedAt = time_UTC (le_createdAt e)\<rparr>) (lp_Items page),
      lps_NextCursor = lp_NextCursor page\<rparr>"

record reconciliation_response =
  rrs_WalletID :: string
  rrs_StoredBalance :: "money_view option"
  rrs_CalculatedBalance :: "money_view option"
  rrs_Difference :: "money_view option"
  rrs_Consistent :: bool
  rrs_CheckedEntries :: nat

definition newReconciliationResponse :: "uuid_lib \<Rightarrow> reconciliation_report \<Rightarrow> reconciliation_response" where
  "newReconciliationResponse u r =
     \<lparr>rrs_WalletID = uuid_String u (rr_WalletID r), rrs_StoredBalance = newMoneyView (rr_StoredBalance r),
      rrs_CalculatedBalance = newMoneyView (rr_CalculatedBalance r), rrs_Difference = newMoneyView (rr_Difference r),
      rrs_Consistent = rr_Consistent r, rrs_CheckedEntries = rr_CheckedEntries r\<rparr>"

datatype document =
    HealthDocument string
  | MetricsDocument
  | WalletDocument wallet_response
  | TransactionDocument transaction_response
  | LedgerDocument ledger_page_response
  | ReconciliationDocument reconciliation_response

section \<open>Handlers\<close>

record http_request = http_head +
  rq_Path :: "string list"
  rq_Limit :: string
  rq_Cursor :: string
  rq_OpenWallet :: "open_wallet_request json_body"
  rq_Wager :: "wager_request json_body"

type_synonym route_handler = "http_request \<Rightarrow> world \<Rightarrow> document answer \<times> world"

text \<open>What a handler is built with; \<open>hd_Ready\<close> is what the readiness probe finds.\<close>

record handler_config =
  hd_Runtime :: runtime
  hd_JSON :: cursor_json
  hd_Reconciler :: bool
  hd_Ready :: bool
  hd_Concurrency :: int

definition NewHandler_concurrency :: "handler_config \<Rightarrow> nat" where
  "NewHandler_concurrency cfg = (if hd_Concurrency cfg \<le> 0 then 256 else nat (hd_Concurrency cfg))"

definition decodeJSON :: "'a json_body \<Rightarrow> decode_error + 'a" where
  "decodeJSON body =
     (case jb_First body of
        Inl e \<Rightarrow> Inl e
      | Inr value \<Rightarrow>
          (case jb_Second body of
             AtEOF \<Rightarrow> Inr value
           | AnotherValue \<Rightarrow> Inl BodyError
           | AfterError e \<Rightarrow> Inl e))"

definition writeDecodeError :: "http_request \<Rightarrow> decode_error \<Rightarrow> document answer" where
  "writeDecodeError r e =
     (if e = MaxBytesError then WriteError r 413 ''PAYLOAD_TOO_LARGE'' else WriteError r 400 ''INVALID_REQUEST'')"

definition error_status :: "app_error \<Rightarrow> error_code \<Rightarrow> nat" where
  "error_status e code =
     (if errors_Is e ErrNotFound then 404
      else if errors_Is e ErrConflict then 409
      else if code = CodeIdempotencyKeyRequired then 400
      else if code = CodeInvalidCursor \<or> code = CodeInvalidLimit then 400
      else if errors_Is e ErrContract then 422
      else if errors_Is e ErrTransient then 503
      else 503)"

definition writeApplicationError :: "http_request \<Rightarrow> app_error \<Rightarrow> document answer" where
  "writeApplicationError r e =
     (case ErrorCodeOf e of
        None \<Rightarrow> WriteError r 503 ''SERVICE_UNAVAILABLE''
      | Some code \<Rightarrow> WriteError r (error_status e code) code)"

text \<open>A call of a use case: a panic of it is a panic of the handler.\<close>

definition answer_with :: "http_request \<Rightarrow> 'a tx \<Rightarrow> ('a \<Rightarrow> document answer) \<Rightarrow> world \<Rightarrow> document answer \<times> world" where
  "answer_with r use_case write w =
     (case use_case w of
        (Inl e, w') \<Rightarrow> (if e = Panicked then PanickedHandler else writeApplicationError r e, w')
      | (Inr x, w') \<Rightarrow> (write x, w'))"

text \<open>A value that was parsed, or a refusal.\<close>

definition or_refuse ::
  "http_request \<Rightarrow> refusal + 'a \<Rightarrow> ('a \<Rightarrow> world \<Rightarrow> document answer \<times> world) \<Rightarrow> world \<Rightarrow> document answer \<times> world" where
  "or_refuse r parsed next w =
     (case parsed of
        Inl (status, code) \<Rightarrow> (WriteError r status code, w)
      | Inr x \<Rightarrow> next x w)"

definition handleLive :: "route_handler" where
  "handleLive r w = (WriteJSON 200 (HealthDocument ''live''), w)"

definition handleReady :: "handler_config \<Rightarrow> route_handler" where
  "handleReady cfg r w =
     (if \<not> hd_Ready cfg then (WriteJSON 503 (HealthDocument ''not_ready''), w)
      else (WriteJSON 200 (HealthDocument ''ready''), w))"

definition handleMetrics :: "route_handler" where
  "handleMetrics r w = (WriteJSON 200 MetricsDocument, w)"

definition handleNotFound :: "route_handler" where
  "handleNotFound r w = (WriteError r 404 ''NOT_FOUND'', w)"

definition handleOpenWallet :: "handler_config \<Rightarrow> route_handler" where
  "handleOpenWallet cfg r w =
     (let rt = hd_Runtime cfg; u = rt_uuid rt in
      case decodeJSON (rq_OpenWallet r) of
        Inl e \<Rightarrow> (writeDecodeError r e, w)
      | Inr request \<Rightarrow>
          or_refuse r (ParsePlayerID u (oq_PlayerID request) (422, ''INVALID_REQUEST'')) (\<lambda>playerID.
          or_refuse r (map_err (\<lambda>_. (422, ''INVALID_MONEY'')) (moneyInput_parse (oq_InitialBalance request))) (\<lambda>initialBalance.
          answer_with r (OpenWallet rt \<lparr>oc_PlayerID = playerID, oc_InitialBalance = initialBalance,
              oc_CorrelationID = hr_Correlation r\<rparr>)
            (\<lambda>view. WriteJSON 201 (WalletDocument (newWalletResponse u view))))) w)"

definition handleWalletByID :: "handler_config \<Rightarrow> string \<Rightarrow> route_handler" where
  "handleWalletByID cfg walletId r w =
     (let rt = hd_Runtime cfg; u = rt_uuid rt in
      or_refuse r (ParseWalletID u walletId (400, ''INVALID_REQUEST'')) (\<lambda>walletID.
      answer_with r (WalletByID rt walletID)
        (\<lambda>view. WriteJSON 200 (WalletDocument (newWalletResponse u view)))) w)"

text \<open>\<open>strconv.Atoi\<close>: an optional sign, digits, and a value that an \<open>int\<close> holds.\<close>

definition Atoi :: "string \<Rightarrow> int option" where
  "Atoi s =
     (let (negative, digits) = (case s of
            [] \<Rightarrow> (False, s)
          | c # cs \<Rightarrow> if c = CHR ''-'' then (True, cs) else if c = CHR ''+'' then (False, cs) else (False, s));
          value = (if negative then - int (dec_value digits) else int (dec_value digits))
      in if digits = '''' \<or> \<not> list_all is_digit digits then None
         else if int64_range value then Some value else None)"

definition handleLedgerPage :: "handler_config \<Rightarrow> string \<Rightarrow> route_handler" where
  "handleLedgerPage cfg walletId r w =
     (let rt = hd_Runtime cfg; u = rt_uuid rt in
      or_refuse r (ParseWalletID u walletId (400, ''INVALID_REQUEST'')) (\<lambda>walletID.
      or_refuse r (if rq_Limit r = '''' then Inr LedgerDefaultLimit
          else case Atoi (rq_Limit r) of None \<Rightarrow> Inl (400, CodeInvalidLimit) | Some parsed \<Rightarrow> Inr parsed) (\<lambda>limit.
      answer_with r (LedgerPage rt (hd_JSON cfg) walletID (rq_Cursor r) limit)
        (\<lambda>page. WriteJSON 200 (LedgerDocument (newLedgerPageResponse u page))))) w)"

text \<open>\<open>principal, _ := PrincipalFrom(ctx)\<close>: without one, the zero value.\<close>

definition principal_provider :: "http_request \<Rightarrow> string" where
  "principal_provider r = (case hr_Principal r of None \<Rightarrow> '''' | Some p \<Rightarrow> pr_ProviderID p)"

definition handleProviderTransaction :: "handler_config \<Rightarrow> string \<Rightarrow> string \<Rightarrow> route_handler" where
  "handleProviderTransaction cfg providerId externalTransactionId r w =
     (let rt = hd_Runtime cfg in
      or_refuse r (ParseProviderID providerId (400, ''INVALID_REQUEST'')) (\<lambda>pathProvider.
      or_refuse r (if pathProvider \<noteq> principal_provider r then Inl (403, ''FORBIDDEN'') else Inr ()) (\<lambda>_.
      or_refuse r (ParseExternalID externalTransactionId (400, ''INVALID_REQUEST'')) (\<lambda>externalID.
      answer_with r (TransactionByProviderAndExternalID rt pathProvider externalID)
        (\<lambda>result. WriteJSON 200 (TransactionDocument (newTransactionResponse (rt_uuid rt) result)))))) w)"

definition handleSubmitWager :: "handler_config \<Rightarrow> route_handler" where
  "handleSubmitWager cfg r w =
     (let rt = hd_Runtime cfg in
      if principal_provider r = '''' then (WriteError r 403 ''FORBIDDEN'', w)
      else case decodeJSON (rq_Wager r) of
        Inl e \<Rightarrow> (writeDecodeError r e, w)
      | Inr request \<Rightarrow>
          or_refuse r (wager_command (rt_uuid rt) (principal_provider r) (hr_IdempotencyKey r) (hr_Correlation r) request)
            (\<lambda>command.
          answer_with r (SubmitWagerTransaction rt command)
            (\<lambda>result. WriteJSON (if wr_State result = StatePendingReference then 202 else 200)
              (TransactionDocument (newTransactionResponse (rt_uuid rt) result)))) w)"

definition handleTransactionByID :: "handler_config \<Rightarrow> string \<Rightarrow> route_handler" where
  "handleTransactionByID cfg transactionId r w =
     (let rt = hd_Runtime cfg in
      or_refuse r (ParseTransactionID (rt_uuid rt) transactionId (400, ''INVALID_REQUEST'')) (\<lambda>transactionID.
      answer_with r (TransactionByID rt transactionID)
        (\<lambda>result.
          if principal_provider r \<noteq> '''' \<and> wr_Origin result = OriginInternal then WriteError r 403 ''FORBIDDEN''
          else if principal_provider r \<noteq> '''' \<and> wr_ProviderID result \<noteq> principal_provider r
          then WriteError r 404 ''NOT_FOUND''
          else WriteJSON 200 (TransactionDocument (newTransactionResponse (rt_uuid rt) result)))) w)"

definition handleReconcile :: "handler_config \<Rightarrow> string \<Rightarrow> route_handler" where
  "handleReconcile cfg walletId r w =
     (let rt = hd_Runtime cfg; u = rt_uuid rt in
      or_refuse r (ParseWalletID u walletId (400, ''INVALID_REQUEST'')) (\<lambda>walletID.
      answer_with r (ReconcileWallet rt (hd_Reconciler cfg) walletID)
        (\<lambda>report. WriteJSON 200 (ReconciliationDocument (newReconciliationResponse u report)))) w)"

section \<open>Routes\<close>

datatype route =
    RouteLive
  | RouteReady
  | RouteMetrics
  | RouteOpenWallet
  | RouteWallet string
  | RouteLedger string
  | RouteSubmit
  | RouteTransaction string
  | RouteProviderTransaction string string
  | RouteReconcile string
  | RouteNone

text \<open>
  The patterns of the table on the segments of a clean path, the last one empty after a final slash; a
  wildcard takes no empty segment, a GET pattern also serves HEAD, and whatever no pattern takes goes to the
  pattern \<open>/\<close>.
\<close>

definition get_method :: "string \<Rightarrow> bool" where "get_method m \<longleftrightarrow> m = ''GET'' \<or> m = ''HEAD''"

definition match_route :: "string \<Rightarrow> string list \<Rightarrow> route" where
  "match_route m path =
     (case path of
        [a] \<Rightarrow>
          if get_method m \<and> a = ''metrics'' then RouteMetrics
          else if m = ''POST'' \<and> a = ''wallets'' then RouteOpenWallet else RouteNone
      | [a, b] \<Rightarrow>
          if get_method m \<and> a = ''health'' \<and> b = ''live'' then RouteLive
          else if get_method m \<and> a = ''health'' \<and> b = ''ready'' then RouteReady
          else if get_method m \<and> a = ''wallets'' \<and> b \<noteq> '''' then RouteWallet b
          else if m = ''POST'' \<and> a = ''wagering'' \<and> b = ''transactions'' then RouteSubmit else RouteNone
      | [a, b, c] \<Rightarrow>
          if get_method m \<and> a = ''wallets'' \<and> c = ''ledger'' then RouteLedger b
          else if m = ''POST'' \<and> a = ''wallets'' \<and> c = ''reconciliation'' then RouteReconcile b
          else if get_method m \<and> a = ''wagering'' \<and> b = ''transactions'' \<and> c \<noteq> '''' then RouteTransaction c else RouteNone
      | [a, b, c, d, e] \<Rightarrow>
          if get_method m \<and> a = ''providers'' \<and> c = ''wagering'' \<and> d = ''transactions'' \<and> e \<noteq> ''''
          then RouteProviderTransaction b e else RouteNone
      | _ \<Rightarrow> RouteNone)"

type_synonym jwt_verifier = "string \<Rightarrow> (string \<Rightarrow> string option) option"

definition protected :: "jwt_verifier \<Rightarrow> string \<Rightarrow> route_handler \<Rightarrow> route_handler" where
  "protected jwt scope handler = Authenticate (OIDC_Authenticate jwt) (RequireScope scope handler)"

definition internal :: "jwt_verifier \<Rightarrow> string \<Rightarrow> route_handler \<Rightarrow> route_handler" where
  "internal jwt scope handler = Authenticate (OIDC_Authenticate jwt) (RequireInternal (RequireScope scope handler))"

definition provider :: "jwt_verifier \<Rightarrow> string \<Rightarrow> route_handler \<Rightarrow> route_handler" where
  "provider jwt scope handler = Authenticate (OIDC_Authenticate jwt) (RequireProvider (RequireScope scope handler))"

definition business :: "handler_config \<Rightarrow> jwt_verifier \<Rightarrow> string \<Rightarrow> route_handler \<Rightarrow> route_handler" where
  "business cfg jwt scope handler =
     protected jwt scope (RateLimit (NewHandler_concurrency cfg) (RequireJSON handler))"

definition internalBusiness :: "handler_config \<Rightarrow> jwt_verifier \<Rightarrow> string \<Rightarrow> route_handler \<Rightarrow> route_handler" where
  "internalBusiness cfg jwt scope handler =
     internal jwt scope (RateLimit (NewHandler_concurrency cfg) (RequireJSON handler))"

fun route_handler_of :: "handler_config \<Rightarrow> jwt_verifier \<Rightarrow> route \<Rightarrow> route_handler" where
  "route_handler_of cfg jwt RouteLive = handleLive"
| "route_handler_of cfg jwt RouteReady = handleReady cfg"
| "route_handler_of cfg jwt RouteMetrics = internal jwt ScopeMetricsRead handleMetrics"
| "route_handler_of cfg jwt RouteOpenWallet = internalBusiness cfg jwt ScopeWalletsWrite (handleOpenWallet cfg)"
| "route_handler_of cfg jwt (RouteWallet i) = internal jwt ScopeWalletsRead (handleWalletByID cfg i)"
| "route_handler_of cfg jwt (RouteLedger i) = internal jwt ScopeWalletsRead (handleLedgerPage cfg i)"
| "route_handler_of cfg jwt RouteSubmit =
     provider jwt ScopeWageringWrite (RateLimit (NewHandler_concurrency cfg) (RequireJSON (handleSubmitWager cfg)))"
| "route_handler_of cfg jwt (RouteTransaction i) = business cfg jwt ScopeWageringRead (handleTransactionByID cfg i)"
| "route_handler_of cfg jwt (RouteProviderTransaction p e) =
     provider jwt ScopeWageringRead (handleProviderTransaction cfg p e)"
| "route_handler_of cfg jwt (RouteReconcile i) =
     internal jwt ScopeReconciliationExecute (RateLimit (NewHandler_concurrency cfg) (handleReconcile cfg i))"
| "route_handler_of cfg jwt RouteNone = handleNotFound"

definition serve :: "handler_config \<Rightarrow> jwt_verifier \<Rightarrow> route_handler" where
  "serve cfg jwt r =
     Correlation (hd_Runtime cfg) (Recover (route_handler_of cfg jwt (match_route (hr_Method r) (rq_Path r)))) r"

end
