(* ===== verification/Boundary.thy ===== *)
theory Boundary
  imports Guarantees Ingress Http
begin

text \<open>
  What the HTTP boundary guarantees: every request is answered, with a documented status; an answer that
  is not a success leaves the database as it was; nothing happens and nothing is shown without a caller
  who holds the scope of the route; and a provider sees its own transactions only.
\<close>

section \<open>Reads change nothing\<close>

definition keeps :: "'a tx \<Rightarrow> bool" where
  "keeps m \<longleftrightarrow> (\<forall>w. w_db (snd (m w)) = w_db w)"

lemma keepsD: "keeps m \<Longrightarrow> m w = (x, w') \<Longrightarrow> w_db w' = w_db w"
  unfolding keeps_def by (metis snd_conv)

lemma keeps_basic [intro, simp]: "keeps (tx_return x)" "keeps (tx_fail e)" "keeps (tx_lift r)"
  by (simp_all add: keeps_def)

lemma keeps_bind [intro]: "keeps m \<Longrightarrow> (\<And>x. keeps (f x)) \<Longrightarrow> keeps (tx_bind m f)"
  by (simp add: keeps_def tx_bind_def split: prod.splits sum.splits) (metis snd_conv)

lemma keeps_db_call: "(\<And>d x d'. stmt d = Inr (x, d') \<Longrightarrow> d' = d) \<Longrightarrow> keeps (db_call rt stmt)"
  unfolding keeps_def
proof (intro allI)
  fix w
  assume s: "\<And>d x d'. stmt d = Inr (x, d') \<Longrightarrow> d' = d"
  obtain r w' where c: "db_call rt stmt w = (r, w')" by (cases "db_call rt stmt w")
  have "w_db w' = w_db w"
  proof (cases r)
    case (Inl e)
    then show ?thesis using db_call_Inl c by blast
  next
    case (Inr x)
    then show ?thesis using c s by (auto simp: db_call_Inr)
  qed
  then show "w_db (snd (db_call rt stmt w)) = w_db w" using c by simp
qed

lemma keeps_selects [intro, simp]:
  "keeps (db_call rt (select_wallet i))" "keeps (db_call rt (select_transaction P))"
  "keeps (db_call rt (select_ledger_page i after n))" "keeps (db_call rt (select_reconciliation i))"
  by (rule keeps_db_call; simp add: select_wallet_def select_transaction_def select_ledger_page_def
      select_reconciliation_def)+

lemma keeps_reads:
  "keeps (WalletByID rt i)" "keeps (TransactionByID rt t)" "keeps (TransactionByProviderAndExternalID rt p e)"
  "keeps (LedgerPage rt j i cursor limit)"
  by (auto simp: WalletByID_def TransactionByID_def TransactionByProviderAndExternalID_def LedgerPage_def
      wallets_ByID_def transactions_ByID_def transactions_ByProviderAndExternalID_def ledger_ListPage_def Let_def
      intro!: keeps_bind split: option.splits sum.splits prod.splits)

lemma keeps_reconcile_body: "keeps (reconcile_body rt i)"
  by (auto simp: reconcile_body_def intro!: keeps_bind split: option.splits)

lemma keeps_ReconcileRead: "keeps (ReconcileRead rt i)"
  unfolding keeps_def
proof
  fix w
  obtain b w1 where b: "begin_tx rt w = (b, w1)" by (cases "begin_tx rt w")
  then have w1: "w_db w1 = w_db w" by (auto simp: begin_tx_def split: option.splits)
  obtain x w2 where x: "reconcile_body rt i w1 = (x, w2)" by (cases "reconcile_body rt i w1")
  have w2: "w_db w2 = w_db w" using keepsD [OF keeps_reconcile_body x] w1 by simp
  show "w_db (snd (ReconcileRead rt i w)) = w_db w"
    using b x w1 w2
    by (auto simp: ReconcileRead_def finish_tx_def Let_def split: sum.splits option.splits commit_fate.splits)
qed

lemma keeps_ReconcileWallet: "keeps (ReconcileWallet rt reconciler i)"
  by (auto simp: ReconcileWallet_def intro!: keeps_bind keeps_ReconcileRead split: option.splits)

lemmas keeps_all = keeps_reads keeps_ReconcileWallet

section \<open>Every answer\<close>

definition answer_statuses :: "nat list" where
  "answer_statuses = [200, 201, 202, 400, 401, 403, 404, 409, 413, 415, 422, 503]"

text \<open>
  An answer of a known status which, unless it is a success, left the database as it was; a panic too.
\<close>

definition sound_answer :: "db \<Rightarrow> document answer \<Rightarrow> db \<Rightarrow> bool" where
  "sound_answer d a d' \<longleftrightarrow>
     (case a of
        PanickedHandler \<Rightarrow> d' = d
      | Answered resp \<Rightarrow> rs_Status resp \<in> set answer_statuses \<and> (rs_Status resp < 300 \<or> d' = d))"

definition sound :: "route_handler \<Rightarrow> bool" where
  "sound h \<longleftrightarrow> (\<forall>r w. sound_answer (w_db w) (fst (h r w)) (w_db (snd (h r w))))"

lemma sound_Write [simp]:
  "s \<in> set answer_statuses \<Longrightarrow> sound_answer d (WriteError r s code) d"
  "s \<in> set answer_statuses \<Longrightarrow> sound_answer d (WriteJSON s body) d"
  "s \<in> set answer_statuses \<Longrightarrow> s < 300 \<Longrightarrow> sound_answer d (WriteJSON s body) d'"
  by (simp_all add: sound_answer_def WriteError_def WriteJSON_def)

lemma sound_error_status: "error_status e code \<in> set answer_statuses"
  by (simp add: error_status_def answer_statuses_def)

lemma sound_errors [simp]:
  "sound_answer d (writeApplicationError r e) d" "sound_answer d (writeDecodeError r de) d"
  using sound_error_status
  by (simp_all add: writeApplicationError_def writeDecodeError_def split: option.splits) (simp_all add: answer_statuses_def)

lemma sound_PanickedHandler [simp]: "sound_answer d PanickedHandler d"
  by (simp add: sound_answer_def)

text \<open>A use case that leaves no trace when it fails.\<close>

definition atomic_call :: "'a tx \<Rightarrow> bool" where
  "atomic_call m \<longleftrightarrow> (\<forall>w e w'. m w = (Inl e, w') \<longrightarrow> w_db w' = w_db w)"

lemma atomic_keeps: "keeps m \<Longrightarrow> atomic_call m"
  using keepsD unfolding atomic_call_def by blast

lemma atomic_use_cases:
  assumes "commits_known rt"
  shows "atomic_call (OpenWallet rt oc)" "atomic_call (SubmitWagerTransaction rt sc)"
  using OpenWallet_atomic [OF assms] SubmitWagerTransaction_atomic [OF assms] unfolding atomic_call_def by blast+

lemma sound_answer_with:
  assumes "atomic_call m"
    and "\<And>x w'. m w = (Inr x, w') \<Longrightarrow> sound_answer (w_db w) (write x) (w_db w')"
  shows "sound_answer (w_db w) (fst (answer_with r m write w)) (w_db (snd (answer_with r m write w)))"
proof (cases "m w")
  case (Pair x w')
  then show ?thesis using assms by (cases x) (auto simp: answer_with_def atomic_call_def)
qed

lemma sound_or_refuse:
  assumes "\<And>status code. parsed = Inl (status, code) \<Longrightarrow> status \<in> set answer_statuses"
    and "\<And>x. parsed = Inr x \<Longrightarrow> sound_answer (w_db w) (fst (f x w)) (w_db (snd (f x w)))"
  shows "sound_answer (w_db w) (fst (or_refuse r parsed f w)) (w_db (snd (or_refuse r parsed f w)))"
  using assms by (cases parsed) (auto simp: or_refuse_def)

lemma wager_command_refusal:
  "wager_command u p k c q = Inl (status, code) \<Longrightarrow> status \<in> set answer_statuses"
  by (auto simp: wager_command_def Let_def res_simps parse_text_def answer_statuses_def split: if_splits)


lemma soundI:
  assumes "\<And>r w. sound_answer (w_db w) (fst (h r w)) (w_db (snd (h r w)))"
  shows "sound h"
  using assms by (simp add: sound_def)

lemma soundD: "sound h \<Longrightarrow> h r w = (a, w') \<Longrightarrow> sound_answer (w_db w) a (w_db w')"
  unfolding sound_def by (metis fst_conv snd_conv)

lemma status_members [simp]:
  "200 \<in> set answer_statuses" "201 \<in> set answer_statuses" "202 \<in> set answer_statuses" "400 \<in> set answer_statuses"
  "401 \<in> set answer_statuses" "403 \<in> set answer_statuses" "404 \<in> set answer_statuses" "415 \<in> set answer_statuses"
  "422 \<in> set answer_statuses" "503 \<in> set answer_statuses"
  by (simp_all add: answer_statuses_def)

lemma sound_read:
  assumes "keeps m" and "\<And>x. sound_answer (w_db w) (write x) (w_db w)"
  shows "sound_answer (w_db w) (fst (answer_with r m write w)) (w_db (snd (answer_with r m write w)))"
  using assms(2) keepsD [OF assms(1)] by (intro sound_answer_with atomic_keeps [OF assms(1)]) auto

lemma sound_handlers:
  "sound handleLive" "sound (handleReady cfg)" "sound handleMetrics" "sound handleNotFound"
  "sound (handleWalletByID cfg i)" "sound (handleLedgerPage cfg i)" "sound (handleProviderTransaction cfg p e)"
  "sound (handleTransactionByID cfg i)" "sound (handleReconcile cfg i)"
proof -
  show "sound handleLive" "sound (handleReady cfg)" "sound handleMetrics" "sound handleNotFound"
    by (simp_all add: sound_def handleLive_def handleReady_def handleMetrics_def handleNotFound_def)
  show "sound (handleWalletByID cfg i)"
    unfolding handleWalletByID_def Let_def
    by (intro soundI sound_or_refuse sound_read keeps_all) (auto simp: res_simps)
  show "sound (handleLedgerPage cfg i)"
    unfolding handleLedgerPage_def Let_def
    by (intro soundI sound_or_refuse sound_read keeps_all) (auto simp: res_simps split: if_splits option.splits)
  show "sound (handleProviderTransaction cfg p e)"
    unfolding handleProviderTransaction_def Let_def
    by (intro soundI sound_or_refuse sound_read keeps_all) (auto simp: parse_text_def split: if_splits)
  show "sound (handleTransactionByID cfg i)"
    unfolding handleTransactionByID_def Let_def
    by (intro soundI sound_or_refuse sound_read keeps_all) (auto simp: res_simps)
  show "sound (handleReconcile cfg i)"
    unfolding handleReconcile_def Let_def
    by (intro soundI sound_or_refuse sound_read keeps_all) (auto simp: res_simps)
qed

lemma sound_handleOpenWallet:
  assumes "commits_known (hd_Runtime cfg)"
  shows "sound (handleOpenWallet cfg)"
proof (rule soundI)
  fix r w
  show "sound_answer (w_db w) (fst (handleOpenWallet cfg r w)) (w_db (snd (handleOpenWallet cfg r w)))"
  proof (cases "decodeJSON (rq_OpenWallet r)")
    case (Inl e)
    then show ?thesis by (simp add: handleOpenWallet_def)
  next
    case (Inr q)
    show ?thesis
      unfolding handleOpenWallet_def Let_def Inr sum.case
      by (intro sound_or_refuse sound_answer_with atomic_use_cases assms) (auto simp: res_simps)
  qed
qed

lemma sound_handleSubmitWager:
  assumes "commits_known (hd_Runtime cfg)"
  shows "sound (handleSubmitWager cfg)"
proof (rule soundI)
  fix r w
  show "sound_answer (w_db w) (fst (handleSubmitWager cfg r w)) (w_db (snd (handleSubmitWager cfg r w)))"
  proof (cases "decodeJSON (rq_Wager r)")
    case (Inl e)
    then show ?thesis by (simp add: handleSubmitWager_def Let_def)
  next
    case (Inr q)
    have "sound_answer (w_db w) (fst (or_refuse r parsed f w)) (w_db (snd (or_refuse r parsed f w)))"
      if "parsed = wager_command (rt_uuid (hd_Runtime cfg)) (principal_provider r) (hr_IdempotencyKey r) (hr_Correlation r) q"
        "f = (\<lambda>command. answer_with r (SubmitWagerTransaction (hd_Runtime cfg) command)
            (\<lambda>result. WriteJSON (if wr_State result = StatePendingReference then 202 else 200)
              (TransactionDocument (newTransactionResponse (rt_uuid (hd_Runtime cfg)) result))))" for parsed f
      unfolding that
      by (intro sound_or_refuse sound_answer_with atomic_use_cases assms) (auto dest: wager_command_refusal)
    then show ?thesis using Inr by (simp add: handleSubmitWager_def Let_def)
  qed
qed

text \<open>The middleware keeps a handler sound.\<close>

lemma sound_middleware:
  assumes "sound h"
  shows "sound (Authenticate authn h)" "sound (RequireInternal h)" "sound (RequireProvider h)"
    "sound (RequireScope scope h)" "sound (RateLimit n h)" "sound (RequireJSON h)"
  using soundD [OF assms]
  by (auto simp: sound_def Authenticate_def RequireInternal_def RequireProvider_def RequireScope_def RateLimit_def
      RequireJSON_def sound_answer_def [of _ "Answered _"] split: sum.splits option.splits)

lemma sound_Recover:
  assumes "sound h"
  shows "sound (Recover h)" "fst (Recover h r w) \<noteq> PanickedHandler"
proof -
  show "sound (Recover h)"
  proof (rule soundI)
    fix r w
    obtain a w' where h: "h r w = (a, w')" by (cases "h r w")
    from soundD [OF assms h] show "sound_answer (w_db w) (fst (Recover h r w)) (w_db (snd (Recover h r w)))"
      using h by (cases a) (simp_all add: Recover_def sound_answer_def [of _ PanickedHandler])
  qed
  show "fst (Recover h r w) \<noteq> PanickedHandler"
    by (auto simp: Recover_def WriteError_def split: prod.splits answer.splits)
qed

lemmas policy_defs = protected_def internal_def provider_def business_def internalBusiness_def

lemma sound_routes:
  assumes "commits_known (hd_Runtime cfg)"
  shows "sound (route_handler_of cfg jwt rte)"
  using sound_handlers sound_handleOpenWallet [OF assms] sound_handleSubmitWager [OF assms]
  by (cases rte) (simp_all add: policy_defs sound_middleware)

lemma Correlation_runs:
  obtains c n where "Correlation rt h r w = h (r\<lparr>hr_Correlation := c\<rparr>) (w\<lparr>w_ids := n\<rparr>)"
proof -
  let ?s = "if length (hr_CorrelationID r) > 128 then '''' else hr_CorrelationID r"
  have "\<exists>c n. correlationOrNew rt s w = (Inr c, w\<lparr>w_ids := n\<rparr>)" for s
  proof -
    have "\<exists>n. w = w\<lparr>w_ids := n\<rparr>" by (rule exI [of _ "w_ids w"]) simp
    then show ?thesis unfolding correlationOrNew_def by (auto split: option.splits)
  qed
  then obtain c n where "correlationOrNew rt ?s w = (Inr c, w\<lparr>w_ids := n\<rparr>)" by blast
  then show ?thesis using that [of c n] by (simp add: Correlation_def)
qed


lemma serve_runs:
  assumes "serve cfg jwt r w = (a, w')"
  obtains c n b where
    "route_handler_of cfg jwt (match_route (hr_Method r) (rq_Path r)) (r\<lparr>hr_Correlation := c\<rparr>) (w\<lparr>w_ids := n\<rparr>) = (b, w')"
    "a = b \<or> b = PanickedHandler \<and> a = WriteError (r\<lparr>hr_Correlation := c\<rparr>) 503 ''SERVICE_UNAVAILABLE''"
proof -
  let ?h = "route_handler_of cfg jwt (match_route (hr_Method r) (rq_Path r))"
  obtain c n where c: "serve cfg jwt r w = Recover ?h (r\<lparr>hr_Correlation := c\<rparr>) (w\<lparr>w_ids := n\<rparr>)"
    unfolding serve_def by (rule Correlation_runs)
  obtain b v where b: "?h (r\<lparr>hr_Correlation := c\<rparr>) (w\<lparr>w_ids := n\<rparr>) = (b, v)"
    by (cases "?h (r\<lparr>hr_Correlation := c\<rparr>) (w\<lparr>w_ids := n\<rparr>)")
  then show ?thesis using that [of c n b] assms c by (cases b) (auto simp: Recover_def)
qed

section \<open>Who may do what\<close>

datatype audience = AnyCaller | InternalCaller | ProviderCaller

text \<open>The policy of a route as a table; \<open>None\<close> for a route that asks for no credential.\<close>

fun route_policy :: "route \<Rightarrow> (string \<times> audience) option" where
  "route_policy RouteLive = None"
| "route_policy RouteReady = None"
| "route_policy RouteMetrics = Some (''GET /metrics'', InternalCaller)"
| "route_policy RouteOpenWallet = Some (''POST /wallets'', InternalCaller)"
| "route_policy (RouteWallet i) = Some (''GET /wallets/{walletId}'', InternalCaller)"
| "route_policy (RouteLedger i) = Some (''GET /wallets/{walletId}/ledger'', InternalCaller)"
| "route_policy RouteSubmit = Some (''POST /wagering/transactions'', ProviderCaller)"
| "route_policy (RouteTransaction i) = Some (''GET /wagering/transactions/{transactionId}'', AnyCaller)"
| "route_policy (RouteProviderTransaction p e) =
     Some (''GET /providers/{providerId}/wagering/transactions/{externalTransactionId}'', ProviderCaller)"
| "route_policy (RouteReconcile i) = Some (''POST /wallets/{walletId}/reconciliation'', InternalCaller)"
| "route_policy RouteNone = None"

definition entitled :: "(string \<times> audience) option \<Rightarrow> principal \<Rightarrow> bool" where
  "entitled policy p \<longleftrightarrow>
     (case policy of
        None \<Rightarrow> True
      | Some (pattern, who) \<Rightarrow>
          (case map_of RouteScopes pattern of None \<Rightarrow> False | Some scope \<Rightarrow> HasScope p scope)
          \<and> (who = InternalCaller \<longrightarrow> pr_ProviderID p = '''') \<and> (who = ProviderCaller \<longrightarrow> pr_ProviderID p \<noteq> ''''))"

text \<open>An answer with a document that is not about the health of the process.\<close>

definition discloses :: "document answer \<Rightarrow> bool" where
  "discloses a \<longleftrightarrow>
     (case a of Answered resp \<Rightarrow> (case rs_Body resp of Body (HealthDocument s) \<Rightarrow> False | Body d \<Rightarrow> True | ErrorBody c k \<Rightarrow> False)
      | PanickedHandler \<Rightarrow> False)"

lemma discloses_refusal: "refusal_answer a \<Longrightarrow> \<not> discloses a"
  by (auto simp: refusal_answer_def discloses_def)

lemma discloses_WriteError [simp]: "\<not> discloses (WriteError r s c)" "\<not> discloses PanickedHandler"
  by (simp_all add: discloses_def WriteError_def)

lemma OIDC_same [simp]: "OIDC_Authenticate jwt (r\<lparr>hr_Correlation := c\<rparr>) = OIDC_Authenticate jwt r"
  by (simp add: OIDC_Authenticate_def)

text \<open>A handler behind a policy either refuses or runs for a caller who passes it.\<close>

lemma protected_cases:
  assumes "protected jwt scope h r w = (a, w')"
  obtains (refused) "refusal_answer a" "w' = w"
  | (passed) p where "OIDC_Authenticate jwt r = Inr p" "HasScope p scope" "h (r\<lparr>hr_Principal := Some p\<rparr>) w = (a, w')"
  using assms unfolding protected_def by (elim Authenticate_cases RequireScope_cases) auto

lemma internal_cases:
  assumes "internal jwt scope h r w = (a, w')"
  obtains (refused) "refusal_answer a" "w' = w"
  | (passed) p where "OIDC_Authenticate jwt r = Inr p" "HasScope p scope" "pr_ProviderID p = ''''"
      "h (r\<lparr>hr_Principal := Some p\<rparr>) w = (a, w')"
  using assms unfolding internal_def by (elim Authenticate_cases RequireInternal_cases RequireScope_cases) auto

lemma provider_cases:
  assumes "provider jwt scope h r w = (a, w')"
  obtains (refused) "refusal_answer a" "w' = w"
  | (passed) p where "OIDC_Authenticate jwt r = Inr p" "HasScope p scope" "pr_ProviderID p \<noteq> ''''"
      "h (r\<lparr>hr_Principal := Some p\<rparr>) w = (a, w')"
  using assms unfolding provider_def by (elim Authenticate_cases RequireProvider_cases RequireScope_cases) auto

lemma route_scope_table:
  "map_of RouteScopes ''POST /wallets'' = Some ScopeWalletsWrite"
  "map_of RouteScopes ''GET /wallets/{walletId}'' = Some ScopeWalletsRead"
  "map_of RouteScopes ''GET /wallets/{walletId}/ledger'' = Some ScopeWalletsRead"
  "map_of RouteScopes ''POST /wallets/{walletId}/reconciliation'' = Some ScopeReconciliationExecute"
  "map_of RouteScopes ''GET /metrics'' = Some ScopeMetricsRead"
  "map_of RouteScopes ''POST /wagering/transactions'' = Some ScopeWageringWrite"
  "map_of RouteScopes ''GET /wagering/transactions/{transactionId}'' = Some ScopeWageringRead"
  "map_of RouteScopes ''GET /providers/{providerId}/wagering/transactions/{externalTransactionId}'' = Some ScopeWageringRead"
  by (simp_all add: RouteScopes_def)

lemma route_cases:
  assumes "route_handler_of cfg jwt rte r w = (a, w')"
  obtains (unguarded) "rte \<in> {RouteLive, RouteReady, RouteNone}" "w' = w" "\<not> discloses a"
  | (refused) "refusal_answer a" "w' = w"
  | (passed) p where "OIDC_Authenticate jwt r = Inr p" "entitled (route_policy rte) p"
proof (cases rte)
  case RouteLive
  then show ?thesis using assms by (intro unguarded) (auto simp: handleLive_def discloses_def WriteJSON_def)
next
  case RouteReady
  then show ?thesis using assms by (intro unguarded) (auto simp: handleReady_def discloses_def WriteJSON_def split: if_splits)
next
  case RouteNone
  then show ?thesis using assms by (intro unguarded) (auto simp: handleNotFound_def)
next
  case RouteMetrics
  then show ?thesis
    using assms by (auto elim!: internal_cases intro: refused passed simp: entitled_def route_scope_table)
next
  case RouteOpenWallet
  then show ?thesis
    using assms by (auto elim!: internal_cases intro: refused passed simp: internalBusiness_def entitled_def route_scope_table)
next
  case (RouteWallet i)
  then show ?thesis
    using assms by (auto elim!: internal_cases intro: refused passed simp: entitled_def route_scope_table)
next
  case (RouteLedger i)
  then show ?thesis
    using assms by (auto elim!: internal_cases intro: refused passed simp: entitled_def route_scope_table)
next
  case RouteSubmit
  then show ?thesis
    using assms by (auto elim!: provider_cases intro: refused passed simp: entitled_def route_scope_table)
next
  case (RouteTransaction i)
  then show ?thesis
    using assms by (auto elim!: protected_cases intro: refused passed simp: business_def entitled_def route_scope_table)
next
  case (RouteProviderTransaction p e)
  then show ?thesis
    using assms by (auto elim!: provider_cases intro: refused passed simp: entitled_def route_scope_table)
next
  case (RouteReconcile i)
  then show ?thesis
    using assms by (auto elim!: internal_cases intro: refused passed simp: entitled_def route_scope_table)
qed


section \<open>What a provider sees\<close>

lemma settles_provider: "settles u d t t' d' \<Longrightarrow> tx_providerID t' = tx_providerID t"
  by (erule settlesE) (auto simp: MarkPendingReference_Inr_iff MarkRejected_Inr_iff MarkFailed_Inr_iff
      MarkProcessed_Inr_iff)

lemma submit_provider:
  assumes "uuid_lib_ok (rt_uuid rt)" and "SubmitWagerTransaction rt cmd w = (Inr r, w')"
  shows "wr_ProviderID r = sc_ProviderID cmd"
proof -
  obtain d where "submit_spec (rt_uuid rt) cmd (DigestOf (rt_uuid rt) (projection cmd)) d r (w_db w')"
    using SubmitWagerTransaction_refines [OF assms] by auto
  then show ?thesis
  proof cases
    case (spec_replay t)
    then show ?thesis by (simp add: resultOf_def)
  next
    case (spec_fresh tid now wa d1 t')
    then show ?thesis using settles_provider [OF spec_fresh(6)] by (simp add: resultOf_def)
  qed
qed

lemma read_provider:
  assumes u: "uuid_lib_ok (rt_uuid rt)" and run: "TransactionByProviderAndExternalID rt p e w = (Inr r, w')"
  shows "wr_ProviderID r = p"
proof -
  obtain row t where t: "find (\<lambda>r. txr_providerId r = Some p \<and> txr_externalTransactionId r = Some e)
      (db_transactions (w_db w)) = Some row" "rehydrateTransaction (rt_uuid rt) row = Inr t" "r = resultOf t False"
    using run by (auto simp: TransactionByProviderAndExternalID_def transactions_ByProviderAndExternalID_def
        tx_bind_Inr_iff db_call_Inr select_transaction_def scanTransaction_def scanTransactionWithAttempts_def
        scan_row_def res_simps split: if_splits option.splits)
  then have "txr_providerId row = Some p" using find_Some_in [OF t(1)] by simp
  then have "tx_providerID t = p" using rehydrate_fields(13) [OF u t(2)] by simp
  then show ?thesis using t(3) by (simp add: resultOf_def)
qed

text \<open>The documents that a provider may be shown.\<close>

definition own_document :: "string \<Rightarrow> document answer \<Rightarrow> bool" where
  "own_document name a \<longleftrightarrow>
     (case a of Answered resp \<Rightarrow>
        (case rs_Body resp of
           ErrorBody c k \<Rightarrow> True
         | Body (HealthDocument s) \<Rightarrow> True
         | Body (TransactionDocument t) \<Rightarrow> ts_ProviderID t = name
         | Body d \<Rightarrow> False)
      | PanickedHandler \<Rightarrow> True)"

lemma own_simps [simp]:
  "own_document p (WriteError r s c)" "own_document p PanickedHandler"
  "own_document p (writeApplicationError r e)" "own_document p (writeDecodeError r de)"
  "own_document p (WriteJSON s (HealthDocument h))"
  "own_document p (WriteJSON s (TransactionDocument t)) \<longleftrightarrow> ts_ProviderID t = p"
  by (auto simp: own_document_def WriteError_def WriteJSON_def writeApplicationError_def writeDecodeError_def
      split: option.splits)

lemma own_refusal: "refusal_answer a \<Longrightarrow> own_document p a"
  by (auto simp: refusal_answer_def own_document_def)

lemma own_answer_with:
  "(\<And>x w'. m w = (Inr x, w') \<Longrightarrow> own_document p (write x)) \<Longrightarrow> own_document p (fst (answer_with r m write w))"
  by (auto simp: answer_with_def split: prod.splits sum.splits)

lemma own_or_refuse:
  "(\<And>x. parsed = Inr x \<Longrightarrow> own_document p (fst (f x w))) \<Longrightarrow> own_document p (fst (or_refuse r parsed f w))"
  by (auto simp: or_refuse_def split: sum.splits)

lemma own_handlers:
  assumes u: "uuid_lib_ok (rt_uuid (hd_Runtime cfg))" and p: "principal_provider r = p" "p \<noteq> ''''"
  shows "own_document p (fst (handleProviderTransaction cfg q e r w))"
    "own_document p (fst (handleTransactionByID cfg i r w))"
    "own_document p (fst (handleSubmitWager cfg r w))"
proof -
  show "own_document p (fst (handleProviderTransaction cfg q e r w))"
    unfolding handleProviderTransaction_def Let_def
    using read_provider [OF u] p
    by (intro own_or_refuse own_answer_with) (auto simp: newTransactionResponse_def parse_text_def split: if_splits)
  show "own_document p (fst (handleTransactionByID cfg i r w))"
    unfolding handleTransactionByID_def Let_def
    using p by (intro own_or_refuse own_answer_with) (simp add: newTransactionResponse_def)
  show "own_document p (fst (handleSubmitWager cfg r w))"
  proof (cases "decodeJSON (rq_Wager r)")
    case (Inl e)
    then show ?thesis by (simp add: handleSubmitWager_def Let_def)
  next
    case (Inr request)
    have c: "sc_ProviderID command = p"
      if "wager_command (rt_uuid (hd_Runtime cfg)) p k c request = Inr command" for k c command
      using that by (auto simp: wager_command_def Let_def res_simps split: if_splits)
    show ?thesis
      unfolding handleSubmitWager_def Let_def p(1) Inr sum.case if_not_P [OF p(2)]
      using submit_provider [OF u] c
      by (intro own_or_refuse own_answer_with) (auto simp: newTransactionResponse_def)
  qed
qed

lemma own_route:
  assumes u: "uuid_lib_ok (rt_uuid (hd_Runtime cfg))" and run: "route_handler_of cfg jwt rte r w = (a, w')"
    and p: "OIDC_Authenticate jwt r = Inr p" "pr_ProviderID p \<noteq> ''''"
  shows "own_document (pr_ProviderID p) a"
proof -
  let ?r = "r\<lparr>hr_Principal := Some p\<rparr>"
  have "principal_provider ?r = pr_ProviderID p" by (simp add: principal_provider_def)
  note own = own_handlers [OF u this p(2)]
  have own': "handleProviderTransaction cfg q e ?r w = (a, w') \<Longrightarrow> own_document (pr_ProviderID p) a"
    "handleTransactionByID cfg i ?r w = (a, w') \<Longrightarrow> own_document (pr_ProviderID p) a"
    "handleSubmitWager cfg ?r w = (a, w') \<Longrightarrow> own_document (pr_ProviderID p) a" for q e i
    using own(1) [of q e w] own(2) [of i w] own(3) [of w] by simp_all
  show ?thesis
  proof (cases rte)
    case RouteSubmit
    then show ?thesis
      using run p(1) own' by (auto elim!: provider_cases RateLimit_cases RequireJSON_cases intro: own_refusal)
  next
    case (RouteTransaction i)
    then show ?thesis
      using run p(1) own'
      by (auto simp: business_def elim!: protected_cases RateLimit_cases RequireJSON_cases intro: own_refusal)
  next
    case (RouteProviderTransaction q e)
    then show ?thesis using run p(1) own' by (auto elim!: provider_cases intro: own_refusal)
  qed (use run p in \<open>auto simp: handleLive_def handleReady_def handleNotFound_def internalBusiness_def
      elim!: internal_cases intro: own_refusal split: if_splits\<close>)
qed


section \<open>A sample request\<close>

text \<open>The submission of \<open>sample_bet\<close> by its provider, with a token that carries the two wagering scopes.\<close>

definition sample_jwt :: jwt_verifier where
  "sample_jwt t =
     (if t = ''t'' then Some (\<lambda>name. if name = ''provider_id'' then Some ''acme''
        else if name = ''scope'' then Some ''wagering:read  wagering:write'' else None) else None)"

definition sample_request :: http_request where
  "sample_request =
     \<lparr>hr_Method = ''POST'', hr_MediaType = Some ''application/json'', hr_Authorization = ''BEARER t '',
      hr_CorrelationID = ''c'', hr_IdempotencyKey = ''key-1'', hr_InFlight = 3, hr_Principal = None, hr_Correlation = '''',
      rq_Path = [''wagering'', ''transactions''], rq_Limit = '''', rq_Cursor = '''',
      rq_OpenWallet = \<lparr>jb_First = Inl BodyError, jb_Second = AtEOF\<rparr>,
      rq_Wager = \<lparr>jb_First = Inr (request_of (data_of dec_uuid_lib sample_bet)), jb_Second = AtEOF\<rparr>\<rparr>"

definition sample_handler :: handler_config where
  "sample_handler =
     \<lparr>hd_Runtime = later_runtime, hd_JSON = sample_cursor_json, hd_Reconciler = True, hd_Ready = True, hd_Concurrency = 0\<rparr>"

definition sample_principal :: principal where
  "sample_principal = \<lparr>pr_Subject = '''', pr_ProviderID = ''acme'', pr_Scopes = [''wagering:read'', ''wagering:write'']\<rparr>"

lemma sample_token: "OIDC_Authenticate sample_jwt sample_request = Inr sample_principal"
  by code_simp

lemma sample_request_command:
  "wager_command dec_uuid_lib ''acme'' ''key-1'' ''c'' (request_of (data_of dec_uuid_lib sample_bet)) = Inr sample_bet"
proof -
  have "command_texts_ok sample_bet" "sd_ProviderID (data_of dec_uuid_lib sample_bet) = ''acme''
      \<and> sd_IdempotencyKey (data_of dec_uuid_lib sample_bet) = ''key-1'' \<and> sc_CorrelationID sample_bet = ''c''" by code_simp+
  then show ?thesis
    using command_from_data [OF dec_uuid_lib_ok, of sample_bet]
      wager_command_Inr_iff [of dec_uuid_lib "data_of dec_uuid_lib sample_bet" "''c''" sample_bet] by simp
qed

lemma sample_request_runs:
  obtains t where "serve sample_handler sample_jwt sample_request (sample_world sample_opened)
      = (WriteJSON 200 (TransactionDocument t), after_bet)" "ts_Status t = StateProcessed"
proof -
  obtain r where r: "SubmitWagerTransaction later_runtime sample_bet (sample_world sample_opened) = (Inr r, after_bet)"
    "\<not> wr_IdempotentReplay r" "wr_State r = StateProcessed" by (rule sample_bet_runs)
  let ?r = "sample_request\<lparr>hr_Correlation := ''c''\<rparr>"
  let ?p = "?r\<lparr>hr_Principal := Some sample_principal\<rparr>"
  have rte: "match_route (hr_Method sample_request) (rq_Path sample_request) = RouteSubmit" by code_simp
  have sub: "handleSubmitWager sample_handler ?p (sample_world sample_opened)
      = (WriteJSON 200 (TransactionDocument (newTransactionResponse dec_uuid_lib r)), after_bet)"
    using r sample_request_command sample_healthy(4)
    by (simp add: handleSubmitWager_def Let_def sample_handler_def principal_provider_def sample_principal_def
        decodeJSON_def sample_request_def or_refuse_def answer_with_def)
  have pol: "HasScope sample_principal ScopeWageringWrite" "pr_ProviderID sample_principal \<noteq> ''''"
    "hr_InFlight ?p < NewHandler_concurrency sample_handler" "hr_MediaType ?p = Some ''application/json''"
    by code_simp+
  have "route_handler_of sample_handler sample_jwt RouteSubmit ?r (sample_world sample_opened)
      = handleSubmitWager sample_handler ?p (sample_world sample_opened)"
    using pol by (simp add: provider_def Authenticate_def sample_token RequireProvider_def RequireScope_def RateLimit_def
        RequireJSON_def)
  moreover have "correlationOrNew later_runtime ''c'' (sample_world sample_opened) = (Inr ''c'', sample_world sample_opened)"
    by (simp add: correlationOrNew_def)
  moreover have "hr_CorrelationID sample_request = ''c''" "hd_Runtime sample_handler = later_runtime"
    by (simp_all add: sample_request_def sample_handler_def)
  ultimately have "serve sample_handler sample_jwt sample_request (sample_world sample_opened)
      = (WriteJSON 200 (TransactionDocument (newTransactionResponse dec_uuid_lib r)), after_bet)"
    using rte sub by (simp add: serve_def Correlation_def Recover_def WriteJSON_def)
  then show ?thesis using that r(3) by (simp add: newTransactionResponse_def)
qed

section \<open>Properties\<close>

text \<open>
  C18: every request is answered, and a refusal leaves no trace. Whatever the request, the state of the
  dependencies and the panics of a use case, the server answers with one of twelve statuses; and unless
  an acknowledgement of a commit is lost, an answer that is not a success has left the database as it was.
\<close>

theorem http_always_answers:
  assumes "commits_known (hd_Runtime cfg)"
  shows "\<exists>resp. fst (serve cfg jwt r w) = Answered resp \<and> rs_Status resp \<in> set answer_statuses
    \<and> (rs_Status resp < 300 \<or> w_db (snd (serve cfg jwt r w)) = w_db w)"
proof -
  let ?h = "route_handler_of cfg jwt (match_route (hr_Method r) (rq_Path r))"
  obtain c n where c: "serve cfg jwt r w = Recover ?h (r\<lparr>hr_Correlation := c\<rparr>) (w\<lparr>w_ids := n\<rparr>)"
    unfolding serve_def by (rule Correlation_runs)
  note h = sound_Recover [OF sound_routes [OF assms, of jwt "match_route (hr_Method r) (rq_Path r)"]]
  have "sound_answer (w_db w) (fst (serve cfg jwt r w)) (w_db (snd (serve cfg jwt r w)))"
    using h(1) unfolding c sound_def by (metis world.select_convs(1) world.update_convs(3) world.surjective)
  then show ?thesis
    using h(2) unfolding c sound_answer_def by (cases "fst (serve cfg jwt r w)") (auto simp: c)
qed

theorem http_always_answers_witness:
  "\<exists>resp. fst (serve sample_handler sample_jwt (sample_request\<lparr>rq_Path := [''nowhere'']\<rparr>) (sample_world db_empty))
     = Answered resp \<and> rs_Status resp \<in> set answer_statuses"
proof -
  have "commits_known (hd_Runtime sample_handler)"
    by (simp add: commits_known_def sample_handler_def later_runtime_def sample_runtime_def)
  from http_always_answers [OF this] show ?thesis by blast
qed

text \<open>
  C16: nothing happens without an entitled caller. When a request changes the database or is answered with a
  document (other than one about the health of the process), its token was valid, it grants exactly the
  scope that the route table asks for, it names no provider on an internal route and it names one on a
  provider route.
\<close>

theorem http_requires_entitlement:
  assumes "serve cfg jwt r w = (a, w')" and "discloses a \<or> w_db w' \<noteq> w_db w"
  shows "\<exists>p. OIDC_Authenticate jwt r = Inr p \<and> entitled (route_policy (match_route (hr_Method r) (rq_Path r))) p
    \<and> route_policy (match_route (hr_Method r) (rq_Path r)) \<noteq> None"
proof -
  obtain c n b where b: "route_handler_of cfg jwt (match_route (hr_Method r) (rq_Path r)) (r\<lparr>hr_Correlation := c\<rparr>)
      (w\<lparr>w_ids := n\<rparr>) = (b, w')"
    "a = b \<or> b = PanickedHandler \<and> a = WriteError (r\<lparr>hr_Correlation := c\<rparr>) 503 ''SERVICE_UNAVAILABLE''"
    by (rule serve_runs [OF assms(1)])
  have d: "discloses b \<or> w_db w' \<noteq> w_db w" using assms(2) b(2) by auto
  show ?thesis
    using b(1)
  proof (cases rule: route_cases)
    case unguarded
    then show ?thesis using d by simp
  next
    case refused
    then show ?thesis using d discloses_refusal by auto
  next
    case (passed p)
    moreover have "match_route (hr_Method r) (rq_Path r) \<notin> {RouteLive, RouteReady, RouteNone}"
      using b(1) d by (auto simp: handleLive_def handleReady_def handleNotFound_def discloses_def WriteJSON_def
          WriteError_def split: if_splits)
    then have "route_policy (match_route (hr_Method r) (rq_Path r)) \<noteq> None"
      by (cases "match_route (hr_Method r) (rq_Path r)") simp_all
    ultimately show ?thesis by auto
  qed
qed

theorem http_requires_entitlement_witness:
  "entitled (route_policy RouteSubmit) sample_principal"
proof -
  obtain t where t: "serve sample_handler sample_jwt sample_request (sample_world sample_opened)
      = (WriteJSON 200 (TransactionDocument t), after_bet)" by (rule sample_request_runs)
  have "discloses (WriteJSON 200 (TransactionDocument t))" by (simp add: discloses_def WriteJSON_def)
  with http_requires_entitlement [OF t] have "entitled (route_policy
      (match_route (hr_Method sample_request) (rq_Path sample_request))) sample_principal" using sample_token by auto
  moreover have "match_route (hr_Method sample_request) (rq_Path sample_request) = RouteSubmit" by code_simp
  ultimately show ?thesis by simp
qed

text \<open>
  C15: a provider sees its own transactions only. A request whose token names a provider is answered with an
  error, with the health of the process or with a transaction of that provider: never with a wallet, a
  ledger, a reconciliation, the metrics, or a transaction of another provider or of the service itself.
\<close>

theorem http_provider_isolation:
  assumes "uuid_lib_ok (rt_uuid (hd_Runtime cfg))" and "serve cfg jwt r w = (a, w')"
    and "OIDC_Authenticate jwt r = Inr p" and "pr_ProviderID p \<noteq> ''''"
  shows "own_document (pr_ProviderID p) a"
proof -
  obtain c n b where b: "route_handler_of cfg jwt (match_route (hr_Method r) (rq_Path r)) (r\<lparr>hr_Correlation := c\<rparr>)
      (w\<lparr>w_ids := n\<rparr>) = (b, w')"
    "a = b \<or> b = PanickedHandler \<and> a = WriteError (r\<lparr>hr_Correlation := c\<rparr>) 503 ''SERVICE_UNAVAILABLE''"
    by (rule serve_runs [OF assms(2)])
  then show ?thesis using own_route [OF assms(1) b(1)] assms(3,4) by auto
qed

theorem http_provider_isolation_witness:
  "\<exists>t. fst (serve sample_handler sample_jwt sample_request (sample_world sample_opened))
     = WriteJSON 200 (TransactionDocument t) \<and> ts_ProviderID t = ''acme''"
proof -
  obtain t where t: "serve sample_handler sample_jwt sample_request (sample_world sample_opened)
      = (WriteJSON 200 (TransactionDocument t), after_bet)" by (rule sample_request_runs)
  have "ts_ProviderID t = ''acme''"
    using http_provider_isolation [OF _ t sample_token] dec_uuid_lib_ok sample_healthy(4)
    by (simp add: sample_principal_def sample_handler_def)
  then show ?thesis using t by (intro exI [of _ t]) simp
qed

end
