(* ===== verification/Lifecycle.thy ===== *)
theory Lifecycle
  imports Metrics Queues Consumer Boundary
begin

text \<open>
  The process: \<open>internal/adapters/app/app.go\<close>, \<open>http/server/server.go\<close>, \<open>logging/logging.go\<close>, the loops of
  the three workers and the commands under \<open>cmd\<close>. The container of Fx is not part of the repository: a
  theorem about it assumes the order it documents (a constructor runs once, after what it needs, the invoked
  functions in the order they are given, stop hooks in the reverse of start hooks).
\<close>

section \<open>The loops of the workers\<close>

text \<open>
  One iteration: whether the context is canceled at its head and after the pass, and whether the wait that
  follows is ended by the context. A panic ends the process; the list of iterations is what the loop has done
  so far.
\<close>

record 'i iteration =
  it_Canceled :: bool
  it_Pass :: 'i
  it_CanceledAfter :: bool
  it_WaitEnded :: bool

datatype run_result = Returned | Running | Crashed

fun poll_loop :: "('i \<Rightarrow> world \<Rightarrow> (app_error + 'a) \<times> world) \<Rightarrow> 'i iteration list \<Rightarrow> world \<Rightarrow> run_result \<times> world" where
  "poll_loop pass [] w = (Running, w)"
| "poll_loop pass (it # its) w =
     (if it_Canceled it then (Returned, w)
      else case pass (it_Pass it) w of
        (Inl e, w1) \<Rightarrow>
          if e = Panicked then (Crashed, w1)
          else if it_CanceledAfter it then (Returned, w1)
          else if it_WaitEnded it then (Returned, w1)
          else poll_loop pass its w1
      | (Inr _, w1) \<Rightarrow> if it_WaitEnded it then (Returned, w1) else poll_loop pass its w1)"

definition ReferenceWorker_Run :: "(runtime \<times> (nat \<Rightarrow> bool)) iteration list \<Rightarrow> world \<Rightarrow> run_result \<times> world" where
  "ReferenceWorker_Run = poll_loop (\<lambda>(rt, stop). ResolveOnce rt stop)"

definition Publisher_Run :: "(runtime \<times> publish_env) iteration list \<Rightarrow> world \<Rightarrow> run_result \<times> world" where
  "Publisher_Run = poll_loop (\<lambda>(rt, env) w. case PublishOnce rt env w of (r, _, w') \<Rightarrow> (r, w'))"

text \<open>The consumer waits after a failed receive only, a second at most.\<close>

record poll_input =
  pi_Runtime :: runtime
  pi_Stop :: "nat \<Rightarrow> bool"
  pi_Fates :: "nat \<Rightarrow> delivery_fate"
  pi_Received :: "sqs_message list option"

fun Consumer_Run ::
  "consumer_config \<Rightarrow> poll_input iteration list \<Rightarrow> world \<Rightarrow> (run_result \<times> consumer_event list) \<times> world" where
  "Consumer_Run cfg [] w = ((Running, []), w)"
| "Consumer_Run cfg (it # its) w =
     (if it_Canceled it then ((Returned, []), w)
      else let i = it_Pass it in
        case PollOnce (pi_Runtime i) cfg (pi_Stop i) (pi_Fates i) (pi_Received i) w of
          ((None, events), w1) \<Rightarrow>
            if it_CanceledAfter it \<or> it_WaitEnded it then ((Returned, events), w1)
            else (case Consumer_Run cfg its w1 of ((res, events'), w2) \<Rightarrow> ((res, events @ events'), w2))
        | ((Some _, events), w1) \<Rightarrow> (case Consumer_Run cfg its w1 of ((res, events'), w2) \<Rightarrow> ((res, events @ events'), w2)))"

section \<open>What the adapters count\<close>

fun consumer_metrics :: "duration \<Rightarrow> consumer_event \<Rightarrow> metric_call list" where
  "consumer_metrics elapsed (WagerDLQ reason) = [WagerDLQTotal reason]"
| "consumer_metrics elapsed WagerRetry = [WagerRetriesTotal ''sqs'' ''transient'']"
| "consumer_metrics elapsed WagerDuplicate = [WagerIdempotencyDuplicatesTotal ''sqs'']"
| "consumer_metrics elapsed (WagerCounted knd state) =
     [WagerTransactionsTotal knd state ''sqs'', WagerProcessingDurationSeconds elapsed ''sqs'' knd state]"
| "consumer_metrics elapsed _ = []"

definition observeTransaction :: "wager_result \<Rightarrow> string \<Rightarrow> duration \<Rightarrow> metric_call list" where
  "observeTransaction result ingress elapsed =
     WagerTransactionsTotal (wr_Kind result) (wr_State result) ingress
     # (if wr_IdempotentReplay result then [WagerIdempotencyDuplicatesTotal ingress] else [])
     @ [WagerProcessingDurationSeconds elapsed ingress (wr_Kind result) (wr_State result)]"

text \<open>The counter of the queue holds the deliveries that were processed and were no duplicates.\<close>

lemma consumer_counters:
  assumes "list_all call_clean (concat (map (consumer_metrics elapsed) events))"
    and "length (concat (map (consumer_metrics elapsed) events)) < 2 ^ 53" and "call_clean (WagerTransactionsTotal k s ''sqs'')"
  shows "(case call_value (metrics_after (concat (map (consumer_metrics elapsed) events))) (WagerTransactionsTotal k s ''sqs'') of
      None \<Rightarrow> 0 | Some v \<Rightarrow> vl_number v) = of_nat (count_list events (WagerCounted k s))"
proof -
  have "count_list (concat (map (consumer_metrics elapsed) es)) (WagerTransactionsTotal k s ''sqs'')
      = count_list es (WagerCounted k s)" for es
  proof (induction es)
    case (Cons e es)
    then show ?case by (cases e) (auto simp: count_list_append)
  qed simp
  then show ?thesis using counter_number [OF _ assms(3,1,2)] by simp
qed

text \<open>Over HTTP a replay is counted as an outcome again; a duplicate delivery is not.\<close>

lemma replay_is_counted:
  "count_list (observeTransaction result ingress elapsed) (WagerTransactionsTotal (wr_Kind result) (wr_State result) ingress) = 1"
  "count_list (consumer_metrics elapsed WagerDuplicate) (WagerTransactionsTotal k s ''sqs'') = 0"
  by (simp_all add: observeTransaction_def)

section \<open>Parts and hooks\<close>

text \<open>The constructors and the invoked functions; supplied values are left out of their parameters.\<close>

datatype part =
    NewClock | NewAuthenticator | NewPool | NewQueueClient | NewStore | NewService | NewReadiness
  | NewHTTPHandler | NewConsumer | NewEventSender | NewOutboxPublisher | NewReferenceWorker
  | RegisterHTTPServer | RegisterConsumer | RegisterOutboxPublisher | RegisterReferenceWorker

fun needs :: "part \<Rightarrow> part list" where
  "needs NewClock = []"
| "needs NewAuthenticator = []"
| "needs NewPool = []"
| "needs NewQueueClient = []"
| "needs NewStore = [NewPool]"
| "needs NewService = [NewStore, NewClock]"
| "needs NewReadiness = [NewPool, NewQueueClient]"
| "needs NewHTTPHandler = [NewService, NewReadiness, NewAuthenticator]"
| "needs NewConsumer = [NewQueueClient, NewService]"
| "needs NewEventSender = [NewQueueClient]"
| "needs NewOutboxPublisher = [NewStore, NewEventSender]"
| "needs NewReferenceWorker = [NewStore, NewService]"
| "needs RegisterHTTPServer = [NewHTTPHandler]"
| "needs RegisterConsumer = [NewConsumer]"
| "needs RegisterOutboxPublisher = [NewOutboxPublisher]"
| "needs RegisterReferenceWorker = [NewReferenceWorker]"

definition invoked :: "part list" where
  "invoked = [RegisterHTTPServer, RegisterConsumer, RegisterOutboxPublisher, RegisterReferenceWorker]"

datatype hook = CloseAuthenticator | ClosePool | StopRunner string

fun appended :: "part \<Rightarrow> hook list" where
  "appended NewAuthenticator = [CloseAuthenticator]"
| "appended NewPool = [ClosePool]"
| "appended RegisterHTTPServer = [StopRunner ''http.stopped'']"
| "appended RegisterConsumer = [StopRunner ''sqs.stopped'']"
| "appended RegisterOutboxPublisher = [StopRunner ''outbox.stopped'']"
| "appended RegisterReferenceWorker = [StopRunner ''reference.stopped'']"
| "appended _ = []"

text \<open>
  The closure of a runner: \<open>OnStart\<close> starts the goroutine, \<open>OnStop\<close> cancels it once and waits until it is done or
  the deadline of the stop has passed. \<open>finishes\<close> says which comes first.
\<close>

record runner =
  rn_Started :: bool
  rn_Canceled :: bool

definition runner_new :: runner where "runner_new = \<lparr>rn_Started = False, rn_Canceled = False\<rparr>"

definition runner_OnStart :: "runner \<Rightarrow> runner" where
  "runner_OnStart r = r\<lparr>rn_Started := True\<rparr>"

definition runner_OnStop :: "string \<Rightarrow> bool \<Rightarrow> runner \<Rightarrow> (string list \<times> bool) \<times> runner" where
  "runner_OnStop stopEvent finishes r =
     (let r1 = (if rn_Started r then r\<lparr>rn_Canceled := True\<rparr> else r) in
      if rn_Started r \<and> \<not> finishes then (([], False), r1) else (([stopEvent], True), r1))"

text \<open>What a stop hook of a started process records, and whether it returns without an error.\<close>

fun OnStop :: "(string \<Rightarrow> bool) \<Rightarrow> hook \<Rightarrow> string list \<times> bool" where
  "OnStop finishes CloseAuthenticator = ([], True)"
| "OnStop finishes ClosePool = ([''postgres.closed''], True)"
| "OnStop finishes (StopRunner ev) = fst (runner_OnStop ev (finishes ev) (runner_OnStart runner_new))"

definition recorded :: "(string \<Rightarrow> bool) \<Rightarrow> hook list \<Rightarrow> string list" where
  "recorded finishes hooks = concat (map (\<lambda>h. fst (OnStop finishes h)) hooks)"

text \<open>The start of the HTTP server binds its address first; a failure to bind fails the start.\<close>

definition http_OnStart :: "('e + unit) \<Rightarrow> runner \<Rightarrow> 'e + runner" where
  "http_OnStart listen r = (case listen of Inl e \<Rightarrow> Inl e | Inr _ \<Rightarrow> Inr (runner_OnStart r))"

section \<open>The application\<close>

text \<open>
  The constructors that reach outside, over what the library calls return: a dependency that cannot be
  reached is an error of the start. A constructor returns the hooks it appended beside its value.
\<close>

definition newAuthenticator :: "('e + 'a) \<Rightarrow> 'e + ('a \<times> hook list)" where
  "newAuthenticator newOIDC = (case newOIDC of Inl e \<Rightarrow> Inl e | Inr authenticator \<Rightarrow> Inr (authenticator, [CloseAuthenticator]))"

definition newPool :: "('e + 'p) \<Rightarrow> ('p \<Rightarrow> 'e + unit) \<Rightarrow> 'e + ('p \<times> hook list)" where
  "newPool pgxpool_New ping =
     res_bind pgxpool_New (\<lambda>pool. res_bind (ping pool) (\<lambda>_. Inr (pool, [ClosePool])))"

definition newQueueClient :: "config \<Rightarrow> ('e + ('e, 's) queue_api) \<Rightarrow> 's \<Rightarrow> ('e + ('e, 's) queue_api) \<times> 's" where
  "newQueueClient cfg newClient =
     queue_bind (\<lambda>s. (newClient, s)) (\<lambda>client.
     queue_bind (Ping client (sq_IngressQueueURL (cf_SQS cfg))) (\<lambda>_.
     queue_bind (Ping client (sq_EventQueueURL (cf_SQS cfg))) (\<lambda>_ s. (Inr client, s))))"

text \<open>The wiring of \<open>New\<close>: what each adapter is built with. \<open>u\<close> collects what the process supplies.\<close>

record application =
  ap_Consumer :: consumer_config
  ap_Failpoints :: failpoint_set
  ap_Registry :: registry
  ap_Invoked :: "part list"

definition newConsumer :: "config \<Rightarrow> failpoint_set \<Rightarrow> (string \<Rightarrow> sqs_envelope option) \<Rightarrow> consumer_config" where
  "newConsumer cfg failpoints unmarshal =
     \<lparr>cc_ConsumerName = sq_ConsumerName (cf_SQS cfg), cc_ProviderForSender = ProviderForSender cfg,
      cc_Unmarshal = unmarshal, cc_Failpoints = failpoints\<rparr>"

definition newReadiness :: "('e + unit) \<Rightarrow> ('s \<Rightarrow> ('e + unit) \<times> 's) \<Rightarrow> 's \<Rightarrow> 'e option" where
  "newReadiness pool_Ping sqs_Ping s =
     Ready [\<lambda>_. (case pool_Ping of Inl e \<Rightarrow> Some e | Inr _ \<Rightarrow> None),
            \<lambda>s. (case fst (sqs_Ping s) of Inl e \<Rightarrow> Some e | Inr _ \<Rightarrow> None)] s"

definition newHTTPHandler :: "config \<Rightarrow> runtime \<Rightarrow> cursor_json \<Rightarrow> 'e option \<Rightarrow> handler_config" where
  "newHTTPHandler cfg rt json readiness =
     \<lparr>hd_Runtime = rt, hd_JSON = json, hd_Reconciler = True, hd_Ready = (readiness = None),
      hd_Concurrency = sint (ht_ConcurrencyLimit (cf_HTTP cfg))\<rparr>"

definition app_New :: "config \<Rightarrow> (string \<Rightarrow> sqs_envelope option) \<Rightarrow> config_error + application" where
  "app_New cfg unmarshal =
     (case Validate_config cfg of
        Inl e \<Rightarrow> Inl e
      | Inr _ \<Rightarrow>
          let failpoints = failpoint_New (cf_Failpoints cfg) in
          Inr \<lparr>ap_Consumer = newConsumer cfg failpoints unmarshal, ap_Failpoints = failpoints,
               ap_Registry = metrics_New NewRegistry, ap_Invoked = invoked\<rparr>)"

section \<open>Server, log and commands\<close>

text \<open>\<open>Serve\<close> ends with the listener or with the context; then \<open>shutdown\<close> is what \<open>Shutdown\<close> returns.\<close>

datatype 'e serve_end = ListenerFailed "'e option" | ContextDone "'e option"

text \<open>A listener error \<open>None\<close> is \<open>http.ErrServerClosed\<close>.\<close>

definition Serve :: "'e serve_end \<Rightarrow> 'e option" where
  "Serve ending = (case ending of ListenerFailed err \<Rightarrow> err | ContextDone shutdown \<Rightarrow> shutdown)"

datatype log_level = LevelDebug | LevelInfo | LevelWarn | LevelError

definition parseLevel :: "string \<Rightarrow> log_level" where
  "parseLevel level =
     (let l = ToLower level in
      if l = ''debug'' then LevelDebug
      else if l = ''warn'' \<or> l = ''warning'' then LevelWarn
      else if l = ''error'' then LevelError
      else LevelInfo)"

text \<open>The exit status of \<open>cmd/service\<close>: \<open>start\<close> and \<open>stop\<close> say whether the container reported an error.\<close>

definition service_main :: "config_error + application \<Rightarrow> (application \<Rightarrow> bool) \<Rightarrow> (application \<Rightarrow> bool) \<Rightarrow> nat" where
  "service_main created start stop =
     (case created of
        Inl _ \<Rightarrow> 1
      | Inr app \<Rightarrow> if \<not> start app then 1 else if \<not> stop app then 1 else 0)"

text \<open>The command \<open>cmd/migrate\<close>; a runner call is \<open>None\<close>, \<open>ErrNoChange\<close> or another error.\<close>

datatype 'e migrate_error = ErrNoChange | MigrateError 'e

datatype 'e migrate_failure =
  DSNRequired | OpenFailed 'e | Applying 'e | Reversing 'e | UnknownDirection string

record ('e, 's) migrate_runner =
  mr_Up :: "'s \<Rightarrow> 'e migrate_error option \<times> 's"
  mr_Down :: "'s \<Rightarrow> 'e migrate_error option \<times> 's"

definition migrate_call ::
  "('e \<Rightarrow> 'e migrate_failure) \<Rightarrow> ('s \<Rightarrow> 'e migrate_error option \<times> 's) \<Rightarrow> 's \<Rightarrow> 'e migrate_failure option \<times> 's" where
  "migrate_call wrap call s =
     (case call s of
        (Some (MigrateError e), s') \<Rightarrow> (Some (wrap e), s')
      | (_, s') \<Rightarrow> (None, s'))"

definition migrateUp :: "('e, 's) migrate_runner \<Rightarrow> 's \<Rightarrow> 'e migrate_failure option \<times> 's" where
  "migrateUp runner = migrate_call Applying (mr_Up runner)"

definition migrate_run ::
  "(string \<Rightarrow> string) \<Rightarrow> (string \<Rightarrow> 'e + ('e, 's) migrate_runner) \<Rightarrow> bool \<Rightarrow> string \<Rightarrow> 's \<Rightarrow> 'e migrate_failure option \<times> 's" where
  "migrate_run getenv open_runner validate direction s =
     (let dsn = getenv ''DATABASE_URL'' in
      if dsn = '''' then (Some DSNRequired, s)
      else case open_runner dsn of
        Inl e \<Rightarrow> (Some (OpenFailed e), s)
      | Inr runner \<Rightarrow>
          if validate then
            (case migrateUp runner s of
               (Some e, s1) \<Rightarrow> (Some e, s1)
             | (None, s1) \<Rightarrow>
                 (case migrate_call Reversing (mr_Down runner) s1 of
                    (Some e, s2) \<Rightarrow> (Some e, s2)
                  | (None, s2) \<Rightarrow> migrateUp runner s2))
          else if direction = ''up'' then migrateUp runner s
          else if direction = ''down'' then migrate_call Reversing (mr_Down runner) s
          else (Some (UnknownDirection direction), s))"

section \<open>What is started\<close>

text \<open>
  Outside integration the consumer of an application that was built passes every failpoint, and the
  provider it attributes a message to is a name.
\<close>

lemma started_consumer:
  assumes "app_New (Load getenv hostname) unmarshal = Inr app" "getenv ''APP_ENV'' \<noteq> EnvironmentIntegration"
  shows "failpoint_Hit (cc_Failpoints (ap_Consumer app)) name = Passed"
    and "cc_ProviderForSender (ap_Consumer app) sender = Some p \<Longrightarrow> named (sender, p)"
proof -
  let ?c = "Load getenv hostname"
  have v: "Validate_config ?c = Inr ()" and app: "cc_Failpoints (ap_Consumer app) = failpoint_New (cf_Failpoints ?c)"
    "cc_ProviderForSender (ap_Consumer app) = ProviderForSender ?c"
    using assms(1) by (auto simp: app_New_def newConsumer_def Let_def split: sum.splits)
  have "cf_Environment ?c \<noteq> EnvironmentIntegration"
    using assms(2) by (simp add: Load_def envOr_def EnvironmentProduction_def EnvironmentIntegration_def split: if_splits)
  then have "cf_Failpoints ?c = []" using v by (simp add: Validate_config_Inr_iff)
  then show "failpoint_Hit (cc_Failpoints (ap_Consumer app)) name = Passed"
    by (simp add: app(1) failpoint_Hit_def failpoint_Enabled_New)
  show "cc_ProviderForSender (ap_Consumer app) sender = Some p \<Longrightarrow> named (sender, p)"
    using parseProviders_named map_of_SomeD [of "cf_Providers ?c" sender p]
    by (auto simp: app(2) ProviderForSender_def Load_def list_all_iff)
qed

section \<open>What the loops do to the database\<close>

lemma poll_loop_steps:
  assumes "\<And>i v. i \<in> it_Pass ` set its \<Longrightarrow> (service_step u)\<^sup>*\<^sup>* (w_db v) (w_db (snd (pass i v)))"
  shows "(service_step u)\<^sup>*\<^sup>* (w_db w) (w_db (snd (poll_loop pass its w)))"
  using assms
proof (induction its arbitrary: w)
  case (Cons it its)
  obtain r w1 where p: "pass (it_Pass it) w = (r, w1)" by (cases "pass (it_Pass it) w")
  then have s: "(service_step u)\<^sup>*\<^sup>* (w_db w) (w_db w1)" using Cons.prems [of "it_Pass it" w] by simp
  have "(service_step u)\<^sup>*\<^sup>* (w_db w1) (w_db (snd (poll_loop pass its w1)))"
    by (rule Cons.IH) (use Cons.prems in simp)
  with s have "(service_step u)\<^sup>*\<^sup>* (w_db w) (w_db (snd (poll_loop pass its w1)))" by (rule rtranclp_trans)
  then show ?case using s p by (cases r) simp_all
qed simp

lemma ReferenceWorker_Run_reachable:
  assumes "service_reach u (w_db w)" "\<And>it. it \<in> set its \<Longrightarrow> rt_uuid (fst (it_Pass it)) = u"
  shows "service_reach u (w_db (snd (ReferenceWorker_Run its w)))"
proof -
  have "(service_step u)\<^sup>*\<^sup>* (w_db v) (w_db (snd (case i of (rt, stop) \<Rightarrow> ResolveOnce rt stop v)))"
    if "i \<in> it_Pass ` set its" for i v
    using that assms(2) service_step [of "fst i" u v "WorkerPass (snd i)"] by (auto simp: split_beta)
  then show ?thesis
    using assms(1) poll_loop_steps [of its u "\<lambda>(rt, stop). ResolveOnce rt stop" w] service_reach_steps
    unfolding ReferenceWorker_Run_def by (simp add: split_beta)
qed

lemma Publisher_Run_reachable:
  assumes "service_reach u (w_db w)" "\<And>it. it \<in> set its \<Longrightarrow> rt_uuid (fst (it_Pass it)) = u"
  shows "service_reach u (w_db (snd (Publisher_Run its w)))"
proof -
  have "(service_step u)\<^sup>*\<^sup>* (w_db v) (w_db (snd (case i of (rt, env) \<Rightarrow> case PublishOnce rt env v of (r, _, w') \<Rightarrow> (r, w'))))"
    if "i \<in> it_Pass ` set its" for i v
    using that assms(2) service_step [of "fst i" u v "PublisherPass (snd i)"] by (auto simp: split_beta)
  then show ?thesis
    using assms(1) poll_loop_steps [of its u "\<lambda>(rt, env) w. case PublishOnce rt env w of (r, _, w') \<Rightarrow> (r, w')" w] service_reach_steps
    unfolding Publisher_Run_def by (simp add: split_beta)
qed

lemma Consumer_Run_reachable:
  "service_reach u (w_db w) \<Longrightarrow> (\<And>it. it \<in> set its \<Longrightarrow> rt_uuid (pi_Runtime (it_Pass it)) = u) \<Longrightarrow>
     service_reach u (w_db (snd (Consumer_Run cfg its w)))"
proof (induction its arbitrary: w)
  case (Cons it its)
  let ?i = "it_Pass it"
  obtain r events w1 where p: "PollOnce (pi_Runtime ?i) cfg (pi_Stop ?i) (pi_Fates ?i) (pi_Received ?i) w = ((r, events), w1)"
    by (metis prod.exhaust)
  then have "service_reach u (w_db w1)"
    using PollOnce_steps [OF p] Cons.prems service_reach_steps by simp
  then have "service_reach u (w_db (snd (Consumer_Run cfg its w1)))" using Cons by simp
  then show ?case
    using p Cons.prems(1) \<open>service_reach u (w_db w1)\<close> by (cases r) (auto simp: Let_def split: prod.splits)
qed simp

section \<open>Stopping\<close>

text \<open>What Fx documents of the order in which parts are made: once each, and after what they need.\<close>

fun needs_first :: "part list \<Rightarrow> part list \<Rightarrow> bool" where
  "needs_first made [] \<longleftrightarrow> True"
| "needs_first made (p # ps) \<longleftrightarrow> set (needs p) \<subseteq> set made \<and> needs_first (made @ [p]) ps"

definition container_order :: "part list \<Rightarrow> bool" where
  "container_order order \<longleftrightarrow> distinct order \<and> set invoked \<subseteq> set order \<and> needs_first [] order"

definition hooks_of :: "part list \<Rightarrow> hook list" where
  "hooks_of order = concat (map appended order)"

definition runner_events :: "string list" where
  "runner_events = [''http.stopped'', ''sqs.stopped'', ''outbox.stopped'', ''reference.stopped'']"

lemma needs_first_split: "needs_first made (xs @ p # ys) \<Longrightarrow> set (needs p) \<subseteq> set (made @ xs)"
  by (induction xs arbitrary: made) fastforce+

lemma needed_before:
  assumes "(\<lambda>q p. q \<in> set (needs p))\<^sup>+\<^sup>+ q p" "needs_first [] (xs @ p # ys)"
  shows "q \<in> set xs"
  using assms
proof (induction arbitrary: xs ys)
  case (base p)
  then show ?case using needs_first_split [of "[]"] by fastforce
next
  case (step p r)
  then have "p \<in> set xs" using needs_first_split [of "[]" xs r ys] by auto
  then obtain as bs where "xs = as @ p # bs" by (meson split_list)
  then show ?case using step.IH [of as "bs @ r # ys"] step.prems by simp
qed

lemma runners_need_pool:
  assumes "p \<in> set invoked"
  shows "(\<lambda>q p. q \<in> set (needs p))\<^sup>+\<^sup>+ NewPool p"
proof -
  let ?R = "\<lambda>q p. q \<in> set (needs p)"
  have store: "?R\<^sup>+\<^sup>+ NewPool NewStore" by (intro tranclp.r_into_trancl) simp
  then have service: "?R\<^sup>+\<^sup>+ NewPool NewService" by (rule tranclp.trancl_into_trancl) simp
  have "?R\<^sup>+\<^sup>+ NewPool NewHTTPHandler" "?R\<^sup>+\<^sup>+ NewPool NewConsumer" "?R\<^sup>+\<^sup>+ NewPool NewReferenceWorker"
    by (rule tranclp.trancl_into_trancl [OF service], simp)+
  moreover have "?R\<^sup>+\<^sup>+ NewPool NewOutboxPublisher" by (rule tranclp.trancl_into_trancl [OF store]) simp
  ultimately show ?thesis
    using assms by (auto simp: invoked_def intro: tranclp.trancl_into_trancl)
qed

lemma hooks_without_runners: "set ps \<inter> set invoked = {} \<Longrightarrow> NewPool \<notin> set ps \<Longrightarrow> set (hooks_of ps) \<subseteq> {CloseAuthenticator}"
proof -
  have "set (appended p) \<subseteq> {CloseAuthenticator}" if "p \<notin> set invoked" "p \<noteq> NewPool" for p
    using that by (cases p) (simp_all add: invoked_def)
  then show "set ps \<inter> set invoked = {} \<Longrightarrow> NewPool \<notin> set ps \<Longrightarrow> set (hooks_of ps) \<subseteq> {CloseAuthenticator}"
    by (fastforce simp: hooks_of_def)
qed

lemma recorded_set: "set (recorded finishes hs) = (\<Union>h\<in>set hs. set (fst (OnStop finishes h)))"
  by (simp add: recorded_def)

declare OnStop.simps(3) [simp del]

lemma OnStop_events [simp]:
  "fst (OnStop finishes (StopRunner ev)) = (if finishes ev then [ev] else [])"
  by (simp add: OnStop.simps(3) runner_OnStop_def runner_OnStart_def runner_new_def)

lemma runner_hooks:
  assumes "NewPool \<notin> set ps" "set invoked \<subseteq> set ps"
  shows "set (recorded finishes (List.rev (hooks_of ps))) = {ev \<in> set runner_events. finishes ev}"
proof -
  let ?hooks = "insert CloseAuthenticator (StopRunner ` set runner_events)"
  have h: "set (hooks_of ps) = (\<Union>p\<in>set ps. set (appended p))" by (simp add: hooks_of_def)
  have "p \<noteq> NewPool \<Longrightarrow> set (appended p) \<subseteq> ?hooks" for p
    by (cases p) (simp_all add: runner_events_def)
  then have upper: "set (hooks_of ps) \<subseteq> ?hooks" unfolding h using assms(1) by (intro UN_least) metis
  have "StopRunner ` set runner_events \<subseteq> (\<Union>p\<in>set invoked. set (appended p))"
    by (simp add: invoked_def runner_events_def)
  also have "\<dots> \<subseteq> set (hooks_of ps)" unfolding h using assms(2) by (rule UN_mono) simp
  finally have "insert CloseAuthenticator (set (hooks_of ps)) = ?hooks" using upper by (intro subset_antisym) (simp_all add: subset_insertI2)
  then have "(\<Union>h\<in>insert CloseAuthenticator (set (hooks_of ps)). set (fst (OnStop finishes h)))
      = (\<Union>h\<in>?hooks. set (fst (OnStop finishes h)))" by simp
  then have "(\<Union>h\<in>set (hooks_of ps). set (fst (OnStop finishes h)))
      = (\<Union>ev\<in>set runner_events. set (if finishes ev then [ev] else []))" by simp
  moreover have "(\<Union>ev\<in>set runner_events. set (if finishes ev then [ev] else [])) = {ev \<in> set runner_events. finishes ev}"
    by (auto split: if_splits)
  ultimately show ?thesis by (simp add: recorded_set)
qed

lemma pool_first:
  assumes "container_order order"
  obtains xs ys where "order = xs @ NewPool # ys" "NewPool \<notin> set xs" "NewPool \<notin> set ys"
    "set xs \<inter> set invoked = {}" "set invoked \<subseteq> set ys"
proof -
  have o: "distinct order" "set invoked \<subseteq> set order" "needs_first [] order"
    using assms by (simp_all add: container_order_def)
  have before: "NewPool \<in> set as" if "order = as @ p # bs" "p \<in> set invoked" for as p bs
    using needed_before [OF runners_need_pool [OF that(2)]] o(3) that(1) by blast
  have "RegisterConsumer \<in> set order" using o(2) by (simp add: invoked_def)
  then obtain as bs where "order = as @ RegisterConsumer # bs" by (meson split_list)
  then have "NewPool \<in> set as" by (rule before) (simp add: invoked_def)
  then have "NewPool \<in> set order" using \<open>order = as @ RegisterConsumer # bs\<close> by simp
  then obtain xs ys where s: "order = xs @ NewPool # ys" by (meson split_list)
  then have d: "NewPool \<notin> set xs" "NewPool \<notin> set ys" using o(1) by simp_all
  have none: "p \<notin> set xs" if "p \<in> set invoked" for p
  proof
    assume "p \<in> set xs"
    then obtain as bs where "xs = as @ p # bs" by (meson split_list)
    then have "NewPool \<in> set as" using before [of as p "bs @ NewPool # ys"] that s by simp
    then show False using d(1) \<open>xs = as @ p # bs\<close> by simp
  qed
  moreover have "NewPool \<notin> set invoked" by (simp add: invoked_def)
  ultimately have "set invoked \<subseteq> set ys" using o(2) s by auto
  then show ?thesis using that s d none by blast
qed

lemma recorded_append: "recorded finishes (as @ bs) = recorded finishes as @ recorded finishes bs"
  by (simp add: recorded_def)

lemma recorded_authenticator: "set hs \<subseteq> {CloseAuthenticator} \<Longrightarrow> recorded finishes hs = []"
  by (induction hs) (auto simp: recorded_def)

lemma recorded_take: "set (recorded finishes (take k hs)) \<subseteq> set (recorded finishes hs)"
  by (auto simp: recorded_def dest: in_set_takeD)

text \<open>
  C21: PostgreSQL is closed last. For every order in which the container may have made the parts, and
  however many of the stop hooks, run in the reverse of the order they were appended, get to run before the
  deadline: when the pool was closed, the HTTP server and every worker that finishes in time were stopped
  before it, and nothing is stopped after it. When all hooks run the pool is closed.
\<close>

theorem database_closes_last:
  assumes "container_order order"
  shows "(''postgres.closed'' \<in> set (recorded finishes (take k (List.rev (hooks_of order)))) \<longrightarrow>
      (\<exists>before. recorded finishes (take k (List.rev (hooks_of order))) = before @ [''postgres.closed'']
        \<and> set before = {ev \<in> set runner_events. finishes ev}))
    \<and> ''postgres.closed'' \<in> set (recorded finishes (List.rev (hooks_of order)))"
proof -
  obtain xs ys where o: "order = xs @ NewPool # ys" "NewPool \<notin> set xs" "NewPool \<notin> set ys"
    "set xs \<inter> set invoked = {}" "set invoked \<subseteq> set ys"
    using pool_first [OF assms] by blast
  let ?A = "List.rev (hooks_of xs)" and ?B = "List.rev (hooks_of ys)"
  have h: "List.rev (hooks_of order) = ?B @ ClosePool # ?A" by (simp add: hooks_of_def o(1))
  have B: "set (recorded finishes ?B) = {ev \<in> set runner_events. finishes ev}" by (rule runner_hooks [OF o(3,5)])
  then have nB: "''postgres.closed'' \<notin> set (recorded finishes ?B)" by (simp add: runner_events_def)
  have A: "recorded finishes (take n ?A) = []" for n
    using set_take_subset [of n ?A] hooks_without_runners [OF o(4,2)] by (intro recorded_authenticator) auto
  have c: "recorded finishes (ClosePool # hs) = ''postgres.closed'' # recorded finishes hs" for hs
    by (simp add: recorded_def)
  show ?thesis
  proof (cases "k \<le> length ?B")
    case True
    then have "''postgres.closed'' \<notin> set (recorded finishes (take k (List.rev (hooks_of order))))"
      using nB recorded_take [of finishes k ?B] unfolding h by auto
    then show ?thesis unfolding h by (simp add: recorded_append c)
  next
    case False
    then obtain n where "k = length ?B + Suc n" by (metis add_Suc_right less_imp_Suc_add not_le)
    then have "recorded finishes (take k (List.rev (hooks_of order))) = recorded finishes ?B @ [''postgres.closed'']"
      unfolding h using A [of n] by (simp add: recorded_append c)
    then show ?thesis using B unfolding h by (simp add: recorded_append c)
  qed
qed

definition sample_order :: "part list" where
  "sample_order =
     [NewPool, NewStore, NewClock, NewService, NewQueueClient, NewReadiness, NewAuthenticator, NewHTTPHandler,
      RegisterHTTPServer, NewConsumer, RegisterConsumer, NewEventSender, NewOutboxPublisher, RegisterOutboxPublisher,
      NewReferenceWorker, RegisterReferenceWorker]"

lemma sample_container_order: "container_order sample_order"
  by (simp add: container_order_def sample_order_def invoked_def)

lemma database_closes_last_witness:
  "recorded (\<lambda>ev. True) (List.rev (hooks_of sample_order))
     = [''reference.stopped'', ''outbox.stopped'', ''sqs.stopped'', ''http.stopped'', ''postgres.closed'']
   \<and> ''postgres.closed'' \<in> set (recorded (\<lambda>ev. ev = ''sqs.stopped'') (List.rev (hooks_of sample_order)))"
  using database_closes_last [OF sample_container_order, of "\<lambda>ev. ev = ''sqs.stopped''"]
  by (simp add: recorded_def hooks_of_def sample_order_def)

end
