(* ===== verification/Discovery.thy ===== *)
theory Discovery
  imports Lifecycle
begin

text \<open>
  How the HTTP interface is set up: the discovery of the identity provider (\<open>NewOIDC\<close> and \<open>fetchDiscovery\<close> of
  \<open>internal/adapters/http/auth/auth.go\<close>), the defaults of the handler and the limit on a body
  (\<open>handler.go\<close>, \<open>middleware/request.go\<close>), the catalogue of the routes (\<open>routes.go\<close>) and the deadlines of the
  server (\<open>server/server.go\<close>). The HTTP client, the JSON decoder, the key set and the JWT library are parameters.
\<close>

section \<open>Discovery\<close>

record discovery =
  di_Issuer :: string
  di_JWKSURI :: string

datatype 'e discovery_error =
    IssuerRequired
  | AudienceRequired
  | FetchFailed 'e
  | DiscoveryStatus nat
  | DecodeFailed
  | IssuerMismatch string string
  | NoJWKSURI
  | KeySetFailed 'e

text \<open>What the client returns for a URL: an error, or the status and the document its body decodes to.\<close>

type_synonym 'e http_get = "string \<Rightarrow> 'e + (nat \<times> discovery option)"

definition fetchDiscovery :: "'e http_get \<Rightarrow> string \<Rightarrow> 'e discovery_error + discovery" where
  "fetchDiscovery get issuer =
     (case get (issuer @ ''/.well-known/openid-configuration'') of
        Inl e \<Rightarrow> Inl (FetchFailed e)
      | Inr (status, document) \<Rightarrow>
          if status \<noteq> 200 then Inl (DiscoveryStatus status)
          else (case document of None \<Rightarrow> Inl DecodeFailed | Some d \<Rightarrow> Inr d))"

record 'k oidc =
  oi_Issuer :: string
  oi_Audience :: string
  oi_Keys :: 'k

definition NewOIDC ::
  "'e http_get \<Rightarrow> (string \<Rightarrow> 'e + 'k) \<Rightarrow> string \<Rightarrow> string \<Rightarrow> 'e discovery_error + 'k oidc" where
  "NewOIDC get keys issuerURL audience =
     (let issuer = TrimSuffix issuerURL ''/'' in
      if issuer = '''' then Inl IssuerRequired
      else if audience = '''' then Inl AudienceRequired
      else res_bind (fetchDiscovery get issuer) (\<lambda>document.
        if TrimSuffix (di_Issuer document) ''/'' \<noteq> issuer then Inl (IssuerMismatch (di_Issuer document) issuer)
        else if di_JWKSURI document = '''' then Inl NoJWKSURI
        else (case keys (di_JWKSURI document) of
            Inl e \<Rightarrow> Inl (KeySetFailed e)
          | Inr k \<Rightarrow> Inr \<lparr>oi_Issuer = issuer, oi_Audience = audience, oi_Keys = k\<rparr>)))"

text \<open>
  \<open>jwt keys issuer audience raw\<close> stands for \<open>jwt.Parse\<close> with the method \<open>RS256\<close>, the issuer, the audience and a
  required expiry: the claims of a valid token. \<open>checks_issuer\<close> is what the library documents of the third
  option: a token is valid only when its \<open>iss\<close> is the issuer that was asked for.
\<close>

type_synonym 'k jwt_library = "'k \<Rightarrow> string \<Rightarrow> string \<Rightarrow> jwt_verifier"

definition oidc_verifier :: "'k jwt_library \<Rightarrow> 'k oidc \<Rightarrow> jwt_verifier" where
  "oidc_verifier jwt a = jwt (oi_Keys a) (oi_Issuer a) (oi_Audience a)"

definition checks_issuer :: "'k jwt_library \<Rightarrow> bool" where
  "checks_issuer jwt \<longleftrightarrow>
     (\<forall>keys issuer audience raw claims. jwt keys issuer audience raw = Some claims \<longrightarrow> claims ''iss'' = Some issuer)"

section \<open>The handler and the server\<close>

definition NewHandler_maxBody :: "int64 \<Rightarrow> int64" where
  "NewHandler_maxBody limit = (if \<not> i64_less 0 limit then push_bit 20 1 else limit)"

text \<open>What a decoder reads under a limit: the bytes, and whether it meets the end of the body or the limit.\<close>

datatype read_end = BodyEnds | LimitReached

definition MaxBytes :: "nat \<Rightarrow> string \<Rightarrow> string \<times> read_end" where
  "MaxBytes limit body = (if limit < length body then (take limit body, LimitReached) else (body, BodyEnds))"

record server_timeouts =
  sv_ReadHeaderTimeout :: duration
  sv_ReadTimeout :: duration
  sv_WriteTimeout :: duration
  sv_IdleTimeout :: duration

definition server_New :: server_timeouts where
  "server_New =
     \<lparr>sv_ReadHeaderTimeout = 5 * Second, sv_ReadTimeout = 10 * Second, sv_WriteTimeout = 35 * Second,
      sv_IdleTimeout = 60 * Second\<rparr>"

definition ReconciliationTimeout :: duration where "ReconciliationTimeout = 30 * Second"

section \<open>The catalogue of the routes\<close>

definition Routes :: "(string \<times> string) list" where
  "Routes =
     [(''GET'', ''/health/live''),
      (''GET'', ''/health/ready''),
      (''GET'', ''/metrics''),
      (''POST'', ''/wallets''),
      (''GET'', ''/wallets/{walletId}''),
      (''GET'', ''/wallets/{walletId}/ledger''),
      (''GET'', ''/wagering/transactions/{transactionId}''),
      (''GET'', ''/providers/{providerId}/wagering/transactions/{externalTransactionId}''),
      (''POST'', ''/wagering/transactions''),
      (''POST'', ''/wallets/{walletId}/reconciliation'')]"

text \<open>
  How \<open>http.ServeMux\<close> reads a pattern and matches it with the segments of a path.
\<close>

definition segments :: "string \<Rightarrow> string list" where "segments p = tl (split_at_char (CHR ''/'') p)"

definition wildcard :: "string \<Rightarrow> bool" where "wildcard seg \<longleftrightarrow> seg \<noteq> [] \<and> hd seg = CHR ''{''"

fun segments_match :: "string list \<Rightarrow> string list \<Rightarrow> bool" where
  "segments_match [] [] \<longleftrightarrow> True"
| "segments_match (p # ps) (s # ss) \<longleftrightarrow> (if wildcard p then s \<noteq> '''' else s = p) \<and> segments_match ps ss"
| "segments_match _ _ \<longleftrightarrow> False"

definition method_match :: "string \<Rightarrow> string \<Rightarrow> bool" where
  "method_match pattern_method m \<longleftrightarrow> m = pattern_method \<or> pattern_method = ''GET'' \<and> m = ''HEAD''"

definition catalogued :: "string \<Rightarrow> string list \<Rightarrow> bool" where
  "catalogued m path \<longleftrightarrow> list_ex (\<lambda>(pm, p). method_match pm m \<and> segments_match (segments p) path) Routes"

lemma Routes_segments:
  "map (\<lambda>(m, p). (m, segments p)) Routes =
     [(''GET'', [''health'', ''live'']),
      (''GET'', [''health'', ''ready'']),
      (''GET'', [''metrics'']),
      (''POST'', [''wallets'']),
      (''GET'', [''wallets'', ''{walletId}'']),
      (''GET'', [''wallets'', ''{walletId}'', ''ledger'']),
      (''GET'', [''wagering'', ''transactions'', ''{transactionId}'']),
      (''GET'', [''providers'', ''{providerId}'', ''wagering'', ''transactions'', ''{externalTransactionId}'']),
      (''POST'', [''wagering'', ''transactions'']),
      (''POST'', [''wallets'', ''{walletId}'', ''reconciliation''])]"
  by code_simp

section \<open>Lemmas\<close>

text \<open>
  The documented routes are those of the table, with the methods they are served for; no segment of a clean path
  but the last is empty.
\<close>

lemma wildcard_literals:
  "wildcard ''{walletId}''" "wildcard ''{transactionId}''" "wildcard ''{providerId}''" "wildcard ''{externalTransactionId}''"
  "\<not> wildcard ''health''" "\<not> wildcard ''live''" "\<not> wildcard ''ready''" "\<not> wildcard ''metrics''" "\<not> wildcard ''wallets''"
  "\<not> wildcard ''ledger''" "\<not> wildcard ''wagering''" "\<not> wildcard ''transactions''" "\<not> wildcard ''providers''"
  "\<not> wildcard ''reconciliation''"
  by (simp_all add: wildcard_def)

lemma some_route: "(if c then x else y) \<noteq> RouteNone \<longleftrightarrow> c \<and> x \<noteq> RouteNone \<or> \<not> c \<and> y \<noteq> RouteNone"
  "(if c then x else y) = RouteNone \<longleftrightarrow> (c \<longrightarrow> x = RouteNone) \<and> (\<not> c \<longrightarrow> y = RouteNone)"
  by simp_all

lemma catalogue_is_the_table:
  assumes "list_all (\<lambda>seg. seg \<noteq> '''') (butlast path)"
  shows "match_route m path \<noteq> RouteNone \<longleftrightarrow> catalogued m path"
proof -
  have "catalogued m path \<longleftrightarrow>
      list_ex (\<lambda>(pm, ps). method_match pm m \<and> segments_match ps path) (map (\<lambda>(m, p). (m, segments p)) Routes)"
    unfolding catalogued_def list_ex_iff by force
  also have "\<dots> \<longleftrightarrow> match_route m path \<noteq> RouteNone"
  proof -
    consider "path = []" | a where "path = [a]" | a b where "path = [a, b]" | a b c where "path = [a, b, c]"
      | a b c d where "path = [a, b, c, d]" | a b c d e where "path = [a, b, c, d, e]"
      | a b c d e f r where "path = a # b # c # d # e # f # r"
      by (metis list.exhaust)
    then show ?thesis
      unfolding Routes_segments
      by cases (use assms in \<open>simp_all add: match_route_def get_method_def method_match_def wildcard_literals some_route\<close>,
          auto)
  qed
  finally show ?thesis by simp
qed

text \<open>What discovery leaves to trust.\<close>

lemma fetchDiscovery_Inr:
  "fetchDiscovery get issuer = Inr d \<longleftrightarrow> get (issuer @ ''/.well-known/openid-configuration'') = Inr (200, Some d)"
  by (simp add: fetchDiscovery_def split: sum.split option.split prod.split)

lemma NewOIDC_Inr_iff:
  "NewOIDC get keys issuerURL audience = Inr a \<longleftrightarrow>
     oi_Issuer a = TrimSuffix issuerURL ''/'' \<and> oi_Issuer a \<noteq> '''' \<and> oi_Audience a = audience \<and> audience \<noteq> ''''
     \<and> (\<exists>d. get (oi_Issuer a @ ''/.well-known/openid-configuration'') = Inr (200, Some d)
          \<and> TrimSuffix (di_Issuer d) ''/'' = oi_Issuer a \<and> di_JWKSURI d \<noteq> '''' \<and> keys (di_JWKSURI d) = Inr (oi_Keys a))"
proof -
  obtain i u k where a: "a = \<lparr>oi_Issuer = i, oi_Audience = u, oi_Keys = k\<rparr>" by (cases a)
  define j where "j = TrimSuffix issuerURL ''/''"
  define rest where "rest d = (if TrimSuffix (di_Issuer d) ''/'' \<noteq> j then Inl (IssuerMismatch (di_Issuer d) j)
        else if di_JWKSURI d = '''' then Inl NoJWKSURI
        else (case keys (di_JWKSURI d) of
            Inl e \<Rightarrow> Inl (KeySetFailed e) | Inr k \<Rightarrow> Inr \<lparr>oi_Issuer = j, oi_Audience = audience, oi_Keys = k\<rparr>))" for d :: discovery
  have rest: "rest d = Inr a \<longleftrightarrow> TrimSuffix (di_Issuer d) ''/'' = j \<and> di_JWKSURI d \<noteq> '''' \<and> keys (di_JWKSURI d) = Inr k
      \<and> i = j \<and> u = audience" for d :: discovery
    by (cases "keys (di_JWKSURI d)") (auto simp: rest_def a)
  have "NewOIDC get keys issuerURL audience = Inr a \<longleftrightarrow>
      j \<noteq> '''' \<and> audience \<noteq> '''' \<and> (\<exists>d. fetchDiscovery get j = Inr d \<and> rest d = Inr a)"
    unfolding NewOIDC_def Let_def j_def [symmetric] rest_def [symmetric] by (simp add: res_simps)
  then show ?thesis unfolding rest fetchDiscovery_Inr j_def [symmetric] by (auto simp: a)
qed

lemma OIDC_Authenticate_Inr:
  assumes "OIDC_Authenticate jwt r = Inr p"
  obtains raw claims where "bearerToken (hr_Authorization r) = Some raw" "jwt raw = Some claims"
    "pr_ProviderID p = claimString claims ''provider_id''"
  using assms by (auto simp: OIDC_Authenticate_def Let_def split: option.splits if_splits)

text \<open>A principal comes from a token of the issuer that the configuration names, without its final slash.\<close>

lemma principal_of_configured_issuer:
  assumes "checks_issuer jwt" "NewOIDC get keys issuerURL audience = Inr a"
    and "OIDC_Authenticate (oidc_verifier jwt a) r = Inr p"
  shows "\<exists>raw claims. bearerToken (hr_Authorization r) = Some raw
    \<and> jwt (oi_Keys a) (oi_Issuer a) audience raw = Some claims \<and> claims ''iss'' = Some (TrimSuffix issuerURL ''/'')"
proof -
  obtain raw claims where raw: "bearerToken (hr_Authorization r) = Some raw" "oidc_verifier jwt a raw = Some claims"
    by (rule OIDC_Authenticate_Inr [OF assms(3)])
  moreover have "oi_Issuer a = TrimSuffix issuerURL ''/''" "oi_Audience a = audience" using assms(2) unfolding NewOIDC_Inr_iff by blast+
  ultimately show ?thesis using assms(1) unfolding oidc_verifier_def checks_issuer_def by metis
qed

text \<open>
  A provider whose issuer ends in a slash passes discovery, since the comparison cuts the slash on both sides;
  its tokens name the issuer with the slash, and every one of them is refused.
\<close>

lemma slashed_issuer_refused:
  assumes "checks_issuer jwt" "NewOIDC get keys issuerURL audience = Inr a"
    and "issuer = oi_Issuer a @ ''/''"
    and "\<And>raw claims. jwt (oi_Keys a) (oi_Issuer a) audience raw = Some claims \<Longrightarrow> claims ''iss'' = Some issuer"
  shows "OIDC_Authenticate (oidc_verifier jwt a) r = Inl ErrUnauthenticated"
proof (rule ccontr)
  have a: "oi_Issuer a = TrimSuffix issuerURL ''/''" using assms(2) unfolding NewOIDC_Inr_iff by blast
  assume "OIDC_Authenticate (oidc_verifier jwt a) r \<noteq> Inl ErrUnauthenticated"
  then obtain p where "OIDC_Authenticate (oidc_verifier jwt a) r = Inr p"
    by (auto simp: OIDC_Authenticate_def Let_def split: option.splits if_splits)
  from principal_of_configured_issuer [OF assms(1,2) this] assms(4) show False unfolding a assms(3) by fastforce
qed

lemma slashed_issuer_discovered:
  "NewOIDC (\<lambda>url. Inr (200, Some \<lparr>di_Issuer = ''https://idp/'', di_JWKSURI = ''https://idp/keys''\<rparr>)) Inr ''https://idp/'' ''wager''
     = (Inr \<lparr>oi_Issuer = ''https://idp'', oi_Audience = ''wager'', oi_Keys = ''https://idp/keys''\<rparr> :: unit discovery_error + string oidc)"
  by code_simp

text \<open>A decoder reads no byte beyond the limit, and a body within the limit is read to its end.\<close>

lemma MaxBytes_limit: "length (fst (MaxBytes limit body)) \<le> limit"
  by (simp add: MaxBytes_def)

lemma MaxBytes_end: "snd (MaxBytes limit body) = BodyEnds \<longleftrightarrow> length body \<le> limit \<and> fst (MaxBytes limit body) = body"
  by (auto simp: MaxBytes_def)

lemma NewHandler_maxBody_positive: "0 < sint (NewHandler_maxBody limit)"
  by (auto simp: NewHandler_maxBody_def i64_less_def)

text \<open>A reconciliation that is cut off is still answered before the server gives up writing.\<close>

lemma reconciliation_in_time: "ReconciliationTimeout < sv_WriteTimeout server_New"
  by (simp add: ReconciliationTimeout_def server_New_def duration_defs)

end
