(* ===== verification/Visibility.thy ===== *)
theory Visibility
  imports Lifecycle
begin

text \<open>
  What the consumer of \<open>internal/adapters/sqs/consumer\<close> does beside the handling of one message: the settings
  \<open>New\<close> completes, the request of a batch, the wait for a submission that outlives its context, and the
  goroutine that keeps a message hidden while it is processed. The last is a machine over instants: the queue
  hides the message up to \<open>fl_Hidden\<close>, and the events of the goroutine, of the queue and of \<open>process\<close> interleave
  in any order. A goroutine that can go on does so before time passes; a call of the queue ends within its five
  seconds, with its effect at any moment in between.
\<close>

section \<open>The settings\<close>

definition ReceiveWaitTime :: duration where "ReceiveWaitTime = 20 * Second"
definition ReceiveBatch :: int where "ReceiveBatch = 10"
definition VisibilityRenewal :: duration where "VisibilityRenewal = 20 * Second"
definition ShutdownGrace :: duration where "ShutdownGrace = 30 * Second"

record consumer_settings =
  cs_QueueURL :: string
  cs_ReceiveWaitTime :: duration
  cs_ReceiveBatch :: int
  cs_VisibilityTimeout :: duration
  cs_RenewEvery :: duration
  cs_ShutdownGrace :: duration

definition or_default :: "int \<Rightarrow> int \<Rightarrow> int" where "or_default v d = (if v \<le> 0 then d else v)"

definition consumer_New :: "consumer_settings \<Rightarrow> consumer_settings" where
  "consumer_New s =
     s\<lparr>cs_ReceiveWaitTime := or_default (cs_ReceiveWaitTime s) ReceiveWaitTime,
       cs_ReceiveBatch := or_default (cs_ReceiveBatch s) ReceiveBatch,
       cs_VisibilityTimeout := or_default (cs_VisibilityTimeout s) VisibilityTimeout,
       cs_RenewEvery := or_default (cs_RenewEvery s) VisibilityRenewal,
       cs_ShutdownGrace := or_default (cs_ShutdownGrace s) ShutdownGrace\<rparr>"

text \<open>The composition leaves every number to its default.\<close>

definition newConsumer_settings :: "config \<Rightarrow> consumer_settings" where
  "newConsumer_settings cfg =
     consumer_New \<lparr>cs_QueueURL = sq_IngressQueueURL (cf_SQS cfg), cs_ReceiveWaitTime = 0, cs_ReceiveBatch = 0,
       cs_VisibilityTimeout = 0, cs_RenewEvery = 0, cs_ShutdownGrace = 0\<rparr>"

section \<open>The request of a batch\<close>

record receive_input =
  ri_QueueUrl :: string
  ri_MaxNumberOfMessages :: "32 word"
  ri_WaitTimeSeconds :: "32 word"
  ri_VisibilityTimeout :: "32 word"
  ri_AttributeNames :: "string list"

text \<open>Whole seconds; a duration here is not negative.\<close>

definition seconds32 :: "duration \<Rightarrow> 32 word" where "seconds32 d = word_of_int (d div Second)"

definition receive :: "consumer_settings \<Rightarrow> receive_input" where
  "receive s =
     \<lparr>ri_QueueUrl = cs_QueueURL s, ri_MaxNumberOfMessages = word_of_int (cs_ReceiveBatch s),
      ri_WaitTimeSeconds = seconds32 (cs_ReceiveWaitTime s),
      ri_VisibilityTimeout = seconds32 (cs_VisibilityTimeout s),
      ri_AttributeNames = [''SenderId'', ''ApproximateReceiveCount'']\<rparr>"

section \<open>RenewIdle for a submission\<close>

text \<open>
  When the use case returns and when the context is canceled, counted from the call; \<open>None\<close> is never. A
  \<open>select\<close> with two ready cases takes either, as the two last fields say.
\<close>

record 'a submission =
  sb_Done :: "(duration \<times> 'a) option"
  sb_Cancel :: "duration option"
  sb_TakesDone :: bool
  sb_TakesLate :: bool

datatype 'a process_outcome = Outcome 'a | TimedOut

definition submit :: "duration \<Rightarrow> 'a submission \<Rightarrow> (duration \<times> 'a process_outcome) option" where
  "submit grace s =
     (case sb_Cancel s of
        None \<Rightarrow> map_option (\<lambda>(d, a). (d, Outcome a)) (sb_Done s)
      | Some c \<Rightarrow>
          (case sb_Done s of
             None \<Rightarrow> Some (c + grace, TimedOut)
           | Some (d, a) \<Rightarrow>
               if d < c \<or> d = c \<and> sb_TakesDone s then Some (d, Outcome a)
               else if d < c + grace \<or> d = c + grace \<and> sb_TakesLate s then Some (d, Outcome a)
               else Some (c + grace, TimedOut)))"

section \<open>The renewal of the visibility\<close>

definition RenewCallTimeout :: duration where "RenewCallTimeout = 5 * Second"

datatype renewer = RenewIdle | Renewing time bool | RenewEnded

record flight =
  fl_Now :: time
  fl_Hidden :: time
  fl_Tick :: time
  fl_Renewer :: renewer
  fl_Canceled :: bool
  fl_Done :: bool

text \<open>
  \<open>Tick\<close>, \<open>RenewReturned\<close> and \<open>Stop\<close> are steps of the goroutine, \<open>Extended\<close> is the moment its request takes
  effect. \<open>Settle\<close> is the effect of the call by which \<open>process\<close> changes the visibility at its end, and
  \<open>StopRenewal\<close> the deferred function, which runs after that call.
\<close>

datatype flight_event =
    Pass duration
  | Cancel
  | Tick
  | Extended
  | RenewReturned bool
  | Stop
  | Settle duration
  | StopRenewal

definition renewVisibility :: "consumer_settings \<Rightarrow> string \<Rightarrow> time \<Rightarrow> time \<Rightarrow> flight" where
  "renewVisibility s handle now hidden =
     \<lparr>fl_Now = now, fl_Hidden = hidden, fl_Tick = now + cs_RenewEvery s,
      fl_Renewer = (if handle = '''' then RenewEnded else RenewIdle), fl_Canceled = False, fl_Done = False\<rparr>"

text \<open>A ticker drops the ticks that nobody takes.\<close>

definition next_tick :: "duration \<Rightarrow> time \<Rightarrow> time \<Rightarrow> time" where
  "next_tick every tick now = tick + every * ((now - tick) div every + 1)"

definition may_pass :: "flight \<Rightarrow> duration \<Rightarrow> bool" where
  "may_pass f d \<longleftrightarrow> 0 < d \<and>
     (case fl_Renewer f of
        RenewIdle \<Rightarrow> \<not> fl_Canceled f \<and> \<not> fl_Done f \<and> fl_Now f + d \<le> fl_Tick f
      | Renewing since _ \<Rightarrow> fl_Now f + d \<le> since + RenewCallTimeout
      | RenewEnded \<Rightarrow> True)"

fun flight_step :: "consumer_settings \<Rightarrow> flight_event \<Rightarrow> flight \<Rightarrow> flight option" where
  "flight_step s (Pass d) f = (if may_pass f d then Some (f\<lparr>fl_Now := fl_Now f + d\<rparr>) else None)"
| "flight_step s Cancel f = Some (f\<lparr>fl_Canceled := True\<rparr>)"
| "flight_step s Tick f =
     (if fl_Renewer f = RenewIdle \<and> fl_Tick f \<le> fl_Now f
      then Some (f\<lparr>fl_Renewer := Renewing (fl_Now f) False,
                   fl_Tick := next_tick (cs_RenewEvery s) (fl_Tick f) (fl_Now f)\<rparr>) else None)"
| "flight_step s Extended f =
     (case fl_Renewer f of
        Renewing since False \<Rightarrow>
          Some (f\<lparr>fl_Renewer := Renewing since True, fl_Hidden := fl_Now f + cs_VisibilityTimeout s\<rparr>)
      | _ \<Rightarrow> None)"
| "flight_step s (RenewReturned ok) f =
     (case fl_Renewer f of
        Renewing since handled \<Rightarrow>
          if ok then (if handled then Some (f\<lparr>fl_Renewer := RenewIdle\<rparr>) else None) else Some (f\<lparr>fl_Renewer := RenewEnded\<rparr>)
      | _ \<Rightarrow> None)"
| "flight_step s Stop f =
     (if fl_Renewer f = RenewIdle \<and> (fl_Done f \<or> fl_Canceled f) then Some (f\<lparr>fl_Renewer := RenewEnded\<rparr>) else None)"
| "flight_step s (Settle delay) f = (if fl_Done f then None else Some (f\<lparr>fl_Hidden := fl_Now f + delay\<rparr>))"
| "flight_step s StopRenewal f = Some (f\<lparr>fl_Done := True\<rparr>)"

fun flight_run :: "consumer_settings \<Rightarrow> flight_event list \<Rightarrow> flight \<Rightarrow> flight option" where
  "flight_run s [] f = Some f"
| "flight_run s (e # es) f = Option.bind (flight_step s e f) (flight_run s es)"

section \<open>How long a message stays hidden\<close>

lemmas consumer_settings_defs = newConsumer_settings_def consumer_New_def or_default_def ReceiveWaitTime_def ReceiveBatch_def
  VisibilityRenewal_def ShutdownGrace_def VisibilityTimeout_def RenewCallTimeout_def duration_defs

text \<open>Settings whose renewals do not overlap.\<close>

definition renewals_fit :: "consumer_settings \<Rightarrow> bool" where
  "renewals_fit s \<longleftrightarrow> RenewCallTimeout < cs_RenewEvery s \<and> 0 < cs_VisibilityTimeout s"

text \<open>
  A message that was \<open>lag\<close> old when its processing began. The goroutine runs; the moments of its tick and of its
  request tell how long the message is hidden at least.
\<close>

definition renewed :: "consumer_settings \<Rightarrow> duration \<Rightarrow> flight \<Rightarrow> bool" where
  "renewed s lag f \<longleftrightarrow> \<not> fl_Canceled f \<and> \<not> fl_Done f \<and>
     (case fl_Renewer f of
        RenewIdle \<Rightarrow> fl_Now f \<le> fl_Tick f \<and> fl_Tick f - cs_RenewEvery s + cs_VisibilityTimeout s - lag \<le> fl_Hidden f
      | Renewing since handled \<Rightarrow>
          since \<le> fl_Now f \<and> fl_Now f \<le> since + RenewCallTimeout \<and> fl_Tick f = since + cs_RenewEvery s
          \<and> (if handled then since + cs_VisibilityTimeout s
             else since - cs_RenewEvery s + cs_VisibilityTimeout s - lag) \<le> fl_Hidden f
      | RenewEnded \<Rightarrow> False)"

definition renewal_event :: "flight_event \<Rightarrow> bool" where
  "renewal_event e \<longleftrightarrow> e \<notin> {Cancel, StopRenewal, RenewReturned False} \<and> (\<forall>v. e \<noteq> Settle v)"

lemma renewed_step:
  assumes "flight_step s e f = Some f'" "renewed s lag f" "renewal_event e" "renewals_fit s" "0 \<le> lag"
  shows "renewed s lag f'"
proof (cases e)
  case Tick
  then have f: "fl_Renewer f = RenewIdle" "fl_Tick f = fl_Now f"
    and f': "f' = f\<lparr>fl_Renewer := Renewing (fl_Now f) False, fl_Tick := next_tick (cs_RenewEvery s) (fl_Tick f) (fl_Now f)\<rparr>"
    using assms(1,2) by (auto simp: renewed_def split: if_splits)
  have "0 < RenewCallTimeout" by (simp add: RenewCallTimeout_def Second_def)
  then have "next_tick (cs_RenewEvery s) (fl_Tick f) (fl_Now f) = fl_Now f + cs_RenewEvery s" using f(2) by (simp add: next_tick_def)
  then show ?thesis using f f' assms(2) \<open>0 < RenewCallTimeout\<close> by (simp add: renewed_def)
qed (use assms in \<open>auto simp: renewed_def renewal_event_def renewals_fit_def may_pass_def split: renewer.splits bool.splits if_splits\<close>)

lemma renewed_run:
  assumes "flight_run s es f = Some f'" "renewed s lag f" "list_all renewal_event es" "renewals_fit s" "0 \<le> lag"
  shows "renewed s lag f'"
  using assms
proof (induction es arbitrary: f)
  case (Cons e es)
  then obtain g where "flight_step s e f = Some g" "flight_run s es g = Some f'" by (auto simp: bind_eq_Some_conv)
  then show ?case using Cons renewed_step [of s e f g lag] by simp
qed simp

lemma renewed_hidden:
  assumes "renewed s lag f" "renewals_fit s" "0 \<le> lag"
  shows "fl_Now f + (cs_VisibilityTimeout s - cs_RenewEvery s - RenewCallTimeout - lag) \<le> fl_Hidden f"
proof -
  have "0 < RenewCallTimeout" by (simp add: RenewCallTimeout_def Second_def)
  then show ?thesis using assms by (auto simp: renewed_def renewals_fit_def split: renewer.splits if_splits)
qed

text \<open>Until the end of the processing, whatever the goroutine does, the message is not shown earlier.\<close>

definition no_settle :: "flight_event \<Rightarrow> bool" where "no_settle e \<longleftrightarrow> (\<forall>v. e \<noteq> Settle v)"

fun passed :: "flight_event list \<Rightarrow> duration" where
  "passed [] = 0"
| "passed (Pass d # es) = d + passed es"
| "passed (e # es) = passed es"

lemma hidden_bound_step:
  assumes "flight_step s e f = Some f'" "0 \<le> cs_VisibilityTimeout s" "\<And>v. e = Settle v \<Longrightarrow> v \<le> cs_VisibilityTimeout s"
    "fl_Hidden f \<le> fl_Now f + cs_VisibilityTimeout s"
  shows "fl_Hidden f' \<le> fl_Now f' + cs_VisibilityTimeout s"
  using assms by (cases e) (auto simp: may_pass_def split: renewer.splits bool.splits if_splits)

lemma hidden_mono_step:
  assumes "flight_step s e f = Some f'" "no_settle e" "fl_Hidden f \<le> fl_Now f + cs_VisibilityTimeout s"
  shows "fl_Hidden f \<le> fl_Hidden f'"
  using assms by (cases e) (auto simp: no_settle_def split: renewer.splits bool.splits if_splits)

lemma now_step: "flight_step s e f = Some f' \<Longrightarrow> fl_Now f' = fl_Now f + passed [e]"
  by (cases e) (auto split: renewer.splits bool.splits if_splits)

lemma passed_Cons: "passed (e # es) = passed [e] + passed es"
  by (cases e) simp_all

lemma hidden_bounded:
  assumes "flight_run s es f = Some f'" "0 \<le> cs_VisibilityTimeout s"
    "\<And>v. Settle v \<in> set es \<Longrightarrow> v \<le> cs_VisibilityTimeout s" "fl_Hidden f \<le> fl_Now f + cs_VisibilityTimeout s"
  shows "fl_Hidden f' \<le> fl_Now f' + cs_VisibilityTimeout s"
  using assms
proof (induction es arbitrary: f)
  case (Cons e es)
  then obtain g where g: "flight_step s e f = Some g" "flight_run s es g = Some f'" by (auto simp: bind_eq_Some_conv)
  then have "fl_Hidden g \<le> fl_Now g + cs_VisibilityTimeout s" using Cons.prems hidden_bound_step [of s e f g] by auto
  then show ?case using Cons g by simp
qed simp

lemma now_run: "flight_run s es f = Some f' \<Longrightarrow> fl_Now f' = fl_Now f + passed es"
proof (induction es arbitrary: f)
  case (Cons e es)
  then obtain g where g: "flight_step s e f = Some g" "flight_run s es g = Some f'" by (auto simp: bind_eq_Some_conv)
  then show ?case using Cons.IH [of g] now_step [of s e f g] passed_Cons [of e es] by simp
qed simp

lemma hidden_mono:
  assumes "flight_run s es f = Some f'" "list_all no_settle es" "0 \<le> cs_VisibilityTimeout s"
    "fl_Hidden f \<le> fl_Now f + cs_VisibilityTimeout s"
  shows "fl_Hidden f \<le> fl_Hidden f'"
  using assms
proof (induction es arbitrary: f)
  case (Cons e es)
  then obtain g where g: "flight_step s e f = Some g" "flight_run s es g = Some f'" by (auto simp: bind_eq_Some_conv)
  then have "fl_Hidden g \<le> fl_Now g + cs_VisibilityTimeout s" "fl_Hidden f \<le> fl_Hidden g"
    using Cons.prems hidden_bound_step [of s e f g] hidden_mono_step [of s e f g] by (auto simp: no_settle_def)
  then show ?case using Cons.IH [of g] Cons.prems g by simp
qed simp

lemma flight_run_append: "flight_run s (es @ es') f = Option.bind (flight_run s es f) (flight_run s es')"
  by (induction es arbitrary: f) (auto split: Option.bind_split)

text \<open>
  C20: a message stays hidden from the other consumers while it is processed. When its processing begins
  less than \<open>lag\<close> after the queue delivered it, it is hidden as long as every renewal succeeds, and for any
  further time below 35 s less the lag after a renewal failed or the consumer was stopped; so in particular
  for the 30 s of grace of a message that is processed within 5 s of its delivery.
\<close>

theorem message_hidden_while_processed:
  assumes "handle \<noteq> ''''" "delivered \<le> began" "s = newConsumer_settings cfg"
    and "flight_run s (es @ late) (renewVisibility s handle began (delivered + cs_VisibilityTimeout s)) = Some f"
    and "list_all renewal_event es" "list_all no_settle late"
    and "passed late + (began - delivered) < 35 * Second"
  shows "fl_Now f < fl_Hidden f"
proof -
  have s: "cs_VisibilityTimeout s = 60 * Second" "cs_RenewEvery s = 20 * Second"
    unfolding assms(3) by (simp_all add: consumer_settings_defs)
  have fit: "renewals_fit s" by (simp add: renewals_fit_def s RenewCallTimeout_def Second_def)
  let ?f = "renewVisibility s handle began (delivered + cs_VisibilityTimeout s)"
  obtain g where g: "flight_run s es ?f = Some g" "flight_run s late g = Some f"
    using assms(4) by (auto simp: flight_run_append bind_eq_Some_conv)
  have lag: "0 \<le> began - delivered" using assms(2) by simp
  have "renewed s (began - delivered) ?f" using assms(1) by (simp add: renewed_def renewVisibility_def s Second_def)
  from renewed_hidden [OF renewed_run [OF g(1) this assms(5) fit lag] fit lag]
  have 1: "fl_Now g + (35 * Second - (began - delivered)) \<le> fl_Hidden g" by (simp add: s RenewCallTimeout_def algebra_simps)
  have V: "0 \<le> cs_VisibilityTimeout s" by (simp add: s Second_def)
  have "Settle v \<notin> set es" for v using assms(5) by (auto simp: list_all_iff renewal_event_def)
  then have 2: "fl_Hidden g \<le> fl_Now g + cs_VisibilityTimeout s"
    using hidden_bounded [OF g(1) V] assms(2) by (simp add: renewVisibility_def)
  show ?thesis using hidden_mono [OF g(2) assms(6) V 2] now_run [OF g(2)] 1 assms(7) by simp
qed

definition sample_renewal :: "flight_event list" where
  "sample_renewal =
     [Pass (15 * Second), Pass (5 * Second), Tick, Pass Second, Extended, RenewReturned True, Pass (19 * Second), Tick,
      Pass (2 * Second)]"

definition sample_stop :: "flight_event list" where
  "sample_stop = [Cancel, RenewReturned False, Pass (30 * Second)]"

lemma message_hidden_while_processed_witness:
  "\<exists>f. flight_run (newConsumer_settings (Load sample_env None)) (sample_renewal @ sample_stop)
        (renewVisibility (newConsumer_settings (Load sample_env None)) ''h'' Second (60 * Second)) = Some f
      \<and> fl_Now f = 73 * Second \<and> fl_Now f < fl_Hidden f"
proof -
  let ?s = "newConsumer_settings (Load sample_env None)"
  have s: "cs_VisibilityTimeout ?s = 60 * Second" "cs_RenewEvery ?s = 20 * Second"
    by (simp_all add: consumer_settings_defs)
  have r: "flight_run ?s (sample_renewal @ sample_stop) (renewVisibility ?s ''h'' Second (0 + cs_VisibilityTimeout ?s))
      = Some \<lparr>fl_Now = 73 * Second, fl_Hidden = 82 * Second, fl_Tick = 61 * Second, fl_Renewer = RenewEnded,
              fl_Canceled = True, fl_Done = False\<rparr>"
    by (simp add: sample_renewal_def sample_stop_def renewVisibility_def s may_pass_def next_tick_def RenewCallTimeout_def
        Second_def)
  have "list_all renewal_event sample_renewal" "list_all no_settle sample_stop"
    "passed sample_stop + (Second - 0) < 35 * Second"
    by (simp_all add: sample_renewal_def sample_stop_def renewal_event_def no_settle_def Second_def)
  from message_hidden_while_processed [OF _ _ refl r this] have "73 * Second < 82 * Second" by (simp add: Second_def)
  then show ?thesis using r by (simp add: s)
qed

text \<open>
  The deferred \<open>StopRenewal\<close> comes after the call that shows the message again, so a renewal under way can undo
  it: a message that was released stays hidden for another visibility timeout.
\<close>

lemma release_can_be_undone:
  assumes "s = newConsumer_settings cfg"
  shows "flight_run s [Pass (20 * Second), Tick, Settle 0, Extended, StopRenewal, RenewReturned True, Stop]
      (renewVisibility s ''h'' 0 (60 * Second))
    = Some \<lparr>fl_Now = 20 * Second, fl_Hidden = 80 * Second, fl_Tick = 40 * Second, fl_Renewer = RenewEnded,
            fl_Canceled = False, fl_Done = True\<rparr>"
  unfolding assms
  by (simp add: consumer_settings_defs renewVisibility_def may_pass_def next_tick_def)

text \<open>It is never hidden for longer than that after the last event.\<close>

lemma settled_visible_again:
  assumes "flight_run s es (renewVisibility s handle began hidden) = Some f" "s = newConsumer_settings cfg"
    "hidden \<le> began + cs_VisibilityTimeout s"
    "\<And>v. Settle v \<in> set es \<Longrightarrow> v = 0 \<or> (\<exists>n. TransientVisibility n = Some v)"
  shows "fl_Hidden f \<le> fl_Now f + cs_VisibilityTimeout s"
proof (rule hidden_bounded [OF assms(1)])
  have V: "cs_VisibilityTimeout s = 60 * Second" unfolding assms(2) by (simp add: consumer_settings_defs)
  show "0 \<le> cs_VisibilityTimeout s" by (simp add: V Second_def)
  show "v \<le> cs_VisibilityTimeout s" if "Settle v \<in> set es" for v
    using assms(4) [OF that]
  proof (elim disjE exE)
    fix n
    assume "TransientVisibility n = Some v"
    then have n: "\<not> 5 \<le> sint n" "v = 5 * 2 ^ nat (max 1 (sint n) - 1) * Second"
      by (simp_all add: TransientVisibility_eq split: if_splits)
    then have "(2::int) ^ nat (max 1 (sint n) - 1) \<le> 2 ^ 3" by (intro power_increasing) auto
    then show "v \<le> cs_VisibilityTimeout s" by (simp add: n V Second_def)
  qed (simp add: V Second_def)
  show "fl_Hidden (renewVisibility s handle began hidden)
      \<le> fl_Now (renewVisibility s handle began hidden) + cs_VisibilityTimeout s"
    using assms(3) by (simp add: renewVisibility_def)
qed

section \<open>Requests and waits\<close>

text \<open>A batch is asked for with numbers the queue takes: at most ten messages, at most twenty seconds.\<close>

lemma receive_defaults:
  "receive (newConsumer_settings cfg)
     = \<lparr>ri_QueueUrl = sq_IngressQueueURL (cf_SQS cfg), ri_MaxNumberOfMessages = 10, ri_WaitTimeSeconds = 20,
        ri_VisibilityTimeout = 60, ri_AttributeNames = [''SenderId'', ''ApproximateReceiveCount'']\<rparr>"
  by (simp add: receive_def seconds32_def consumer_settings_defs)

text \<open>
  A submission is waited for at most the grace after the cancellation; what it returned before is used.
\<close>

lemma submit_bounded:
  assumes "sb_Cancel r = Some c" "0 \<le> grace" "submit grace r = Some (t, out)"
  shows "t \<le> c + grace" "out = TimedOut \<Longrightarrow> t = c + grace"
    "sb_Done r = Some (d, a) \<Longrightarrow> d < c + grace \<Longrightarrow> out = Outcome a \<and> t = d"
  using assms by (auto simp: submit_def split: option.splits if_splits)

lemma submit_returns: "submit grace r = None \<longleftrightarrow> sb_Cancel r = None \<and> sb_Done r = None"
  by (auto simp: submit_def split: option.splits)

end
