(* ===== verification/Wiring.thy ===== *)
theory Wiring
  imports Discovery Visibility
begin

text \<open>
  How \<open>internal/adapters/app/app.go\<close> builds the adapters: the options and the defaults of their constructors, the
  registry, the logger and the failpoints they share, and the commands around them. Registries are reached through
  pointers, so they live in a memory, and a bundle of metrics is the registry that its families are in.
\<close>

section \<open>Registries in memory\<close>

type_synonym registry_ref = nat
type_synonym memory = "registry list"

definition new_registry :: "memory \<Rightarrow> registry_ref \<times> memory" where
  "new_registry m = (length m, m @ [NewRegistry])"

definition new_bundle :: "registry_ref \<Rightarrow> memory \<Rightarrow> registry_ref \<times> memory" where
  "new_bundle r m = (r, m[r := metrics_New (m ! r)])"

section \<open>Loggers\<close>

datatype logger =
    SlogDefault
  | JSONLogger (lg_Output: string) (lg_Level: log_level) (lg_Attributes: "(string \<times> string) list")

definition Stdout :: string where "Stdout = ''stdout''"

definition logging_New :: "string \<Rightarrow> string \<Rightarrow> string \<Rightarrow> string option \<Rightarrow> logger" where
  "logging_New service inst level w =
     (let w = (case w of None \<Rightarrow> Stdout | Some w \<Rightarrow> w) in
      JSONLogger w (parseLevel level) [(''service'', service), (''instance'', inst)])"

section \<open>Options\<close>

text \<open>The three fields that every adapter has; \<open>None\<close> is a nil pointer.\<close>

record tools =
  tl_Metrics :: "registry_ref option"
  tl_Logger :: "logger option"
  tl_Failpoints :: failpoint_set

definition no_tools :: tools where
  "no_tools = \<lparr>tl_Metrics = None, tl_Logger = None, tl_Failpoints = None\<rparr>"

datatype adapter_option =
    WithMetrics "registry_ref option"
  | WithLogger "logger option"
  | WithFailpoints failpoint_set

fun apply_option :: "adapter_option \<Rightarrow> tools \<Rightarrow> tools" where
  "apply_option (WithMetrics bundle) t = t\<lparr>tl_Metrics := bundle\<rparr>"
| "apply_option (WithLogger l) t = t\<lparr>tl_Logger := l\<rparr>"
| "apply_option (WithFailpoints points) t = t\<lparr>tl_Failpoints := points\<rparr>"

text \<open>A nil logger becomes the default, nil failpoints the empty set, nil metrics a bundle of a registry of their own.\<close>

definition default_tools :: "tools \<Rightarrow> memory \<Rightarrow> tools \<times> memory" where
  "default_tools t m =
     (let (bundle, m') = (case tl_Metrics t of
            None \<Rightarrow> (let (r, m1) = new_registry m in new_bundle r m1)
          | Some b \<Rightarrow> (b, m)) in
      (\<lparr>tl_Metrics = Some bundle,
        tl_Logger = (case tl_Logger t of None \<Rightarrow> Some SlogDefault | Some l \<Rightarrow> Some l),
        tl_Failpoints = (case tl_Failpoints t of None \<Rightarrow> failpoint_New [] | Some s \<Rightarrow> Some s)\<rparr>, m'))"

section \<open>The constructors of the adapters\<close>

text \<open>Clients, use cases and stores are the arguments of the constructors, of any type.\<close>

record ('c, 'u) consumer =
  cn_Client :: 'c
  cn_UseCase :: 'u
  cn_Settings :: consumer_settings
  cn_ConsumerName :: string
  cn_ProviderForSender :: "string \<Rightarrow> string option"
  cn_Tools :: tools

definition Consumer_New ::
  "consumer_settings \<Rightarrow> string \<Rightarrow> (string \<Rightarrow> string option) \<Rightarrow> 'c \<Rightarrow> 'u \<Rightarrow> adapter_option list \<Rightarrow> memory
     \<Rightarrow> ('c, 'u) consumer \<times> memory" where
  "Consumer_New settings consumerName providerForSender client useCase options m =
     (let (t, m') = default_tools (fold apply_option options no_tools) m in
      (\<lparr>cn_Client = client, cn_UseCase = useCase, cn_Settings = consumer_New settings, cn_ConsumerName = consumerName,
        cn_ProviderForSender = providerForSender, cn_Tools = t\<rparr>, m'))"

record ('s, 'r) reference_worker =
  rw_Store :: 's
  rw_Resolver :: 'r
  rw_Tools :: tools

definition Worker_New :: "'s \<Rightarrow> 'r \<Rightarrow> adapter_option list \<Rightarrow> memory \<Rightarrow> ('s, 'r) reference_worker \<times> memory" where
  "Worker_New store resolver options m =
     (let (t, m') = default_tools (fold apply_option options no_tools) m in
      (\<lparr>rw_Store = store, rw_Resolver = resolver, rw_Tools = t\<rparr>, m'))"

text \<open>The publisher has a clock of its own, \<open>time.Now().UTC()\<close> unless an option replaces it.\<close>

datatype clock_source = SystemNow | ClockOf "nat \<Rightarrow> time"

record ('s, 'd) publisher =
  pb_Store :: 's
  pb_Sender :: 'd
  pb_Tools :: tools
  pb_Now :: clock_source

datatype publisher_option = PublisherOption adapter_option | WithClock "nat \<Rightarrow> time"

fun apply_publisher_option :: "publisher_option \<Rightarrow> ('s, 'd) publisher \<Rightarrow> ('s, 'd) publisher" where
  "apply_publisher_option (PublisherOption opt) p = p\<lparr>pb_Tools := apply_option opt (pb_Tools p)\<rparr>"
| "apply_publisher_option (WithClock now) p = p\<lparr>pb_Now := ClockOf now\<rparr>"

definition Publisher_New :: "'s \<Rightarrow> 'd \<Rightarrow> publisher_option list \<Rightarrow> memory \<Rightarrow> ('s, 'd) publisher \<times> memory" where
  "Publisher_New store sender options m =
     (let p = fold apply_publisher_option options
            \<lparr>pb_Store = store, pb_Sender = sender, pb_Tools = no_tools, pb_Now = SystemNow\<rparr>;
          (t, m') = default_tools (pb_Tools p) m in
      (p\<lparr>pb_Tools := t\<rparr>, m'))"

text \<open>The service takes options too, and has no default for what they set.\<close>

record ('s, 'c, 'f) wager_service =
  ws_Store :: 's
  ws_Clock :: 'c
  ws_Reconciler :: "'s option"
  ws_TxFailpoint :: "'f option"

datatype ('s, 'f) service_option = WithReconciler 's | WithTxFailpoint 'f

fun apply_service_option :: "('s, 'f) service_option \<Rightarrow> ('s, 'c, 'f) wager_service \<Rightarrow> ('s, 'c, 'f) wager_service" where
  "apply_service_option (WithReconciler reconciler) s = s\<lparr>ws_Reconciler := Some reconciler\<rparr>"
| "apply_service_option (WithTxFailpoint failpoint) s = s\<lparr>ws_TxFailpoint := Some failpoint\<rparr>"

definition NewWagerService :: "'s \<Rightarrow> 'c \<Rightarrow> ('s, 'f) service_option list \<Rightarrow> ('s, 'c, 'f) wager_service" where
  "NewWagerService store clock options =
     fold apply_service_option options
       \<lparr>ws_Store = store, ws_Clock = clock, ws_Reconciler = None, ws_TxFailpoint = None\<rparr>"

text \<open>The handler of HTTP takes a configuration in place of options, and no failpoints.\<close>

record ('u, 'r, 'a) handler_settings =
  hs_UseCases :: 'u
  hs_Readiness :: 'r
  hs_Authenticator :: 'a
  hs_Metrics :: "registry_ref option"
  hs_Registry :: "registry_ref option"
  hs_Logger :: "logger option"
  hs_Concurrency :: int64
  hs_MaxBodyBytes :: int64

record ('u, 'r, 'a) http_handler =
  hh_UseCases :: 'u
  hh_Readiness :: 'r
  hh_Authenticator :: 'a
  hh_Metrics :: registry_ref
  hh_Registry :: registry_ref
  hh_Logger :: logger
  hh_Concurrency :: int64
  hh_MaxBodyBytes :: int64

definition NewHandler :: "('u, 'r, 'a) handler_settings \<Rightarrow> memory \<Rightarrow> ('u, 'r, 'a) http_handler \<times> memory" where
  "NewHandler cfg m =
     (let concurrency = (if \<not> i64_less 0 (hs_Concurrency cfg) then 256 else hs_Concurrency cfg);
          (reg, m1) = (case hs_Registry cfg of None \<Rightarrow> new_registry m | Some r \<Rightarrow> (r, m));
          (bundle, m2) = (case hs_Metrics cfg of None \<Rightarrow> new_bundle reg m1 | Some b \<Rightarrow> (b, m1));
          l = (case hs_Logger cfg of None \<Rightarrow> SlogDefault | Some l \<Rightarrow> l) in
      (\<lparr>hh_UseCases = hs_UseCases cfg, hh_Readiness = hs_Readiness cfg, hh_Authenticator = hs_Authenticator cfg,
        hh_Metrics = bundle, hh_Registry = reg, hh_Logger = l, hh_Concurrency = concurrency,
        hh_MaxBodyBytes = NewHandler_maxBody (hs_MaxBodyBytes cfg)\<rparr>, m2))"

record 'c event_sender =
  es_Client :: 'c
  es_QueueURL :: string

definition NewEventSender :: "'c \<Rightarrow> string \<Rightarrow> 'c event_sender" where
  "NewEventSender client queueURL = \<lparr>es_Client = client, es_QueueURL = queueURL\<rparr>"

record 'p store = st_Pool :: 'p

definition NewStore :: "'p \<Rightarrow> 'p store" where "NewStore pool = \<lparr>st_Pool = pool\<rparr>"

section \<open>The composition\<close>

datatype clock = SystemClock

definition newClock :: clock where "newClock = SystemClock"

definition newStore :: "'p \<Rightarrow> 'p store" where "newStore pool = NewStore pool"

definition newService :: "'s \<Rightarrow> clock \<Rightarrow> ('s, clock, 'f) wager_service" where
  "newService store clck = NewWagerService store clck [WithReconciler store]"

definition newHandler ::
  "config \<Rightarrow> 'u \<Rightarrow> 'r \<Rightarrow> 'a \<Rightarrow> registry_ref \<Rightarrow> registry_ref \<Rightarrow> logger \<Rightarrow> memory \<Rightarrow> ('u, 'r, 'a) http_handler \<times> memory" where
  "newHandler cfg service readiness authenticator bundle reg l =
     NewHandler \<lparr>hs_UseCases = service, hs_Readiness = readiness, hs_Authenticator = authenticator,
       hs_Metrics = Some bundle, hs_Registry = Some reg, hs_Logger = Some l,
       hs_Concurrency = ht_ConcurrencyLimit (cf_HTTP cfg), hs_MaxBodyBytes = ht_MaxBodyBytes (cf_HTTP cfg)\<rparr>"

definition newQueueConsumer ::
  "config \<Rightarrow> 'c \<Rightarrow> 'u \<Rightarrow> registry_ref \<Rightarrow> logger \<Rightarrow> failpoint_set \<Rightarrow> memory \<Rightarrow> ('c, 'u) consumer \<times> memory" where
  "newQueueConsumer cfg client service bundle l failpoints =
     Consumer_New
       \<lparr>cs_QueueURL = sq_IngressQueueURL (cf_SQS cfg), cs_ReceiveWaitTime = 0, cs_ReceiveBatch = 0,
         cs_VisibilityTimeout = 0, cs_RenewEvery = 0, cs_ShutdownGrace = 0\<rparr>
       (sq_ConsumerName (cf_SQS cfg)) (ProviderForSender cfg) client service
       [WithMetrics (Some bundle), WithLogger (Some l), WithFailpoints failpoints]"

definition newEventSender :: "'c \<Rightarrow> config \<Rightarrow> 'c event_sender" where
  "newEventSender client cfg = NewEventSender client (sq_EventQueueURL (cf_SQS cfg))"

definition newOutboxPublisher ::
  "'s \<Rightarrow> 'd \<Rightarrow> registry_ref \<Rightarrow> logger \<Rightarrow> failpoint_set \<Rightarrow> memory \<Rightarrow> ('s, 'd) publisher \<times> memory" where
  "newOutboxPublisher store sender bundle l failpoints =
     Publisher_New store sender
       [PublisherOption (WithMetrics (Some bundle)), PublisherOption (WithLogger (Some l)),
        PublisherOption (WithFailpoints failpoints)]"

definition newReferenceWorker ::
  "'s \<Rightarrow> 'u \<Rightarrow> registry_ref \<Rightarrow> logger \<Rightarrow> failpoint_set \<Rightarrow> memory \<Rightarrow> ('s, 'u) reference_worker \<times> memory" where
  "newReferenceWorker store service bundle l failpoints =
     Worker_New store service [WithMetrics (Some bundle), WithLogger (Some l), WithFailpoints failpoints]"

text \<open>
  \<open>New\<close> and the constructors it provides. A constructor of an adapter allocates nothing when it is given its tools,
  so the order in which the container runs them does not matter to the memory.
\<close>

type_synonym ('p, 'f) app_service = "('p store, clock, 'f) wager_service"

record ('p, 'c, 'r, 'a, 'f) composition =
  wi_Logger :: logger
  wi_Registry :: registry_ref
  wi_Bundle :: registry_ref
  wi_Failpoints :: failpoint_set
  wi_Service :: "('p, 'f) app_service"
  wi_Handler :: "(('p, 'f) app_service, 'r, 'a) http_handler"
  wi_Consumer :: "('c, ('p, 'f) app_service) consumer"
  wi_Publisher :: "('p store, 'c event_sender) publisher"
  wi_Worker :: "('p store, ('p, 'f) app_service) reference_worker"

definition compose ::
  "config \<Rightarrow> 'p \<Rightarrow> 'c \<Rightarrow> 'r \<Rightarrow> 'a \<Rightarrow> memory \<Rightarrow> (config_error + ('p, 'c, 'r, 'a, 'f) composition) \<times> memory" where
  "compose cfg pool client readiness authenticator m =
     (case Validate_config cfg of
        Inl e \<Rightarrow> (Inl e, m)
      | Inr _ \<Rightarrow>
          let l = logging_New (cf_ServiceName cfg) (cf_InstanceID cfg) (cf_LogLevel cfg) (Some Stdout);
              (reg, m1) = new_registry m;
              (bundle, m2) = new_bundle reg m1;
              failpoints = failpoint_New (cf_Failpoints cfg);
              st = newStore pool;
              service = newService st newClock;
              (handler, m3) = newHandler cfg service readiness authenticator bundle reg l m2;
              (cons, m4) = newQueueConsumer cfg client service bundle l failpoints m3;
              (pub, m5) = newOutboxPublisher st (newEventSender client cfg) bundle l failpoints m4;
              (wrk, m6) = newReferenceWorker st service bundle l failpoints m5 in
          (Inr \<lparr>wi_Logger = l, wi_Registry = reg, wi_Bundle = bundle, wi_Failpoints = failpoints,
             wi_Service = service, wi_Handler = handler, wi_Consumer = cons, wi_Publisher = pub, wi_Worker = wrk\<rparr>, m6))"

section \<open>Counting and rendering\<close>

datatype adapter = HandlerAdapter | ConsumerAdapter | PublisherAdapter | WorkerAdapter

fun bundle_of :: "('p, 'c, 'r, 'a, 'f) composition \<Rightarrow> adapter \<Rightarrow> registry_ref" where
  "bundle_of w HandlerAdapter = hh_Metrics (wi_Handler w)"
| "bundle_of w ConsumerAdapter = (case tl_Metrics (cn_Tools (wi_Consumer w)) of Some b \<Rightarrow> b | None \<Rightarrow> 0)"
| "bundle_of w PublisherAdapter = (case tl_Metrics (pb_Tools (wi_Publisher w)) of Some b \<Rightarrow> b | None \<Rightarrow> 0)"
| "bundle_of w WorkerAdapter = (case tl_Metrics (rw_Tools (wi_Worker w)) of Some b \<Rightarrow> b | None \<Rightarrow> 0)"

text \<open>A call on a bundle changes the registry of the bundle; the route of the metrics renders the handler's registry.\<close>

definition count_call :: "registry_ref \<Rightarrow> metric_call \<Rightarrow> memory \<Rightarrow> memory" where
  "count_call b call m = m[b := metric_update call (m ! b)]"

definition metrics_page :: "('p, 'c, 'r, 'a, 'f) composition \<Rightarrow> memory \<Rightarrow> string option" where
  "metrics_page w m = Render (m ! hh_Registry (wi_Handler w))"

lemmas constructor_defs = Consumer_New_def Worker_New_def Publisher_New_def NewHandler_def default_tools_def no_tools_def
  newHandler_def newQueueConsumer_def newOutboxPublisher_def newReferenceWorker_def Let_def

text \<open>Every adapter of the composition has the same three tools, and one registry was made.\<close>

lemma compose_tools:
  assumes "compose cfg pool client readiness authenticator m = (Inr w, m')"
  defines "l \<equiv> logging_New (cf_ServiceName cfg) (cf_InstanceID cfg) (cf_LogLevel cfg) (Some Stdout)"
    and "t \<equiv> \<lparr>tl_Metrics = Some (length m), tl_Logger = Some (wi_Logger w), tl_Failpoints = failpoint_New (cf_Failpoints cfg)\<rparr>"
  shows "m' = m @ [metrics_New NewRegistry]" "wi_Logger w = l"
    "cn_Tools (wi_Consumer w) = t" "pb_Tools (wi_Publisher w) = t" "rw_Tools (wi_Worker w) = t"
    "hh_Metrics (wi_Handler w) = length m" "hh_Registry (wi_Handler w) = length m" "hh_Logger (wi_Handler w) = l"
proof -
  note c = assms(1) [unfolded compose_def]
  show "m' = m @ [metrics_New NewRegistry]" "wi_Logger w = l"
    "cn_Tools (wi_Consumer w) = t" "pb_Tools (wi_Publisher w) = t" "rw_Tools (wi_Worker w) = t"
    "hh_Metrics (wi_Handler w) = length m" "hh_Registry (wi_Handler w) = length m" "hh_Logger (wi_Handler w) = l"
    using c by (auto simp: l_def t_def constructor_defs new_registry_def new_bundle_def failpoint_New_def split: sum.splits)
qed

text \<open>The page of the metrics shows what every adapter counted, in the order of the calls.\<close>

lemma metrics_page_shows_every_adapter:
  assumes "compose cfg pool client readiness authenticator m = (Inr w, m')"
  shows "metrics_page w (fold (\<lambda>(a, call). count_call (bundle_of w a) call) calls m') = Render (metrics_after (map snd calls))"
proof -
  note T = compose_tools [OF assms]
  have b: "bundle_of w a = length m" for a by (cases a) (simp_all add: T)
  have "fold (\<lambda>(a, call). count_call (bundle_of w a) call) calls (m @ [r]) = m @ [fold metric_update (map snd calls) r]" for r
    by (induction calls arbitrary: r) (auto simp: b count_call_def)
  then show ?thesis by (simp add: T metrics_page_def metrics_after_def)
qed

text \<open>An adapter that is built without metrics counts where no page of an earlier handler looks.\<close>

lemma own_registry_is_not_shown:
  assumes "Worker_New store resolver options m = (v, m')" "list_all (\<lambda>opt. case opt of WithMetrics b \<Rightarrow> b = None | _ \<Rightarrow> True) options"
    and "hh_Registry (wi_Handler w) < length m" "tl_Metrics (rw_Tools v) = Some b"
  shows "metrics_page w (fold (count_call b) calls m') = metrics_page w m"
proof -
  have keep: "list_all (\<lambda>opt. case opt of WithMetrics b \<Rightarrow> b = None | _ \<Rightarrow> True) opts \<Longrightarrow> tl_Metrics t = None
      \<Longrightarrow> tl_Metrics (fold apply_option opts t) = None" for opts t
  proof (induction opts arbitrary: t)
    case (Cons opt opts)
    then show ?case by (cases opt) simp_all
  qed simp
  have "tl_Metrics (fold apply_option options no_tools) = None"
    by (rule keep [OF assms(2)]) (simp add: no_tools_def)
  then have m': "m' = m @ [metrics_New NewRegistry]" "b = length m"
    using assms(1,4) by (auto simp: Worker_New_def default_tools_def Let_def new_registry_def new_bundle_def)
  have "fold (count_call b) calls (m @ [r]) = m @ [fold metric_update calls r]" for r
    by (induction calls arbitrary: r) (auto simp: m' count_call_def)
  then show ?thesis using assms(3) by (simp add: metrics_page_def m'(1) nth_append)
qed

text \<open>
  The three workers hit the failpoints that are configured and no others; the service of the composition reconciles and
  has no failpoint at the boundary of its transactions.
\<close>

lemma composed_failpoints:
  assumes "compose cfg pool client readiness authenticator m = (Inr w, m')"
    and "t \<in> {cn_Tools (wi_Consumer w), pb_Tools (wi_Publisher w), rw_Tools (wi_Worker w)}"
  shows "failpoint_Enabled (tl_Failpoints t) name \<longleftrightarrow> name \<in> set (cf_Failpoints cfg)"
  using assms(2) by (auto simp: compose_tools [OF assms(1)] failpoint_Enabled_New)

lemma composed_service:
  assumes "compose cfg pool client readiness authenticator m = (Inr w, m')"
  shows "ws_Reconciler (wi_Service w) = Some (ws_Store (wi_Service w))" "ws_TxFailpoint (wi_Service w) = None"
    "cn_UseCase (wi_Consumer w) = wi_Service w" "hh_UseCases (wi_Handler w) = wi_Service w"
    "rw_Resolver (wi_Worker w) = wi_Service w" "pb_Store (wi_Publisher w) = ws_Store (wi_Service w)"
    "rw_Store (wi_Worker w) = ws_Store (wi_Service w)" "pb_Now (wi_Publisher w) = SystemNow"
  using assms
  by (auto simp: compose_def constructor_defs newService_def NewWagerService_def split: sum.splits prod.splits)

text \<open>Nothing is built from a configuration that does not pass, and the limits of the handler are positive.\<close>

lemma compose_Inl: "Validate_config cfg = Inl e \<Longrightarrow> compose cfg pool client readiness authenticator m = (Inl e, m)"
  by (simp add: compose_def)

lemma composed_handler_limits:
  assumes "compose cfg pool client readiness authenticator m = (Inr w, m')"
  shows "0 < sint (hh_Concurrency (wi_Handler w))" "0 < sint (hh_MaxBodyBytes (wi_Handler w))"
  using assms NewHandler_maxBody_positive
  by (auto simp: compose_def constructor_defs i64_less_def split: sum.splits prod.splits)

section \<open>The commands\<close>

text \<open>\<open>cmd/provision\<close>: the exit status and the output, over what \<open>NewClient\<close> returns.\<close>

definition sqs_NewClient :: "('r \<Rightarrow> 'r \<Rightarrow> 'e + 'w) \<Rightarrow> ('w \<Rightarrow> 'c) \<Rightarrow> (string \<Rightarrow> 'r) \<Rightarrow> (string \<Rightarrow> 'r) \<Rightarrow> sqs_config \<Rightarrow> 'e + 'c" where
  "sqs_NewClient loadDefault newFromConfig withRegion withEndpoint cfg =
     (case loadDefault (withRegion (sq_Region cfg)) (withEndpoint (sq_Endpoint cfg)) of
        Inl e \<Rightarrow> Inl e
      | Inr awsCfg \<Rightarrow> Inr (newFromConfig awsCfg))"

definition provision_main ::
  "(sqs_config \<Rightarrow> 'e + ('e, 's) queue_api) \<Rightarrow> config \<Rightarrow> 's \<Rightarrow> (nat \<times> string) \<times> 's" where
  "provision_main newClient cfg s =
     (case newClient (cf_SQS cfg) of
        Inl e \<Rightarrow> ((1, ''''), s)
      | Inr client \<Rightarrow>
          (case Provision client s of
             (Inl e, s') \<Rightarrow> ((1, ''''), s')
           | (Inr queues, s') \<Rightarrow>
               ((0, ''ingress='' @ qs_IngressURL queues @ [CHR 0x0A] @ ''dlq='' @ qs_DLQURL queues @ [CHR 0x0A]
                    @ ''events='' @ qs_EventURL queues @ [CHR 0x0A]), s')))"

text \<open>\<open>cmd/migrate\<close>: the flags, and the opening of a runner, which closes the database on the paths that fail.\<close>

record migrate_flags =
  mf_Validate :: bool
  mf_Direction :: string
  mf_Path :: string

definition default_flags :: migrate_flags where
  "default_flags = \<lparr>mf_Validate = False, mf_Direction = ''up'', mf_Path = ''file://migrations''\<rparr>"

definition migrate_main ::
  "(string \<Rightarrow> string) \<Rightarrow> (string \<Rightarrow> string \<Rightarrow> 'e + ('e, 's) migrate_runner) \<Rightarrow> migrate_flags \<Rightarrow> 's \<Rightarrow> nat \<times> 's" where
  "migrate_main getenv open_path flags s =
     (case migrate_run getenv (\<lambda>dsn. open_path dsn (mf_Path flags)) (mf_Validate flags) (mf_Direction flags) s of
        (None, s') \<Rightarrow> (0, s')
      | (Some e, s') \<Rightarrow> (1, s'))"

record ('h, 'd, 'r, 'e, 's) migrate_api =
  ma_Open :: "string \<Rightarrow> string \<Rightarrow> 's \<Rightarrow> ('e + 'h) \<times> 's"
  ma_WithInstance :: "'h \<Rightarrow> 's \<Rightarrow> ('e + 'd) \<times> 's"
  ma_NewRunner :: "string \<Rightarrow> string \<Rightarrow> 'd \<Rightarrow> 's \<Rightarrow> ('e + 'r) \<times> 's"
  ma_CloseRunner :: "'r \<Rightarrow> 's \<Rightarrow> 's"
  ma_CloseDB :: "'h \<Rightarrow> 's \<Rightarrow> 's"

definition migrate_open ::
  "('h, 'd, 'r, 'e, 's) migrate_api \<Rightarrow> string \<Rightarrow> string \<Rightarrow> 's \<Rightarrow> ('e + ('r \<times> ('s \<Rightarrow> 's))) \<times> 's" where
  "migrate_open api dsn path s =
     (case ma_Open api ''pgx'' dsn s of
        (Inl e, s1) \<Rightarrow> (Inl e, s1)
      | (Inr db, s1) \<Rightarrow>
          (case ma_WithInstance api db s1 of
             (Inl e, s2) \<Rightarrow> (Inl e, ma_CloseDB api db s2)
           | (Inr driver, s2) \<Rightarrow>
               (case ma_NewRunner api path ''postgres'' driver s2 of
                  (Inl e, s3) \<Rightarrow> (Inl e, ma_CloseDB api db s3)
                | (Inr runner, s3) \<Rightarrow> (Inr (runner, \<lambda>s. ma_CloseDB api db (ma_CloseRunner api runner s)), s3))))"

text \<open>No handle of the database stays open: not when the opening fails, and not after the returned function ran.\<close>

lemma migrate_open_closes:
  assumes opens: "\<And>a b s r s'. ma_Open api a b s = (r, s') \<Longrightarrow> handles s' = (case r of Inl _ \<Rightarrow> handles s | Inr h \<Rightarrow> insert h (handles s))"
    and keeps: "\<And>h s. handles (snd (ma_WithInstance api h s)) = handles s"
      "\<And>a b d s. handles (snd (ma_NewRunner api a b d s)) = handles s" "\<And>r s. handles (ma_CloseRunner api r s) = handles s"
    and closes: "\<And>h s. handles (ma_CloseDB api h s) = handles s - {h}"
  shows "migrate_open api dsn path s = (Inl e, s') \<Longrightarrow> handles s' \<subseteq> handles s"
    and "migrate_open api dsn path s = (Inr (runner, close), s') \<Longrightarrow> handles t \<subseteq> handles s' \<Longrightarrow> handles (close t) \<subseteq> handles s"
proof -
  have k1: "handles s2 = handles s1" if "ma_WithInstance api h s1 = (r, s2)" for h s1 r s2
    using keeps(1) [of h s1] that by simp
  have k2: "handles s2 = handles s1" if "ma_NewRunner api a b d s1 = (r, s2)" for a b d s1 r s2
    using keeps(2) [of a b d s1] that by simp
  show "migrate_open api dsn path s = (Inl e, s') \<Longrightarrow> handles s' \<subseteq> handles s"
    by (auto simp: migrate_open_def closes dest!: opens k1 k2 split: prod.splits sum.splits)
  show "migrate_open api dsn path s = (Inr (runner, close), s') \<Longrightarrow> handles t \<subseteq> handles s' \<Longrightarrow> handles (close t) \<subseteq> handles s"
    by (auto simp: migrate_open_def closes keeps(3) dest!: opens k1 k2 split: prod.splits sum.splits)
qed

end
