(* ===== verification/Spec2Isabelle.thy ===== *)
theory Spec2Isabelle
  imports Timestamps Submission Wiring
begin

text \<open>
  \<^bold>\<open>The wallet and wager ledger.\<close>

  The program is a Go service that keeps wallets of players in PostgreSQL, posts wager transactions on
  them in a double-checked ledger, takes submissions over HTTP and from a queue, and publishes events from
  an outbox. This library models it from the domain values up to the two ingresses, over an explicit
  database and an explicit environment, and proves what the service guarantees whatever the order of the
  calls and whatever fails in between.

  \<^bold>\<open>How the parts interact.\<close> An ingress (\<open>internal/adapters/http\<close>, \<open>internal/adapters/sqs/consumer\<close>)
  turns bytes into a command and calls a use case (\<open>internal/application/service.go\<close>). A use case runs one
  transaction of the store (\<open>internal/adapters/postgres\<close>) in which it reads and writes through the
  repositories, decides with the domain (\<open>internal/domain\<close>) and writes events into the outbox. A worker
  (\<open>internal/adapters/worker\<close>) recovers transactions that wait for a reference, a publisher
  (\<open>internal/adapters/outbox\<close>) sends the events.

  \<^bold>\<open>The theories.\<close>
  \<^item> \<open>Prelude\<close>: results as sums, \<open>int64\<close>, instants, bytes and decimal strings.
  \<^item> \<open>Money\<close> (\<open>domain/money\<close>), \<open>Identifiers\<close>, \<open>FinErrors\<close>, \<open>WalletModel\<close>, \<open>LedgerEntry\<close>, \<open>Wager\<close>
    (\<open>domain/financial\<close>), \<open>Event\<close> (\<open>domain/event\<close>): the values and aggregates of the domain, one record per
    struct, one function per method, a sum for the pair of a value and an error.
  \<^item> \<open>AppErrors\<close>, \<open>Commands\<close>, \<open>Resolve\<close>, \<open>Backoff\<close>, \<open>Projection\<close> (\<open>application/errors.go\<close>, \<open>commands.go\<close>,
    \<open>resolve.go\<close>, \<open>backoff.go\<close>, \<open>projection.go\<close>): classified errors as trees, contracts, the decision about an
    operation, the jittered schedule of retries, canonical JSON and SHA-256.
  \<^item> \<open>Schema\<close>, \<open>Store\<close>, \<open>Postgres\<close> (\<open>migrations\<close>, \<open>adapters/postgres\<close>): tables as lists of rows with their
    checks, keys and references; driver calls that fail as the environment says; transactions with lost
    acknowledgements; the repositories. A row codec is a locale, interpreted for every table.
  \<^item> \<open>Service\<close>, \<open>Outbox\<close>, \<open>Worker\<close>: the use cases, a pass of the publisher, a pass of the worker.
  \<^item> \<open>FinSpec\<close>: the abstract specification, a step relation \<open>fin_step\<close> on databases, with the financial
    invariant and its preservation. \<open>Refine\<close>, \<open>UseCases\<close>: every use case performs steps of that relation.
    \<open>EventBooks\<close>: the invariant of the events. \<open>System\<close>: reachable databases of the whole service.
  \<^item> \<open>Progress\<close>: openings and bets complete when nothing fails. \<open>Guarantees\<close>: the guarantees of the system.
    \<open>History\<close>: a history with a bet, its refund and a refused rollback, evaluated with its digests, for the witnesses.
    \<open>Completion\<close>, \<open>Submission\<close>: a calculus of steps that return, and that every valid submission completes.
  \<^item> \<open>Reads\<close> (\<open>pagination.go\<close>, \<open>reconciliation.go\<close>, the read use cases): pages, cursors and reconciliation.
  \<^item> \<open>Ingress\<close>, \<open>Consumer\<close> (\<open>adapters/sqs/consumer\<close>): the envelope and a pass over a received batch.
  \<^item> \<open>Access\<close>, \<open>Http\<close>, \<open>Boundary\<close> (\<open>adapters/http\<close>): policies, handlers, routes and what they guarantee.
  \<^item> \<open>Config\<close> (\<open>adapters/config\<close>, \<open>failpoint\<close>, \<open>health\<close>): the environment read and validated, failpoints, readiness.
  \<^item> \<open>Metrics\<close> (\<open>adapters/metrics\<close>): the registry, with \<open>float64\<close> as rounded rationals, and its text.
  \<^item> \<open>Queues\<close> (\<open>adapters/sqs/client.go\<close>, \<open>producer.go\<close>, \<open>provision.go\<close>): senders and provisioning of the queues.
  \<^item> \<open>Lifecycle\<close> (\<open>adapters/app\<close>, \<open>http/server\<close>, \<open>logging\<close>, \<open>cmd\<close>): the loops of the workers, what each adapter is
    built with, the order in which a process stops, the commands.
  \<^item> \<open>Visibility\<close> (\<open>consumer.go\<close>): the settings of the consumer, the wait for a submission, the renewal of a
    message's visibility as a machine of interleaved events.
  \<^item> \<open>Discovery\<close> (\<open>auth.go\<close>, \<open>routes.go\<close>, \<open>server.go\<close>): the identity provider, the limits and the catalogue of routes.
  \<^item> \<open>Timestamps\<close> (\<open>domain/event\<close>): the calendar and the JSON text of an instant.
  \<^item> \<open>Wiring\<close> (\<open>adapters/app\<close>, the constructors and options of the adapters, \<open>cmd\<close>): the registry, the logger and
    the failpoints that the adapters share, registries being reached through pointers; the commands.

  \<^bold>\<open>State and environment.\<close> A \<open>db\<close> is the six tables. A \<open>world\<close> is a database, the status of the connection's
  transaction and three counters; a \<open>runtime\<close> answers the n-th request for an identity, an instant, a fault,
  the fate of a commit and a panic. A stateful operation is a function from a world to a result and a
  world. The UUID package, the JSON decoder at each type and the JWT library are parameters; \<open>uuid_lib_ok\<close> and
  \<open>cursor_json_ok\<close> state what is relied on, and concrete instances satisfy them.

  \<^bold>\<open>What is shown.\<close> The balance of a wallet is its ledger; a transaction posts when it is processed; it is
  compensated at most once; the events are the postings; a command and a message take effect once; a failed
  use case leaves no trace (\<open>Guarantees\<close>). Openings complete when nothing fails (\<open>Progress\<close>), and so do
  submissions of every kind, whatever became of their reference (\<open>Submission\<close>). Pages
  read the whole ledger and a reconciliation finds no difference (\<open>Reads\<close>). A deleted message is settled
  and one that is kept has left no trace (\<open>Consumer\<close>). Every request is answered, none has an effect or
  discloses anything without an entitled caller, and a provider sees its own transactions only (\<open>Boundary\<close>).
  A validated configuration is safe to start with (\<open>Config\<close>), the metrics show the calls that were made
  (\<open>Metrics\<close>), those of every adapter on one page (\<open>Wiring\<close>), provisioning can be repeated (\<open>Queues\<close>) and
  PostgreSQL is closed last (\<open>Lifecycle\<close>). A message
  stays hidden from other consumers while it is processed (\<open>Visibility\<close>), and the instant of an event is read
  back from its text to the millisecond (\<open>Timestamps\<close>).
  Below them: exact arithmetic, parsing and rendering, the state machine of a transaction, the decision
  table, injectivity of the canonical JSON, bounds of the delays, fencing of the outbox leases.

  \<^bold>\<open>Bounds and fuel.\<close> Amounts and versions are \<open>int64\<close> words. The retry loops of a submission are counted by
  the source's own bound of three. \<open>walk_pages\<close>, a client of the paginated route, has fuel; one call more than
  there are entries is shown to be enough. Every other recursion is structural or has a measure.

  \<^bold>\<open>Not modelled.\<close>
  \<^item> Two transactions of the database do not overlap: the model runs them one after the other, which is what the
    row locks give for one wallet. A conflict with another transaction appears as a fault of a driver call.
  \<^item> Instants are integers in nanoseconds; a timestamp column does not round them to microseconds.
  \<^item> Grants and the down migrations; the text of JSON documents and of error messages; contexts and timers, but
    for the instants of \<open>Visibility\<close>, whose goroutine is scheduled without delay; the refresh of the signing keys;
    the records of the log; locks, signals and the other goroutines; the container of Fx, the AWS client, the JWT
    and the migration library, which are parameters.
\<close>

end
